(* ===== verification/Prelude.thy ===== *)
theory Prelude
  imports Main "HOL-Library.Word" "HOL-Library.Code_Target_Nat"
begin

text \<open>
  Shared vocabulary of the development: byte strings and the ASCII operations of the Rust
  standard library that the sources use, UTF-8, splitting and joining, list-shaped SQL tables,
  and the collections of simplification rules that carry the component proofs.

  A Rust \<open>String\<close> is a list of bytes holding valid UTF-8.  It is modelled by the type
  \<^typ>\<open>string\<close>, a list of 8-bit characters, so that \<open>str::len\<close> is
  \<^term>\<open>length\<close> and \<open>str::as_bytes\<close> is the identity.
\<close>

named_theorems ascii_defs \<open>byte classes and ASCII case mapping\<close>
named_theorems table_simps \<open>how selections and updates of a table interact\<close>
named_theorems store_defs \<open>definitions of the store transactions\<close>
named_theorems row_defs \<open>constructors of the rows a transaction inserts\<close>

type_synonym uuid = "128 word"
type_synonym time = int
type_synonym bytes = string

section \<open>Bytes and ASCII\<close>

definition byte :: "char \<Rightarrow> nat" where
  "byte c = (of_char c :: nat)"

definition is_ascii_lowercase :: "char \<Rightarrow> bool" where
  "is_ascii_lowercase c \<longleftrightarrow> 97 \<le> byte c \<and> byte c \<le> 122"

definition is_ascii_uppercase :: "char \<Rightarrow> bool" where
  "is_ascii_uppercase c \<longleftrightarrow> 65 \<le> byte c \<and> byte c \<le> 90"

definition is_ascii_digit :: "char \<Rightarrow> bool" where
  "is_ascii_digit c \<longleftrightarrow> 48 \<le> byte c \<and> byte c \<le> 57"

definition is_ascii_alphanumeric :: "char \<Rightarrow> bool" where
  "is_ascii_alphanumeric c \<longleftrightarrow> is_ascii_lowercase c \<or> is_ascii_uppercase c \<or> is_ascii_digit c"

definition lower_char :: "char \<Rightarrow> char" where
  "lower_char c = (if is_ascii_uppercase c then char_of (byte c + 32) else c)"

definition upper_char :: "char \<Rightarrow> char" where
  "upper_char c = (if is_ascii_lowercase c then char_of (byte c - 32) else c)"

definition to_ascii_lowercase :: "string \<Rightarrow> string" where
  "to_ascii_lowercase = map lower_char"

definition to_ascii_uppercase :: "string \<Rightarrow> string" where
  "to_ascii_uppercase = map upper_char"

definition eq_ignore_ascii_case :: "string \<Rightarrow> string \<Rightarrow> bool" where
  "eq_ignore_ascii_case s t \<longleftrightarrow> to_ascii_lowercase s = to_ascii_lowercase t"

declare byte_def [ascii_defs] is_ascii_lowercase_def [ascii_defs] is_ascii_uppercase_def [ascii_defs]
  is_ascii_digit_def [ascii_defs] is_ascii_alphanumeric_def [ascii_defs]
  lower_char_def [ascii_defs] upper_char_def [ascii_defs]

lemma byte_less [simp]: "byte c < 256"
  by (simp add: byte_def)

lemma char_of_byte [simp]: "char_of (byte c) = c"
  by (simp add: byte_def)

lemma byte_char_of [simp]: "n < 256 \<Longrightarrow> byte (char_of n) = n"
  by (simp add: byte_def)

lemma byte_inject [simp]: "byte c = byte d \<longleftrightarrow> c = d"
  by (metis char_of_byte)

lemma byte_lower_char: "byte (lower_char c) = (if 65 \<le> byte c \<and> byte c \<le> 90 then byte c + 32 else byte c)"
  by (simp add: lower_char_def is_ascii_uppercase_def)

lemma byte_upper_char: "byte (upper_char c) = (if 97 \<le> byte c \<and> byte c \<le> 122 then byte c - 32 else byte c)"
proof -
  have "byte c - 32 < 256"
    using byte_less [of c] by linarith
  then show ?thesis
    by (simp add: upper_char_def is_ascii_lowercase_def)
qed

lemma lower_char_idem [simp]: "lower_char (lower_char c) = lower_char c"
proof -
  have "byte (lower_char (lower_char c)) = byte (lower_char c)"
    by (simp add: byte_lower_char)
  then show ?thesis by simp
qed

lemma lower_upper_char [simp]: "lower_char (upper_char c) = lower_char c"
proof -
  have "byte (lower_char (upper_char c)) = byte (lower_char c)"
    unfolding byte_lower_char byte_upper_char by auto
  then show ?thesis by simp
qed

lemma length_to_ascii_lowercase [simp]: "length (to_ascii_lowercase s) = length s"
  by (simp add: to_ascii_lowercase_def)

lemma to_ascii_lowercase_Nil [simp]: "to_ascii_lowercase [] = []"
  by (simp add: to_ascii_lowercase_def)

lemma to_ascii_lowercase_Cons [simp]:
  "to_ascii_lowercase (c # s) = lower_char c # to_ascii_lowercase s"
  by (simp add: to_ascii_lowercase_def)

lemma to_ascii_lowercase_append [simp]:
  "to_ascii_lowercase (s @ t) = to_ascii_lowercase s @ to_ascii_lowercase t"
  by (simp add: to_ascii_lowercase_def)

lemma to_ascii_lowercase_idem [simp]:
  "to_ascii_lowercase (to_ascii_lowercase s) = to_ascii_lowercase s"
  by (simp add: to_ascii_lowercase_def)

lemma to_ascii_lowercase_upper [simp]:
  "to_ascii_lowercase (to_ascii_uppercase s) = to_ascii_lowercase s"
  by (simp add: to_ascii_lowercase_def to_ascii_uppercase_def)

lemma eq_ignore_ascii_case_refl [simp]: "eq_ignore_ascii_case s s"
  by (simp add: eq_ignore_ascii_case_def)

lemma upper_char_idem [simp]: "upper_char (upper_char c) = upper_char c"
  by (auto simp: upper_char_def is_ascii_lowercase_def byte_def take_bit_nat_eq_self)

lemma to_ascii_uppercase_idem [simp]: "to_ascii_uppercase (to_ascii_uppercase s) = to_ascii_uppercase s"
  by (simp add: to_ascii_uppercase_def)

lemma eq_ignore_ascii_case_upper [simp]: "eq_ignore_ascii_case s (to_ascii_uppercase s)"
  by (simp add: eq_ignore_ascii_case_def)

lemma eq_ignore_ascii_case_sym: "eq_ignore_ascii_case s t \<longleftrightarrow> eq_ignore_ascii_case t s"
  by (auto simp: eq_ignore_ascii_case_def)

lemma eq_ignore_ascii_case_trans:
  "eq_ignore_ascii_case s t \<Longrightarrow> eq_ignore_ascii_case t u \<Longrightarrow> eq_ignore_ascii_case s u"
  by (simp add: eq_ignore_ascii_case_def)

section \<open>Splitting, joining and replacing\<close>

text \<open>\<open>str::split(c)\<close>: never empty; adjacent separators give empty pieces.\<close>

fun split_on :: "'a \<Rightarrow> 'a list \<Rightarrow> 'a list list" where
  "split_on c [] = [[]]"
| "split_on c (x # xs) =
     (if x = c then [] # split_on c xs
      else (x # hd (split_on c xs)) # tl (split_on c xs))"

text \<open>\<open>str::split_once(c)\<close>: around the first occurrence.\<close>

fun split_once :: "'a \<Rightarrow> 'a list \<Rightarrow> ('a list \<times> 'a list) option" where
  "split_once c [] = None"
| "split_once c (x # xs) =
     (if x = c then Some ([], xs)
      else map_option (\<lambda>(a, b). (x # a, b)) (split_once c xs))"

text \<open>\<open>str::rsplit_once(c)\<close>: around the last occurrence.\<close>

definition rsplit_once :: "'a \<Rightarrow> 'a list \<Rightarrow> ('a list \<times> 'a list) option" where
  "rsplit_once c xs = map_option (\<lambda>(a, b). (rev b, rev a)) (split_once c (rev xs))"

text \<open>\<open>str::strip_prefix\<close>, \<open>starts_with\<close> and \<open>trim_end_matches\<close>.\<close>

fun strip_prefix :: "'a list \<Rightarrow> 'a list \<Rightarrow> 'a list option" where
  "strip_prefix [] s = Some s"
| "strip_prefix (p # ps) [] = None"
| "strip_prefix (p # ps) (x # xs) = (if p = x then strip_prefix ps xs else None)"

definition starts_with :: "'a list \<Rightarrow> 'a list \<Rightarrow> bool" where
  "starts_with p s \<longleftrightarrow> strip_prefix p s \<noteq> None"

definition trim_end_matches :: "'a \<Rightarrow> 'a list \<Rightarrow> 'a list" where
  "trim_end_matches c s = rev (dropWhile (\<lambda>x. x = c) (rev s))"

text \<open>\<open>slice::join\<close>.\<close>

fun join_with :: "'a list \<Rightarrow> 'a list list \<Rightarrow> 'a list" where
  "join_with sep [] = []"
| "join_with sep [x] = x"
| "join_with sep (x # y # ys) = x @ sep @ join_with sep (y # ys)"

lemma split_on_nonempty [simp]: "split_on c xs \<noteq> []"
  by (induction xs) auto

lemma split_on_no_sep: "c \<notin> set xs \<Longrightarrow> split_on c xs = [xs]"
  by (induction xs) auto

lemma split_on_append_sep: "split_on c (xs @ c # ys) = split_on c xs @ split_on c ys"
  by (induction xs) auto

lemma split_on_pieces: "seg \<in> set (split_on c xs) \<Longrightarrow> c \<notin> set seg"
proof (induction xs arbitrary: seg)
  case (Cons x xs)
  show ?case
  proof (cases "x = c")
    case True
    with Cons show ?thesis by auto
  next
    case False
    have hd: "c \<notin> set (hd (split_on c xs))"
      by (rule Cons.IH) simp
    have tl: "\<And>s. s \<in> set (tl (split_on c xs)) \<Longrightarrow> c \<notin> set s"
      by (rule Cons.IH) (meson list.set_sel(2) split_on_nonempty)
    from False Cons.prems hd tl show ?thesis by auto
  qed
qed simp

lemma set_split_on: "seg \<in> set (split_on c xs) \<Longrightarrow> set seg \<subseteq> set xs"
proof (induction xs arbitrary: seg)
  case (Cons x xs)
  have hd: "set (hd (split_on c xs)) \<subseteq> set xs"
    by (rule Cons.IH) simp
  have tl: "\<And>s. s \<in> set (tl (split_on c xs)) \<Longrightarrow> set s \<subseteq> set xs"
    by (rule Cons.IH) (meson list.set_sel(2) split_on_nonempty)
  show ?case
    using Cons.prems Cons.IH hd tl by (cases "x = c") fastforce+
qed simp

lemma join_split_on: "join_with [c] (split_on c xs) = xs"
proof (induction xs)
  case (Cons x xs)
  obtain y ys where s: "split_on c xs = y # ys"
    using split_on_nonempty by (metis list.exhaust)
  show ?case
    using Cons.IH by (cases ys) (auto simp: s)
qed simp

lemma strip_prefix_Some: "strip_prefix p s = Some t \<longleftrightarrow> s = p @ t"
  by (induction p s rule: strip_prefix.induct) auto

lemma starts_with_append: "starts_with p s \<longleftrightarrow> (\<exists>t. s = p @ t)"
  by (auto simp: starts_with_def strip_prefix_Some)

lemma starts_with_Nil [simp]: "starts_with [] s"
  by (simp add: starts_with_def)

lemma starts_with_Cons [simp]:
  "starts_with (p # ps) (x # xs) \<longleftrightarrow> p = x \<and> starts_with ps xs"
  "\<not> starts_with (p # ps) []"
  by (auto simp: starts_with_def)

lemma trim_end_matches_snoc [simp]:
  "trim_end_matches c (s @ [c]) = trim_end_matches c s"
  "x \<noteq> c \<Longrightarrow> trim_end_matches c (s @ [x]) = s @ [x]"
  by (simp_all add: trim_end_matches_def)

lemma trim_end_matches_Nil [simp]: "trim_end_matches c [] = []"
  by (simp add: trim_end_matches_def)

lemma split_once_Some:
  "split_once c xs = Some (a, b) \<longleftrightarrow> xs = a @ c # b \<and> c \<notin> set a"
  by (induction xs arbitrary: a b) (auto simp: Cons_eq_append_conv)

lemma split_once_None: "split_once c xs = None \<longleftrightarrow> c \<notin> set xs"
  by (induction xs) auto

lemma rsplit_once_Some:
  "rsplit_once c xs = Some (a, b) \<longleftrightarrow> xs = a @ c # b \<and> c \<notin> set b"
proof -
  have "rsplit_once c xs = Some (a, b) \<longleftrightarrow> split_once c (rev xs) = Some (rev b, rev a)"
    by (auto simp: rsplit_once_def)
  also have "\<dots> \<longleftrightarrow> rev xs = rev b @ c # rev a \<and> c \<notin> set b"
    by (simp add: split_once_Some)
  also have "\<dots> \<longleftrightarrow> xs = a @ c # b \<and> c \<notin> set b"
    by (metis append.assoc append_Cons append_Nil rev.simps(2) rev_append rev_rev_ident)
  finally show ?thesis .
qed

lemma rsplit_once_None: "rsplit_once c xs = None \<longleftrightarrow> c \<notin> set xs"
  by (simp add: rsplit_once_def split_once_None)

section \<open>UTF-8\<close>

text \<open>
  \<open>String::from_utf8\<close> accepts exactly the well-formed UTF-8 of the Unicode standard: no
  overlong forms, no surrogates, nothing beyond U+10FFFF.  \<open>utf8_cps\<close> returns the code
  points of a list of byte values, or \<^term>\<open>None\<close> for ill-formed input.
\<close>

definition cont_byte :: "nat \<Rightarrow> bool" where
  "cont_byte b \<longleftrightarrow> 128 \<le> b \<and> b \<le> 191"

fun utf8_cps :: "nat list \<Rightarrow> nat list option" where
  "utf8_cps [] = Some []"
| "utf8_cps (b # bs) =
     (if b < 128 then map_option ((#) b) (utf8_cps bs)
      else if 194 \<le> b \<and> b \<le> 223 then
        (case bs of
           c1 # r \<Rightarrow>
             if cont_byte c1
             then map_option ((#) ((b - 192) * 64 + (c1 - 128))) (utf8_cps r)
             else None
         | [] \<Rightarrow> None)
      else if 224 \<le> b \<and> b \<le> 239 then
        (case bs of
           c1 # c2 # r \<Rightarrow>
             if cont_byte c1 \<and> cont_byte c2
                \<and> (b = 224 \<longrightarrow> 160 \<le> c1) \<and> (b = 237 \<longrightarrow> c1 \<le> 159)
             then map_option ((#) ((b - 224) * 4096 + (c1 - 128) * 64 + (c2 - 128))) (utf8_cps r)
             else None
         | _ \<Rightarrow> None)
      else if 240 \<le> b \<and> b \<le> 244 then
        (case bs of
           c1 # c2 # c3 # r \<Rightarrow>
             if cont_byte c1 \<and> cont_byte c2 \<and> cont_byte c3
                \<and> (b = 240 \<longrightarrow> 144 \<le> c1) \<and> (b = 244 \<longrightarrow> c1 \<le> 143)
             then map_option ((#) ((b - 240) * 262144 + (c1 - 128) * 4096
                    + (c2 - 128) * 64 + (c3 - 128))) (utf8_cps r)
             else None
         | _ \<Rightarrow> None)
      else None)"

definition from_utf8 :: "string \<Rightarrow> nat list option" where
  "from_utf8 s = utf8_cps (map byte s)"

definition valid_utf8 :: "string \<Rightarrow> bool" where
  "valid_utf8 s \<longleftrightarrow> from_utf8 s \<noteq> None"

text \<open>\<open>char::is_control\<close>: the general category Cc, that is C0, DEL and C1.\<close>

definition cp_is_control :: "nat \<Rightarrow> bool" where
  "cp_is_control n \<longleftrightarrow> n < 32 \<or> (127 \<le> n \<and> n < 160)"

text \<open>\<open>char::is_whitespace\<close>: the Unicode property White_Space.\<close>

definition cp_is_whitespace :: "nat \<Rightarrow> bool" where
  "cp_is_whitespace n \<longleftrightarrow>
     (9 \<le> n \<and> n \<le> 13) \<or> n = 32 \<or> n = 133 \<or> n = 160 \<or> n = 5760
     \<or> (8192 \<le> n \<and> n \<le> 8202) \<or> n = 8232 \<or> n = 8233 \<or> n = 8239 \<or> n = 8287 \<or> n = 12288"

text \<open>The bytes of one code point, and \<open>str::trim\<close> on top of them.\<close>

definition utf8_bytes :: "nat \<Rightarrow> nat list" where
  "utf8_bytes n =
     (if n < 128 then [n]
      else if n < 2048 then [192 + n div 64, 128 + n mod 64]
      else if n < 65536 then [224 + n div 4096, 128 + n div 64 mod 64, 128 + n mod 64]
      else [240 + n div 262144, 128 + n div 4096 mod 64, 128 + n div 64 mod 64, 128 + n mod 64])"

definition utf8_string :: "nat list \<Rightarrow> string" where
  "utf8_string cps = map char_of (concat (map utf8_bytes cps))"

definition trim :: "string \<Rightarrow> string" where
  "trim s =
     (case from_utf8 s of
        None \<Rightarrow> s
      | Some cps \<Rightarrow> utf8_string (rev (dropWhile cp_is_whitespace
                      (rev (dropWhile cp_is_whitespace cps)))))"

lemma utf8_cps_ascii: "\<forall>b \<in> set bs. b < 128 \<Longrightarrow> utf8_cps bs = Some bs"
  by (induction bs) auto

lemma from_utf8_ascii: "\<forall>c \<in> set s. byte c < 128 \<Longrightarrow> from_utf8 s = Some (map byte s)"
  by (simp add: from_utf8_def utf8_cps_ascii)

lemma utf8_cps_ascii_mem:
  "utf8_cps bs = Some cps \<Longrightarrow> b \<in> set bs \<Longrightarrow> b < 128 \<Longrightarrow> b \<in> set cps"
proof (induction bs arbitrary: cps rule: utf8_cps.induct)
  case (2 b0 bs)
  consider "b0 < 128" | "128 \<le> b0" "194 \<le> b0 \<and> b0 \<le> 223" | "128 \<le> b0" "224 \<le> b0 \<and> b0 \<le> 239"
    | "128 \<le> b0" "240 \<le> b0 \<and> b0 \<le> 244"
    using "2.prems"(1) by (auto split: if_splits)
  then show ?case
  proof cases
    case 1
    with 2 show ?thesis by auto
  next
    case 2
    with "2.prems" "2.IH"(2) show ?thesis
      by (auto simp: cont_byte_def split: if_splits list.splits)
  next
    case 3
    with "2.prems" "2.IH"(3) show ?thesis
      by (auto simp: cont_byte_def split: if_splits list.splits)
  next
    case 4
    with "2.prems" "2.IH"(4) show ?thesis
      by (auto simp: cont_byte_def split: if_splits list.splits)
  qed
qed simp

section \<open>Sums and words\<close>

lemma map_sum_eq_Inl: "map_sum f g x = Inl y \<longleftrightarrow> (\<exists>z. x = Inl z \<and> y = f z)"
  by (cases x) auto

lemma map_sum_eq_Inr: "map_sum f g x = Inr y \<longleftrightarrow> (\<exists>z. x = Inr z \<and> y = g z)"
  by (cases x) auto

lemma uint_pos: "u \<noteq> 0 \<Longrightarrow> 1 \<le> uint u" for u :: "'a::len word"
  by (metis int_one_le_iff_zero_less order.not_eq_order_implies_strict uint_0_iff uint_ge_0)

end
