(* ===== verification/Types.thy ===== *)
theory Types
  imports Prelude
begin

text \<open>
  The shared API types (\<open>types/src/lib.rs\<close>): delivery tiers and mechanisms, origins with
  their parser, constraints, and the request and response bodies.

  \<open>Origin::parse\<close> asks the \<open>url\<close> crate which host it would target for
  \<open>https://<host>\<close>.  That crate is not part of the repository: the parser takes
  \<open>url_host\<close> as an argument, which maps a URL text to \<^term>\<open>None\<close> when the crate
  does not parse it and to the crate's \<open>host_str()\<close> otherwise.
\<close>

section \<open>Tiers\<close>

datatype tier = Tier_Brokered | Tier_TrustedClient | Tier_CooperatingClient | Tier_Direct

fun tier_as_int :: "tier \<Rightarrow> int" where
  "tier_as_int Tier_Brokered = 0"
| "tier_as_int Tier_TrustedClient = 1"
| "tier_as_int Tier_CooperatingClient = 2"
| "tier_as_int Tier_Direct = 3"

definition tier_from_int :: "int \<Rightarrow> tier option" where
  "tier_from_int v =
     (if v = 0 then Some Tier_Brokered
      else if v = 1 then Some Tier_TrustedClient
      else if v = 2 then Some Tier_CooperatingClient
      else if v = 3 then Some Tier_Direct
      else None)"

fun tier_as_str :: "tier \<Rightarrow> string" where
  "tier_as_str Tier_Brokered = ''brokered''"
| "tier_as_str Tier_TrustedClient = ''trusted-client''"
| "tier_as_str Tier_CooperatingClient = ''cooperating-client''"
| "tier_as_str Tier_Direct = ''direct''"

text \<open>The derived \<open>Ord\<close>: the order of the discriminants.\<close>

instantiation tier :: linorder
begin

definition less_eq_tier :: "tier \<Rightarrow> tier \<Rightarrow> bool" where
  "less_eq_tier a b \<longleftrightarrow> tier_as_int a \<le> tier_as_int b"

definition less_tier :: "tier \<Rightarrow> tier \<Rightarrow> bool" where
  "less_tier a b \<longleftrightarrow> tier_as_int a < tier_as_int b"

instance
proof
  fix x y z :: tier
  show "x < y \<longleftrightarrow> x \<le> y \<and> \<not> y \<le> x"
    by (auto simp: less_tier_def less_eq_tier_def)
  show "x \<le> x"
    by (simp add: less_eq_tier_def)
  show "x \<le> y \<Longrightarrow> y \<le> z \<Longrightarrow> x \<le> z"
    by (simp add: less_eq_tier_def)
  show "x \<le> y \<Longrightarrow> y \<le> x \<Longrightarrow> x = y"
    by (cases x; cases y) (simp_all add: less_eq_tier_def)
  show "x \<le> y \<or> y \<le> x"
    by (auto simp: less_eq_tier_def)
qed

end

lemma tier_from_as_int [simp]: "tier_from_int (tier_as_int t) = Some t"
  by (cases t) (simp_all add: tier_from_int_def)

lemma tier_from_int_Some: "tier_from_int v = Some t \<longleftrightarrow> v = tier_as_int t"
  by (cases t) (auto simp: tier_from_int_def)

section \<open>Mechanisms\<close>

datatype mechanism = Mech_Brokered | Mech_Autofill | Mech_CliRead | Mech_DirectRead

fun mech_tier :: "mechanism \<Rightarrow> tier" where
  "mech_tier Mech_Brokered = Tier_Brokered"
| "mech_tier Mech_Autofill = Tier_TrustedClient"
| "mech_tier Mech_CliRead = Tier_CooperatingClient"
| "mech_tier Mech_DirectRead = Tier_Direct"

fun mech_as_str :: "mechanism \<Rightarrow> string" where
  "mech_as_str Mech_Brokered = ''brokered''"
| "mech_as_str Mech_Autofill = ''autofill''"
| "mech_as_str Mech_CliRead = ''cli-read''"
| "mech_as_str Mech_DirectRead = ''direct-read''"

definition mech_from_str_opt :: "string \<Rightarrow> mechanism option" where
  "mech_from_str_opt s =
     (if s = ''brokered'' then Some Mech_Brokered
      else if s = ''autofill'' then Some Mech_Autofill
      else if s = ''cli-read'' then Some Mech_CliRead
      else if s = ''direct-read'' then Some Mech_DirectRead
      else None)"

definition is_releasing :: "mechanism \<Rightarrow> bool" where
  "is_releasing m \<longleftrightarrow> m \<noteq> Mech_Brokered"

lemma mech_from_as_str [simp]: "mech_from_str_opt (mech_as_str m) = Some m"
  by (cases m) (simp_all add: mech_from_str_opt_def)

lemma mech_from_str_opt_Some: "mech_from_str_opt s = Some m \<longleftrightarrow> s = mech_as_str m"
  by (cases m) (auto simp: mech_from_str_opt_def split: if_splits)

lemma mech_as_str_inject [simp]: "mech_as_str m = mech_as_str n \<longleftrightarrow> m = n"
  by (metis mech_from_as_str option.inject)

section \<open>Origins\<close>

record origin =
  o_host :: string
  o_port :: "16 word option"

datatype origin_error =
    Empty_origin | Not_host_port | Bad_port | Port_zero
  | Invalid_origin_host | Noncanonical_origin_host | Colon_in_host

text \<open>\<open>str::parse::<u16>\<close>: an optional \<open>+\<close>, then at least one decimal digit, in range.\<close>

definition digits_value :: "string \<Rightarrow> nat" where
  "digits_value s = foldl (\<lambda>acc c. acc * 10 + (byte c - 48)) 0 s"

definition parse_u16 :: "string \<Rightarrow> 16 word option" where
  "parse_u16 s =
     (let d = (case s of c # r \<Rightarrow> if c = CHR ''+'' then r else s | [] \<Rightarrow> s)
      in if d \<noteq> [] \<and> list_all is_ascii_digit d \<and> digits_value d \<le> 65535
         then Some (of_nat (digits_value d)) else None)"

definition host_char :: "char \<Rightarrow> bool" where
  "host_char c \<longleftrightarrow> is_ascii_alphanumeric c \<or> c = CHR ''-'' \<or> c = CHR ''.''"

text \<open>The host half of \<open>Origin::parse\<close>: normalization, then the URL round-trip check.\<close>

definition parse_origin_host ::
  "(string \<Rightarrow> string option option) \<Rightarrow> string \<Rightarrow> origin_error + string" where
  "parse_origin_host url_host raw =
     (let host = to_ascii_lowercase (trim_end_matches (CHR ''.'') raw)
      in if host = [] \<or> CHR ''*'' \<in> set host \<or> \<not> list_all host_char host
         then Inl Invalid_origin_host
         else (case url_host (''https://'' @ host) of
                 None \<Rightarrow> Inl Invalid_origin_host
               | Some hs \<Rightarrow>
                   if hs \<noteq> Some host then Inl Noncanonical_origin_host else Inr host))"

definition origin_parse ::
  "(string \<Rightarrow> string option option) \<Rightarrow> string \<Rightarrow> origin_error + origin" where
  "origin_parse url_host raw =
     (let s = trim raw
      in if s = [] then Inl Empty_origin
         else if CHR ''/'' \<in> set s \<or> CHR ''@'' \<in> set s \<or> CHR ''?'' \<in> set s \<or> CHR ''#'' \<in> set s
           then Inl Not_host_port
         else
           (let split =
              (case rsplit_once (CHR '':'') s of
                 Some (h, p) \<Rightarrow>
                   if CHR '':'' \<notin> set h then
                     (case parse_u16 p of
                        None \<Rightarrow> Inl Bad_port
                      | Some port \<Rightarrow> if port = 0 then Inl Port_zero else Inr (h, Some port))
                   else Inr (s, None)
               | None \<Rightarrow> Inr (s, None))
            in case split of
                 Inl e \<Rightarrow> Inl e
               | Inr (h, port) \<Rightarrow>
                   (case parse_origin_host url_host h of
                      Inl e \<Rightarrow> Inl e
                    | Inr host \<Rightarrow> Inr \<lparr>o_host = host, o_port = port\<rparr>)))"

text \<open>The hand-written \<open>Deserialize\<close> of the object shape \<open>{host, port}\<close>.\<close>

definition origin_deserialize ::
  "(string \<Rightarrow> string option option) \<Rightarrow> string \<Rightarrow> 16 word option \<Rightarrow> origin_error + origin" where
  "origin_deserialize url_host raw_host raw_port =
     (if CHR '':'' \<in> set raw_host then Inl Colon_in_host
      else if raw_port = Some 0 then Inl Port_zero
      else (case origin_parse url_host raw_host of
              Inl e \<Rightarrow> Inl e
            | Inr parsed \<Rightarrow> Inr \<lparr>o_host = o_host parsed, o_port = raw_port\<rparr>))"

definition effective_port :: "origin \<Rightarrow> 16 word" where
  "effective_port o1 = (case o_port o1 of Some p \<Rightarrow> p | None \<Rightarrow> 443)"

definition same_target :: "origin \<Rightarrow> origin \<Rightarrow> bool" where
  "same_target a b \<longleftrightarrow> o_host a = o_host b \<and> effective_port a = effective_port b"

text \<open>Decimal rendering of an unsigned integer (\<open>Display\<close> of \<open>u16\<close>, \<open>u32\<close>, \<open>u64\<close>).\<close>

fun dec :: "nat \<Rightarrow> string" where
  "dec n = (if n < 10 then [char_of (48 + n)] else dec (n div 10) @ [char_of (48 + n mod 10)])"

declare dec.simps [simp del]

definition origin_to_display :: "origin \<Rightarrow> string" where
  "origin_to_display o1 =
     (case o_port o1 of
        Some p \<Rightarrow> ''https://'' @ o_host o1 @ '':'' @ dec (unat p)
      | None \<Rightarrow> ''https://'' @ o_host o1)"

section \<open>Constraints and bodies\<close>

record constraints =
  c_origins :: "origin list"
  c_methods :: "string list"
  c_path_prefixes :: "string list"
  c_ttl_seconds :: "64 word"
  c_max_uses :: "32 word option"

text \<open>\<open>serde_json::Value\<close>; a number is represented by its \<open>to_string\<close>.\<close>

datatype json =
    JNull | JBool bool | JNumber string | JString string
  | JArray "json list" | JObject "(string \<times> json) list"

record request_context =
  cx_reason :: string
  cx_structured :: "json option"

record create_access_request =
  cr_idempotency_key :: string
  cr_secret_name :: string
  cr_mechanism :: mechanism
  cr_constraints :: constraints
  cr_context :: request_context

datatype request_state = Pending | Approved | Denied | Expired

fun state_as_str :: "request_state \<Rightarrow> string" where
  "state_as_str Pending = ''pending''"
| "state_as_str Approved = ''approved''"
| "state_as_str Denied = ''denied''"
| "state_as_str Expired = ''expired''"

definition state_from_str_opt :: "string \<Rightarrow> request_state option" where
  "state_from_str_opt s =
     (if s = ''pending'' then Some Pending
      else if s = ''approved'' then Some Approved
      else if s = ''denied'' then Some Denied
      else if s = ''expired'' then Some Expired
      else None)"

lemma state_from_as_str [simp]: "state_from_str_opt (state_as_str st) = Some st"
  by (cases st) (simp_all add: state_from_str_opt_def)

record access_request_status =
  st_request_id :: uuid
  st_state :: request_state
  st_grant_id :: "uuid option"
  st_deny_reason :: "string option"
  st_expires_at :: time
  st_granted_secret_name :: "string option"
  st_auto_approved :: bool

definition RESOLVED_BY_POLICY_AUTO :: string where
  "RESOLVED_BY_POLICY_AUTO = ''policy:auto''"

record grant_info =
  gi_grant_id :: uuid
  gi_mechanism :: mechanism
  gi_constraints :: constraints
  gi_not_after :: time
  gi_max_uses :: "32 word option"
  gi_use_count :: "32 word"
  gi_revoked :: bool
  gi_server_time :: "time option"

datatype secret_encoding = Enc_Utf8 | Enc_Base64

record read_grant_response =
  rr_secret :: string
  rr_encoding :: secret_encoding
  rr_secret_version_id :: uuid

record store_secret_request =
  ss_name :: string
  ss_value :: string
  ss_encoding :: secret_encoding
  ss_description :: string
  ss_max_tier :: "tier option"
  ss_injection_kind :: "string option"
  ss_injection_header :: "string option"

section \<open>Decimal numbers\<close>

lemma digits_value_snoc: "digits_value (s @ [c]) = digits_value s * 10 + (byte c - 48)"
  by (simp add: digits_value_def)

lemma digits_value_dec [simp]: "digits_value (dec n) = n"
proof (induction n rule: dec.induct)
  case (1 n)
  show ?case
  proof (cases "n < 10")
    case True
    then show ?thesis
      by (subst dec.simps) (simp add: digits_value_def byte_def take_bit_nat_eq_self)
  next
    case False
    then have "digits_value (dec (n div 10)) = n div 10"
      by (rule 1)
    with False show ?thesis
      by (subst dec.simps) (simp add: digits_value_snoc byte_def take_bit_nat_eq_self)
  qed
qed

lemma dec_inject [simp]: "dec m = dec n \<longleftrightarrow> m = n"
  by (metis digits_value_dec)

lemma dec_digits: "c \<in> set (dec n) \<Longrightarrow> is_ascii_digit c"
proof (induction n rule: dec.induct)
  case (1 n)
  have "is_ascii_digit (char_of (48 + k))" if "k < 10" for k :: nat
    using that by (simp add: is_ascii_digit_def byte_def take_bit_nat_eq_self)
  with 1 show ?case
    by (subst (asm) (2) dec.simps) (auto split: if_splits)
qed

lemma dec_no_slash [simp]: "CHR ''/'' \<notin> set (dec n)"
  using dec_digits [of "CHR ''/''" n] by (auto simp: is_ascii_digit_def byte_def)

lemma dec_no_minus [simp]: "CHR ''-'' \<notin> set (dec n)"
  using dec_digits [of "CHR ''-''" n] by (auto simp: is_ascii_digit_def byte_def)

end
