(* ===== verification/Store.thy ===== *)
theory Store
  imports Types
begin

text \<open>
  The store layer's data: the row structs of \<open>server/src/db\<close>, the tables as lists of rows, the
  constraints of \<open>migrations/\<close> as checks of the insert operations, and the audit log.

  A transaction is a function of the database clock (the SQL \<open>now()\<close>), its arguments, the
  identifiers the database draws with \<open>gen_random_uuid()\<close>, and the database.  It returns
  \<^term>\<open>Inl e\<close> when a statement raises (the transaction is then rolled back), and
  \<^term>\<open>Inr (r, d')\<close> with the committed database otherwise; a transaction that rolls back and
  still answers returns the database it was given.  Row locks and advisory locks of the code make
  concurrent transactions on the same rows serial; the model takes them in that serial order.

  Times count microseconds, as PostgreSQL's \<open>timestamptz\<close> does.  An \<open>i32\<close> column is an integer
  that an increment may not push beyond \<open>i32::MAX\<close>.
\<close>

section \<open>Tables\<close>

definition upd_where :: "('r \<Rightarrow> bool) \<Rightarrow> ('r \<Rightarrow> 'r) \<Rightarrow> 'r list \<Rightarrow> 'r list" where
  "upd_where P f rows = map (\<lambda>r. if P r then f r else r) rows"

definition del_where :: "('r \<Rightarrow> bool) \<Rightarrow> 'r list \<Rightarrow> 'r list" where
  "del_where P rows = filter (\<lambda>r. \<not> P r) rows"

definition I32_MAX :: int where
  "I32_MAX = 2147483647"

definition interval_secs :: "int \<Rightarrow> int" where
  "interval_secs n = n * 1000000"

text \<open>A \<open>jsonb\<close> column the code reads at one type: the value it deserializes to, or the raw
  document when it does not.\<close>

datatype 'a jsonb = Parsed 'a | Malformed json

datatype store_error =
    Unique_violation | Foreign_key_violation | Check_violation | Integer_out_of_range
  | Row_not_found | Seal_error | Open_error | Bail string

section \<open>Rows\<close>

record client_row =
  cl_id :: uuid
  cl_name :: string
  cl_max_tier :: int
  cl_mechanisms :: "string list"
  cl_auth_kind :: string
  cl_api_token_sha256 :: "string option"
  cl_sa_audience :: "string option"
  cl_sa_subject :: "string option"
  cl_enabled :: bool
  cl_may_store_secrets :: bool

record policy_row =
  pol_id :: uuid
  pol_client_name :: "string option"
  pol_secret_name :: "string option"
  pol_secret_tag :: "string option"
  pol_mechanism :: string
  pol_outcome :: string
  pol_priority :: int
  pol_origins :: "origin list jsonb"
  pol_methods :: "string list"
  pol_path_prefixes :: "string list"
  pol_max_ttl_seconds :: "int option"
  pol_max_uses :: "int option"
  pol_not_after :: "time option"
  pol_created_by :: string
  pol_created_at :: time
  pol_managed_by_config :: bool

record secret_row =
  sec_id :: uuid
  sec_name :: string
  sec_description :: string
  sec_max_tier :: int
  sec_injection_kind :: string
  sec_injection_header :: "string option"
  sec_injection_username :: "string option"
  sec_current_version :: int
  sec_enabled :: bool
  sec_operator_vetted :: bool
  sec_managed_by_config :: bool
  sec_created_at :: time
  sec_updated_at :: time

record secret_version_row =
  ver_id :: uuid
  ver_secret_id :: uuid
  ver_version :: int
  ver_ciphertext :: bytes
  ver_nonce :: bytes
  ver_wrapped_dek :: bytes
  ver_kek_id :: string
  ver_created_at :: time
  ver_created_by_request :: "uuid option"

record access_request_row =
  ar_id :: uuid
  ar_client_name :: string
  ar_secret_name :: string
  ar_mechanism :: string
  ar_constraints :: "constraints jsonb"
  ar_context_ciphertext :: "bytes option"
  ar_context_nonce :: "bytes option"
  ar_context_wrapped_dek :: "bytes option"
  ar_context_kek_id :: "string option"
  ar_state :: string
  ar_policy_not_after :: "time option"
  ar_deny_reason :: "string option"
  ar_resolved_by :: "string option"
  ar_created_at :: time
  ar_resolved_at :: "time option"
  ar_expires_at :: time
  ar_push_delivered_at :: "time option"
  ar_push_attempts :: int
  ar_notify_only :: bool
  ar_idem_client :: string
  ar_idem_key :: string
  ar_idem_mac :: bytes

record grant_row =
  gr_id :: uuid
  gr_request_id :: uuid
  gr_client_name :: string
  gr_secret_name :: string
  gr_mechanism :: string
  gr_constraints :: "constraints jsonb"
  gr_not_after :: time
  gr_max_uses :: "int option"
  gr_use_count :: int
  gr_revoked :: bool
  gr_passthrough_ciphertext :: "bytes option"
  gr_passthrough_nonce :: "bytes option"
  gr_passthrough_wrapped_dek :: "bytes option"
  gr_passthrough_ephemeral :: bool
  gr_created_at :: time

record grant_read_row =
  rd_grant_id :: uuid
  rd_idem_key :: string
  rd_secret_version_id :: "uuid option"
  rd_passthrough :: bool
  rd_first_read_at :: time

section \<open>Audit log\<close>

definition REQUEST_CREATED :: string where "REQUEST_CREATED = ''request-created''"
definition REQUEST_APPROVED :: string where "REQUEST_APPROVED = ''request-approved''"
definition REQUEST_DENIED :: string where "REQUEST_DENIED = ''request-denied''"
definition REQUEST_EXPIRED :: string where "REQUEST_EXPIRED = ''request-expired''"
definition GRANT_REVOKED :: string where "GRANT_REVOKED = ''grant-revoked''"
definition RELEASE_ATTEMPT :: string where "RELEASE_ATTEMPT = ''release-attempt''"
definition RELEASE_COMPLETED :: string where "RELEASE_COMPLETED = ''release-completed''"
definition PROXY_ATTEMPT :: string where "PROXY_ATTEMPT = ''proxy-attempt''"
definition PROXY_COMPLETED :: string where "PROXY_COMPLETED = ''proxy-completed''"
definition SECRET_CREATED :: string where "SECRET_CREATED = ''secret-created''"
definition SECRET_ROTATED :: string where "SECRET_ROTATED = ''secret-rotated''"
definition SECRET_UPDATED :: string where "SECRET_UPDATED = ''secret-updated''"
definition SECRET_DELETED :: string where "SECRET_DELETED = ''secret-deleted''"
definition SECRET_VETTED :: string where "SECRET_VETTED = ''secret-vetted''"
definition SECRET_REVEALED :: string where "SECRET_REVEALED = ''secret-revealed''"
definition POLICY_CREATED :: string where "POLICY_CREATED = ''policy-created''"
definition POLICY_DELETED :: string where "POLICY_DELETED = ''policy-deleted''"
definition POLICY_UPDATED :: string where "POLICY_UPDATED = ''policy-updated''"

lemmas kind_defs = REQUEST_CREATED_def REQUEST_APPROVED_def REQUEST_DENIED_def REQUEST_EXPIRED_def
  GRANT_REVOKED_def RELEASE_ATTEMPT_def RELEASE_COMPLETED_def PROXY_ATTEMPT_def PROXY_COMPLETED_def
  SECRET_CREATED_def SECRET_ROTATED_def SECRET_UPDATED_def SECRET_DELETED_def SECRET_VETTED_def
  SECRET_REVEALED_def POLICY_CREATED_def POLICY_DELETED_def POLICY_UPDATED_def

record audit_event =
  ae_kind :: string
  ae_request_id :: "uuid option"
  ae_grant_id :: "uuid option"
  ae_client_name :: "string option"
  ae_secret_name :: "string option"
  ae_secret_version_id :: "uuid option"
  ae_actor :: "string option"
  ae_method :: "string option"
  ae_origin :: "string option"
  ae_path :: "string option"
  ae_status :: "int option"
  ae_detail :: "json option"

definition audit_default :: audit_event where
  "audit_default = \<lparr>ae_kind = [], ae_request_id = None, ae_grant_id = None, ae_client_name = None,
     ae_secret_name = None, ae_secret_version_id = None, ae_actor = None, ae_method = None,
     ae_origin = None, ae_path = None, ae_status = None, ae_detail = None\<rparr>"

section \<open>The database\<close>

record db =
  db_secrets :: "secret_row list"
  db_versions :: "secret_version_row list"
  db_tags :: "(uuid \<times> string) list"
  db_clients :: "client_row list"
  db_policies :: "policy_row list"
  db_requests :: "access_request_row list"
  db_grants :: "grant_row list"
  db_reads :: "grant_read_row list"
  db_audit :: "(time \<times> audit_event) list"

definition empty_db :: db where
  "empty_db = \<lparr>db_secrets = [], db_versions = [], db_tags = [], db_clients = [], db_policies = [],
     db_requests = [], db_grants = [], db_reads = [], db_audit = []\<rparr>"

text \<open>One audit row; \<open>at\<close> is the default \<open>now()\<close> and the serial \<open>id\<close> is the position in the list.\<close>

definition insert_audit :: "time \<Rightarrow> audit_event \<Rightarrow> db \<Rightarrow> db" where
  "insert_audit now ev d = d\<lparr>db_audit := db_audit d @ [(now, ev)]\<rparr>"

definition insert_audits :: "time \<Rightarrow> audit_event list \<Rightarrow> db \<Rightarrow> db" where
  "insert_audits now evs d = fold (insert_audit now) evs d"

section \<open>Inserts with the constraints of the schema\<close>

definition INJECTION_KINDS :: "string list" where
  "INJECTION_KINDS = [''bearer'', ''header'', ''basic'', ''basic-password'', ''aws-sigv4'']"

definition insert_secret_row :: "secret_row \<Rightarrow> db \<Rightarrow> store_error + db" where
  "insert_secret_row s d =
     (if sec_injection_kind s \<notin> set INJECTION_KINDS then Inl Check_violation
      else if list_ex (\<lambda>r. sec_id r = sec_id s \<or> sec_name r = sec_name s) (db_secrets d)
        then Inl Unique_violation
      else Inr (d\<lparr>db_secrets := db_secrets d @ [s]\<rparr>))"

text \<open>\<open>ON CONFLICT (name) DO NOTHING\<close>: \<^term>\<open>None\<close> when no row was inserted.\<close>

definition insert_secret_row_if_free :: "secret_row \<Rightarrow> db \<Rightarrow> store_error + db option" where
  "insert_secret_row_if_free s d =
     (if sec_injection_kind s \<notin> set INJECTION_KINDS then Inl Check_violation
      else if list_ex (\<lambda>r. sec_name r = sec_name s) (db_secrets d) then Inr None
      else if list_ex (\<lambda>r. sec_id r = sec_id s) (db_secrets d) then Inl Unique_violation
      else Inr (Some (d\<lparr>db_secrets := db_secrets d @ [s]\<rparr>)))"

definition insert_version_row :: "secret_version_row \<Rightarrow> db \<Rightarrow> store_error + db" where
  "insert_version_row v d =
     (if list_ex (\<lambda>r. ver_id r = ver_id v
           \<or> ver_secret_id r = ver_secret_id v \<and> ver_version r = ver_version v) (db_versions d)
        then Inl Unique_violation
      else if \<not> list_ex (\<lambda>s. sec_id s = ver_secret_id v) (db_secrets d) then Inl Foreign_key_violation
      else Inr (d\<lparr>db_versions := db_versions d @ [v]\<rparr>))"

text \<open>\<open>INSERT INTO secret_tags ... ON CONFLICT DO NOTHING\<close>.\<close>

definition insert_tag :: "uuid \<Rightarrow> string \<Rightarrow> db \<Rightarrow> store_error + db" where
  "insert_tag sid tag d =
     (if \<not> list_ex (\<lambda>s. sec_id s = sid) (db_secrets d) then Inl Foreign_key_violation
      else if (sid, tag) \<in> set (db_tags d) then Inr d
      else Inr (d\<lparr>db_tags := db_tags d @ [(sid, tag)]\<rparr>))"

fun insert_tags :: "uuid \<Rightarrow> string list \<Rightarrow> db \<Rightarrow> store_error + db" where
  "insert_tags sid [] d = Inr d"
| "insert_tags sid (t # ts) d =
     (case insert_tag sid t d of Inl e \<Rightarrow> Inl e | Inr d' \<Rightarrow> insert_tags sid ts d')"

text \<open>\<open>ON CONFLICT (idem_client, idem_key) DO NOTHING\<close>.\<close>

definition insert_request_row_if_free :: "access_request_row \<Rightarrow> db \<Rightarrow> store_error + db option" where
  "insert_request_row_if_free a d =
     (if list_ex (\<lambda>r. ar_idem_client r = ar_idem_client a \<and> ar_idem_key r = ar_idem_key a) (db_requests d)
        then Inr None
      else if list_ex (\<lambda>r. ar_id r = ar_id a) (db_requests d) then Inl Unique_violation
      else Inr (Some (d\<lparr>db_requests := db_requests d @ [a]\<rparr>)))"

definition insert_grant_row :: "grant_row \<Rightarrow> db \<Rightarrow> store_error + db" where
  "insert_grant_row g d =
     (if list_ex (\<lambda>r. gr_id r = gr_id g \<or> gr_request_id r = gr_request_id g) (db_grants d)
        then Inl Unique_violation
      else if \<not> list_ex (\<lambda>r. ar_id r = gr_request_id g) (db_requests d) then Inl Foreign_key_violation
      else Inr (d\<lparr>db_grants := db_grants d @ [g]\<rparr>))"

definition insert_read_row :: "grant_read_row \<Rightarrow> db \<Rightarrow> store_error + db" where
  "insert_read_row r d =
     (if list_ex (\<lambda>q. rd_grant_id q = rd_grant_id r \<and> rd_idem_key q = rd_idem_key r) (db_reads d)
        then Inl Unique_violation
      else if \<not> list_ex (\<lambda>g. gr_id g = rd_grant_id r) (db_grants d) then Inl Foreign_key_violation
      else Inr (d\<lparr>db_reads := db_reads d @ [r]\<rparr>))"

section \<open>Sealed payloads\<close>

text \<open>\<open>crypto::Sealed\<close>, and the result of a \<open>SealFn\<close>: \<^term>\<open>None\<close> is a sealing error.\<close>

record sealed =
  sl_ciphertext :: bytes
  sl_nonce :: bytes
  sl_wrapped_dek :: bytes
  sl_kek_id :: string

type_synonym seal_fn = "sealed option"

text \<open>A secret created together with its first version; \<open>sp_seal\<close> is what the closure returns.\<close>

record store_secret_params =
  sp_secret_id :: uuid
  sp_name :: string
  sp_description :: string
  sp_max_tier :: int
  sp_injection_kind :: string
  sp_injection_header :: "string option"
  sp_injection_username :: "string option"
  sp_seal :: seal_fn

definition secret_incarnation_exists :: "uuid \<Rightarrow> string \<Rightarrow> db \<Rightarrow> bool" where
  "secret_incarnation_exists sid nm d \<longleftrightarrow>
     list_ex (\<lambda>s. sec_id s = sid \<and> sec_name s = nm) (db_secrets d)"

text \<open>\<open>verify_no_references\<close>: the KEK is referenced by no version and no request context.\<close>

definition verify_no_references :: "string \<Rightarrow> db \<Rightarrow> bool" where
  "verify_no_references kek d \<longleftrightarrow>
     length (filter (\<lambda>v. ver_kek_id v = kek) (db_versions d))
     + length (filter (\<lambda>r. ar_context_kek_id r = Some kek) (db_requests d)) = 0"


section \<open>Laws of tables\<close>

lemma upd_where_Nil [simp]: "upd_where P f [] = []"
  by (simp add: upd_where_def)

lemma upd_where_Cons [simp]:
  "upd_where P f (r # rs) = (if P r then f r else r) # upd_where P f rs"
  by (simp add: upd_where_def)

lemma upd_where_append [simp]: "upd_where P f (rs @ qs) = upd_where P f rs @ upd_where P f qs"
  by (simp add: upd_where_def)

lemma length_upd_where [simp]: "length (upd_where P f rs) = length rs"
  by (simp add: upd_where_def)

lemma set_upd_where: "x \<in> set (upd_where P f rs) \<longleftrightarrow> (\<exists>r \<in> set rs. x = (if P r then f r else r))"
  by (auto simp: upd_where_def)

lemma list_ex_conj2:
  "list_ex (\<lambda>r. P r \<and> Q r) rs \<longleftrightarrow> (\<exists>r \<in> set rs. P r \<and> Q r)"
  by (simp add: list_ex_iff)

lemma map_upd_same: "(\<And>r. h (f r) = h r) \<Longrightarrow> map h (upd_where P f rs) = map h rs"
  by (induction rs) auto

lemma upd_where_none: "(\<And>r. r \<in> set rs \<Longrightarrow> \<not> P r) \<Longrightarrow> upd_where P f rs = rs"
  by (induction rs) auto

lemma upd_key_fresh: "i \<notin> k ` set rs \<Longrightarrow> upd_where (\<lambda>r. k r = i) f rs = rs"
  by (rule upd_where_none) auto

lemma set_del_where [simp]: "set (del_where P rs) = {r \<in> set rs. \<not> P r}"
  by (auto simp: del_where_def)

lemma distinct_map_del_where: "distinct (map k rs) \<Longrightarrow> distinct (map k (del_where P rs))"
  by (simp add: del_where_def distinct_map_filter)

lemma find_Some_mem: "find P rs = Some r \<Longrightarrow> r \<in> set rs \<and> P r"
  by (induction rs) (auto split: if_splits)

lemma find_key_unique:
  "distinct (map k rs) \<Longrightarrow> r \<in> set rs \<Longrightarrow> find (\<lambda>q. k q = k r) rs = Some r"
  by (induction rs) (auto simp: rev_image_eqI)

lemma distinct_map_same:
  "distinct (map k rs) \<Longrightarrow> r \<in> set rs \<Longrightarrow> q \<in> set rs \<Longrightarrow> k r = k q \<Longrightarrow> r = q"
  by (auto simp: distinct_map dest: inj_onD)

lemma unique_by_key: "distinct (map k rs) \<Longrightarrow> (\<exists>!r. r \<in> set rs \<and> k r = i) \<longleftrightarrow> i \<in> k ` set rs"
  by (auto dest: distinct_map_same)

lemma list_ex_key [table_simps]: "list_ex (\<lambda>r. k r = x) rs \<longleftrightarrow> x \<in> k ` set rs"
  by (auto simp: list_ex_iff)

lemma list_ex_disj [table_simps]: "list_ex (\<lambda>r. P r \<or> Q r) rs \<longleftrightarrow> list_ex P rs \<or> list_ex Q rs"
  by (auto simp: list_ex_iff)

text \<open>An update that keeps a key column: lookups by the key see the updated row, and the key
  stays unique.  Every \<open>UPDATE\<close> of the store is an instance at the key columns of its table.\<close>

locale row_update =
  fixes key :: "'r \<Rightarrow> 'k" and f :: "'r \<Rightarrow> 'r"
  assumes key_kept: "key (f r) = key r"
begin

lemma map_key_upd [simp]: "map key (upd_where P f rows) = map key rows"
  by (induction rows) (auto simp: key_kept)

lemma image_key_upd [simp]: "key ` set (upd_where P f rows) = key ` set rows"
  by (metis list.set_map map_key_upd)

lemma find_key_upd [simp]:
  "find (\<lambda>r. key r = k) (upd_where P f rows) =
     map_option (\<lambda>r. if P r then f r else r) (find (\<lambda>r. key r = k) rows)"
  by (induction rows) (auto simp: key_kept)

lemma find_other_key [simp]:
  "k \<noteq> k' \<Longrightarrow> find (\<lambda>r. key r = k) (upd_where (\<lambda>r. key r = k') f rows) = find (\<lambda>r. key r = k) rows"
  by (induction rows) (auto simp: key_kept)

end

section \<open>Laws of the audit log and of inserts\<close>

lemma insert_audit_frame [simp]:
  "db_secrets (insert_audit now ev d) = db_secrets d"
  "db_versions (insert_audit now ev d) = db_versions d"
  "db_tags (insert_audit now ev d) = db_tags d"
  "db_clients (insert_audit now ev d) = db_clients d"
  "db_policies (insert_audit now ev d) = db_policies d"
  "db_requests (insert_audit now ev d) = db_requests d"
  "db_grants (insert_audit now ev d) = db_grants d"
  "db_reads (insert_audit now ev d) = db_reads d"
  "db_audit (insert_audit now ev d) = db_audit d @ [(now, ev)]"
  by (simp_all add: insert_audit_def)

lemma insert_audits_frame [simp]:
  "db_secrets (insert_audits now evs d) = db_secrets d"
  "db_versions (insert_audits now evs d) = db_versions d"
  "db_tags (insert_audits now evs d) = db_tags d"
  "db_clients (insert_audits now evs d) = db_clients d"
  "db_policies (insert_audits now evs d) = db_policies d"
  "db_requests (insert_audits now evs d) = db_requests d"
  "db_grants (insert_audits now evs d) = db_grants d"
  "db_reads (insert_audits now evs d) = db_reads d"
  "db_audit (insert_audits now evs d) = db_audit d @ map (Pair now) evs"
  unfolding insert_audits_def by (induction evs arbitrary: d) simp_all

lemma insert_secret_row_Inr:
  "insert_secret_row s d = Inr d' \<longleftrightarrow>
     d' = d\<lparr>db_secrets := db_secrets d @ [s]\<rparr> \<and> sec_injection_kind s \<in> set INJECTION_KINDS
     \<and> sec_id s \<notin> sec_id ` set (db_secrets d) \<and> sec_name s \<notin> sec_name ` set (db_secrets d)"
  by (auto simp: insert_secret_row_def table_simps list_ex_conj2)

lemma insert_secret_row_if_free_Inr:
  "insert_secret_row_if_free s d = Inr (Some d') \<longleftrightarrow>
     d' = d\<lparr>db_secrets := db_secrets d @ [s]\<rparr> \<and> sec_injection_kind s \<in> set INJECTION_KINDS
     \<and> sec_id s \<notin> sec_id ` set (db_secrets d) \<and> sec_name s \<notin> sec_name ` set (db_secrets d)"
  by (auto simp: insert_secret_row_if_free_def table_simps list_ex_conj2)

lemma insert_version_row_Inr:
  "insert_version_row v d = Inr d' \<longleftrightarrow>
     d' = d\<lparr>db_versions := db_versions d @ [v]\<rparr> \<and> ver_id v \<notin> ver_id ` set (db_versions d)
     \<and> (\<forall>r \<in> set (db_versions d). \<not> (ver_secret_id r = ver_secret_id v \<and> ver_version r = ver_version v))
     \<and> ver_secret_id v \<in> sec_id ` set (db_secrets d)"
  by (auto simp: insert_version_row_def table_simps list_ex_conj2)

lemma insert_request_row_Inr:
  "insert_request_row_if_free a d = Inr (Some d') \<longleftrightarrow>
     d' = d\<lparr>db_requests := db_requests d @ [a]\<rparr> \<and> ar_id a \<notin> ar_id ` set (db_requests d)
     \<and> (\<forall>r \<in> set (db_requests d). \<not> (ar_idem_client r = ar_idem_client a \<and> ar_idem_key r = ar_idem_key a))"
  by (auto simp: insert_request_row_if_free_def table_simps list_ex_conj2)

lemma insert_grant_row_Inr:
  "insert_grant_row g d = Inr d' \<longleftrightarrow>
     d' = d\<lparr>db_grants := db_grants d @ [g]\<rparr> \<and> gr_id g \<notin> gr_id ` set (db_grants d)
     \<and> gr_request_id g \<notin> gr_request_id ` set (db_grants d)
     \<and> gr_request_id g \<in> ar_id ` set (db_requests d)"
  by (auto simp: insert_grant_row_def table_simps list_ex_conj2)

lemma insert_read_row_Inr:
  "insert_read_row r d = Inr d' \<longleftrightarrow>
     d' = d\<lparr>db_reads := db_reads d @ [r]\<rparr>
     \<and> (\<forall>q \<in> set (db_reads d). \<not> (rd_grant_id q = rd_grant_id r \<and> rd_idem_key q = rd_idem_key r))
     \<and> rd_grant_id r \<in> gr_id ` set (db_grants d)"
  by (auto simp: insert_read_row_def table_simps list_ex_conj2)

lemma insert_tags_Inr:
  assumes "insert_tags sid ts d = Inr d'"
  shows "\<exists>tags. d' = d\<lparr>db_tags := tags\<rparr> \<and> set tags = set (db_tags d) \<union> Pair sid ` set ts
       \<and> (distinct (db_tags d) \<longrightarrow> distinct tags)"
  using assms
proof (induction ts arbitrary: d)
  case Nil
  then show ?case by (intro exI [of _ "db_tags d"]) simp
next
  case (Cons t ts)
  from Cons.prems obtain d1 where d1: "insert_tag sid t d = Inr d1" "insert_tags sid ts d1 = Inr d'"
    by (auto split: sum.splits)
  from Cons.IH [OF d1(2)] d1(1) show ?case
    by (fastforce simp: insert_tag_def split: if_splits)
qed

lemmas insert_row_Inr [table_simps] = insert_secret_row_Inr insert_secret_row_if_free_Inr
  insert_version_row_Inr insert_request_row_Inr insert_grant_row_Inr insert_read_row_Inr

end
