(* ===== verification/Store_Requests.thy ===== *)
theory Store_Requests
  imports Store
begin

text \<open>
  Access requests in the store (\<open>server/src/db/requests.rs\<close> and the request parts of
  \<open>api_ext.rs\<close> and \<open>ui_ext.rs\<close>): idempotent creation with an optional resolution decided by
  policy, approval, denial, expiry, the push outbox and the retention of encrypted contexts.
\<close>

section \<open>Parameters of the operations\<close>

record new_access_request =
  nr_client_name :: string
  nr_secret_name :: string
  nr_mechanism :: string
  nr_constraints :: "constraints jsonb"
  nr_expires_at :: time
  nr_policy_not_after :: "time option"
  nr_idem_client :: string
  nr_idem_key :: string
  nr_idem_mac :: bytes

text \<open>\<open>PassthroughPayload\<close>: always sealed under the ephemeral KEK.\<close>

record passthrough_payload =
  pp_ciphertext :: bytes
  pp_nonce :: bytes
  pp_wrapped_dek :: bytes

record grant_params =
  gp_client_name :: string
  gp_secret_name :: string
  gp_secret_id :: "uuid option"
  gp_mechanism :: string
  gp_constraints :: "constraints jsonb"
  gp_not_after :: time
  gp_max_uses :: "int option"
  gp_passthrough :: "passthrough_payload option"

datatype initial_resolution =
    Res_Pending
  | Res_Denied string string
  | Res_Approved string grant_params bool

datatype insert_outcome =
    Created access_request_row "uuid option"
  | Existing access_request_row
  | PendingCapExceeded

datatype approve_outcome = Approved_as uuid | NotApprovable | SecretNameTaken | SecretGone

section \<open>Rows the operations insert\<close>

definition new_request_row ::
  "time \<Rightarrow> uuid \<Rightarrow> new_access_request \<Rightarrow> sealed option \<Rightarrow> access_request_row" where
  "new_request_row now i req ctx =
     \<lparr>ar_id = i, ar_client_name = nr_client_name req, ar_secret_name = nr_secret_name req,
      ar_mechanism = nr_mechanism req, ar_constraints = nr_constraints req,
      ar_context_ciphertext = map_option sl_ciphertext ctx,
      ar_context_nonce = map_option sl_nonce ctx,
      ar_context_wrapped_dek = map_option sl_wrapped_dek ctx,
      ar_context_kek_id = map_option sl_kek_id ctx,
      ar_state = ''pending'', ar_policy_not_after = nr_policy_not_after req,
      ar_deny_reason = None, ar_resolved_by = None, ar_created_at = now, ar_resolved_at = None,
      ar_expires_at = nr_expires_at req, ar_push_delivered_at = None, ar_push_attempts = 0,
      ar_notify_only = False, ar_idem_client = nr_idem_client req, ar_idem_key = nr_idem_key req,
      ar_idem_mac = nr_idem_mac req\<rparr>"

definition new_grant_row :: "time \<Rightarrow> uuid \<Rightarrow> uuid \<Rightarrow> grant_params \<Rightarrow> grant_row" where
  "new_grant_row now gid rid g =
     \<lparr>gr_id = gid, gr_request_id = rid, gr_client_name = gp_client_name g,
      gr_secret_name = gp_secret_name g, gr_mechanism = gp_mechanism g,
      gr_constraints = gp_constraints g, gr_not_after = gp_not_after g,
      gr_max_uses = gp_max_uses g, gr_use_count = 0, gr_revoked = False,
      gr_passthrough_ciphertext = map_option pp_ciphertext (gp_passthrough g),
      gr_passthrough_nonce = map_option pp_nonce (gp_passthrough g),
      gr_passthrough_wrapped_dek = map_option pp_wrapped_dek (gp_passthrough g),
      gr_passthrough_ephemeral = (gp_passthrough g \<noteq> None), gr_created_at = now\<rparr>"

definition approved_event :: "uuid \<Rightarrow> uuid \<Rightarrow> grant_params \<Rightarrow> string \<Rightarrow> audit_event" where
  "approved_event rid gid g by_whom =
     audit_default\<lparr>ae_kind := REQUEST_APPROVED, ae_request_id := Some rid, ae_grant_id := Some gid,
       ae_client_name := Some (gp_client_name g), ae_secret_name := Some (gp_secret_name g),
       ae_actor := Some by_whom\<rparr>"

definition set_approved :: "time \<Rightarrow> string \<Rightarrow> access_request_row \<Rightarrow> access_request_row" where
  "set_approved now by_whom r =
     r\<lparr>ar_state := ''approved'', ar_resolved_by := Some by_whom, ar_resolved_at := Some now\<rparr>"

definition set_denied :: "time \<Rightarrow> string \<Rightarrow> string \<Rightarrow> access_request_row \<Rightarrow> access_request_row" where
  "set_denied now reason by_whom r =
     r\<lparr>ar_state := ''denied'', ar_deny_reason := Some reason, ar_resolved_by := Some by_whom,
       ar_resolved_at := Some now\<rparr>"

definition set_expired :: "time \<Rightarrow> access_request_row \<Rightarrow> access_request_row" where
  "set_expired now r = r\<lparr>ar_state := ''expired'', ar_resolved_at := Some now\<rparr>"

section \<open>Creation\<close>

definition get_request :: "uuid \<Rightarrow> db \<Rightarrow> access_request_row option" where
  "get_request i d = find (\<lambda>r. ar_id r = i) (db_requests d)"

definition get_request_by_idem :: "string \<Rightarrow> string \<Rightarrow> db \<Rightarrow> access_request_row option" where
  "get_request_by_idem c k d = find (\<lambda>r. ar_idem_client r = c \<and> ar_idem_key r = k) (db_requests d)"

text \<open>The optional context: \<^term>\<open>None\<close> when the client sent none, \<^term>\<open>Some None\<close> when sealing
  it fails.\<close>

definition insert_access_request ::
  "time \<Rightarrow> uuid \<Rightarrow> new_access_request \<Rightarrow> seal_fn option \<Rightarrow> db
   \<Rightarrow> store_error + ((access_request_row \<times> bool) \<times> db)" where
  "insert_access_request now fresh req seal_context d =
     (if seal_context = Some None then Inl Seal_error
      else
        (let row = new_request_row now fresh req (Option.bind seal_context id)
         in case insert_request_row_if_free row d of
              Inl e \<Rightarrow> Inl e
            | Inr (Some d') \<Rightarrow> Inr ((row, True), d')
            | Inr None \<Rightarrow>
                (case get_request_by_idem (nr_idem_client req) (nr_idem_key req) d of
                   None \<Rightarrow> Inl Row_not_found
                 | Some r \<Rightarrow> Inr ((r, False), d))))"

text \<open>The guard in front of a grant that carries no payload of its own: the stored secret the
  decision was made against, by id and name, must still exist.\<close>

definition same_secret_row :: "grant_params \<Rightarrow> db \<Rightarrow> bool" where
  "same_secret_row g d =
     (case gp_secret_id g of
        Some sid \<Rightarrow> secret_incarnation_exists sid (gp_secret_name g) d
      | None \<Rightarrow> False)"

definition count_live_pending :: "time \<Rightarrow> string \<Rightarrow> db \<Rightarrow> nat" where
  "count_live_pending now c d =
     length (filter (\<lambda>r. ar_client_name r = c \<and> ar_state r = ''pending'' \<and> now < ar_expires_at r)
               (db_requests d))"

text \<open>The resolution decided by policy, applied to the row just inserted.\<close>

definition apply_resolution ::
  "time \<Rightarrow> uuid \<Rightarrow> access_request_row \<Rightarrow> initial_resolution \<Rightarrow> db
   \<Rightarrow> store_error + ((access_request_row \<times> uuid option) \<times> db)" where
  "apply_resolution now fresh_grant row resolution d =
     (case resolution of
        Res_Pending \<Rightarrow> Inr ((row, None), d)
      | Res_Denied reason by_whom \<Rightarrow>
          (let d1 = d\<lparr>db_requests := upd_where (\<lambda>r. ar_id r = ar_id row) (set_denied now reason by_whom)
                                        (db_requests d)\<rparr>
           in Inr ((set_denied now reason by_whom row, None),
                   insert_audit now (audit_default\<lparr>ae_kind := REQUEST_DENIED,
                     ae_request_id := Some (ar_id row), ae_client_name := Some (ar_client_name row),
                     ae_secret_name := Some (ar_secret_name row), ae_actor := Some by_whom\<rparr>) d1))
      | Res_Approved by_whom g notify_only \<Rightarrow>
          (if now < gp_not_after g then
             (let set_row = (\<lambda>r. (set_approved now by_whom r)\<lparr>ar_notify_only := notify_only\<rparr>);
                  d1 = d\<lparr>db_requests := upd_where (\<lambda>r. ar_id r = ar_id row) set_row (db_requests d)\<rparr>
              in case insert_grant_row (new_grant_row now fresh_grant (ar_id row) g) d1 of
                   Inl e \<Rightarrow> Inl e
                 | Inr d2 \<Rightarrow>
                     Inr ((set_row row, Some fresh_grant),
                          insert_audit now (approved_event (ar_id row) fresh_grant g by_whom) d2))
           else Inl (Bail ''auto-approval grant deadline elapsed during insert'')))"

definition insert_access_request_with_id ::
  "time \<Rightarrow> uuid \<Rightarrow> uuid \<Rightarrow> new_access_request \<Rightarrow> int option \<Rightarrow> initial_resolution \<Rightarrow> seal_fn option \<Rightarrow> db
   \<Rightarrow> store_error + (insert_outcome \<times> db)" where
  "insert_access_request_with_id now i fresh_grant req pending_cap resolution seal_context d =
     (let gone = (case resolution of
                    Res_Approved _ g _ \<Rightarrow> gp_passthrough g = None \<and> \<not> same_secret_row g d
                  | _ \<Rightarrow> False)
      in if gone then Inl (Bail ''the stored secret changed identity during auto-approval'')
         else if seal_context = Some None then Inl Seal_error
         else
           (let row = new_request_row now i req (Option.bind seal_context id)
            in case insert_request_row_if_free row d of
                 Inl e \<Rightarrow> Inl e
               | Inr None \<Rightarrow>
                   (case get_request_by_idem (nr_idem_client req) (nr_idem_key req) d of
                      None \<Rightarrow> Inl (Bail ''idempotency conflict row vanished'')
                    | Some r \<Rightarrow> Inr (Existing r, d))
               | Inr (Some d1) \<Rightarrow>
                   (let over_cap = (case pending_cap of
                                      Some cap \<Rightarrow> cap < int (count_live_pending now (nr_client_name req) d1)
                                    | None \<Rightarrow> False)
                    in if over_cap then Inr (PendingCapExceeded, d)
                       else
                         (let d2 = insert_audit now (audit_default\<lparr>ae_kind := REQUEST_CREATED,
                                     ae_request_id := Some (ar_id row),
                                     ae_client_name := Some (nr_client_name req),
                                     ae_secret_name := Some (nr_secret_name req),
                                     ae_detail := Some (JObject [(''mechanism'', JString (nr_mechanism req))])\<rparr>) d1
                          in case apply_resolution now fresh_grant row resolution d2 of
                               Inl e \<Rightarrow> Inl e
                             | Inr ((row', gid), d3) \<Rightarrow> Inr (Created row' gid, d3)))))"

section \<open>Resolution\<close>

definition resolve_approve ::
  "time \<Rightarrow> uuid \<Rightarrow> uuid \<Rightarrow> string \<Rightarrow> grant_params \<Rightarrow> db \<Rightarrow> store_error + (uuid option \<times> db)" where
  "resolve_approve now fresh_grant rid by_whom g d =
     (if gp_passthrough g = None \<and> \<not> same_secret_row g d then Inr (None, d)
      else
        (let hit = (\<lambda>r. ar_id r = rid \<and> ar_state r = ''pending'' \<and> now < ar_expires_at r)
         in if length (filter hit (db_requests d)) \<noteq> 1 then Inr (None, d)
            else
              (let d1 = d\<lparr>db_requests := upd_where hit (set_approved now by_whom) (db_requests d)\<rparr>
               in case insert_grant_row (new_grant_row now fresh_grant rid g) d1 of
                    Inl e \<Rightarrow> Inl e
                  | Inr d2 \<Rightarrow>
                      Inr (Some fresh_grant, insert_audit now (approved_event rid fresh_grant g by_whom) d2))))"

definition resolve_deny ::
  "time \<Rightarrow> uuid \<Rightarrow> string \<Rightarrow> string \<Rightarrow> db \<Rightarrow> store_error + (bool \<times> db)" where
  "resolve_deny now rid by_whom reason d =
     (let hit = (\<lambda>r. ar_id r = rid \<and> ar_state r = ''pending'' \<and> now < ar_expires_at r)
      in case find hit (db_requests d) of
           None \<Rightarrow> Inr (False, d)
         | Some r \<Rightarrow>
             Inr (True, insert_audit now (audit_default\<lparr>ae_kind := REQUEST_DENIED,
                     ae_request_id := Some rid, ae_client_name := Some (ar_client_name r),
                     ae_secret_name := Some (ar_secret_name r), ae_actor := Some by_whom\<rparr>)
                   (d\<lparr>db_requests := upd_where hit (set_denied now reason by_whom) (db_requests d)\<rparr>)))"

text \<open>Approval from the UI with an application-generated grant id; \<open>store\<close> creates the secret
  and its version 1 (with database-drawn id \<open>fresh_version\<close>) in the same transaction.\<close>

definition new_secret_row :: "time \<Rightarrow> store_secret_params \<Rightarrow> bool \<Rightarrow> secret_row" where
  "new_secret_row now s vetted =
     \<lparr>sec_id = sp_secret_id s, sec_name = sp_name s, sec_description = sp_description s,
      sec_max_tier = sp_max_tier s, sec_injection_kind = sp_injection_kind s,
      sec_injection_header = sp_injection_header s, sec_injection_username = sp_injection_username s,
      sec_current_version = 1, sec_enabled = True, sec_operator_vetted = vetted,
      sec_managed_by_config = False, sec_created_at = now, sec_updated_at = now\<rparr>"

definition new_version_row ::
  "time \<Rightarrow> uuid \<Rightarrow> uuid \<Rightarrow> int \<Rightarrow> sealed \<Rightarrow> uuid option \<Rightarrow> secret_version_row" where
  "new_version_row now vid sid v sl by_request =
     \<lparr>ver_id = vid, ver_secret_id = sid, ver_version = v, ver_ciphertext = sl_ciphertext sl,
      ver_nonce = sl_nonce sl, ver_wrapped_dek = sl_wrapped_dek sl, ver_kek_id = sl_kek_id sl,
      ver_created_at = now, ver_created_by_request = by_request\<rparr>"

text \<open>The "also store this secret" part of an approval: \<^term>\<open>Inr None\<close> when the name is taken.\<close>

definition approve_store ::
  "time \<Rightarrow> uuid \<Rightarrow> uuid \<Rightarrow> string \<Rightarrow> store_secret_params \<Rightarrow> db \<Rightarrow> store_error + db option" where
  "approve_store now rid fresh_version by_whom s d =
     (case sp_seal s of
        None \<Rightarrow> Inl Seal_error
      | Some sl \<Rightarrow>
          (case insert_secret_row_if_free (new_secret_row now s True) d of
             Inl e \<Rightarrow> Inl e
           | Inr None \<Rightarrow> Inr None
           | Inr (Some d1) \<Rightarrow>
               (case insert_version_row (new_version_row now fresh_version (sp_secret_id s) 1 sl (Some rid)) d1 of
                  Inl e \<Rightarrow> Inl e
                | Inr d2 \<Rightarrow>
                    Inr (Some (insert_audit now (audit_default\<lparr>ae_kind := SECRET_CREATED,
                       ae_request_id := Some rid, ae_secret_name := Some (sp_name s),
                       ae_actor := Some by_whom\<rparr>) d2)))))"

definition approve_request ::
  "time \<Rightarrow> uuid \<Rightarrow> uuid \<Rightarrow> string \<Rightarrow> uuid \<Rightarrow> grant_params \<Rightarrow> store_secret_params option \<Rightarrow> db
   \<Rightarrow> store_error + (approve_outcome \<times> db)" where
  "approve_request now fresh_version rid by_whom gid g store d =
     (if gp_passthrough g = None \<and> store = None \<and> \<not> same_secret_row g d then Inr (SecretGone, d)
      else
        (let hit = (\<lambda>r. ar_id r = rid \<and> ar_state r = ''pending'' \<and> now < ar_expires_at r
                        \<and> now < gp_not_after g)
         in case find hit (db_requests d) of
              None \<Rightarrow> Inr (NotApprovable, d)
            | Some r \<Rightarrow>
                (let d1 = d\<lparr>db_requests := upd_where hit (set_approved now by_whom) (db_requests d)\<rparr>
                 in case (case store of
                            None \<Rightarrow> Inr (Some d1)
                          | Some s \<Rightarrow> approve_store now rid fresh_version by_whom s d1) of
                      Inl e \<Rightarrow> Inl e
                    | Inr None \<Rightarrow> Inr (SecretNameTaken, d)
                    | Inr (Some d2) \<Rightarrow>
                        (case insert_grant_row (new_grant_row now gid rid g) d2 of
                           Inl e \<Rightarrow> Inl e
                         | Inr d3 \<Rightarrow>
                             Inr (Approved_as gid,
                                  insert_audit now ((approved_event rid gid g by_whom)\<lparr>ae_detail :=
                                     (if ar_secret_name r \<noteq> gp_secret_name g
                                      then Some (JObject [(''substituted_for_requested_name'',
                                                           JString (ar_secret_name r))])
                                      else None)\<rparr>) d3)))))"

section \<open>Expiry, retention and the push outbox\<close>

definition expired_event :: "access_request_row \<Rightarrow> audit_event" where
  "expired_event r =
     audit_default\<lparr>ae_kind := REQUEST_EXPIRED, ae_request_id := Some (ar_id r),
       ae_client_name := Some (ar_client_name r), ae_secret_name := Some (ar_secret_name r)\<rparr>"

definition expire_stale :: "time \<Rightarrow> db \<Rightarrow> nat \<times> db" where
  "expire_stale now d =
     (let hit = (\<lambda>r. ar_state r = ''pending'' \<and> ar_expires_at r < now);
          expired = filter hit (db_requests d)
      in (length expired,
          insert_audits now (map expired_event expired)
            (d\<lparr>db_requests := upd_where hit (set_expired now) (db_requests d)\<rparr>)))"

definition clear_context :: "access_request_row \<Rightarrow> access_request_row" where
  "clear_context r =
     r\<lparr>ar_context_ciphertext := None, ar_context_nonce := None, ar_context_wrapped_dek := None,
       ar_context_kek_id := None\<rparr>"

definition purge_request_context :: "time \<Rightarrow> int \<Rightarrow> db \<Rightarrow> nat \<times> db" where
  "purge_request_context now retention_seconds d =
     (let hit = (\<lambda>r. ar_state r \<noteq> ''pending''
                     \<and> (case ar_resolved_at r of
                          None \<Rightarrow> False
                        | Some t \<Rightarrow> t < now - interval_secs retention_seconds)
                     \<and> ar_context_ciphertext r \<noteq> None)
      in (length (filter hit (db_requests d)),
          d\<lparr>db_requests := upd_where hit clear_context (db_requests d)\<rparr>))"

definition mark_push_delivered :: "time \<Rightarrow> uuid \<Rightarrow> db \<Rightarrow> db" where
  "mark_push_delivered now rid d =
     d\<lparr>db_requests := upd_where (\<lambda>r. ar_id r = rid) (\<lambda>r. r\<lparr>ar_push_delivered_at := Some now\<rparr>)
                         (db_requests d)\<rparr>"

definition bump_push_attempts :: "access_request_row \<Rightarrow> access_request_row" where
  "bump_push_attempts r = r\<lparr>ar_push_attempts := ar_push_attempts r + 1\<rparr>"

definition increment_push_attempts :: "uuid \<Rightarrow> db \<Rightarrow> store_error + db" where
  "increment_push_attempts rid d =
     (if list_ex (\<lambda>r. ar_id r = rid \<and> ar_push_attempts r = I32_MAX) (db_requests d)
        then Inl Integer_out_of_range
      else Inr (d\<lparr>db_requests := upd_where (\<lambda>r. ar_id r = rid) bump_push_attempts (db_requests d)\<rparr>))"

definition count_pending_for_client :: "string \<Rightarrow> db \<Rightarrow> nat" where
  "count_pending_for_client c d =
     length (filter (\<lambda>r. ar_client_name r = c \<and> ar_state r = ''pending'') (db_requests d))"

definition count_pending :: "time \<Rightarrow> db \<Rightarrow> nat" where
  "count_pending now d =
     length (filter (\<lambda>r. ar_state r = ''pending'' \<and> now < ar_expires_at r) (db_requests d))"

definition list_pending :: "db \<Rightarrow> access_request_row list" where
  "list_pending d = sort_key ar_created_at (filter (\<lambda>r. ar_state r = ''pending'') (db_requests d))"

definition list_notify_only_needing_push :: "time \<Rightarrow> int \<Rightarrow> db \<Rightarrow> access_request_row list" where
  "list_notify_only_needing_push now retry_window_seconds d =
     sort_key ar_created_at
       (filter (\<lambda>r. ar_notify_only r \<and> ar_state r = ''approved'' \<and> ar_push_delivered_at r = None
                  \<and> now - interval_secs retry_window_seconds < ar_created_at r) (db_requests d))"

definition list_pending_needing_push :: "time \<Rightarrow> int \<Rightarrow> db \<Rightarrow> access_request_row list" where
  "list_pending_needing_push now max_attempts d =
     sort_key ar_created_at
       (filter (\<lambda>r. ar_state r = ''pending'' \<and> ar_push_delivered_at r = None
                  \<and> ar_push_attempts r < max_attempts \<and> now < ar_expires_at r) (db_requests d))"

definition recent_duplicate_push :: "access_request_row \<Rightarrow> time \<Rightarrow> db \<Rightarrow> bool" where
  "recent_duplicate_push row since d \<longleftrightarrow>
     list_ex (\<lambda>r. ar_id r \<noteq> ar_id row \<and> ar_client_name r = ar_client_name row
                \<and> ar_secret_name r = ar_secret_name row \<and> ar_mechanism r = ar_mechanism row
                \<and> ar_constraints r = ar_constraints row \<and> ar_state r = ''pending''
                \<and> (case ar_push_delivered_at r of None \<Rightarrow> False | Some t \<Rightarrow> since < t)
                \<and> 0 < ar_push_attempts r) (db_requests d)"


section \<open>Row updates keep the keys\<close>

interpretation approve_id: row_update ar_id "set_approved now by_whom" for now by_whom
  by unfold_locales (simp add: set_approved_def)

interpretation deny_id: row_update ar_id "set_denied now reason by_whom" for now reason by_whom
  by unfold_locales (simp add: set_denied_def)

interpretation expire_id: row_update ar_id "set_expired now" for now
  by unfold_locales (simp add: set_expired_def)

interpretation clear_id: row_update ar_id clear_context
  by unfold_locales (simp add: clear_context_def)

interpretation bump_id: row_update ar_id bump_push_attempts
  by unfold_locales (simp add: bump_push_attempts_def)

lemma set_approved_fields [simp]:
  "ar_id (set_approved now w r) = ar_id r" "ar_state (set_approved now w r) = ''approved''"
  "ar_idem_client (set_approved now w r) = ar_idem_client r"
  "ar_idem_key (set_approved now w r) = ar_idem_key r"
  "ar_client_name (set_approved now w r) = ar_client_name r" "ar_idem_mac (set_approved now w r) = ar_idem_mac r"
  "ar_secret_name (set_approved now w r) = ar_secret_name r"
  by (simp_all add: set_approved_def)

lemma set_denied_fields [simp]:
  "ar_id (set_denied now x w r) = ar_id r" "ar_state (set_denied now x w r) = ''denied''"
  "ar_idem_client (set_denied now x w r) = ar_idem_client r"
  "ar_idem_key (set_denied now x w r) = ar_idem_key r"
  "ar_client_name (set_denied now x w r) = ar_client_name r" "ar_idem_mac (set_denied now x w r) = ar_idem_mac r"
  "ar_secret_name (set_denied now x w r) = ar_secret_name r"
  by (simp_all add: set_denied_def)

lemma set_expired_fields [simp]:
  "ar_id (set_expired now r) = ar_id r" "ar_state (set_expired now r) = ''expired''"
  "ar_idem_client (set_expired now r) = ar_idem_client r"
  "ar_idem_key (set_expired now r) = ar_idem_key r"
  "ar_client_name (set_expired now r) = ar_client_name r" "ar_idem_mac (set_expired now r) = ar_idem_mac r"
  "ar_secret_name (set_expired now r) = ar_secret_name r"
  by (simp_all add: set_expired_def)

lemma new_request_row_fields [simp]:
  "ar_id (new_request_row now i req ctx) = i"
  "ar_state (new_request_row now i req ctx) = ''pending''"
  "ar_idem_client (new_request_row now i req ctx) = nr_idem_client req"
  "ar_idem_key (new_request_row now i req ctx) = nr_idem_key req"
  "ar_client_name (new_request_row now i req ctx) = nr_client_name req"
  "ar_secret_name (new_request_row now i req ctx) = nr_secret_name req"
  "ar_expires_at (new_request_row now i req ctx) = nr_expires_at req"
  by (simp_all add: new_request_row_def)

lemma new_grant_row_fields [simp]:
  "gr_id (new_grant_row now gid rid g) = gid" "gr_request_id (new_grant_row now gid rid g) = rid"
  "gr_use_count (new_grant_row now gid rid g) = 0" "gr_max_uses (new_grant_row now gid rid g) = gp_max_uses g"
  "gr_revoked (new_grant_row now gid rid g) = False" "gr_not_after (new_grant_row now gid rid g) = gp_not_after g"
  "gr_secret_name (new_grant_row now gid rid g) = gp_secret_name g"
  "gr_client_name (new_grant_row now gid rid g) = gp_client_name g"
  "gr_mechanism (new_grant_row now gid rid g) = gp_mechanism g"
  "gr_passthrough_ephemeral (new_grant_row now gid rid g) = (gp_passthrough g \<noteq> None)"
  by (simp_all add: new_grant_row_def)

section \<open>What the operations do\<close>

lemma insert_access_request_cases:
  assumes "insert_access_request now fresh req seal d = Inr (r, d')"
  obtains (Same) row where "d' = d" "r = (row, False)"
      "get_request_by_idem (nr_idem_client req) (nr_idem_key req) d = Some row"
  | (New) ctx where "r = (new_request_row now fresh req ctx, True)"
      "insert_request_row_if_free (new_request_row now fresh req ctx) d = Inr (Some d')"
  using assms
  by (auto simp: insert_access_request_def Let_def split: if_splits sum.splits option.splits)

lemma insert_access_request_with_id_cases:
  assumes ins: "insert_access_request_with_id now i fg req cap res seal d = Inr (out, d')"
  obtains (Same) "d' = d"
      "out = PendingCapExceeded \<or> (\<exists>row. out = Existing row
         \<and> get_request_by_idem (nr_idem_client req) (nr_idem_key req) d = Some row)"
  | (Pend) ctx d1 e where "res = Res_Pending"
      "insert_request_row_if_free (new_request_row now i req ctx) d = Inr (Some d1)"
      "out = Created (new_request_row now i req ctx) None"
      "d' = insert_audit now e d1" "ae_kind e = REQUEST_CREATED"
      "\<forall>c. cap = Some c \<longrightarrow> int (count_live_pending now (nr_client_name req) d1) \<le> c"
  | (Den) ctx d1 reason by_whom e e' where "res = Res_Denied reason by_whom"
      "insert_request_row_if_free (new_request_row now i req ctx) d = Inr (Some d1)"
      "out = Created (set_denied now reason by_whom (new_request_row now i req ctx)) None"
      "d' = insert_audits now [e, e'] (d\<lparr>db_requests := db_requests d
              @ [set_denied now reason by_whom (new_request_row now i req ctx)]\<rparr>)"
      "ae_kind e = REQUEST_CREATED" "ae_kind e' = REQUEST_DENIED"
  | (App) ctx d1 by_whom g n e e' where "res = Res_Approved by_whom g n"
      "insert_request_row_if_free (new_request_row now i req ctx) d = Inr (Some d1)"
      "now < gp_not_after g" "gp_passthrough g = None \<longrightarrow> same_secret_row g d"
      "out = Created ((set_approved now by_whom (new_request_row now i req ctx))\<lparr>ar_notify_only := n\<rparr>) (Some fg)"
      "fg \<notin> gr_id ` set (db_grants d)" "i \<notin> gr_request_id ` set (db_grants d)"
      "d' = insert_audits now [e, e'] (d\<lparr>db_requests := db_requests d
              @ [(set_approved now by_whom (new_request_row now i req ctx))\<lparr>ar_notify_only := n\<rparr>],
              db_grants := db_grants d @ [new_grant_row now fg i g]\<rparr>)"
      "ae_kind e = REQUEST_CREATED" "e' = approved_event i fg g by_whom"
proof -
  let ?ctx = "Option.bind seal id"
  let ?row = "new_request_row now i req ?ctx"
  define ev where "ev = audit_default\<lparr>ae_kind := REQUEST_CREATED, ae_request_id := Some (ar_id ?row),
      ae_client_name := Some (nr_client_name req), ae_secret_name := Some (nr_secret_name req),
      ae_detail := Some (JObject [(''mechanism'', JString (nr_mechanism req))])\<rparr>"
  have evk: "ae_kind ev = REQUEST_CREATED"
    by (simp add: ev_def)
  show thesis
  proof (cases "insert_request_row_if_free ?row d")
    case (Inl e)
    with ins show thesis
      by (auto simp: insert_access_request_with_id_def Let_def split: if_splits)
  next
    case (Inr o1)
    show thesis
    proof (cases o1)
      case None
      with ins Inr show thesis
        by (intro Same) (auto simp: insert_access_request_with_id_def Let_def split: if_splits option.splits)
    next
      case (Some d1)
      note row = Inr [unfolded Some]
      have d1: "d1 = d\<lparr>db_requests := db_requests d @ [?row]\<rparr>" and fresh: "i \<notin> ar_id ` set (db_requests d)"
        using row by (auto simp: insert_request_row_Inr)
      show thesis
      proof (cases "case cap of Some c \<Rightarrow> c < int (count_live_pending now (nr_client_name req) d1) | None \<Rightarrow> False")
        case True
        with ins row show thesis
          by (intro Same) (auto simp: insert_access_request_with_id_def Let_def split: if_splits)
      next
        case cap: False
        have gone: "\<not> (case res of Res_Approved _ g _ \<Rightarrow> gp_passthrough g = None \<and> \<not> same_secret_row g d | _ \<Rightarrow> False)"
          using ins by (auto simp: insert_access_request_with_id_def Let_def split: if_splits)
        obtain row' gid where ap: "apply_resolution now fg ?row res (insert_audit now ev d1) = Inr ((row', gid), d')"
            and out: "out = Created row' gid"
          using ins row cap by (auto simp: insert_access_request_with_id_def Let_def ev_def split: if_splits sum.splits)
        have capd: "\<forall>c. cap = Some c \<longrightarrow> int (count_live_pending now (nr_client_name req) d1) \<le> c"
          using cap by auto
        show thesis
        proof (cases res)
          case Res_Pending
          with ap out evk capd row show thesis
            by (intro Pend [of ?ctx d1 ev]) (auto simp: apply_resolution_def)
        next
          case (Res_Denied reason by_whom)
          define ev2 where "ev2 = audit_default\<lparr>ae_kind := REQUEST_DENIED,
                     ae_request_id := Some (ar_id ?row), ae_client_name := Some (ar_client_name ?row),
                     ae_secret_name := Some (ar_secret_name ?row), ae_actor := Some by_whom\<rparr>"
          show thesis
          proof (rule Den [OF Res_Denied row, of ev ev2])
            show "out = Created (set_denied now reason by_whom ?row) None"
              using ap out Res_Denied by (simp add: apply_resolution_def Let_def)
            show "d' = insert_audits now [ev, ev2] (d\<lparr>db_requests := db_requests d @ [set_denied now reason by_whom ?row]\<rparr>)"
              using ap Res_Denied fresh
              by (auto simp: apply_resolution_def Let_def insert_audits_def insert_audit_def d1 ev2_def
                  upd_key_fresh)
          qed (simp_all add: evk ev2_def)
        next
          case (Res_Approved by_whom g n)
          have now: "now < gp_not_after g"
            using ap Res_Approved by (auto simp: apply_resolution_def split: if_splits)
          let ?f = "\<lambda>r. (set_approved now by_whom r)\<lparr>ar_notify_only := n\<rparr>"
          obtain d2 where d2: "insert_grant_row (new_grant_row now fg i g)
                ((insert_audit now ev d1)\<lparr>db_requests := db_requests d @ [?f ?row]\<rparr>) = Inr d2"
              and o2: "row' = ?f ?row" "gid = Some fg" "d' = insert_audit now (approved_event i fg g by_whom) d2"
            using ap Res_Approved now fresh
            by (auto simp: apply_resolution_def Let_def d1 upd_key_fresh split: sum.splits)
          show thesis
          proof (rule App [OF Res_Approved row now])
            show "gp_passthrough g = None \<longrightarrow> same_secret_row g d"
              using gone Res_Approved by auto
            show "d' = insert_audits now [ev, approved_event i fg g by_whom] (d\<lparr>db_requests := db_requests d
              @ [?f ?row], db_grants := db_grants d @ [new_grant_row now fg i g]\<rparr>)"
              using d2 by (simp add: o2 insert_grant_row_Inr insert_audits_def insert_audit_def d1)
          qed (use d2 in \<open>simp_all add: out o2 evk insert_grant_row_Inr d1\<close>)
        qed
      qed
    qed
  qed
qed


text \<open>A unique pending row: the update touches exactly that row.\<close>

lemma find_request_hit:
  assumes "distinct (map ar_id rs)" and "find (\<lambda>r. ar_id r = rid \<and> P r) rs = Some r"
  shows "r \<in> set rs" "ar_id r = rid" "P r"
    "upd_where (\<lambda>q. ar_id q = rid \<and> P q) f rs = upd_where (\<lambda>q. ar_id q = rid) f rs"
proof -
  show r: "r \<in> set rs" "ar_id r = rid" "P r"
    using find_Some_mem [OF assms(2)] by auto
  show "upd_where (\<lambda>q. ar_id q = rid \<and> P q) f rs = upd_where (\<lambda>q. ar_id q = rid) f rs"
    unfolding upd_where_def using r
    by (intro map_cong refl if_cong) (auto dest: distinct_map_same [OF assms(1)])
qed

lemma filter_one_find: "length (filter P rs) = 1 \<Longrightarrow> \<exists>r. find P rs = Some r"
  by (metis One_nat_def filter_empty_conv find_None_iff list.size(3) not_None_eq zero_neq_one)

lemma resolve_approve_cases:
  assumes ids: "distinct (map ar_id (db_requests d))"
    and res: "resolve_approve now fg rid by_whom g d = Inr (out, d')"
  obtains (Same) "d' = d" "out = None"
  | (App) r where "out = Some fg" "r \<in> set (db_requests d)" "ar_id r = rid" "ar_state r = ''pending''"
      "now < ar_expires_at r" "gp_passthrough g = None \<longrightarrow> same_secret_row g d"
      "fg \<notin> gr_id ` set (db_grants d)" "rid \<notin> gr_request_id ` set (db_grants d)"
      "d' = insert_audit now (approved_event rid fg g by_whom)
         (d\<lparr>db_requests := upd_where (\<lambda>q. ar_id q = rid) (set_approved now by_whom) (db_requests d),
            db_grants := db_grants d @ [new_grant_row now fg rid g]\<rparr>)"
proof -
  let ?P = "\<lambda>r. ar_state r = ''pending'' \<and> now < ar_expires_at r"
  show thesis
  proof (cases "(gp_passthrough g = None \<and> \<not> same_secret_row g d)
      \<or> length (filter (\<lambda>r. ar_id r = rid \<and> ?P r) (db_requests d)) \<noteq> 1")
    case True
    with res show thesis by (intro Same) (auto simp: resolve_approve_def Let_def split: if_splits)
  next
    case False
    then obtain r where r: "find (\<lambda>r. ar_id r = rid \<and> ?P r) (db_requests d) = Some r"
      using filter_one_find by blast
    note hit = find_request_hit [OF ids r]
    from res False obtain d2 where d2: "insert_grant_row (new_grant_row now fg rid g)
        (d\<lparr>db_requests := upd_where (\<lambda>q. ar_id q = rid) (set_approved now by_whom) (db_requests d)\<rparr>) = Inr d2"
        and o2: "out = Some fg" "d' = insert_audit now (approved_event rid fg g by_whom) d2"
      unfolding resolve_approve_def Let_def hit(4) by (auto split: sum.splits if_splits)
    from False hit d2 show thesis
      by (intro App [of r]) (auto simp: o2 insert_grant_row_Inr)
  qed
qed

lemma resolve_deny_cases:
  assumes ids: "distinct (map ar_id (db_requests d))"
    and res: "resolve_deny now rid by_whom reason d = Inr (out, d')"
  obtains (Same) "d' = d" "out = False"
  | (Den) r e where "out = True" "r \<in> set (db_requests d)" "ar_id r = rid" "ar_state r = ''pending''"
      "now < ar_expires_at r" "ae_kind e = REQUEST_DENIED"
      "d' = insert_audit now e
         (d\<lparr>db_requests := upd_where (\<lambda>q. ar_id q = rid) (set_denied now reason by_whom) (db_requests d)\<rparr>)"
proof -
  let ?P = "\<lambda>r. ar_state r = ''pending'' \<and> now < ar_expires_at r"
  show thesis
  proof (cases "find (\<lambda>r. ar_id r = rid \<and> ?P r) (db_requests d)")
    case None
    with res show thesis by (intro Same) (auto simp: resolve_deny_def Let_def)
  next
    case (Some r)
    note hit = find_request_hit [OF ids Some]
    from res Some hit show thesis
      by (intro Den [of r]) (auto simp: resolve_deny_def Let_def hit(4))
  qed
qed

lemma approve_store_Inr:
  assumes "approve_store now rid fv by_whom s d = Inr (Some d')"
  obtains sl e where "sp_seal s = Some sl" "ae_kind e = SECRET_CREATED"
    "d' = insert_audit now e (d\<lparr>db_secrets := db_secrets d @ [new_secret_row now s True],
       db_versions := db_versions d @ [new_version_row now fv (sp_secret_id s) 1 sl (Some rid)]\<rparr>)"
    "sp_secret_id s \<notin> sec_id ` set (db_secrets d)" "sp_name s \<notin> sec_name ` set (db_secrets d)"
    "fv \<notin> ver_id ` set (db_versions d)"
    "\<forall>r \<in> set (db_versions d). \<not> (ver_secret_id r = sp_secret_id s \<and> ver_version r = 1)"
proof -
  from assms obtain sl d1 d2 where sl: "sp_seal s = Some sl"
      and d1: "insert_secret_row_if_free (new_secret_row now s True) d = Inr (Some d1)"
      and d2: "insert_version_row (new_version_row now fv (sp_secret_id s) 1 sl (Some rid)) d1 = Inr d2"
      and d': "d' = insert_audit now (audit_default\<lparr>ae_kind := SECRET_CREATED,
           ae_request_id := Some rid, ae_secret_name := Some (sp_name s), ae_actor := Some by_whom\<rparr>) d2"
    by (auto simp: approve_store_def split: option.splits sum.splits)
  show thesis
    by (rule that [OF sl _ d' [unfolded d2 [unfolded insert_version_row_Inr, THEN conjunct1]
            d1 [unfolded insert_secret_row_if_free_Inr, THEN conjunct1], simplified]])
      (use d1 d2 in \<open>auto simp: table_simps new_secret_row_def new_version_row_def\<close>)
qed

lemma approve_request_cases:
  assumes ids: "distinct (map ar_id (db_requests d))"
    and res: "approve_request now fv rid by_whom gid g store d = Inr (out, d')"
  obtains (Same) "d' = d" "out = NotApprovable \<or> out = SecretNameTaken \<or> out = SecretGone"
  | (App) r d1 e where "out = Approved_as gid" "r \<in> set (db_requests d)" "ar_id r = rid"
      "ar_state r = ''pending''" "now < ar_expires_at r" "now < gp_not_after g"
      "gp_passthrough g = None \<longrightarrow> store = None \<longrightarrow> same_secret_row g d"
      "gid \<notin> gr_id ` set (db_grants d)" "rid \<notin> gr_request_id ` set (db_grants d)"
      "ae_kind e = REQUEST_APPROVED" "ae_grant_id e = Some gid"
      "case store of None \<Rightarrow> d1 = d | Some s \<Rightarrow> approve_store now rid fv by_whom s d = Inr (Some d1)"
      "d' = insert_audit now e
         (d1\<lparr>db_requests := upd_where (\<lambda>q. ar_id q = rid) (set_approved now by_whom) (db_requests d),
             db_grants := db_grants d @ [new_grant_row now gid rid g]\<rparr>)"
proof -
  let ?P = "\<lambda>r. ar_state r = ''pending'' \<and> now < ar_expires_at r \<and> now < gp_not_after g"
  show thesis
  proof (cases "gp_passthrough g = None \<and> store = None \<and> \<not> same_secret_row g d
      \<or> find (\<lambda>r. ar_id r = rid \<and> ?P r) (db_requests d) = None")
    case True
    with res show thesis by (intro Same) (auto simp: approve_request_def Let_def split: if_splits)
  next
    case False
    then obtain r where r: "find (\<lambda>r. ar_id r = rid \<and> ?P r) (db_requests d) = Some r"
      by auto
    note hit = find_request_hit [OF ids r]
    let ?up = "\<lambda>d. d\<lparr>db_requests := upd_where (\<lambda>q. ar_id q = rid) (set_approved now by_whom) (db_requests d)\<rparr>"
    have comm: "approve_store now rid fv by_whom s (?up d) = map_sum id (map_option ?up) (approve_store now rid fv by_whom s d)" for s
      by (auto simp: approve_store_def insert_secret_row_if_free_def insert_version_row_def insert_audit_def
          split: option.splits)
    show thesis
    proof (cases "store \<noteq> None \<and> approve_store now rid fv by_whom (the store) d = Inr None")
      case True
      with res False r show thesis
        by (intro Same) (auto simp: approve_request_def Let_def hit(4) comm)
    next
      case st: False
      define d1 where "d1 = (case store of None \<Rightarrow> d | Some s \<Rightarrow>
          (case approve_store now rid fv by_whom s d of Inr (Some x) \<Rightarrow> x | _ \<Rightarrow> d))"
      have d1s: "case store of None \<Rightarrow> d1 = d | Some s \<Rightarrow> approve_store now rid fv by_whom s d = Inr (Some d1)"
        using res False r st
        by (auto simp: approve_request_def Let_def hit(4) comm d1_def split: option.splits sum.splits)
      define e where "e = (approved_event rid gid g by_whom)\<lparr>ae_detail :=
         (if ar_secret_name r \<noteq> gp_secret_name g
          then Some (JObject [(''substituted_for_requested_name'', JString (ar_secret_name r))]) else None)\<rparr>"
      from res False r obtain d3 where d3: "insert_grant_row (new_grant_row now gid rid g) (?up d1) = Inr d3"
          and o3: "out = Approved_as gid" "d' = insert_audit now e d3"
        using d1s by (auto simp: approve_request_def Let_def hit(4) comm e_def split: option.splits sum.splits)
      have same: "db_requests d1 = db_requests d" "db_grants d1 = db_grants d"
        using d1s by (auto split: option.splits elim!: approve_store_Inr)
      from False hit d3 same show thesis
        by (intro App [of r e d1]) (auto simp: o3 e_def approved_event_def insert_grant_row_Inr d1s)
    qed
  qed
qed

end
