(* ===== verification/Store_Grants.thy ===== *)
theory Store_Grants
  imports Store
begin

text \<open>
  Grants in the store (\<open>server/src/db/grants.rs\<close>, the grant parts of \<open>ui_ext.rs\<close>): the atomic
  accounting of one use with idempotent replay, revocation, the purge of pass-through payloads and
  of version pins, and the predicate for grants that can still release something.
\<close>

record audit_target =
  at_method :: string
  at_origin :: string
  at_path :: string

datatype grant_use =
    NotFound
  | ExpiredOrRevoked
  | Exhausted
  | Replay grant_row "uuid option" bool
  | FirstUse grant_row

definition get_grant :: "uuid \<Rightarrow> db \<Rightarrow> grant_row option" where
  "get_grant gid d = find (\<lambda>g. gr_id g = gid) (db_grants d)"

definition get_grant_for_request :: "uuid \<Rightarrow> db \<Rightarrow> grant_row option" where
  "get_grant_for_request rid d = find (\<lambda>g. gr_request_id g = rid) (db_grants d)"

definition list_grants :: "db \<Rightarrow> grant_row list" where
  "list_grants d = sort_key (\<lambda>g. - gr_created_at g) (db_grants d)"

text \<open>The replay window, closed by the database clock.\<close>

definition in_window :: "time \<Rightarrow> int \<Rightarrow> grant_read_row \<Rightarrow> bool" where
  "in_window now w r \<longleftrightarrow> now - interval_secs w < rd_first_read_at r"

definition find_read :: "uuid \<Rightarrow> string \<Rightarrow> db \<Rightarrow> grant_read_row option" where
  "find_read gid key d = find (\<lambda>r. rd_grant_id r = gid \<and> rd_idem_key r = key) (db_reads d)"

definition live_grant :: "time \<Rightarrow> grant_row \<Rightarrow> bool" where
  "live_grant now g \<longleftrightarrow> \<not> gr_revoked g \<and> now < gr_not_after g"

definition uses_left :: "grant_row \<Rightarrow> bool" where
  "uses_left g = (case gr_max_uses g of None \<Rightarrow> True | Some m \<Rightarrow> gr_use_count g < m)"

definition bump_use :: "grant_row \<Rightarrow> grant_row" where
  "bump_use g = g\<lparr>gr_use_count := gr_use_count g + 1\<rparr>"

text \<open>The write-ahead audit row of a use or a replay.\<close>

definition use_event ::
  "string \<Rightarrow> grant_row \<Rightarrow> uuid option \<Rightarrow> audit_target option \<Rightarrow> json option \<Rightarrow> audit_event" where
  "use_event audit_kind g version target detail =
     audit_default\<lparr>ae_kind := audit_kind, ae_request_id := Some (gr_request_id g),
       ae_grant_id := Some (gr_id g), ae_client_name := Some (gr_client_name g),
       ae_secret_name := Some (gr_secret_name g), ae_secret_version_id := version,
       ae_method := map_option at_method target, ae_origin := map_option at_origin target,
       ae_path := map_option at_path target, ae_detail := detail\<rparr>"

definition replay_detail :: json where
  "replay_detail = JObject [(''replay'', JBool True)]"

text \<open>The fresh-use half of \<open>begin_grant_use\<close>: the conditional increment, the replay state and
  the audit row.\<close>

definition fresh_use ::
  "time \<Rightarrow> uuid \<Rightarrow> string option \<Rightarrow> uuid option \<Rightarrow> string \<Rightarrow> audit_target option \<Rightarrow> db
   \<Rightarrow> store_error + (grant_use \<times> db)" where
  "fresh_use now gid idem_key version audit_kind target d =
     (let hit = (\<lambda>g. gr_id g = gid \<and> live_grant now g \<and> uses_left g)
      in case find hit (db_grants d) of
           None \<Rightarrow> Inr (Exhausted, d)
         | Some g0 \<Rightarrow>
             if gr_use_count g0 = I32_MAX then Inl Integer_out_of_range
             else
               (let g = bump_use g0;
                    d1 = d\<lparr>db_grants := upd_where hit bump_use (db_grants d)\<rparr>;
                    read = (case idem_key of
                              None \<Rightarrow> Inr d1
                            | Some key \<Rightarrow>
                                insert_read_row
                                  \<lparr>rd_grant_id = gid, rd_idem_key = key, rd_secret_version_id = version,
                                   rd_passthrough = (gr_passthrough_ciphertext g \<noteq> None),
                                   rd_first_read_at = now\<rparr> d1)
                in case read of
                     Inl e \<Rightarrow> Inl e
                   | Inr d2 \<Rightarrow>
                       Inr (FirstUse g, insert_audit now (use_event audit_kind g version target None) d2)))"

definition begin_grant_use ::
  "time \<Rightarrow> uuid \<Rightarrow> string option \<Rightarrow> uuid option \<Rightarrow> string \<Rightarrow> int \<Rightarrow> audit_target option \<Rightarrow> db
   \<Rightarrow> store_error + (grant_use \<times> db)" where
  "begin_grant_use now gid idem_key version audit_kind window target d =
     (case get_grant gid d of
        None \<Rightarrow> Inr (NotFound, d)
      | Some g \<Rightarrow>
          if \<not> live_grant now g then Inr (ExpiredOrRevoked, d)
          else
            (case Option.bind idem_key (\<lambda>key. find_read gid key d) of
               Some r \<Rightarrow>
                 if in_window now window r then
                   Inr (Replay g (rd_secret_version_id r) (rd_passthrough r),
                        insert_audit now
                          (use_event audit_kind g (rd_secret_version_id r) target (Some replay_detail)) d)
                 else Inr (Exhausted, d)
             | None \<Rightarrow> fresh_use now gid idem_key version audit_kind target d))"

definition clear_passthrough :: "grant_row \<Rightarrow> grant_row" where
  "clear_passthrough g =
     g\<lparr>gr_passthrough_ciphertext := None, gr_passthrough_nonce := None,
       gr_passthrough_wrapped_dek := None\<rparr>"

definition set_revoked :: "grant_row \<Rightarrow> grant_row" where
  "set_revoked g = (clear_passthrough g)\<lparr>gr_revoked := True\<rparr>"

definition revoked_event :: "grant_row \<Rightarrow> string \<Rightarrow> json option \<Rightarrow> audit_event" where
  "revoked_event g actor detail =
     audit_default\<lparr>ae_kind := GRANT_REVOKED, ae_request_id := Some (gr_request_id g),
       ae_grant_id := Some (gr_id g), ae_client_name := Some (gr_client_name g),
       ae_secret_name := Some (gr_secret_name g), ae_actor := Some actor, ae_detail := detail\<rparr>"

definition revoke_grant :: "time \<Rightarrow> uuid \<Rightarrow> string \<Rightarrow> db \<Rightarrow> bool \<times> db" where
  "revoke_grant now gid actor d =
     (let hit = (\<lambda>g. gr_id g = gid \<and> \<not> gr_revoked g)
      in case find hit (db_grants d) of
           None \<Rightarrow> (False, d)
         | Some g \<Rightarrow>
             (True, insert_audit now (revoked_event g actor None)
                      (d\<lparr>db_grants := upd_where hit set_revoked (db_grants d)\<rparr>)))"

definition purge_passthrough :: "uuid \<Rightarrow> db \<Rightarrow> db" where
  "purge_passthrough gid d =
     d\<lparr>db_grants := upd_where (\<lambda>g. gr_id g = gid) clear_passthrough (db_grants d)\<rparr>"

definition replay_open :: "time \<Rightarrow> int \<Rightarrow> db \<Rightarrow> grant_row \<Rightarrow> bool" where
  "replay_open now w d g \<longleftrightarrow> list_ex (\<lambda>r. rd_grant_id r = gr_id g \<and> in_window now w r) (db_reads d)"

definition purgeable :: "time \<Rightarrow> int \<Rightarrow> db \<Rightarrow> grant_row \<Rightarrow> bool" where
  "purgeable now w d g \<longleftrightarrow>
     gr_passthrough_ciphertext g \<noteq> None
     \<and> (gr_revoked g \<or> gr_not_after g < now
        \<or> (case gr_max_uses g of None \<Rightarrow> False | Some m \<Rightarrow> m \<le> gr_use_count g) \<and> \<not> replay_open now w d g)"

definition sweep_purge_passthroughs :: "time \<Rightarrow> int \<Rightarrow> db \<Rightarrow> nat \<times> db" where
  "sweep_purge_passthroughs now w d =
     (length (filter (purgeable now w d) (db_grants d)),
      d\<lparr>db_grants := upd_where (purgeable now w d) clear_passthrough (db_grants d)\<rparr>)"

text \<open>\<open>ACTIVE_GRANTS_PREDICATE\<close> and the two queries over it.\<close>

definition active_grant :: "time \<Rightarrow> int \<Rightarrow> db \<Rightarrow> grant_row \<Rightarrow> bool" where
  "active_grant now w d g \<longleftrightarrow> live_grant now g \<and> (uses_left g \<or> replay_open now w d g)"

definition list_active_grants :: "time \<Rightarrow> int \<Rightarrow> db \<Rightarrow> grant_row list" where
  "list_active_grants now w d = sort_key (\<lambda>g. - gr_created_at g) (filter (active_grant now w d) (db_grants d))"

definition count_active_grants :: "time \<Rightarrow> int \<Rightarrow> db \<Rightarrow> nat" where
  "count_active_grants now w d = length (filter (active_grant now w d) (db_grants d))"

definition unpin :: "grant_read_row \<Rightarrow> grant_read_row" where
  "unpin r = r\<lparr>rd_secret_version_id := None\<rparr>"

definition unpin_stale_grant_reads :: "time \<Rightarrow> int \<Rightarrow> db \<Rightarrow> nat \<times> db" where
  "unpin_stale_grant_reads now w d =
     (let hit = (\<lambda>r. rd_first_read_at r < now - interval_secs w \<and> rd_secret_version_id r \<noteq> None)
      in (length (filter hit (db_reads d)), d\<lparr>db_reads := upd_where hit unpin (db_reads d)\<rparr>))"

section \<open>Row updates keep the keys\<close>

interpretation use_id: row_update gr_id bump_use
  by unfold_locales (simp add: bump_use_def)

interpretation revoke_id: row_update gr_id set_revoked
  by unfold_locales (simp add: set_revoked_def clear_passthrough_def)

interpretation purge_id: row_update gr_id clear_passthrough
  by unfold_locales (simp add: clear_passthrough_def)

interpretation use_req: row_update gr_request_id bump_use
  by unfold_locales (simp add: bump_use_def)

interpretation revoke_req: row_update gr_request_id set_revoked
  by unfold_locales (simp add: set_revoked_def clear_passthrough_def)

interpretation purge_req: row_update gr_request_id clear_passthrough
  by unfold_locales (simp add: clear_passthrough_def)

interpretation unpin_key: row_update "\<lambda>r. (rd_grant_id r, rd_idem_key r)" unpin
  by unfold_locales (simp add: unpin_def)

lemma find_read_key: "find_read gid key d = find (\<lambda>r. (rd_grant_id r, rd_idem_key r) = (gid, key)) (db_reads d)"
  by (simp add: find_read_def)

lemma grant_update_fields [simp]:
  "gr_id (bump_use g) = gr_id g" "gr_request_id (bump_use g) = gr_request_id g"
  "gr_use_count (bump_use g) = gr_use_count g + 1" "gr_max_uses (bump_use g) = gr_max_uses g"
  "gr_revoked (bump_use g) = gr_revoked g" "gr_not_after (bump_use g) = gr_not_after g"
  "gr_secret_name (bump_use g) = gr_secret_name g" "gr_client_name (bump_use g) = gr_client_name g"
  "gr_passthrough_ephemeral (bump_use g) = gr_passthrough_ephemeral g"
  "gr_passthrough_ciphertext (bump_use g) = gr_passthrough_ciphertext g"
  "gr_id (clear_passthrough g) = gr_id g" "gr_request_id (clear_passthrough g) = gr_request_id g"
  "gr_use_count (clear_passthrough g) = gr_use_count g" "gr_max_uses (clear_passthrough g) = gr_max_uses g"
  "gr_revoked (clear_passthrough g) = gr_revoked g" "gr_not_after (clear_passthrough g) = gr_not_after g"
  "gr_secret_name (clear_passthrough g) = gr_secret_name g"
  "gr_client_name (clear_passthrough g) = gr_client_name g"
  "gr_passthrough_ephemeral (clear_passthrough g) = gr_passthrough_ephemeral g"
  "gr_passthrough_ciphertext (clear_passthrough g) = None"
  "gr_id (set_revoked g) = gr_id g" "gr_request_id (set_revoked g) = gr_request_id g"
  "gr_use_count (set_revoked g) = gr_use_count g" "gr_max_uses (set_revoked g) = gr_max_uses g"
  "gr_revoked (set_revoked g)" "gr_not_after (set_revoked g) = gr_not_after g"
  "gr_secret_name (set_revoked g) = gr_secret_name g" "gr_client_name (set_revoked g) = gr_client_name g"
  "gr_passthrough_ephemeral (set_revoked g) = gr_passthrough_ephemeral g"
  "gr_passthrough_ciphertext (set_revoked g) = None"
  by (simp_all add: bump_use_def set_revoked_def clear_passthrough_def)

section \<open>What one use does\<close>

text \<open>With unique grant ids, the row the increment hits is the row that was looked up.\<close>

lemma find_hit:
  assumes "distinct (map gr_id gs)" and "find (\<lambda>g. gr_id g = gid) gs = Some g"
  shows "find (\<lambda>q. gr_id q = gid \<and> P q) gs = (if P g then Some g else None)"
  using assms by (induction gs) (auto simp: find_None_iff image_iff split: if_splits)

lemma upd_hit:
  assumes "distinct (map gr_id gs)" and "find (\<lambda>g. gr_id g = gid) gs = Some g" and "P g"
  shows "upd_where (\<lambda>q. gr_id q = gid \<and> P q) f gs = upd_where (\<lambda>q. gr_id q = gid) f gs"
  unfolding upd_where_def using assms find_Some_mem [OF assms(2)]
  by (intro map_cong refl if_cong) (auto dest: distinct_map_same [OF assms(1)])

lemma begin_grant_use_cases:
  assumes ids: "distinct (map gr_id (db_grants d))"
    and use: "begin_grant_use now gid key version kind w target d = Inr (r, d')"
  obtains (Nothing) "d' = d" "r = NotFound \<or> r = ExpiredOrRevoked \<or> r = Exhausted"
  | (Again) g k q where "get_grant gid d = Some g" "live_grant now g" "key = Some k"
      "find_read gid k d = Some q" "in_window now w q"
      "r = Replay g (rd_secret_version_id q) (rd_passthrough q)"
      "d' = insert_audit now (use_event kind g (rd_secret_version_id q) target (Some replay_detail)) d"
  | (First) g where "get_grant gid d = Some g" "live_grant now g" "uses_left g"
      "gr_use_count g \<noteq> I32_MAX" "\<forall>k. key = Some k \<longrightarrow> find_read gid k d = None"
      "r = FirstUse (bump_use g)"
      "db_grants d' = upd_where (\<lambda>q. gr_id q = gid) bump_use (db_grants d)"
      "db_reads d' = db_reads d @ (case key of None \<Rightarrow> [] | Some k \<Rightarrow>
         [\<lparr>rd_grant_id = gid, rd_idem_key = k, rd_secret_version_id = version,
           rd_passthrough = (gr_passthrough_ciphertext g \<noteq> None), rd_first_read_at = now\<rparr>])"
      "db_audit d' = db_audit d @ [(now, use_event kind (bump_use g) version target None)]"
      "db_requests d' = db_requests d" "db_secrets d' = db_secrets d" "db_versions d' = db_versions d"
      "db_tags d' = db_tags d" "db_clients d' = db_clients d" "db_policies d' = db_policies d"
proof (cases "get_grant gid d")
  case None
  with use show thesis by (intro Nothing) (auto simp: begin_grant_use_def)
next
  case (Some g)
  note g = this
  show thesis
  proof (cases "live_grant now g")
    case False
    with use g show thesis by (intro Nothing) (auto simp: begin_grant_use_def)
  next
    case live: True
    show thesis
    proof (cases "Option.bind key (\<lambda>k. find_read gid k d)")
      case (Some q)
      then obtain k where k: "key = Some k" "find_read gid k d = Some q"
        by (cases key) auto
      show thesis
      proof (cases "in_window now w q")
        case True
        with use g live k show thesis by (intro Again) (auto simp: begin_grant_use_def)
      next
        case False
        with use g live k show thesis by (intro Nothing) (auto simp: begin_grant_use_def)
      qed
    next
      case None
      then have nr: "\<forall>k. key = Some k \<longrightarrow> find_read gid k d = None"
        by auto
      have hit: "find (\<lambda>q. gr_id q = gid \<and> live_grant now q \<and> uses_left q) (db_grants d) =
          (if uses_left g then Some g else None)"
        using find_hit [OF ids g [unfolded get_grant_def], of "\<lambda>q. live_grant now q \<and> uses_left q"] live
        by simp
      from use g live None have fu: "fresh_use now gid key version kind target d = Inr (r, d')"
        by (simp add: begin_grant_use_def)
      show thesis
      proof (cases "uses_left g")
        case False
        with fu hit show thesis by (intro Nothing) (auto simp: fresh_use_def)
      next
        case True
        have upd: "upd_where (\<lambda>q. gr_id q = gid \<and> live_grant now q \<and> uses_left q) bump_use (db_grants d) =
            upd_where (\<lambda>q. gr_id q = gid) bump_use (db_grants d)"
          using upd_hit [OF ids g [unfolded get_grant_def], of "\<lambda>q. live_grant now q \<and> uses_left q"] live True
          by simp
        from fu hit True upd show thesis
          by (intro First [OF g live True _ nr])
            (auto simp: fresh_use_def Let_def table_simps split: if_splits option.splits sum.splits)
      qed
    qed
  qed
qed

section \<open>Properties\<close>

definition ex_payload_grant :: grant_row where
  "ex_payload_grant = \<lparr>gr_id = 20, gr_request_id = 10, gr_client_name = ''fa'', gr_secret_name = ''tok'',
     gr_mechanism = ''cli-read'', gr_constraints = Malformed JNull, gr_not_after = 100000000,
     gr_max_uses = Some 1, gr_use_count = 1, gr_revoked = False,
     gr_passthrough_ciphertext = Some ''c'', gr_passthrough_nonce = Some ''n'',
     gr_passthrough_wrapped_dek = Some ''w'', gr_passthrough_ephemeral = True, gr_created_at = 0\<rparr>"

definition ex_payload_db :: db where
  "ex_payload_db = empty_db\<lparr>db_grants := [ex_payload_grant]\<rparr>"

lemma get_grant_sweep:
  "sweep_purge_passthroughs now w d = (n, d') \<Longrightarrow>
     get_grant gid d' = map_option (\<lambda>g. if purgeable now w d g then clear_passthrough g else g) (get_grant gid d)"
  by (auto simp: sweep_purge_passthroughs_def get_grant_def)

lemma fresh_use_not_found: "fresh_use now gid key version kind target d \<noteq> Inr (NotFound, d')"
  by (auto simp: fresh_use_def Let_def split: option.splits sum.splits if_splits)

text \<open>the sweeper destroys only payloads that nobody can obtain any more.  If a sweep removed
  the payload of a grant, then at that time and at any later time neither a fresh use nor a replay
  of the grant is possible: the grant is expired or revoked, or its uses and its replay windows are
  used up.\<close>

theorem sweep_destroys_only_unreachable:
  assumes "sweep_purge_passthroughs now w d = (n, d')"
    and "get_grant gid d = Some g" and "gr_passthrough_ciphertext g \<noteq> None"
    and "get_grant gid d' = Some g'" and "gr_passthrough_ciphertext g' = None"
    and "distinct (map gr_id (db_grants d))" and "now \<le> now'"
    and "begin_grant_use now' gid key version kind w target d' = Inr (u, d'')"
  shows "u = ExpiredOrRevoked \<or> u = Exhausted"
proof -
  have pg: "purgeable now w d g" and g': "g' = clear_passthrough g"
    using assms(2-5) get_grant_sweep [OF assms(1), of gid] by (auto split: if_splits)
  have ids: "distinct (map gr_id (db_grants d'))" and reads: "db_reads d' = db_reads d"
    using assms(1,6) by (auto simp: sweep_purge_passthroughs_def)
  from ids assms(8) show ?thesis
  proof (cases rule: begin_grant_use_cases)
    case Nothing
    with assms(4,8) show ?thesis
      by (auto simp: begin_grant_use_def fresh_use_not_found split: if_splits option.splits)
  next
    case (Again q k r)
    then have "r \<in> set (db_reads d)" "rd_grant_id r = gid" "in_window now w r"
      using assms(7) by (auto simp: find_read_def reads in_window_def dest: find_Some_mem)
    moreover have "gr_id g = gid"
      using assms(2) by (auto simp: get_grant_def dest: find_Some_mem)
    ultimately have "replay_open now w d g"
      by (auto simp: replay_open_def list_ex_iff)
    with pg Again(1,2) assms(4,7) show ?thesis
      by (auto simp: purgeable_def live_grant_def g')
  next
    case (First q)
    with pg assms(4,7) show ?thesis
      by (auto simp: purgeable_def live_grant_def g' uses_left_def split: option.splits)
  qed
qed

theorem sweep_destroys_only_unreachable_witness:
  "sweep_purge_passthroughs 5 60 ex_payload_db = (1, ex_payload_db\<lparr>db_grants := [clear_passthrough ex_payload_grant]\<rparr>)
   \<and> begin_grant_use 6 20 (Some ''k'') None RELEASE_ATTEMPT 60 None
       (ex_payload_db\<lparr>db_grants := [clear_passthrough ex_payload_grant]\<rparr>)
     = Inr (Exhausted, ex_payload_db\<lparr>db_grants := [clear_passthrough ex_payload_grant]\<rparr>)"
proof -
  let ?d' = "ex_payload_db\<lparr>db_grants := [clear_passthrough ex_payload_grant]\<rparr>"
  have s: "sweep_purge_passthroughs 5 60 ex_payload_db = (1, ?d')"
    by code_simp
  have u: "begin_grant_use 6 20 (Some ''k'') None RELEASE_ATTEMPT 60 None ?d' = Inr (Exhausted, ?d')"
    by code_simp
  have g: "get_grant 20 ex_payload_db = Some ex_payload_grant" "gr_passthrough_ciphertext ex_payload_grant \<noteq> None"
    "get_grant 20 ?d' = Some (clear_passthrough ex_payload_grant)"
    "gr_passthrough_ciphertext (clear_passthrough ex_payload_grant) = None"
    "distinct (map gr_id (db_grants ex_payload_db))"
    by code_simp+
  from sweep_destroys_only_unreachable [OF s g(1-5) _ u] s u show ?thesis by simp
qed

end
