(* ===== verification/Store_Secrets.thy ===== *)
theory Store_Secrets
  imports Store_Requests Store_Grants
begin

text \<open>
  Stored secrets (\<open>server/src/db/secrets.rs\<close> and the secret parts of \<open>ui_ext.rs\<close>): creation by an
  operator, deposit by a client under a rate cap, append-only versions, rotation, vetting, settings,
  tags, and deletion together with the revocation of the grants that depended on the secret.
\<close>

section \<open>Lookups\<close>

definition get_secret_by_name :: "string \<Rightarrow> db \<Rightarrow> secret_row option" where
  "get_secret_by_name nm d = find (\<lambda>s. sec_name s = nm) (db_secrets d)"

definition get_secret_version :: "uuid \<Rightarrow> int \<Rightarrow> db \<Rightarrow> secret_version_row option" where
  "get_secret_version sid v d = find (\<lambda>r. ver_secret_id r = sid \<and> ver_version r = v) (db_versions d)"

definition get_secret_version_by_id :: "uuid \<Rightarrow> db \<Rightarrow> secret_version_row option" where
  "get_secret_version_by_id vid d = find (\<lambda>r. ver_id r = vid) (db_versions d)"

definition count_secrets :: "db \<Rightarrow> nat" where
  "count_secrets d = length (db_secrets d)"

text \<open>\<open>ORDER BY\<close> on text follows the collation of the database, a parameter.\<close>

definition get_tags_for_secret :: "(string list \<Rightarrow> string list) \<Rightarrow> uuid \<Rightarrow> db \<Rightarrow> string list" where
  "get_tags_for_secret collate sid d = collate (map snd (filter (\<lambda>t. fst t = sid) (db_tags d)))"

definition list_secret_tags :: "(string list \<Rightarrow> string list) \<Rightarrow> db \<Rightarrow> string list" where
  "list_secret_tags collate d = collate (remdups (map snd (db_tags d)))"

definition list_unvetted_secret_names :: "(string list \<Rightarrow> string list) \<Rightarrow> db \<Rightarrow> string list" where
  "list_unvetted_secret_names collate d =
     collate (map sec_name (filter (\<lambda>s. \<not> sec_operator_vetted s) (db_secrets d)))"

text \<open>The client recorded for the oldest deposit under a name.\<close>

definition client_deposit_origin :: "string \<Rightarrow> db \<Rightarrow> (string \<times> time) option" where
  "client_deposit_origin nm d =
     map_option (\<lambda>(t, ev). (the (ae_client_name ev), t))
       (find (\<lambda>(t, ev). ae_kind ev = ''secret-created'' \<and> ae_secret_name ev = Some nm
                 \<and> ae_client_name ev \<noteq> None) (db_audit d))"

section \<open>Creation and versions\<close>

definition create_secret ::
  "time \<Rightarrow> uuid \<Rightarrow> string \<Rightarrow> string \<Rightarrow> int \<Rightarrow> string \<Rightarrow> string option \<Rightarrow> db
   \<Rightarrow> store_error + (secret_row \<times> db)" where
  "create_secret now fresh nm descr max_tier kind header d =
     (let s = \<lparr>sec_id = fresh, sec_name = nm, sec_description = descr, sec_max_tier = max_tier,
               sec_injection_kind = kind, sec_injection_header = header, sec_injection_username = None,
               sec_current_version = 0, sec_enabled = True, sec_operator_vetted = True,
               sec_managed_by_config = False, sec_created_at = now, sec_updated_at = now\<rparr>
      in case insert_secret_row s d of Inl e \<Rightarrow> Inl e | Inr d' \<Rightarrow> Inr (s, d'))"

definition bump_version :: "time \<Rightarrow> secret_row \<Rightarrow> secret_row" where
  "bump_version now s =
     s\<lparr>sec_current_version := sec_current_version s + 1, sec_updated_at := now\<rparr>"

text \<open>\<open>UPDATE secrets SET current_version = current_version + 1 ... RETURNING current_version\<close>,
  with the further columns a caller sets; \<^term>\<open>Inr None\<close> when no row has the id.\<close>

definition bump_current_version ::
  "(secret_row \<Rightarrow> secret_row) \<Rightarrow> uuid \<Rightarrow> db \<Rightarrow> store_error + (int \<times> db) option" where
  "bump_current_version upd sid d =
     (case find (\<lambda>s. sec_id s = sid) (db_secrets d) of
        None \<Rightarrow> Inr None
      | Some s \<Rightarrow>
          if sec_current_version s = I32_MAX then Inl Integer_out_of_range
          else Inr (Some (sec_current_version s + 1,
                          d\<lparr>db_secrets := upd_where (\<lambda>s. sec_id s = sid) upd (db_secrets d)\<rparr>)))"

definition insert_secret_version ::
  "time \<Rightarrow> uuid \<Rightarrow> uuid \<Rightarrow> (int \<Rightarrow> seal_fn) \<Rightarrow> uuid option \<Rightarrow> db
   \<Rightarrow> store_error + (secret_version_row \<times> db)" where
  "insert_secret_version now fresh sid seal by_request d =
     (case bump_current_version (bump_version now) sid d of
        Inl e \<Rightarrow> Inl e
      | Inr None \<Rightarrow> Inl (Bail ''secret not found'')
      | Inr (Some (v, d1)) \<Rightarrow>
          (case seal v of
             None \<Rightarrow> Inl Seal_error
           | Some sl \<Rightarrow>
               (let row = new_version_row now fresh sid v sl by_request
                in case insert_version_row row d1 of Inl e \<Rightarrow> Inl e | Inr d2 \<Rightarrow> Inr (row, d2))))"

definition create_secret_with_version ::
  "time \<Rightarrow> uuid \<Rightarrow> store_secret_params \<Rightarrow> string \<Rightarrow> db \<Rightarrow> store_error + (bool \<times> db)" where
  "create_secret_with_version now fresh_version s actor d =
     (case sp_seal s of
        None \<Rightarrow> Inl Seal_error
      | Some sl \<Rightarrow>
          (case insert_secret_row_if_free (new_secret_row now s True) d of
             Inl e \<Rightarrow> Inl e
           | Inr None \<Rightarrow> Inr (False, d)
           | Inr (Some d1) \<Rightarrow>
               (case insert_version_row (new_version_row now fresh_version (sp_secret_id s) 1 sl None) d1 of
                  Inl e \<Rightarrow> Inl e
                | Inr d2 \<Rightarrow>
                    Inr (True, insert_audit now (audit_default\<lparr>ae_kind := SECRET_CREATED,
                       ae_secret_name := Some (sp_name s), ae_actor := Some actor\<rparr>) d2))))"

definition vet_and_bump :: "time \<Rightarrow> secret_row \<Rightarrow> secret_row" where
  "vet_and_bump now s = (bump_version now s)\<lparr>sec_operator_vetted := True\<rparr>"

definition rotate_secret_version ::
  "time \<Rightarrow> uuid \<Rightarrow> uuid \<Rightarrow> string \<Rightarrow> string \<Rightarrow> (int \<Rightarrow> seal_fn) \<Rightarrow> db
   \<Rightarrow> store_error + (secret_version_row option \<times> db)" where
  "rotate_secret_version now fresh sid nm actor seal d =
     (case bump_current_version (vet_and_bump now) sid d of
        Inl e \<Rightarrow> Inl e
      | Inr None \<Rightarrow> Inr (None, d)
      | Inr (Some (v, d1)) \<Rightarrow>
          (case seal v of
             None \<Rightarrow> Inl Seal_error
           | Some sl \<Rightarrow>
               (let row = new_version_row now fresh sid v sl None
                in case insert_version_row row d1 of
                     Inl e \<Rightarrow> Inl e
                   | Inr d2 \<Rightarrow>
                       Inr (Some row, insert_audit now (audit_default\<lparr>ae_kind := SECRET_ROTATED,
                          ae_secret_name := Some nm, ae_secret_version_id := Some (ver_id row),
                          ae_actor := Some actor\<rparr>) d2))))"

section \<open>Deposits by clients\<close>

datatype deposit_outcome = Deposited uuid | NameTaken | RateLimited

record deposit_rate =
  dr_max_per_window :: int
  dr_window_hours :: int

definition recent_deposits :: "time \<Rightarrow> string \<Rightarrow> int \<Rightarrow> db \<Rightarrow> nat" where
  "recent_deposits now c hours d =
     length (filter (\<lambda>(t, ev). ae_kind ev = SECRET_CREATED \<and> ae_client_name ev = Some c
                        \<and> now - interval_secs (hours * 3600) < t) (db_audit d))"

definition create_secret_from_client ::
  "time \<Rightarrow> uuid \<Rightarrow> store_secret_params \<Rightarrow> string \<Rightarrow> deposit_rate \<Rightarrow> db
   \<Rightarrow> store_error + (deposit_outcome \<times> db)" where
  "create_secret_from_client now fresh_version s client rate d =
     (if dr_max_per_window rate \<le> int (recent_deposits now client (dr_window_hours rate) d)
        then Inr (RateLimited, d)
      else
        (case insert_secret_row_if_free (new_secret_row now s False) d of
           Inl e \<Rightarrow> Inl e
         | Inr None \<Rightarrow> Inr (NameTaken, d)
         | Inr (Some d1) \<Rightarrow>
             (case sp_seal s of
                None \<Rightarrow> Inl Seal_error
              | Some sl \<Rightarrow>
                  (case insert_version_row (new_version_row now fresh_version (sp_secret_id s) 1 sl None) d1 of
                     Inl e \<Rightarrow> Inl e
                   | Inr d2 \<Rightarrow>
                       Inr (Deposited (sp_secret_id s),
                            insert_audit now (audit_default\<lparr>ae_kind := SECRET_CREATED,
                              ae_client_name := Some client, ae_secret_name := Some (sp_name s),
                              ae_actor := Some (''client:'' @ client),
                              ae_detail := Some (JObject [(''source'', JString ''client-api'')])\<rparr>) d2)))))"

section \<open>Vetting, settings, tags\<close>

definition dec_int :: "int \<Rightarrow> string" where
  "dec_int i = (if i < 0 then CHR ''-'' # dec (nat (- i)) else dec (nat i))"

definition set_vetted :: "time \<Rightarrow> secret_row \<Rightarrow> secret_row" where
  "set_vetted now s = s\<lparr>sec_operator_vetted := True, sec_updated_at := now\<rparr>"

definition mark_secret_vetted ::
  "time \<Rightarrow> uuid \<Rightarrow> int \<Rightarrow> string \<Rightarrow> db \<Rightarrow> store_error + (bool \<times> db)" where
  "mark_secret_vetted now sid reviewed_version actor d =
     (let hit = (\<lambda>s. sec_id s = sid \<and> \<not> sec_operator_vetted s \<and> sec_current_version s = reviewed_version)
      in if filter hit (db_secrets d) = [] then Inr (False, d)
         else
           (let d1 = d\<lparr>db_secrets := upd_where hit (set_vetted now) (db_secrets d)\<rparr>
            in case find (\<lambda>s. sec_id s = sid) (db_secrets d1) of
                 None \<Rightarrow> Inl Row_not_found
               | Some s \<Rightarrow>
                   Inr (True, insert_audit now (audit_default\<lparr>ae_kind := SECRET_VETTED,
                      ae_secret_name := Some (sec_name s), ae_actor := Some actor,
                      ae_detail := Some (JObject [(''version'', JNumber (dec_int reviewed_version))])\<rparr>) d1)))"

definition clear_tags :: "uuid \<Rightarrow> db \<Rightarrow> db" where
  "clear_tags sid d = d\<lparr>db_tags := del_where (\<lambda>t. fst t = sid) (db_tags d)\<rparr>"

definition set_secret_tags :: "uuid \<Rightarrow> string list \<Rightarrow> db \<Rightarrow> store_error + db" where
  "set_secret_tags sid tags d = insert_tags sid tags (clear_tags sid d)"

record secret_settings =
  sx_description :: string
  sx_max_tier :: int
  sx_injection_kind :: string
  sx_injection_header :: "string option"
  sx_injection_username :: "string option"
  sx_enabled :: bool
  sx_tags :: "string list"

datatype update_secret_outcome = Secret_Updated | Secret_NotFound | Secret_Managed

definition set_settings :: "time \<Rightarrow> secret_settings \<Rightarrow> secret_row \<Rightarrow> secret_row" where
  "set_settings now x s =
     s\<lparr>sec_description := sx_description x, sec_max_tier := sx_max_tier x,
       sec_injection_kind := sx_injection_kind x, sec_injection_header := sx_injection_header x,
       sec_injection_username := sx_injection_username x, sec_enabled := sx_enabled x,
       sec_updated_at := now\<rparr>"

definition settings_detail :: "secret_row \<Rightarrow> string list \<Rightarrow> secret_settings \<Rightarrow> json" where
  "settings_detail prev prev_tags x =
     JObject [(''max_tier'', JNumber (dec_int (sx_max_tier x))),
       (''previous_max_tier'', JNumber (dec_int (sec_max_tier prev))),
       (''enabled'', JBool (sx_enabled x)), (''previous_enabled'', JBool (sec_enabled prev)),
       (''injection_kind'', JString (sx_injection_kind x)),
       (''injection_changed'', JBool (sec_injection_kind prev \<noteq> sx_injection_kind x
          \<or> sec_injection_header prev \<noteq> sx_injection_header x
          \<or> sec_injection_username prev \<noteq> sx_injection_username x)),
       (''tags'', JArray (map JString (sx_tags x))), (''previous_tags'', JArray (map JString prev_tags))]"

definition update_secret_settings_audited ::
  "(string list \<Rightarrow> string list) \<Rightarrow> time \<Rightarrow> uuid \<Rightarrow> secret_settings \<Rightarrow> string \<Rightarrow> db
   \<Rightarrow> store_error + (update_secret_outcome \<times> db)" where
  "update_secret_settings_audited collate now sid x actor d =
     (case find (\<lambda>s. sec_id s = sid) (db_secrets d) of
        None \<Rightarrow> Inr (Secret_NotFound, d)
      | Some prev \<Rightarrow>
          if sec_managed_by_config prev then Inr (Secret_Managed, d)
          else if sx_injection_kind x \<notin> set INJECTION_KINDS then Inl Check_violation
          else
            (let prev_tags = get_tags_for_secret collate sid d;
                 d1 = d\<lparr>db_secrets := upd_where (\<lambda>s. sec_id s = sid) (set_settings now x) (db_secrets d)\<rparr>
             in case insert_tags sid (sx_tags x) (clear_tags sid d1) of
                  Inl e \<Rightarrow> Inl e
                | Inr d2 \<Rightarrow>
                    Inr (Secret_Updated, insert_audit now (audit_default\<lparr>ae_kind := SECRET_UPDATED,
                       ae_secret_name := Some (sec_name prev), ae_actor := Some actor,
                       ae_detail := Some (settings_detail prev prev_tags x)\<rparr>) d2)))"

section \<open>Deletion\<close>

datatype delete_secret_outcome = Secret_Deleted nat | Stale

text \<open>\<open>DELETE FROM secrets\<close> with its cascade to versions and tags.\<close>

definition delete_secret_cascade :: "uuid \<Rightarrow> db \<Rightarrow> db" where
  "delete_secret_cascade sid d =
     d\<lparr>db_secrets := del_where (\<lambda>s. sec_id s = sid) (db_secrets d),
       db_versions := del_where (\<lambda>v. ver_secret_id v = sid) (db_versions d),
       db_tags := del_where (\<lambda>t. fst t = sid) (db_tags d)\<rparr>"

definition backed_by :: "time \<Rightarrow> string \<Rightarrow> grant_row \<Rightarrow> bool" where
  "backed_by now nm g \<longleftrightarrow>
     gr_secret_name g = nm \<and> \<not> gr_revoked g \<and> now < gr_not_after g \<and> \<not> gr_passthrough_ephemeral g"

definition delete_secret_audited ::
  "time \<Rightarrow> uuid \<Rightarrow> int \<Rightarrow> string \<Rightarrow> db \<Rightarrow> delete_secret_outcome \<times> db" where
  "delete_secret_audited now sid expected_version actor d =
     (case find (\<lambda>s. sec_id s = sid) (db_secrets d) of
        None \<Rightarrow> (Stale, d)
      | Some s \<Rightarrow>
          (let nm = sec_name s;
               versions = length (filter (\<lambda>v. ver_secret_id v = sid) (db_versions d))
           in if sec_current_version s \<noteq> expected_version then (Stale, d)
              else
                (let d1 = delete_secret_cascade sid d;
                     revoked = filter (backed_by now nm) (db_grants d1);
                     d2 = d1\<lparr>db_grants := upd_where (backed_by now nm) set_revoked (db_grants d1)\<rparr>;
                     d3 = insert_audits now
                            (map (\<lambda>g. revoked_event g actor
                                        (Some (JObject [(''reason'', JString ''secret-deleted'')]))) revoked) d2
                 in (Secret_Deleted (length revoked),
                     insert_audit now (audit_default\<lparr>ae_kind := SECRET_DELETED,
                       ae_secret_name := Some nm, ae_actor := Some actor,
                       ae_detail := Some (JObject [(''current_version'', JNumber (dec_int expected_version)),
                         (''versions_deleted'', JNumber (dec versions)),
                         (''grants_revoked'', JNumber (dec (length revoked)))])\<rparr>) d3))))"

end
