(* ===== verification/Crypto.thy ===== *)
theory Crypto
  imports Store_Secrets
begin

text \<open>
  Envelope encryption (\<open>server/src/crypto/mod.rs\<close>): payloads are encrypted under a fresh data key,
  data keys are wrapped under a key-encryption key, and the additional authenticated data names the
  row a payload belongs to.

  The XChaCha20-Poly1305 cipher, HMAC-SHA256, base64 decoding and the printing of UUIDs are
  libraries: they are the arguments \<open>A\<close>, \<open>hm\<close>, \<open>b64\<close> and \<open>uuid_str\<close>.  The random bytes of one call
  are arguments too.
\<close>

section \<open>The code\<close>

record aead =
  encrypt :: "bytes \<Rightarrow> bytes \<Rightarrow> bytes \<Rightarrow> bytes \<Rightarrow> bytes option"
  decrypt :: "bytes \<Rightarrow> bytes \<Rightarrow> bytes \<Rightarrow> bytes \<Rightarrow> bytes option"

definition DEK_WRAP_AAD :: bytes where "DEK_WRAP_AAD = ''keychute/v1/dek-wrap''"
definition EPHEMERAL_KEK_ID :: string where "EPHEMERAL_KEK_ID = ''ephemeral''"
definition KEY_LEN :: nat where "KEY_LEN = 32"
definition NONCE_LEN :: nat where "NONCE_LEN = 24"

datatype crypto_error = Keyset_error string | DecryptFailed | UnknownKek string

datatype aad_context =
    AadSecretVersion uuid int
  | AadGrantPassthrough uuid
  | AadRequestContext uuid

fun aad_derive :: "(uuid \<Rightarrow> string) \<Rightarrow> aad_context \<Rightarrow> bytes" where
  "aad_derive uuid_str (AadSecretVersion sid v) =
     ''keychute/v1/secret-version/'' @ uuid_str sid @ ''/'' @ dec_int v"
| "aad_derive uuid_str (AadGrantPassthrough gid) = ''keychute/v1/grant-passthrough/'' @ uuid_str gid"
| "aad_derive uuid_str (AadRequestContext rid) = ''keychute/v1/request-context/'' @ uuid_str rid"

definition key_from_slice :: "bytes \<Rightarrow> bytes option" where
  "key_from_slice b = (if length b \<noteq> KEY_LEN then None else Some b)"

text \<open>The random bytes one seal draws: data key, payload nonce, wrap nonce.\<close>

record seal_random =
  rnd_dek :: bytes
  rnd_payload_nonce :: bytes
  rnd_wrap_nonce :: bytes

definition seal_with_kek ::
  "aead \<Rightarrow> (uuid \<Rightarrow> string) \<Rightarrow> seal_random \<Rightarrow> bytes \<Rightarrow> string \<Rightarrow> bytes \<Rightarrow> aad_context
   \<Rightarrow> crypto_error + sealed" where
  "seal_with_kek A uuid_str rnd kek kid plaintext aad =
     (case encrypt A (rnd_dek rnd) (rnd_payload_nonce rnd) (aad_derive uuid_str aad) plaintext of
        None \<Rightarrow> Inl DecryptFailed
      | Some ct \<Rightarrow>
          (case encrypt A kek (rnd_wrap_nonce rnd) DEK_WRAP_AAD (rnd_dek rnd) of
             None \<Rightarrow> Inl DecryptFailed
           | Some wct \<Rightarrow>
               Inr \<lparr>sl_ciphertext = ct, sl_nonce = rnd_payload_nonce rnd,
                    sl_wrapped_dek = rnd_wrap_nonce rnd @ wct, sl_kek_id = kid\<rparr>))"

definition unwrap_dek :: "aead \<Rightarrow> bytes \<Rightarrow> bytes \<Rightarrow> crypto_error + bytes" where
  "unwrap_dek A kek wrapped =
     (if length wrapped \<le> NONCE_LEN then Inl DecryptFailed
      else
        (case decrypt A kek (take NONCE_LEN wrapped) DEK_WRAP_AAD (drop NONCE_LEN wrapped) of
           None \<Rightarrow> Inl DecryptFailed
         | Some b \<Rightarrow>
             (case key_from_slice b of None \<Rightarrow> Inl DecryptFailed | Some k \<Rightarrow> Inr k)))"

definition open_with_kek ::
  "aead \<Rightarrow> (uuid \<Rightarrow> string) \<Rightarrow> bytes \<Rightarrow> bytes \<Rightarrow> bytes \<Rightarrow> bytes \<Rightarrow> aad_context \<Rightarrow> crypto_error + bytes" where
  "open_with_kek A uuid_str kek ct nonce wrapped aad =
     (if length nonce \<noteq> NONCE_LEN then Inl DecryptFailed
      else
        (case unwrap_dek A kek wrapped of
           Inl e \<Rightarrow> Inl e
         | Inr dek \<Rightarrow>
             (case decrypt A dek nonce (aad_derive uuid_str aad) ct of
                None \<Rightarrow> Inl DecryptFailed
              | Some m \<Rightarrow> Inr m)))"

text \<open>The keyset file and the loaded keyset; a \<open>HashMap\<close> is an association list with distinct keys.\<close>

record keyset_file =
  kf_active :: string
  kf_keys :: "(string \<times> string) list"
  kf_mac_key :: string

record keyset =
  ks_active :: string
  ks_keys :: "(string \<times> bytes) list"
  ks_mac_key :: bytes

definition decode_key :: "(string \<Rightarrow> bytes option) \<Rightarrow> string \<Rightarrow> bytes option" where
  "decode_key b64 s = Option.bind (b64 s) key_from_slice"

fun decode_keys :: "(string \<Rightarrow> bytes option) \<Rightarrow> (string \<times> string) list \<Rightarrow> (string \<times> bytes) list option" where
  "decode_keys b64 [] = Some []"
| "decode_keys b64 ((i, s) # ks) =
     (case decode_key b64 s of
        None \<Rightarrow> None
      | Some k \<Rightarrow> map_option ((#) (i, k)) (decode_keys b64 ks))"

definition keyset_from_file :: "(string \<Rightarrow> bytes option) \<Rightarrow> keyset_file \<Rightarrow> store_error + keyset" where
  "keyset_from_file b64 f =
     (if kf_keys f = [] then Inl (Bail ''keyset has no keys'')
      else if kf_active f \<notin> fst ` set (kf_keys f) then Inl (Bail ''active kek id not present in keys'')
      else if EPHEMERAL_KEK_ID \<in> fst ` set (kf_keys f) then Inl (Bail ''keyset uses the reserved kek id'')
      else
        (case decode_keys b64 (kf_keys f) of
           None \<Rightarrow> Inl (Bail ''key: invalid'')
         | Some ks \<Rightarrow>
             (case decode_key b64 (kf_mac_key f) of
                None \<Rightarrow> Inl (Bail ''mac_key: invalid'')
              | Some mk \<Rightarrow> Inr \<lparr>ks_active = kf_active f, ks_keys = ks, ks_mac_key = mk\<rparr>)))"

definition keyset_kek :: "keyset \<Rightarrow> string \<Rightarrow> crypto_error + bytes" where
  "keyset_kek ks kid = (case map_of (ks_keys ks) kid of None \<Rightarrow> Inl (UnknownKek kid) | Some k \<Rightarrow> Inr k)"

definition keyset_seal ::
  "aead \<Rightarrow> (uuid \<Rightarrow> string) \<Rightarrow> seal_random \<Rightarrow> keyset \<Rightarrow> bytes \<Rightarrow> aad_context \<Rightarrow> crypto_error + sealed" where
  "keyset_seal A uuid_str rnd ks plaintext aad =
     (case keyset_kek ks (ks_active ks) of
        Inl e \<Rightarrow> Inl e
      | Inr kek \<Rightarrow> seal_with_kek A uuid_str rnd kek (ks_active ks) plaintext aad)"

definition keyset_open ::
  "aead \<Rightarrow> (uuid \<Rightarrow> string) \<Rightarrow> keyset \<Rightarrow> bytes \<Rightarrow> bytes \<Rightarrow> bytes \<Rightarrow> string \<Rightarrow> aad_context
   \<Rightarrow> crypto_error + bytes" where
  "keyset_open A uuid_str ks ct nonce wrapped kid aad =
     (case keyset_kek ks kid of
        Inl e \<Rightarrow> Inl e
      | Inr kek \<Rightarrow> open_with_kek A uuid_str kek ct nonce wrapped aad)"

definition keyset_rewrap ::
  "aead \<Rightarrow> bytes \<Rightarrow> keyset \<Rightarrow> bytes \<Rightarrow> string \<Rightarrow> crypto_error + (bytes \<times> string)" where
  "keyset_rewrap A wrap_nonce ks wrapped old_kid =
     (case keyset_kek ks old_kid of
        Inl e \<Rightarrow> Inl e
      | Inr old \<Rightarrow>
          (case keyset_kek ks (ks_active ks) of
             Inl e \<Rightarrow> Inl e
           | Inr active \<Rightarrow>
               (case unwrap_dek A old wrapped of
                  Inl e \<Rightarrow> Inl e
                | Inr dek \<Rightarrow>
                    (case encrypt A active wrap_nonce DEK_WRAP_AAD dek of
                       None \<Rightarrow> Inl DecryptFailed
                     | Some wct \<Rightarrow> Inr (wrap_nonce @ wct, ks_active ks)))))"

text \<open>The messages the two MACs are taken of, and the MACs.\<close>

definition idem_mac_message :: "string \<Rightarrow> bytes \<Rightarrow> bytes" where
  "idem_mac_message client payload =
     ''keychute/v1/idem-mac'' @ [CHR 0x00] @ client @ [CHR 0x00] @ payload"

definition idem_mac :: "(bytes \<Rightarrow> bytes \<Rightarrow> bytes) \<Rightarrow> keyset \<Rightarrow> string \<Rightarrow> bytes \<Rightarrow> bytes" where
  "idem_mac hm ks client payload = hm (ks_mac_key ks) (idem_mac_message client payload)"

definition csrf_mac_message :: "bytes \<Rightarrow> bytes" where
  "csrf_mac_message payload = ''keychute/v1/csrf'' @ [CHR 0x00] @ payload"

definition csrf_mac :: "(bytes \<Rightarrow> bytes \<Rightarrow> bytes) \<Rightarrow> keyset \<Rightarrow> bytes \<Rightarrow> bytes" where
  "csrf_mac hm ks payload = hm (ks_mac_key ks) (csrf_mac_message payload)"

definition ct_eq :: "bytes \<Rightarrow> bytes \<Rightarrow> bool" where
  "ct_eq a b \<longleftrightarrow> a = b"

definition ephemeral_seal ::
  "aead \<Rightarrow> (uuid \<Rightarrow> string) \<Rightarrow> seal_random \<Rightarrow> bytes \<Rightarrow> bytes \<Rightarrow> aad_context \<Rightarrow> crypto_error + sealed" where
  "ephemeral_seal A uuid_str rnd key plaintext aad =
     seal_with_kek A uuid_str rnd key EPHEMERAL_KEK_ID plaintext aad"

definition ephemeral_open ::
  "aead \<Rightarrow> (uuid \<Rightarrow> string) \<Rightarrow> bytes \<Rightarrow> bytes \<Rightarrow> bytes \<Rightarrow> bytes \<Rightarrow> aad_context \<Rightarrow> crypto_error + bytes" where
  "ephemeral_open A uuid_str key ct nonce wrapped aad = open_with_kek A uuid_str key ct nonce wrapped aad"

lemma dec_int_inject [simp]: "dec_int i = dec_int j \<longleftrightarrow> i = j"
proof -
  have "CHR ''-'' # dec m \<noteq> dec n" for m n
    by (metis dec_no_minus list.set_intros(1))
  then show ?thesis
    by (auto simp: dec_int_def dest: sym)
qed

section \<open>What the envelope guarantees\<close>

text \<open>The documented behaviour of the cipher: decryption under the same key, nonce and associated
  data inverts encryption, a ciphertext carries a tag, and any other associated data is refused.\<close>

definition aead_correct :: "aead \<Rightarrow> bool" where
  "aead_correct A \<longleftrightarrow>
     (\<forall>k n a m c. encrypt A k n a m = Some c \<longrightarrow> decrypt A k n a c = Some m \<and> c \<noteq> [])"

definition aead_authentic :: "aead \<Rightarrow> bool" where
  "aead_authentic A \<longleftrightarrow>
     (\<forall>k n a a' m c. encrypt A k n a m = Some c \<longrightarrow> a' \<noteq> a \<longrightarrow> decrypt A k n a' c = None)"

definition random_ok :: "seal_random \<Rightarrow> bool" where
  "random_ok rnd \<longleftrightarrow> length (rnd_dek rnd) = KEY_LEN \<and> length (rnd_payload_nonce rnd) = NONCE_LEN
     \<and> length (rnd_wrap_nonce rnd) = NONCE_LEN"

lemma unwrap_wrapped:
  assumes "aead_correct A" "encrypt A kek n DEK_WRAP_AAD dek = Some w"
    "length n = NONCE_LEN" "length dek = KEY_LEN"
  shows "unwrap_dek A kek (n @ w) = Inr dek"
  using assms by (simp add: aead_correct_def unwrap_dek_def key_from_slice_def)

lemma unwrap_key_length: "unwrap_dek A kek w = Inr dek \<Longrightarrow> length dek = KEY_LEN"
  by (auto simp: unwrap_dek_def key_from_slice_def split: if_splits option.splits)

lemma seal_with_kek_parts:
  assumes "seal_with_kek A us rnd kek kid m aad = Inr s"
  obtains ct w where "encrypt A (rnd_dek rnd) (rnd_payload_nonce rnd) (aad_derive us aad) m = Some ct"
    "encrypt A kek (rnd_wrap_nonce rnd) DEK_WRAP_AAD (rnd_dek rnd) = Some w"
    "s = \<lparr>sl_ciphertext = ct, sl_nonce = rnd_payload_nonce rnd,
          sl_wrapped_dek = rnd_wrap_nonce rnd @ w, sl_kek_id = kid\<rparr>"
  using assms by (auto simp: seal_with_kek_def split: option.splits)

text \<open>Opening a sealed payload under another context runs the cipher with the data key that sealed it.\<close>

lemma open_sealed:
  assumes "aead_correct A" "random_ok rnd" "seal_with_kek A us rnd kek kid m aad = Inr s"
  shows "open_with_kek A us kek (sl_ciphertext s) (sl_nonce s) (sl_wrapped_dek s) aad' =
    (case decrypt A (rnd_dek rnd) (rnd_payload_nonce rnd) (aad_derive us aad') (sl_ciphertext s) of
       None \<Rightarrow> Inl DecryptFailed | Some m' \<Rightarrow> Inr m')"
  using assms(3)
proof (rule seal_with_kek_parts)
  fix ct w
  assume w: "encrypt A kek (rnd_wrap_nonce rnd) DEK_WRAP_AAD (rnd_dek rnd) = Some w"
    and s: "s = \<lparr>sl_ciphertext = ct, sl_nonce = rnd_payload_nonce rnd,
          sl_wrapped_dek = rnd_wrap_nonce rnd @ w, sl_kek_id = kid\<rparr>"
  from assms(1) w assms(2) have "unwrap_dek A kek (rnd_wrap_nonce rnd @ w) = Inr (rnd_dek rnd)"
    by (auto simp: random_ok_def intro: unwrap_wrapped)
  with assms(2) s show ?thesis
    by (simp add: open_with_kek_def random_ok_def)
qed

lemma keyset_seal_parts:
  assumes "keyset_seal A us rnd ks m aad = Inr s"
  obtains kek where "keyset_kek ks (ks_active ks) = Inr kek" "sl_kek_id s = ks_active ks"
    "seal_with_kek A us rnd kek (ks_active ks) m aad = Inr s"
  using assms
  by (auto simp: keyset_seal_def seal_with_kek_def split: sum.splits option.splits)

text \<open>Contexts are told apart by their derived bytes.\<close>

lemma slash_split: "CHR ''/'' \<notin> set u \<Longrightarrow> CHR ''/'' \<notin> set v \<Longrightarrow>
   u @ CHR ''/'' # x = v @ CHR ''/'' # y \<longleftrightarrow> u = v \<and> x = y"
  by (auto simp: append_eq_append_conv2 Cons_eq_append_conv append_eq_Cons_conv)

lemma aad_derive_inject:
  assumes "inj us" "\<And>u. CHR ''/'' \<notin> set (us u)"
  shows "aad_derive us a = aad_derive us b \<longleftrightarrow> a = b"
  using assms by (cases a; cases b) (auto simp: slash_split inj_eq)

text \<open>Rewrapping leaves the data key alone.\<close>

lemma rewrap_same_dek:
  assumes "aead_correct A" "length n = NONCE_LEN" "keyset_rewrap A n ks w old = Inr (w', kid)"
  obtains k k' dek where "keyset_kek ks old = Inr k" "keyset_kek ks kid = Inr k'" "kid = ks_active ks"
    "unwrap_dek A k w = Inr dek" "unwrap_dek A k' w' = Inr dek"
  using assms unwrap_wrapped [OF assms(1) _ assms(2)]
  by (auto simp: keyset_rewrap_def unwrap_key_length split: sum.splits option.splits)

section \<open>A cipher for the examples\<close>

definition ex_frame :: "bytes \<Rightarrow> bytes" where
  "ex_frame a = dec (length a) @ CHR ''/'' # a"

definition ex_aead :: aead where
  "ex_aead = \<lparr>encrypt = (\<lambda>k n a m. Some (ex_frame a @ m)), decrypt = (\<lambda>k n a c. strip_prefix (ex_frame a) c)\<rparr>"

definition ex_uuid_str :: "uuid \<Rightarrow> string" where
  "ex_uuid_str u = dec (unat u)"

definition ex_keyset :: keyset where
  "ex_keyset = \<lparr>ks_active = ''k1'', ks_keys = [(''k0'', replicate 32 CHR ''a''), (''k1'', replicate 32 CHR ''b'')],
     ks_mac_key = replicate 32 CHR ''m''\<rparr>"

definition ex_random :: seal_random where
  "ex_random = \<lparr>rnd_dek = replicate 32 CHR ''d'', rnd_payload_nonce = replicate 24 CHR ''n'',
     rnd_wrap_nonce = replicate 24 CHR ''w''\<rparr>"

definition ex_sealed :: sealed where
  "ex_sealed = projr (keyset_seal ex_aead ex_uuid_str ex_random ex_keyset ''pw'' (AadSecretVersion 7 1))"

lemma strip_prefix_append [simp]: "strip_prefix p (p @ x) = Some x"
  by (induction p) simp_all

lemma ex_aead_correct: "aead_correct ex_aead"
  by (auto simp: aead_correct_def ex_aead_def) (simp add: ex_frame_def)

lemma ex_frame_inject: "ex_frame a @ m = ex_frame b @ m' \<Longrightarrow> a = b"
  using slash_split [of "dec (length a)" "dec (length b)" "a @ m" "b @ m'"]
  by (auto simp: ex_frame_def)

lemma ex_aead_authentic: "aead_authentic ex_aead"
  unfolding aead_authentic_def ex_aead_def
  by (auto simp: strip_prefix_Some dest: ex_frame_inject) (metis ex_frame_inject not_None_eq strip_prefix_Some)

lemma ex_random_ok: "random_ok ex_random"
  by (simp add: random_ok_def ex_random_def KEY_LEN_def NONCE_LEN_def)

lemma ex_uuid_str_facts: "inj ex_uuid_str" "CHR ''/'' \<notin> set (ex_uuid_str u)"
  by (auto simp: ex_uuid_str_def inj_def word_unat_eq_iff)

lemma ex_sealed_eval [code]:
  "ex_sealed = \<lparr>sl_ciphertext = ''30/keychute/v1/secret-version/7/1pw'', sl_nonce = ''nnnnnnnnnnnnnnnnnnnnnnnn'',
     sl_wrapped_dek = ''wwwwwwwwwwwwwwwwwwwwwwww20/keychute/v1/dek-wrapdddddddddddddddddddddddddddddddd'', sl_kek_id = ''k1''\<rparr>"
  by code_simp

lemma ex_sealed_ok:
  "keyset_seal ex_aead ex_uuid_str ex_random ex_keyset ''pw'' (AadSecretVersion 7 1) = Inr ex_sealed"
  by code_simp

section \<open>Properties\<close>

lemma keyset_open_seal:
  assumes "aead_correct A" "random_ok rnd" "keyset_seal A uuid_str rnd ks m aad = Inr s"
  shows "keyset_open A uuid_str ks (sl_ciphertext s) (sl_nonce s) (sl_wrapped_dek s) (sl_kek_id s) aad = Inr m"
  using assms(3)
proof (rule keyset_seal_parts)
  fix kek
  assume kek: "keyset_kek ks (ks_active ks) = Inr kek" "sl_kek_id s = ks_active ks"
    and s: "seal_with_kek A uuid_str rnd kek (ks_active ks) m aad = Inr s"
  from s obtain ct where
    "encrypt A (rnd_dek rnd) (rnd_payload_nonce rnd) (aad_derive uuid_str aad) m = Some ct"
    "sl_ciphertext s = ct"
    by (rule seal_with_kek_parts) simp
  with kek open_sealed [OF assms(1,2) s, of aad] assms(1) show ?thesis
    by (simp add: keyset_open_def aead_correct_def)
qed

text \<open>whatever the keyset seals for a row, it opens again for that row, under the
  recorded key id, to the bytes that were sealed.\<close>

theorem seal_open_roundtrip:
  assumes "aead_correct A" "random_ok rnd" "keyset_seal A uuid_str rnd ks m aad = Inr s"
  shows "keyset_open A uuid_str ks (sl_ciphertext s) (sl_nonce s) (sl_wrapped_dek s) (sl_kek_id s) aad = Inr m"
  using assms by (rule keyset_open_seal)

theorem seal_open_roundtrip_witness:
  "keyset_open ex_aead ex_uuid_str ex_keyset (sl_ciphertext ex_sealed) (sl_nonce ex_sealed)
     (sl_wrapped_dek ex_sealed) (sl_kek_id ex_sealed) (AadSecretVersion 7 1) = Inr ''pw''"
  by (rule seal_open_roundtrip [OF ex_aead_correct ex_random_ok ex_sealed_ok])

text \<open>a sealed payload moved to another row (another secret, version, grant or request) does
  not open there, under the key that sealed it.\<close>

theorem relocated_payload_rejected:
  assumes "aead_correct A" "aead_authentic A" "random_ok rnd"
    "inj uuid_str" "\<And>u. CHR ''/'' \<notin> set (uuid_str u)"
    "keyset_seal A uuid_str rnd ks m aad = Inr s" "aad' \<noteq> aad"
  shows "keyset_open A uuid_str ks (sl_ciphertext s) (sl_nonce s) (sl_wrapped_dek s) (sl_kek_id s) aad'
    = Inl DecryptFailed"
  using assms(6)
proof (rule keyset_seal_parts)
  fix kek
  assume kek: "keyset_kek ks (ks_active ks) = Inr kek" "sl_kek_id s = ks_active ks"
    and s: "seal_with_kek A uuid_str rnd kek (ks_active ks) m aad = Inr s"
  from s obtain ct where ct:
    "encrypt A (rnd_dek rnd) (rnd_payload_nonce rnd) (aad_derive uuid_str aad) m = Some ct"
    "sl_ciphertext s = ct"
    by (rule seal_with_kek_parts) simp
  from assms(4,5,7) have "aad_derive uuid_str aad' \<noteq> aad_derive uuid_str aad"
    by (simp add: aad_derive_inject)
  with assms(2) ct have
    "decrypt A (rnd_dek rnd) (rnd_payload_nonce rnd) (aad_derive uuid_str aad') (sl_ciphertext s) = None"
    unfolding aead_authentic_def by blast
  with kek open_sealed [OF assms(1,3) s, of aad'] show ?thesis
    by (simp add: keyset_open_def)
qed

theorem relocated_payload_rejected_witness:
  "keyset_open ex_aead ex_uuid_str ex_keyset (sl_ciphertext ex_sealed) (sl_nonce ex_sealed)
     (sl_wrapped_dek ex_sealed) (sl_kek_id ex_sealed) (AadSecretVersion 7 2) = Inl DecryptFailed"
  by (rule relocated_payload_rejected
        [OF ex_aead_correct ex_aead_authentic ex_random_ok ex_uuid_str_facts ex_sealed_ok]) simp

text \<open>rotating the key-encryption key of a row changes nothing about what it opens to: with
  the new wrapped key and the new key id every ciphertext opens exactly as it did before, and the
  new id is the active one.\<close>

theorem rewrap_preserves_payload:
  assumes "aead_correct A" "length n = NONCE_LEN" "keyset_rewrap A n ks w old = Inr (w', kid)"
  shows "kid = ks_active ks
    \<and> keyset_open A uuid_str ks ct nonce w' kid aad = keyset_open A uuid_str ks ct nonce w old aad"
  using assms by (rule rewrap_same_dek) (simp add: keyset_open_def open_with_kek_def)

theorem rewrap_preserves_payload_witness:
  "\<exists>w kid. keyset_rewrap ex_aead (replicate 24 CHR ''x'') ex_keyset (sl_wrapped_dek ex_sealed) ''k0'' = Inr (w, kid)
     \<and> kid = ''k1''
     \<and> keyset_open ex_aead ex_uuid_str ex_keyset ''c'' ''n'' w kid (AadGrantPassthrough 3)
       = keyset_open ex_aead ex_uuid_str ex_keyset ''c'' ''n'' (sl_wrapped_dek ex_sealed) ''k0'' (AadGrantPassthrough 3)"
proof -
  obtain w kid where r:
    "keyset_rewrap ex_aead (replicate 24 CHR ''x'') ex_keyset (sl_wrapped_dek ex_sealed) ''k0'' = Inr (w, kid)"
  proof -
    have "isl (keyset_rewrap ex_aead (replicate 24 CHR ''x'') ex_keyset (sl_wrapped_dek ex_sealed) ''k0'') = False"
      by code_simp
    then show ?thesis
      using that by (cases "keyset_rewrap ex_aead (replicate 24 CHR ''x'') ex_keyset (sl_wrapped_dek ex_sealed) ''k0''") auto
  qed
  from rewrap_preserves_payload [OF ex_aead_correct _ r, of ex_uuid_str "''c''" "''n''" "AadGrantPassthrough 3"] r
  show ?thesis
    by (auto simp: NONCE_LEN_def ex_keyset_def)
qed

text \<open>The two MACs of the server never take the same message, and an idempotency MAC
  determines the client and the payload it was taken of, for client names without a NUL.\<close>

theorem mac_domains_separate:
  assumes "CHR 0x00 \<notin> set c" "CHR 0x00 \<notin> set c'"
  shows "idem_mac_message c p \<noteq> csrf_mac_message q
    \<and> (idem_mac_message c p = idem_mac_message c' p' \<longleftrightarrow> c = c' \<and> p = p')"
  using assms
  by (auto simp: idem_mac_message_def csrf_mac_message_def append_eq_append_conv2
      Cons_eq_append_conv append_eq_Cons_conv)

theorem mac_domains_separate_witness:
  "idem_mac_message ''bot'' ''{}'' \<noteq> csrf_mac_message ''{}''
   \<and> idem_mac_message ''bot'' ''{}'' \<noteq> idem_mac_message ''bo'' ''t{}''"
  using mac_domains_separate [of "''bot''" "''bo''" "''{}''" "''{}''" "''t{}''"] by simp

end
