(* ===== verification/Store_Policies.thy ===== *)
theory Store_Policies
  imports Store
begin

text \<open>
  Policy rows in the store: the single-statement operations of \<open>server/src/db/policies.rs\<close> and the
  audited operations of the UI, \<open>server/src/ui/policy_store.rs\<close>.
\<close>

record new_policy =
  np_client_name :: "string option"
  np_secret_name :: "string option"
  np_secret_tag :: "string option"
  np_mechanism :: string
  np_outcome :: string
  np_priority :: int
  np_origins :: "origin list jsonb"
  np_methods :: "string list"
  np_path_prefixes :: "string list"
  np_max_ttl_seconds :: "int option"
  np_max_uses :: "int option"
  np_not_after :: "time option"
  np_created_by :: string

definition new_policy_row :: "time \<Rightarrow> uuid \<Rightarrow> new_policy \<Rightarrow> string \<Rightarrow> bool \<Rightarrow> policy_row" where
  "new_policy_row now i p created_by managed =
     \<lparr>pol_id = i, pol_client_name = np_client_name p, pol_secret_name = np_secret_name p,
      pol_secret_tag = np_secret_tag p, pol_mechanism = np_mechanism p, pol_outcome = np_outcome p,
      pol_priority = np_priority p, pol_origins = np_origins p, pol_methods = np_methods p,
      pol_path_prefixes = np_path_prefixes p, pol_max_ttl_seconds = np_max_ttl_seconds p,
      pol_max_uses = np_max_uses p, pol_not_after = np_not_after p, pol_created_by = created_by,
      pol_created_at = now, pol_managed_by_config = managed\<rparr>"

text \<open>The table's constraints: the outcome vocabulary, and at most one of name and tag.\<close>

definition policy_check :: "string \<Rightarrow> string option \<Rightarrow> string option \<Rightarrow> bool" where
  "policy_check outcome secret_name secret_tag \<longleftrightarrow>
     outcome \<in> set [''auto-approve'', ''notify-only'', ''require-approval'', ''deny'']
     \<and> (secret_name = None \<or> secret_tag = None)"

definition insert_policy_row :: "policy_row \<Rightarrow> db \<Rightarrow> store_error + db" where
  "insert_policy_row r d =
     (if \<not> policy_check (pol_outcome r) (pol_secret_name r) (pol_secret_tag r) then Inl Check_violation
      else if list_ex (\<lambda>q. pol_id q = pol_id r) (db_policies d) then Inl Unique_violation
      else Inr (d\<lparr>db_policies := db_policies d @ [r]\<rparr>))"

definition list_policies :: "db \<Rightarrow> policy_row list" where
  "list_policies d = sort_key pol_created_at (db_policies d)"

definition count_policies :: "db \<Rightarrow> nat" where
  "count_policies d = length (db_policies d)"

definition insert_policy :: "time \<Rightarrow> uuid \<Rightarrow> new_policy \<Rightarrow> db \<Rightarrow> store_error + (policy_row \<times> db)" where
  "insert_policy now fresh p d =
     (let r = new_policy_row now fresh p (np_created_by p) False
      in case insert_policy_row r d of Inl e \<Rightarrow> Inl e | Inr d' \<Rightarrow> Inr (r, d'))"

definition delete_policy :: "uuid \<Rightarrow> db \<Rightarrow> bool \<times> db" where
  "delete_policy i d =
     (length (filter (\<lambda>r. pol_id r = i) (db_policies d)) = 1,
      d\<lparr>db_policies := del_where (\<lambda>r. pol_id r = i) (db_policies d)\<rparr>)"

definition policy_created_event ::
  "(uuid \<Rightarrow> string) \<Rightarrow> uuid \<Rightarrow> new_policy \<Rightarrow> string \<Rightarrow> audit_event" where
  "policy_created_event uuid_str i p actor =
     audit_default\<lparr>ae_kind := POLICY_CREATED, ae_client_name := np_client_name p,
       ae_secret_name := np_secret_name p, ae_actor := Some actor,
       ae_detail := Some (JObject [(''policy_id'', JString (uuid_str i)),
         (''mechanism'', JString (np_mechanism p)), (''outcome'', JString (np_outcome p))])\<rparr>"

definition policy_deleted_event :: "(uuid \<Rightarrow> string) \<Rightarrow> policy_row \<Rightarrow> string \<Rightarrow> audit_event" where
  "policy_deleted_event uuid_str r actor =
     audit_default\<lparr>ae_kind := POLICY_DELETED, ae_client_name := pol_client_name r,
       ae_secret_name := pol_secret_name r, ae_actor := Some actor,
       ae_detail := Some (JObject [(''policy_id'', JString (uuid_str (pol_id r)))])\<rparr>"

definition insert_policy_audited ::
  "(uuid \<Rightarrow> string) \<Rightarrow> time \<Rightarrow> uuid \<Rightarrow> new_policy \<Rightarrow> string \<Rightarrow> db \<Rightarrow> store_error + (uuid \<times> db)" where
  "insert_policy_audited uuid_str now fresh p actor d =
     (case insert_policy_row (new_policy_row now fresh p (np_created_by p) False) d of
        Inl e \<Rightarrow> Inl e
      | Inr d1 \<Rightarrow> Inr (fresh, insert_audit now (policy_created_event uuid_str fresh p actor) d1))"

definition delete_policy_audited ::
  "(uuid \<Rightarrow> string) \<Rightarrow> time \<Rightarrow> uuid \<Rightarrow> string \<Rightarrow> db \<Rightarrow> bool \<times> db" where
  "delete_policy_audited uuid_str now i actor d =
     (case find (\<lambda>r. pol_id r = i) (db_policies d) of
        None \<Rightarrow> (False, d)
      | Some r \<Rightarrow>
          (True, insert_audit now (policy_deleted_event uuid_str r actor)
                   (d\<lparr>db_policies := del_where (\<lambda>r. pol_id r = i) (db_policies d)\<rparr>)))"

datatype update_policy_outcome = Policy_Updated | Policy_NotFound | Policy_Managed

definition set_policy :: "new_policy \<Rightarrow> policy_row \<Rightarrow> policy_row" where
  "set_policy p r =
     r\<lparr>pol_client_name := np_client_name p, pol_secret_name := np_secret_name p,
       pol_secret_tag := np_secret_tag p, pol_mechanism := np_mechanism p,
       pol_outcome := np_outcome p, pol_priority := np_priority p, pol_origins := np_origins p,
       pol_methods := np_methods p, pol_path_prefixes := np_path_prefixes p,
       pol_max_ttl_seconds := np_max_ttl_seconds p, pol_max_uses := np_max_uses p,
       pol_not_after := np_not_after p\<rparr>"

definition update_policy_audited ::
  "(uuid \<Rightarrow> string) \<Rightarrow> time \<Rightarrow> uuid \<Rightarrow> new_policy \<Rightarrow> string \<Rightarrow> db
   \<Rightarrow> store_error + (update_policy_outcome \<times> db)" where
  "update_policy_audited uuid_str now i p actor d =
     (case find (\<lambda>r. pol_id r = i) (db_policies d) of
        None \<Rightarrow> Inr (Policy_NotFound, d)
      | Some r \<Rightarrow>
          if pol_managed_by_config r then Inr (Policy_Managed, d)
          else if \<not> policy_check (np_outcome p) (np_secret_name p) (np_secret_tag p)
            then Inl Check_violation
          else
            Inr (Policy_Updated,
              insert_audit now (audit_default\<lparr>ae_kind := POLICY_UPDATED,
                  ae_client_name := np_client_name p, ae_secret_name := np_secret_name p,
                  ae_actor := Some actor,
                  ae_detail := Some (JObject [(''policy_id'', JString (uuid_str i)),
                    (''mechanism'', JString (np_mechanism p)), (''outcome'', JString (np_outcome p)),
                    (''previous_outcome'', JString (pol_outcome r))])\<rparr>)
                (d\<lparr>db_policies := upd_where (\<lambda>r. pol_id r = i) (set_policy p) (db_policies d)\<rparr>)))"

end
