(* ===== verification/Provision.thy ===== *)
theory Provision
  imports Store_Secrets Store_Policies
begin

text \<open>
  Reconciliation of the database with the configuration at startup: clients
  (\<open>server/src/db/clients.rs\<close>), provisioned secrets and provisioned policy rows
  (\<open>server/src/db/provision.rs\<close>).
\<close>

section \<open>Clients\<close>

record service_account_auth =
  sa_audience :: string
  sa_subject :: string

record client_auth_config =
  ca_api_token_sha256 :: "string option"
  ca_service_account :: "service_account_auth option"

record client_config =
  cc_name :: string
  cc_max_tier :: tier
  cc_mechanisms :: "mechanism list"
  cc_auth :: client_auth_config
  cc_may_store_secrets :: bool

definition retire_client :: "client_row \<Rightarrow> client_row" where
  "retire_client c =
     c\<lparr>cl_enabled := False, cl_api_token_sha256 := None, cl_sa_audience := None,
       cl_sa_subject := None, cl_may_store_secrets := False\<rparr>"

definition release_binding :: "client_row \<Rightarrow> client_row" where
  "release_binding c = c\<lparr>cl_api_token_sha256 := None, cl_sa_audience := None, cl_sa_subject := None\<rparr>"

definition configured_row :: "uuid \<Rightarrow> client_config \<Rightarrow> client_row" where
  "configured_row i c =
     \<lparr>cl_id = i, cl_name = cc_name c, cl_max_tier = tier_as_int (cc_max_tier c),
      cl_mechanisms = map mech_as_str (cc_mechanisms c),
      cl_auth_kind = (if ca_api_token_sha256 (cc_auth c) \<noteq> None then ''api-token'' else ''service-account''),
      cl_api_token_sha256 = map_option (\<lambda>h. to_ascii_lowercase (trim h)) (ca_api_token_sha256 (cc_auth c)),
      cl_sa_audience = map_option sa_audience (ca_service_account (cc_auth c)),
      cl_sa_subject = map_option sa_subject (ca_service_account (cc_auth c)),
      cl_enabled = True, cl_may_store_secrets = cc_may_store_secrets c\<rparr>"

text \<open>The unique indexes of migration 0002 between two rows.\<close>

definition binding_clash :: "client_row \<Rightarrow> client_row \<Rightarrow> bool" where
  "binding_clash a b \<longleftrightarrow>
     cl_api_token_sha256 a \<noteq> None \<and> cl_api_token_sha256 a = cl_api_token_sha256 b
     \<or> cl_sa_audience a \<noteq> None \<and> cl_sa_subject a \<noteq> None
       \<and> cl_sa_audience a = cl_sa_audience b \<and> cl_sa_subject a = cl_sa_subject b"

text \<open>\<open>INSERT ... ON CONFLICT (name) DO UPDATE\<close>: the row keeps its id when the name exists.\<close>

definition upsert_client :: "uuid \<Rightarrow> client_config \<Rightarrow> client_row list \<Rightarrow> store_error + client_row list" where
  "upsert_client fresh c rows =
     (let new = configured_row fresh c
      in if list_ex (\<lambda>r. cl_name r \<noteq> cc_name c \<and> binding_clash new r) rows then Inl Unique_violation
         else if list_ex (\<lambda>r. cl_name r = cc_name c) rows
           then Inr (upd_where (\<lambda>r. cl_name r = cc_name c) (\<lambda>r. new\<lparr>cl_id := cl_id r\<rparr>) rows)
         else if list_ex (\<lambda>r. cl_id r = fresh) rows then Inl Unique_violation
         else Inr (rows @ [new]))"

fun upsert_clients :: "(uuid \<times> client_config) list \<Rightarrow> client_row list \<Rightarrow> store_error + client_row list" where
  "upsert_clients [] rows = Inr rows"
| "upsert_clients ((i, c) # cs) rows =
     (case upsert_client i c rows of Inl e \<Rightarrow> Inl e | Inr rows' \<Rightarrow> upsert_clients cs rows')"

text \<open>Each configured client comes with the id the database would draw for a new row.\<close>

definition reconcile_clients :: "(uuid \<times> client_config) list \<Rightarrow> db \<Rightarrow> store_error + db" where
  "reconcile_clients clients d =
     (let names = map (cc_name \<circ> snd) clients;
          r1 = upd_where (\<lambda>r. cl_name r \<notin> set names) retire_client (db_clients d);
          r2 = upd_where (\<lambda>r. cl_name r \<in> set names) release_binding r1
      in case upsert_clients clients r2 of
           Inl e \<Rightarrow> Inl e
         | Inr rows \<Rightarrow> Inr (d\<lparr>db_clients := rows\<rparr>))"

definition get_client_by_name :: "string \<Rightarrow> db \<Rightarrow> client_row option" where
  "get_client_by_name nm d = find (\<lambda>c. cl_name c = nm) (db_clients d)"

definition get_client_by_token_hash :: "string \<Rightarrow> db \<Rightarrow> client_row option" where
  "get_client_by_token_hash h d = find (\<lambda>c. cl_api_token_sha256 c = Some h) (db_clients d)"

definition get_clients_by_sa_subject :: "string \<Rightarrow> db \<Rightarrow> client_row list" where
  "get_clients_by_sa_subject s d = filter (\<lambda>c. cl_sa_subject c = Some s) (db_clients d)"

section \<open>Provisioned secrets\<close>

definition CONFIG_ACTOR :: string where
  "CONFIG_ACTOR = ''config''"

record desired_secret =
  ds_name :: string
  ds_description :: string
  ds_max_tier :: int
  ds_injection_kind :: string
  ds_injection_header :: "string option"
  ds_injection_username :: "string option"
  ds_tags :: "string list"
  ds_value :: bytes

datatype secret_change = Change_Created | Change_Updated bool bool | Change_Unchanged

text \<open>\<open>insert_version\<close>: seal and insert one version row.\<close>

definition insert_version ::
  "(uuid \<Rightarrow> int \<Rightarrow> bytes \<Rightarrow> seal_fn) \<Rightarrow> time \<Rightarrow> uuid \<Rightarrow> uuid \<Rightarrow> int \<Rightarrow> bytes \<Rightarrow> db \<Rightarrow> store_error + db" where
  "insert_version seal now fresh sid v val d =
     (case seal sid v val of
        None \<Rightarrow> Inl Seal_error
      | Some sl \<Rightarrow> insert_version_row (new_version_row now fresh sid v sl None) d)"

definition replace_tags :: "uuid \<Rightarrow> string list \<Rightarrow> db \<Rightarrow> store_error + db" where
  "replace_tags sid tags d = insert_tags sid tags (clear_tags sid d)"

definition metadata_differs :: "string list \<Rightarrow> string list \<Rightarrow> desired_secret \<Rightarrow> secret_row \<Rightarrow> bool" where
  "metadata_differs current_tags wanted_tags x s \<longleftrightarrow>
     sec_description s \<noteq> ds_description x \<or> sec_max_tier s \<noteq> ds_max_tier x
     \<or> sec_injection_kind s \<noteq> ds_injection_kind x \<or> sec_injection_header s \<noteq> ds_injection_header x
     \<or> sec_injection_username s \<noteq> ds_injection_username x \<or> \<not> sec_enabled s
     \<or> \<not> sec_operator_vetted s \<or> \<not> sec_managed_by_config s \<or> current_tags \<noteq> wanted_tags"

definition adopt_row :: "time \<Rightarrow> desired_secret \<Rightarrow> secret_row \<Rightarrow> secret_row" where
  "adopt_row now x s =
     s\<lparr>sec_description := ds_description x, sec_max_tier := ds_max_tier x,
       sec_injection_kind := ds_injection_kind x, sec_injection_header := ds_injection_header x,
       sec_injection_username := ds_injection_username x, sec_enabled := True,
       sec_operator_vetted := True, sec_managed_by_config := True, sec_updated_at := now\<rparr>"

definition provision_create ::
  "(uuid \<Rightarrow> int \<Rightarrow> bytes \<Rightarrow> seal_fn) \<Rightarrow> time \<Rightarrow> uuid \<Rightarrow> uuid \<Rightarrow> desired_secret \<Rightarrow> db
   \<Rightarrow> store_error + (secret_change \<times> db)" where
  "provision_create seal now sid fresh_version x d =
     (let row = \<lparr>sec_id = sid, sec_name = ds_name x, sec_description = ds_description x,
                 sec_max_tier = ds_max_tier x, sec_injection_kind = ds_injection_kind x,
                 sec_injection_header = ds_injection_header x,
                 sec_injection_username = ds_injection_username x, sec_current_version = 1,
                 sec_enabled = True, sec_operator_vetted = True, sec_managed_by_config = True,
                 sec_created_at = now, sec_updated_at = now\<rparr>
      in case insert_secret_row row d of
           Inl e \<Rightarrow> Inl e
         | Inr d1 \<Rightarrow>
             (case insert_version seal now fresh_version sid 1 (ds_value x) d1 of
                Inl e \<Rightarrow> Inl e
              | Inr d2 \<Rightarrow>
                  (case replace_tags sid (ds_tags x) d2 of
                     Inl e \<Rightarrow> Inl e
                   | Inr d3 \<Rightarrow>
                       Inr (Change_Created, insert_audit now (audit_default\<lparr>ae_kind := SECRET_CREATED,
                          ae_secret_name := Some (ds_name x), ae_secret_version_id := Some fresh_version,
                          ae_actor := Some CONFIG_ACTOR\<rparr>) d3))))"

definition provision_metadata ::
  "time \<Rightarrow> string list \<Rightarrow> desired_secret \<Rightarrow> secret_row \<Rightarrow> db \<Rightarrow> store_error + db" where
  "provision_metadata now wanted_tags x row d =
     (if ds_injection_kind x \<notin> set INJECTION_KINDS then Inl Check_violation
      else
        (case replace_tags (sec_id row) wanted_tags
                (d\<lparr>db_secrets := upd_where (\<lambda>s. sec_id s = sec_id row) (adopt_row now x) (db_secrets d)\<rparr>) of
           Inl e \<Rightarrow> Inl e
         | Inr d1 \<Rightarrow>
             Inr (insert_audit now (audit_default\<lparr>ae_kind := SECRET_UPDATED,
                ae_secret_name := Some (ds_name x), ae_actor := Some CONFIG_ACTOR,
                ae_detail := Some (JObject [(''max_tier'', JNumber (dec_int (ds_max_tier x))),
                  (''injection_kind'', JString (ds_injection_kind x)),
                  (''adopted'', JBool (\<not> sec_managed_by_config row))])\<rparr>) d1)))"

definition provision_rotate ::
  "(uuid \<Rightarrow> int \<Rightarrow> bytes \<Rightarrow> seal_fn) \<Rightarrow> time \<Rightarrow> uuid \<Rightarrow> desired_secret \<Rightarrow> secret_row \<Rightarrow> db
   \<Rightarrow> store_error + db" where
  "provision_rotate seal now fresh_version x row d =
     (case bump_current_version (bump_version now) (sec_id row) d of
        Inl e \<Rightarrow> Inl e
      | Inr None \<Rightarrow> Inl Row_not_found
      | Inr (Some (v, d1)) \<Rightarrow>
          (case insert_version seal now fresh_version (sec_id row) v (ds_value x) d1 of
             Inl e \<Rightarrow> Inl e
           | Inr d2 \<Rightarrow>
               Inr (insert_audit now (audit_default\<lparr>ae_kind := SECRET_ROTATED,
                  ae_secret_name := Some (ds_name x), ae_secret_version_id := Some fresh_version,
                  ae_actor := Some CONFIG_ACTOR\<rparr>) d2)))"

text \<open>Rust's \<open>sort\<close> and \<open>dedup\<close> of byte strings.\<close>

fun bytes_le :: "string \<Rightarrow> string \<Rightarrow> bool" where
  "bytes_le [] _ = True"
| "bytes_le (x # xs) [] = False"
| "bytes_le (x # xs) (y # ys) = (byte x < byte y \<or> byte x = byte y \<and> bytes_le xs ys)"

fun insert_sorted :: "string \<Rightarrow> string list \<Rightarrow> string list" where
  "insert_sorted x [] = [x]"
| "insert_sorted x (y # ys) = (if bytes_le x y then x # y # ys else y # insert_sorted x ys)"

definition sort_strings :: "string list \<Rightarrow> string list" where
  "sort_strings xs = foldr insert_sorted xs []"

text \<open>The keyset's \<open>open\<close> of a version row, \<^term>\<open>None\<close> when decryption fails, is \<open>unseal\<close>.\<close>

definition reconcile_one_secret ::
  "(string list \<Rightarrow> string list) \<Rightarrow> (uuid \<Rightarrow> int \<Rightarrow> bytes \<Rightarrow> seal_fn) \<Rightarrow> (secret_version_row \<Rightarrow> bytes option)
   \<Rightarrow> time \<Rightarrow> uuid \<Rightarrow> uuid \<Rightarrow> desired_secret \<Rightarrow> db \<Rightarrow> store_error + (secret_change \<times> db)" where
  "reconcile_one_secret collate seal unseal now fresh_secret fresh_version x d =
     (case get_secret_by_name (ds_name x) d of
        None \<Rightarrow> provision_create seal now fresh_secret fresh_version x d
      | Some row \<Rightarrow>
          (let wanted_tags = remdups_adj (sort_strings (ds_tags x));
               metadata = metadata_differs (get_tags_for_secret collate (sec_id row) d) wanted_tags x row
           in case (if metadata then provision_metadata now wanted_tags x row d else Inr d) of
                Inl e \<Rightarrow> Inl e
              | Inr d1 \<Rightarrow>
                  (case (case get_secret_version (sec_id row) (sec_current_version row) d1 of
                           Some v \<Rightarrow> (case unseal v of
                                        None \<Rightarrow> Inl Open_error
                                      | Some plaintext \<Rightarrow> Inr (plaintext = ds_value x))
                         | None \<Rightarrow> Inr False) of
                     Inl e \<Rightarrow> Inl e
                   | Inr same \<Rightarrow>
                       (case (if same then Inr d1 else provision_rotate seal now fresh_version x row d1) of
                          Inl e \<Rightarrow> Inl e
                        | Inr d2 \<Rightarrow>
                            Inr (if metadata \<or> \<not> same then Change_Updated metadata (\<not> same)
                                 else Change_Unchanged, d2)))))"

section \<open>Provisioned policies\<close>

record policy_changes =
  pch_created :: nat
  pch_deleted :: nat

text \<open>Everything that makes two rows the same rule; \<open>created_by\<close> is not part of it.\<close>

definition policy_key :: "new_policy \<Rightarrow> new_policy" where
  "policy_key p = p\<lparr>np_created_by := []\<rparr>"

definition row_policy :: "policy_row \<Rightarrow> new_policy" where
  "row_policy r =
     \<lparr>np_client_name = pol_client_name r, np_secret_name = pol_secret_name r,
      np_secret_tag = pol_secret_tag r, np_mechanism = pol_mechanism r, np_outcome = pol_outcome r,
      np_priority = pol_priority r, np_origins = pol_origins r, np_methods = pol_methods r,
      np_path_prefixes = pol_path_prefixes r, np_max_ttl_seconds = pol_max_ttl_seconds r,
      np_max_uses = pol_max_uses r, np_not_after = pol_not_after r, np_created_by = pol_created_by r\<rparr>"

text \<open>\<open>Vec::swap_remove\<close>: the last element takes the removed position.\<close>

definition swap_remove :: "nat \<Rightarrow> 'a list \<Rightarrow> 'a list" where
  "swap_remove i xs = (if i < length xs - 1 then butlast (xs[i := last xs]) else butlast xs)"

fun position :: "('a \<Rightarrow> bool) \<Rightarrow> 'a list \<Rightarrow> nat option" where
  "position P [] = None"
| "position P (x # xs) = (if P x then Some 0 else map_option Suc (position P xs))"

text \<open>The loop over the managed rows: rows still wanted are taken off the list, the others are
  deleted with an audit row.\<close>

fun reconcile_existing ::
  "(uuid \<Rightarrow> string) \<Rightarrow> time \<Rightarrow> policy_row list \<Rightarrow> new_policy list \<Rightarrow> db \<Rightarrow> new_policy list \<times> nat \<times> db" where
  "reconcile_existing uuid_str now [] wanted d = (wanted, 0, d)"
| "reconcile_existing uuid_str now (r # rs) wanted d =
     (case position (\<lambda>p. policy_key p = policy_key (row_policy r)) wanted of
        Some i \<Rightarrow> reconcile_existing uuid_str now rs (swap_remove i wanted) d
      | None \<Rightarrow>
          (let d1 = insert_audit now (policy_deleted_event uuid_str r CONFIG_ACTOR)
                      (d\<lparr>db_policies := del_where (\<lambda>q. pol_id q = pol_id r) (db_policies d)\<rparr>);
               (w, n, d2) = reconcile_existing uuid_str now rs wanted d1
           in (w, Suc n, d2)))"

fun insert_managed ::
  "(uuid \<Rightarrow> string) \<Rightarrow> time \<Rightarrow> uuid list \<Rightarrow> new_policy list \<Rightarrow> db \<Rightarrow> store_error + (nat \<times> db)" where
  "insert_managed uuid_str now ids [] d = Inr (0, d)"
| "insert_managed uuid_str now [] (p # ps) d = Inl Unique_violation"
| "insert_managed uuid_str now (i # ids) (p # ps) d =
     (case insert_policy_row (new_policy_row now i p CONFIG_ACTOR True) d of
        Inl e \<Rightarrow> Inl e
      | Inr d1 \<Rightarrow>
          (case insert_managed uuid_str now ids ps
                  (insert_audit now (policy_created_event uuid_str i p CONFIG_ACTOR) d1) of
             Inl e \<Rightarrow> Inl e
           | Inr (n, d2) \<Rightarrow> Inr (Suc n, d2)))"

text \<open>\<open>ids\<close> are the ids the database draws, at least as many as rules.\<close>

definition reconcile_policies ::
  "(uuid \<Rightarrow> string) \<Rightarrow> time \<Rightarrow> uuid list \<Rightarrow> new_policy list \<Rightarrow> db \<Rightarrow> store_error + (policy_changes \<times> db)" where
  "reconcile_policies uuid_str now ids desired d =
     (case reconcile_existing uuid_str now (filter pol_managed_by_config (db_policies d)) desired d of
        (wanted, deleted, d1) \<Rightarrow>
          (case insert_managed uuid_str now ids wanted d1 of
             Inl e \<Rightarrow> Inl e
           | Inr (created, d2) \<Rightarrow> Inr (\<lparr>pch_created = created, pch_deleted = deleted\<rparr>, d2)))"

end
