(* ===== verification/Canonical.thy ===== *)
theory Canonical
  imports Provision
begin

text \<open>
  The canonical JSON text an idempotency MAC is taken of (\<open>server/src/api/canonical.rs\<close>), with the
  derived serialization of a request body (\<open>types/src/lib.rs\<close>).  The quoting of a string by
  \<open>serde_json\<close> is the argument \<open>quote\<close>.
\<close>

fun canonical_json :: "(string \<Rightarrow> string) \<Rightarrow> json \<Rightarrow> string" where
  "canonical_json quote JNull = ''null''"
| "canonical_json quote (JBool b) = (if b then ''true'' else ''false'')"
| "canonical_json quote (JNumber n) = n"
| "canonical_json quote (JString s) = quote s"
| "canonical_json quote (JArray items) =
     ''['' @ join_with '','' (map (canonical_json quote) items) @ '']''"
| "canonical_json quote (JObject kvs) =
     (let texts = map (\<lambda>(k, v). (k, canonical_json quote v)) kvs;
          keys = sort_strings (map fst kvs)
      in ''{'' @ join_with '','' (map (\<lambda>k. quote k @ '':'' @ the (map_of texts k)) keys) @ ''}'')"

definition optional_field :: "string \<Rightarrow> json option \<Rightarrow> (string \<times> json) list" where
  "optional_field k v = (case v of None \<Rightarrow> [] | Some j \<Rightarrow> [(k, j)])"

definition origin_to_value :: "origin \<Rightarrow> json" where
  "origin_to_value x =
     JObject ([(''host'', JString (o_host x))]
       @ optional_field ''port'' (map_option (\<lambda>p. JNumber (dec (unat p))) (o_port x)))"

definition constraints_to_value :: "constraints \<Rightarrow> json" where
  "constraints_to_value c =
     JObject ([(''origins'', JArray (map origin_to_value (c_origins c))),
               (''methods'', JArray (map JString (c_methods c))),
               (''path_prefixes'', JArray (map JString (c_path_prefixes c))),
               (''ttl_seconds'', JNumber (dec (unat (c_ttl_seconds c))))]
       @ optional_field ''max_uses'' (map_option (\<lambda>u. JNumber (dec (unat u))) (c_max_uses c)))"

definition context_to_value :: "request_context \<Rightarrow> json" where
  "context_to_value x =
     JObject ([(''reason'', JString (cx_reason x))] @ optional_field ''structured'' (cx_structured x))"

definition create_to_value :: "create_access_request \<Rightarrow> json" where
  "create_to_value r =
     JObject [(''idempotency_key'', JString (cr_idempotency_key r)),
              (''secret_name'', JString (cr_secret_name r)),
              (''mechanism'', JString (mech_as_str (cr_mechanism r))),
              (''constraints'', constraints_to_value (cr_constraints r)),
              (''context'', context_to_value (cr_context r))]"

definition remove_key :: "string \<Rightarrow> (string \<times> json) list \<Rightarrow> (string \<times> json) list" where
  "remove_key k = filter (\<lambda>(k', _). k' \<noteq> k)"

fun strip_structured :: "json \<Rightarrow> json" where
  "strip_structured (JObject kvs) = JObject (remove_key ''structured'' kvs)"
| "strip_structured v = v"

definition canonical_request_payload :: "(string \<Rightarrow> string) \<Rightarrow> create_access_request \<Rightarrow> bytes" where
  "canonical_request_payload quote r =
     canonical_json quote
       (case create_to_value r of
          JObject kvs \<Rightarrow>
            JObject (map (\<lambda>(k, v). (k, if k = ''context'' then strip_structured v else v))
                      (remove_key ''idempotency_key'' kvs))
        | v \<Rightarrow> v)"

end
