(* ===== verification/Paths.thy ===== *)
theory Paths
  imports Prelude "HOL-Library.Sublist"
begin

text \<open>
  Path canonicalization and prefix matching (\<open>types/src/paths.rs\<close>), and the reference
  reading of both: a canonical path is a list of segments, and a prefix covers a path exactly
  when its segments are an initial part of the path's segments.
\<close>

section \<open>The code\<close>

datatype path_error =
    Path_must_start_with_slash | Truncated_percent_escape | Invalid_percent_escape
  | Encoded_slash | Encoded_backslash | Raw_backslash | Not_utf8_after_decoding
  | Control_character | Dot_segment | Duplicate_slash

abbreviation slash :: char where "slash \<equiv> CHR ''/''"
abbreviation backslash :: char where "backslash \<equiv> CHR 0x5C"

definition hex_val :: "char \<Rightarrow> nat option" where
  "hex_val c =
     (if 48 \<le> byte c \<and> byte c \<le> 57 then Some (byte c - 48)
      else if 97 \<le> byte c \<and> byte c \<le> 102 then Some (byte c - 97 + 10)
      else if 65 \<le> byte c \<and> byte c \<le> 70 then Some (byte c - 65 + 10)
      else None)"

text \<open>The decoding loop: one pass over the bytes, the first offending byte decides the error.\<close>

fun percent_decode :: "string \<Rightarrow> path_error + string" where
  "percent_decode [] = Inr []"
| "percent_decode (b # bs) =
     (if b = CHR ''%'' then
        (case bs of
           h # l # rest \<Rightarrow>
             (case hex_val h of
                None \<Rightarrow> Inl Invalid_percent_escape
              | Some hv \<Rightarrow>
                  (case hex_val l of
                     None \<Rightarrow> Inl Invalid_percent_escape
                   | Some lv \<Rightarrow>
                       (let v = char_of (hv * 16 + lv)
                        in if v = slash then Inl Encoded_slash
                           else if v = backslash then Inl Encoded_backslash
                           else map_sum id ((#) v) (percent_decode rest))))
         | _ \<Rightarrow> Inl Truncated_percent_escape)
      else if b = backslash then Inl Raw_backslash
      else map_sum id ((#) b) (percent_decode bs))"

text \<open>A segment is judged by what precedes its first \<open>;\<close>.\<close>

definition is_dot_segment :: "string \<Rightarrow> bool" where
  "is_dot_segment seg \<longleftrightarrow>
     (let base = hd (split_on (CHR '';'') seg) in base = ''.'' \<or> base = ''..'')"

fun contains :: "'a list \<Rightarrow> 'a list \<Rightarrow> bool" where
  "contains p [] \<longleftrightarrow> p = []"
| "contains p (x # xs) \<longleftrightarrow> starts_with p (x # xs) \<or> contains p xs"

definition canonicalize :: "string \<Rightarrow> path_error + string" where
  "canonicalize raw =
     (if \<not> starts_with ''/'' raw then Inl Path_must_start_with_slash
      else (case percent_decode raw of
              Inl e \<Rightarrow> Inl e
            | Inr s \<Rightarrow>
                (case from_utf8 s of
                   None \<Rightarrow> Inl Not_utf8_after_decoding
                 | Some cps \<Rightarrow>
                     if list_ex cp_is_control cps then Inl Control_character
                     else if list_ex is_dot_segment (split_on slash s) then Inl Dot_segment
                     else if contains ''//'' s then Inl Duplicate_slash
                     else Inr s)))"

definition prefix_matches :: "string \<Rightarrow> string \<Rightarrow> bool" where
  "prefix_matches pre path \<longleftrightarrow>
     (if pre = ''/'' then True
      else (let p = trim_end_matches slash pre
            in if p = [] then False
               else path = p
                    \<or> (length path > length p \<and> path ! length p = slash \<and> starts_with p path)))"

section \<open>What a canonical path is\<close>

definition canonical_path :: "string \<Rightarrow> bool" where
  "canonical_path s \<longleftrightarrow>
     starts_with ''/'' s \<and> backslash \<notin> set s
     \<and> (case from_utf8 s of None \<Rightarrow> False | Some cps \<Rightarrow> \<not> list_ex cp_is_control cps)
     \<and> \<not> list_ex is_dot_segment (split_on slash s) \<and> \<not> contains ''//'' s"

definition segments :: "string \<Rightarrow> string list" where
  "segments s = filter (\<lambda>seg. seg \<noteq> []) (split_on slash s)"

lemma contains_iff: "contains p s \<longleftrightarrow> (\<exists>a b. s = a @ p @ b)"
proof (induction p s rule: contains.induct)
  case (2 p x xs)
  show ?case
  proof
    assume "contains p (x # xs)"
    then consider b where "x # xs = p @ b" | "contains p xs"
      by (auto simp: starts_with_append)
    then show "\<exists>a b. x # xs = a @ p @ b"
      using 2 by cases (metis append_Nil, metis append_Cons)
  next
    assume "\<exists>a b. x # xs = a @ p @ b"
    then obtain a b where "x # xs = a @ p @ b" by blast
    then show "contains p (x # xs)"
      unfolding contains.simps starts_with_append using 2
      by (cases a) (metis append_Nil, metis append_Cons list.inject)
  qed
qed simp

text \<open>Induction over a successful run of the decoding loop.\<close>

lemma percent_decode_Inr_induct [consumes 1, case_names Nil Escape Plain]:
  assumes "percent_decode raw = Inr s"
    and "P [] []"
    and "\<And>h l rest hv lv v t. hex_val h = Some hv \<Longrightarrow> hex_val l = Some lv \<Longrightarrow>
           v = char_of (hv * 16 + lv) \<Longrightarrow> v \<noteq> slash \<Longrightarrow> v \<noteq> backslash \<Longrightarrow>
           percent_decode rest = Inr t \<Longrightarrow> P rest t \<Longrightarrow> P (CHR ''%'' # h # l # rest) (v # t)"
    and "\<And>b bs t. b \<noteq> CHR ''%'' \<Longrightarrow> b \<noteq> backslash \<Longrightarrow>
           percent_decode bs = Inr t \<Longrightarrow> P bs t \<Longrightarrow> P (b # bs) (b # t)"
  shows "P raw s"
  using assms(1)
proof (induction raw arbitrary: s rule: percent_decode.induct)
  case 1
  then show ?case using assms(2) by simp
next
  case (2 b bs)
  show ?case
  proof (cases "b = CHR ''%''")
    case True
    with 2(3) obtain h l rest hv lv t where bs: "bs = h # l # rest"
      and hv: "hex_val h = Some hv" and lv: "hex_val l = Some lv"
      and v: "(char_of (hv * 16 + lv) :: char) \<noteq> slash" "(char_of (hv * 16 + lv) :: char) \<noteq> backslash"
      and t: "percent_decode rest = Inr t" and s: "s = char_of (hv * 16 + lv) # t"
      by (auto simp: Let_def map_sum_def split: list.splits option.splits if_splits sum.splits)
    have "P rest t"
      by (rule 2(1) [OF True bs refl hv lv refl v t])
    then show ?thesis
      unfolding True bs s by (intro assms(3) [OF hv lv refl v t])
  next
    case False
    with 2(3) obtain t where nb: "b \<noteq> backslash" and t: "percent_decode bs = Inr t" and s: "s = b # t"
      by (cases "percent_decode bs") (auto split: if_splits)
    show ?thesis
      unfolding s by (rule assms(4) [OF False nb t 2(2) [OF False nb t]])
  qed
qed

lemma map_Inr_hd_tl:
  "map f xs = map Inr ys \<Longrightarrow> xs \<noteq> [] \<Longrightarrow>
     f (hd xs) = Inr (hd ys) \<and> map f (tl xs) = map Inr (tl ys)"
  by (cases xs; cases ys) auto

lemma hex_val_not_slash: "hex_val c = Some n \<Longrightarrow> c \<noteq> slash"
  by (auto simp: hex_val_def byte_def)

text \<open>Decoding never creates or hides a separator.\<close>

lemma percent_decode_segments:
  "percent_decode raw = Inr s \<Longrightarrow>
     map percent_decode (split_on slash raw) = map Inr (split_on slash s)"
proof (induction rule: percent_decode_Inr_induct)
  case (Escape h l rest hv lv v t)
  then show ?case
    using map_Inr_hd_tl [OF Escape.IH] by (auto simp: hex_val_not_slash Let_def)
next
  case (Plain b bs t)
  then show ?case
    using map_Inr_hd_tl [OF Plain.IH] by (cases "b = slash") simp_all
qed simp

lemma percent_decode_no_backslash: "percent_decode raw = Inr s \<Longrightarrow> backslash \<notin> set s"
  by (induction rule: percent_decode_Inr_induct) auto

lemma percent_decode_starts_slash:
  "percent_decode raw = Inr s \<Longrightarrow> starts_with ''/'' raw \<Longrightarrow> starts_with ''/'' s"
  by (cases raw; cases "percent_decode (tl raw)") auto

lemma canonicalize_canonical: "canonicalize raw = Inr s \<Longrightarrow> canonical_path s"
  by (auto simp: canonicalize_def canonical_path_def
      dest: percent_decode_no_backslash percent_decode_starts_slash
      split: if_splits sum.splits option.splits)

section \<open>Prefix matching is segment-wise\<close>

lemma segments_append_slash: "segments (a @ slash # b) = segments a @ segments b"
  by (simp add: segments_def split_on_append_sep)

lemma segments_trim_end: "segments (trim_end_matches slash s) = segments s"
proof (induction s rule: rev_induct)
  case (snoc x xs)
  then show ?case
    using segments_append_slash [of xs "[]"]
    by (cases "x = slash") (simp_all add: segments_def)
qed simp

lemma prefix_matches_iff:
  "prefix_matches pre path \<longleftrightarrow>
     pre = ''/'' \<or> (trim_end_matches slash pre \<noteq> []
        \<and> (path = trim_end_matches slash pre \<or> (\<exists>r. path = trim_end_matches slash pre @ slash # r)))"
proof -
  have "length path > length p \<and> path ! length p = slash \<and> starts_with p path
        \<longleftrightarrow> (\<exists>r. path = p @ slash # r)" for p
  proof
    assume a: "length path > length p \<and> path ! length p = slash \<and> starts_with p path"
    then obtain t where t: "path = p @ t" by (auto simp: starts_with_append)
    with a show "\<exists>r. path = p @ slash # r"
      by (cases t) (auto simp: nth_append)
  qed (auto simp: starts_with_append)
  then show ?thesis
    by (auto simp: prefix_matches_def Let_def)
qed

lemma prefix_matches_segments:
  "prefix_matches pre path \<Longrightarrow> prefix (segments pre) (segments path)"
  unfolding prefix_matches_iff
  by (auto simp: segments_append_slash segments_trim_end prefix_def) (simp add: segments_def)

text \<open>A path with no duplicate slash is its segments, each behind a slash, and at most one
  trailing slash.\<close>

definition render :: "string list \<Rightarrow> string" where
  "render segs = concat (map ((#) slash) segs)"

lemma render_append [simp]: "render (xs @ ys) = render xs @ render ys"
  by (simp add: render_def)

lemma render_Cons [simp]: "render (x # xs) = slash # x @ render xs"
  by (simp add: render_def)

lemma render_Nil [simp]: "render [] = []"
  by (simp add: render_def)

lemma render_segments_tail:
  assumes "\<not> contains ''//'' (slash # u)"
  shows "\<exists>opt. (opt = [] \<or> opt = ''/'') \<and> slash # u = render (segments u) @ opt"
  using assms
proof (induction u rule: length_induct)
  case (1 u)
  show ?case
  proof (cases "split_once slash u")
    case None
    then have "slash \<notin> set u" by (simp add: split_once_None)
    then show ?thesis
      by (cases "u = []") (auto simp: segments_def split_on_no_sep)
  next
    case (Some ab)
    then obtain seg u' where u: "u = seg @ slash # u'" and seg: "slash \<notin> set seg"
      by (cases ab) (auto simp: split_once_Some)
    have nonempty: "seg \<noteq> []"
      using 1(2) u by (auto simp: starts_with_append)
    have "\<not> contains ''//'' (slash # u')"
      using 1(2) unfolding u contains_iff by (metis append.assoc append_Cons)
    moreover have "length u' < length u"
      by (simp add: u)
    ultimately obtain opt where opt: "opt = [] \<or> opt = ''/''" "slash # u' = render (segments u') @ opt"
      using 1(1) by blast
    have "segments u = seg # segments u'"
      using nonempty by (simp add: u segments_append_slash) (simp add: segments_def split_on_no_sep seg)
    with opt u show ?thesis by auto
  qed
qed

lemma segments_slash_Cons: "segments (slash # u) = segments u"
  by (simp add: segments_def)

lemma canonical_render:
  assumes "canonical_path s"
  obtains opt where "opt = [] \<or> opt = ''/''" "s = render (segments s) @ opt"
proof -
  from assms obtain u where u: "s = slash # u"
    by (auto simp: canonical_path_def starts_with_append)
  from assms have "\<not> contains ''//'' (slash # u)"
    by (simp add: canonical_path_def u)
  from render_segments_tail [OF this] show ?thesis
    using that u by (auto simp: segments_slash_Cons)
qed

lemma segments_no_slash: "seg \<in> set (segments s) \<Longrightarrow> seg \<noteq> [] \<and> slash \<notin> set seg"
  by (auto simp: segments_def dest: split_on_pieces)

lemma trim_end_render: "\<forall>seg \<in> set segs. seg \<noteq> [] \<and> slash \<notin> set seg \<Longrightarrow>
    trim_end_matches slash (render segs) = render segs"
proof (cases segs rule: rev_cases)
  case (snoc ys y)
  assume "\<forall>seg \<in> set segs. seg \<noteq> [] \<and> slash \<notin> set seg"
  with snoc obtain z c where "y = z @ [c]" "c \<noteq> slash"
    by (cases y rule: rev_cases) auto
  then show ?thesis
    using snoc trim_end_matches_snoc(2) [of c slash "render ys @ slash # z"] by simp
qed simp

lemma canonical_trim_end: "canonical_path s \<Longrightarrow> trim_end_matches slash s = render (segments s)"
proof (erule canonical_render)
  fix opt
  assume "opt = [] \<or> opt = ''/''" "s = render (segments s) @ opt"
  moreover have "trim_end_matches slash (render (segments s)) = render (segments s)"
    by (rule trim_end_render) (auto dest: segments_no_slash)
  ultimately show ?thesis
    by (metis append_Nil2 trim_end_matches_snoc(1))
qed

lemma segments_prefix_matches:
  assumes "canonical_path pre" "canonical_path path" "prefix (segments pre) (segments path)"
  shows "prefix_matches pre path"
proof (cases "segments pre = []")
  case True
  obtain opt where "opt = [] \<or> opt = ''/''" "pre = render (segments pre) @ opt"
    using canonical_render [OF assms(1)] by metis
  with True assms(1) have "pre = ''/''"
    by (auto simp: canonical_path_def)
  then show ?thesis by (simp add: prefix_matches_def)
next
  case False
  from assms(3) obtain rest where rest: "segments path = segments pre @ rest"
    by (auto simp: prefix_def)
  obtain opt where opt: "opt = [] \<or> opt = ''/''" "path = render (segments path) @ opt"
    using canonical_render [OF assms(2)] by metis
  have "path = render (segments pre) \<or> (\<exists>r. path = render (segments pre) @ slash # r)"
  proof (cases rest)
    case Nil
    with opt rest show ?thesis by auto
  next
    case (Cons x xs)
    with opt rest show ?thesis by (metis append.assoc append_Cons render_Cons render_append)
  qed
  moreover have "render (segments pre) \<noteq> []"
    using False by (cases "segments pre") simp_all
  ultimately show ?thesis
    by (simp add: prefix_matches_iff canonical_trim_end [OF assms(1)])
qed

section \<open>Encoders that canonicalization inverts\<close>

text \<open>An encoder works byte by byte; it is inverted by the decoding loop when each byte is
  sent either as itself or as its escape.\<close>

definition hex_digit :: "nat \<Rightarrow> char" where
  "hex_digit n = (if n < 10 then char_of (48 + n) else char_of (55 + n))"

definition percent_escape :: "char \<Rightarrow> string" where
  "percent_escape c = [CHR ''%'', hex_digit (byte c div 16), hex_digit (byte c mod 16)]"

lemma hex_val_hex_digit [simp]: "n < 16 \<Longrightarrow> hex_val (hex_digit n) = Some n"
  by (simp add: hex_digit_def hex_val_def)

lemma percent_decode_escape:
  assumes "c \<noteq> slash" "c \<noteq> backslash"
  shows "percent_decode (percent_escape c @ rest) = map_sum id ((#) c) (percent_decode rest)"
proof -
  have "byte c div 16 < 16" "byte c mod 16 < 16"
    by (simp_all add: div_less_iff_less_mult)
  moreover have "byte c div 16 * 16 + byte c mod 16 = byte c"
    by simp
  ultimately show ?thesis
    using assms by (simp add: percent_escape_def Let_def)
qed

lemma percent_decode_encode:
  assumes "\<And>c. enc c = [c] \<and> c \<noteq> CHR ''%'' \<or> enc c = percent_escape c \<and> c \<noteq> slash"
    and "backslash \<notin> set s"
  shows "percent_decode (concat (map enc s)) = Inr s"
  using assms(2)
proof (induction s)
  case (Cons c s)
  then show ?case
    using assms(1) [of c] percent_decode_escape [of c "concat (map enc s)"] by auto
qed simp

lemma canonicalize_encode:
  assumes enc: "\<And>c. enc c = [c] \<and> c \<noteq> CHR ''%'' \<or> enc c = percent_escape c \<and> c \<noteq> slash"
    and "canonical_path s"
  shows "canonicalize (concat (map enc s)) = Inr s"
proof -
  from assms(2) obtain u where u: "s = slash # u"
    by (auto simp: canonical_path_def starts_with_append)
  have "enc slash = ''/''"
    using enc [of slash] by auto
  then have "starts_with ''/'' (concat (map enc s))"
    by (simp add: u)
  moreover have "percent_decode (concat (map enc s)) = Inr s"
    using percent_decode_encode [OF enc] assms(2) by (simp add: canonical_path_def)
  ultimately show ?thesis
    using assms(2) by (auto simp: canonicalize_def canonical_path_def split: option.splits)
qed

section \<open>Properties\<close>

text \<open>C12: canonicalization decides by the text the upstream will see.  An accepted path starts
  with a slash, is valid UTF-8 without control characters or backslashes, has no empty and no dot
  segment, and is segment by segment the single percent-decoding of the input: decoding neither
  creates nor hides a separator.\<close>

theorem canonicalize_sound:
  assumes "canonicalize raw = Inr p"
  shows "canonical_path p \<and> map percent_decode (split_on slash raw) = map Inr (split_on slash p)"
proof -
  have "percent_decode raw = Inr p"
    using assms by (auto simp: canonicalize_def split: if_splits sum.splits option.splits)
  from percent_decode_segments [OF this] canonicalize_canonical [OF assms] show ?thesis by blast
qed

theorem canonicalize_sound_witness:
  "canonicalize ''/v1/a%3Bb/c'' = Inr ''/v1/a;b/c'' \<and> canonical_path ''/v1/a;b/c''"
proof -
  have c: "canonicalize ''/v1/a%3Bb/c'' = Inr ''/v1/a;b/c''"
    by code_simp
  from canonicalize_sound [OF c] c show ?thesis by blast
qed

text \<open>prefix matching is by segments.  On canonical paths the byte comparison of the code
  accepts exactly when the segments of the prefix are an initial part of the segments of the path,
  so \<open>/v1/account\<close> covers \<open>/v1/account/x\<close> and not \<open>/v1/account-delete\<close>.\<close>

theorem prefix_matches_is_segment_prefix:
  assumes "canonical_path pre" and "canonical_path path"
  shows "prefix_matches pre path \<longleftrightarrow> prefix (segments pre) (segments path)"
  using prefix_matches_segments segments_prefix_matches [OF assms] by blast

theorem prefix_matches_is_segment_prefix_witness:
  "prefix_matches ''/v1/account'' ''/v1/account-delete'' \<longleftrightarrow>
     prefix (segments ''/v1/account'') (segments ''/v1/account-delete'')"
  by (rule prefix_matches_is_segment_prefix) code_simp+

end
