(* ===== verification/Policy.thy ===== *)
theory Policy
  imports Types Paths "HOL-Library.Product_Lexorder" "HOL-Library.Multiset"
begin

text \<open>
  The policy engine (\<open>server/src/policy/mod.rs\<close>): a pure decision over a client row, a
  secret row, its tags, the requested grant, the policy table and the clock.

  Two constants of libraries outside the repository are arguments: \<open>uuid_str\<close>, the
  \<open>Display\<close> of a UUID, which the deny reason embeds, and \<open>max_utc\<close>, chrono's greatest
  timestamp, which stands in for a missing expiry in the precedence key.  The
  \<open>unreachable!\<close> of the source is the value \<^term>\<open>None\<close> of \<open>evaluate\<close>.
\<close>

section \<open>The code\<close>

definition MAX_HTTP_METHOD_LEN :: nat where
  "MAX_HTTP_METHOD_LEN = 64"

definition is_tchar :: "char \<Rightarrow> bool" where
  "is_tchar c \<longleftrightarrow> is_ascii_alphanumeric c
     \<or> c = CHR ''!'' \<or> (35 \<le> byte c \<and> byte c \<le> 39) \<or> c = CHR ''*'' \<or> c = CHR ''+''
     \<or> c = CHR ''-'' \<or> c = CHR ''.'' \<or> c = CHR ''^'' \<or> c = CHR ''_'' \<or> c = CHR 0x60
     \<or> c = CHR ''|'' \<or> c = CHR ''~''"

definition is_valid_http_method :: "string \<Rightarrow> bool" where
  "is_valid_http_method s \<longleftrightarrow>
     s \<noteq> [] \<and> length s \<le> MAX_HTTP_METHOD_LEN \<and> list_all is_tchar s"

datatype outcome = Out_AutoApprove | Out_NotifyOnly | Out_RequireApproval | Out_Deny

definition outcome_from_str_opt :: "string \<Rightarrow> outcome option" where
  "outcome_from_str_opt s =
     (if s = ''auto-approve'' then Some Out_AutoApprove
      else if s = ''notify-only'' then Some Out_NotifyOnly
      else if s = ''require-approval'' then Some Out_RequireApproval
      else if s = ''deny'' then Some Out_Deny
      else None)"

fun outcome_as_str :: "outcome \<Rightarrow> string" where
  "outcome_as_str Out_AutoApprove = ''auto-approve''"
| "outcome_as_str Out_NotifyOnly = ''notify-only''"
| "outcome_as_str Out_RequireApproval = ''require-approval''"
| "outcome_as_str Out_Deny = ''deny''"

fun restrictiveness :: "outcome \<Rightarrow> nat" where
  "restrictiveness Out_AutoApprove = 0"
| "restrictiveness Out_NotifyOnly = 1"
| "restrictiveness Out_RequireApproval = 2"
| "restrictiveness Out_Deny = 3"

record policy_client =
  pc_name :: string
  pc_enabled :: bool
  pc_max_tier :: tier
  pc_allowed_mechanisms :: "mechanism list"

record policy_secret =
  ps_name :: string
  ps_enabled :: bool
  ps_max_tier :: tier
  ps_operator_vetted :: bool

record policy_rule =
  pr_id :: uuid
  pr_client_name :: "string option"
  pr_secret_name :: "string option"
  pr_secret_tag :: "string option"
  pr_mechanism :: mechanism
  pr_outcome :: outcome
  pr_priority :: int
  pr_origins :: "origin list"
  pr_methods :: "string list"
  pr_path_prefixes :: "string list"
  pr_max_ttl_seconds :: "64 word option"
  pr_max_uses :: "32 word option"
  pr_not_after :: "time option"

record requested_grant =
  rg_secret_name :: string
  rg_mechanism :: mechanism
  rg_constraints :: constraints

datatype decision = Dec_Deny string | Dec_RequireApproval | Dec_NotifyOnly | Dec_AutoApprove

record evaluation =
  ev_decision :: decision
  ev_policy_not_after :: "time option"
  ev_policy_id :: "uuid option"

definition evaluation_deny :: "string \<Rightarrow> evaluation" where
  "evaluation_deny r =
     \<lparr>ev_decision = Dec_Deny r, ev_policy_not_after = None, ev_policy_id = None\<rparr>"

definition is_applicable ::
  "policy_rule \<Rightarrow> policy_client \<Rightarrow> requested_grant \<Rightarrow> string list \<Rightarrow> time \<Rightarrow> bool" where
  "is_applicable p client req secret_tags now \<longleftrightarrow>
     (if pr_mechanism p \<noteq> rg_mechanism req then False
      else if (case pr_not_after p of Some t \<Rightarrow> t \<le> now | None \<Rightarrow> False) then False
      else if (case pr_client_name p of Some c \<Rightarrow> c \<noteq> pc_name client | None \<Rightarrow> False) then False
      else (case pr_secret_name p of
              Some n \<Rightarrow> n = rg_secret_name req
            | None \<Rightarrow> (case pr_secret_tag p of
                         Some tag \<Rightarrow> list_ex (\<lambda>t. t = tag) secret_tags
                       | None \<Rightarrow> True)))"

definition scopes_overlap :: "policy_rule \<Rightarrow> constraints \<Rightarrow> bool" where
  "scopes_overlap p req \<longleftrightarrow>
     (pr_origins p = [] \<or> c_origins req = []
      \<or> list_ex (\<lambda>po. list_ex (\<lambda>ro. same_target po ro) (c_origins req)) (pr_origins p))
     \<and> (pr_methods p = [] \<or> c_methods req = []
      \<or> list_ex (\<lambda>pm. list_ex (\<lambda>rm. eq_ignore_ascii_case pm rm) (c_methods req)) (pr_methods p))
     \<and> (pr_path_prefixes p = [] \<or> c_path_prefixes req = []
      \<or> list_ex (\<lambda>pp.
           let lpp = to_ascii_lowercase pp
           in list_ex (\<lambda>rp.
                let lrp = to_ascii_lowercase rp
                in prefix_matches lpp lrp \<or> prefix_matches lrp lpp) (c_path_prefixes req))
          (pr_path_prefixes p))"

definition request_is_subset :: "policy_rule \<Rightarrow> constraints \<Rightarrow> bool" where
  "request_is_subset p req \<longleftrightarrow>
     (if c_origins req = [] then pr_origins p = []
      else pr_origins p = []
           \<or> list_all (\<lambda>ro. list_ex (\<lambda>po. same_target po ro) (pr_origins p)) (c_origins req))
     \<and> (if c_methods req = [] then pr_methods p = []
      else pr_methods p = []
           \<or> list_all (\<lambda>rm. list_ex (\<lambda>pm. eq_ignore_ascii_case pm rm) (pr_methods p)) (c_methods req))
     \<and> (if c_path_prefixes req = [] then pr_path_prefixes p = []
      else pr_path_prefixes p = []
           \<or> list_all (\<lambda>rp. list_ex (\<lambda>pp. prefix_matches pp rp) (pr_path_prefixes p))
               (c_path_prefixes req))
     \<and> (case pr_max_ttl_seconds p of None \<Rightarrow> True | Some m \<Rightarrow> \<not> c_ttl_seconds req > m)
     \<and> (case (c_max_uses req, pr_max_uses p) of
          (_, None) \<Rightarrow> True
        | (None, Some _) \<Rightarrow> False
        | (Some r, Some m) \<Rightarrow> \<not> r > m)"

text \<open>Higher keys win; \<open>Reverse\<close> of a timestamp is its negation.\<close>

definition precedence_key ::
  "time \<Rightarrow> policy_rule \<Rightarrow> nat \<times> nat \<times> int \<times> nat \<times> int \<times> uuid" where
  "precedence_key max_utc p =
     ((if pr_client_name p \<noteq> None then 1 else 0),
      (if pr_secret_name p \<noteq> None then 2 else if pr_secret_tag p \<noteq> None then 1 else 0),
      pr_priority p,
      restrictiveness (pr_outcome p),
      - (case pr_not_after p of Some t \<Rightarrow> t | None \<Rightarrow> max_utc),
      pr_id p)"

text \<open>\<open>Iterator::max_by_key\<close>: the last of the maximal elements.\<close>

fun max_by_key :: "('a \<Rightarrow> 'b::linorder) \<Rightarrow> 'a list \<Rightarrow> 'a option" where
  "max_by_key f [] = None"
| "max_by_key f (x # xs) = Some (foldl (\<lambda>m y. if f m \<le> f y then y else m) x xs)"

fun outcome_decision :: "outcome \<Rightarrow> decision option" where
  "outcome_decision Out_AutoApprove = Some Dec_AutoApprove"
| "outcome_decision Out_NotifyOnly = Some Dec_NotifyOnly"
| "outcome_decision Out_RequireApproval = Some Dec_RequireApproval"
| "outcome_decision Out_Deny = None"

definition clamp_decision :: "bool \<Rightarrow> decision \<Rightarrow> decision" where
  "clamp_decision b d =
     (if b \<and> (d = Dec_AutoApprove \<or> d = Dec_NotifyOnly) then Dec_RequireApproval else d)"

definition decide_winner ::
  "policy_secret option \<Rightarrow> requested_grant \<Rightarrow> policy_rule \<Rightarrow> evaluation option" where
  "decide_winner secret req p =
     (case outcome_decision (pr_outcome p) of
        None \<Rightarrow> None
      | Some d \<Rightarrow>
          (let unvetted = (case secret of None \<Rightarrow> True | Some s \<Rightarrow> \<not> ps_operator_vetted s);
               d1 = clamp_decision unvetted d;
               d2 = clamp_decision (rg_mechanism req = Mech_Brokered \<and> pr_origins p = []) d1
           in Some \<lparr>ev_decision = d2, ev_policy_not_after = pr_not_after p,
                    ev_policy_id = Some (pr_id p)\<rparr>))"

text \<open>The hard caps that deny regardless of the policy rows, in the order the code checks them.\<close>

definition hard_caps ::
  "policy_client \<Rightarrow> policy_secret option \<Rightarrow> requested_grant \<Rightarrow> string option" where
  "hard_caps client secret req =
     (let tier = mech_tier (rg_mechanism req)
      in if \<not> pc_enabled client then Some ''client is disabled''
         else if rg_mechanism req \<notin> set (pc_allowed_mechanisms client)
           then Some (''mechanism '' @ mech_as_str (rg_mechanism req)
                      @ '' not allowed for client '' @ pc_name client)
         else if tier > pc_max_tier client
           then Some (''tier '' @ tier_as_str tier @ '' exceeds client max tier ''
                      @ tier_as_str (pc_max_tier client))
         else (case secret of
                 None \<Rightarrow> None
               | Some s \<Rightarrow>
                   if \<not> ps_enabled s then Some ''secret is disabled''
                   else if tier > ps_max_tier s
                     then Some (''tier '' @ tier_as_str tier @ '' exceeds secret max tier ''
                                @ tier_as_str (ps_max_tier s))
                   else None))"

definition evaluate ::
  "(uuid \<Rightarrow> string) \<Rightarrow> time \<Rightarrow> policy_client \<Rightarrow> policy_secret option \<Rightarrow> string list \<Rightarrow>
   requested_grant \<Rightarrow> policy_rule list \<Rightarrow> time \<Rightarrow> evaluation option" where
  "evaluate uuid_str max_utc client secret secret_tags req policies now =
     (case hard_caps client secret req of
        Some r \<Rightarrow> Some (evaluation_deny r)
      | None \<Rightarrow>
          (let applicable = filter (\<lambda>p. is_applicable p client req secret_tags now) policies
           in case find (\<lambda>p. pr_outcome p = Out_Deny \<and> scopes_overlap p (rg_constraints req)) applicable of
                Some p \<Rightarrow>
                  Some \<lparr>ev_decision = Dec_Deny (''denied by policy '' @ uuid_str (pr_id p)),
                        ev_policy_not_after = pr_not_after p, ev_policy_id = Some (pr_id p)\<rparr>
              | None \<Rightarrow>
                  (case max_by_key (precedence_key max_utc)
                          (filter (\<lambda>p. pr_outcome p \<noteq> Out_Deny
                                       \<and> request_is_subset p (rg_constraints req)) applicable) of
                     Some p \<Rightarrow> decide_winner secret req p
                   | None \<Rightarrow> Some \<lparr>ev_decision = Dec_RequireApproval,
                                    ev_policy_not_after = None, ev_policy_id = None\<rparr>)))"

section \<open>Selecting the winning row\<close>

lemma foldl_max_by_key:
  "foldl (\<lambda>m y. if f m \<le> f y then y else m) x xs \<in> insert x (set xs) \<and>
   (\<forall>y \<in> insert x (set xs). (f y :: 'b::linorder) \<le> f (foldl (\<lambda>m y. if f m \<le> f y then y else m) x xs))"
proof (induction xs arbitrary: x)
  case (Cons a xs)
  show ?case
    using Cons.IH [of a] Cons.IH [of x] by (cases "f x \<le> f a") force+
qed simp

lemma max_by_key_None [simp]: "max_by_key f xs = None \<longleftrightarrow> xs = []"
  by (cases xs) simp_all

lemma max_by_key_Some:
  "max_by_key f xs = Some m \<Longrightarrow> m \<in> set xs \<and> (\<forall>x \<in> set xs. f x \<le> f m)"
  using foldl_max_by_key [of f] by (cases xs) auto

lemma max_by_key_perm:
  assumes "mset xs = mset ys" "inj_on f (set xs)"
  shows "max_by_key f xs = max_by_key f ys"
proof (cases "max_by_key f xs")
  case None
  with assms(1) show ?thesis by auto
next
  case (Some m)
  have sets: "set xs = set ys"
    using assms(1) by (rule mset_eq_setD)
  with Some obtain m' where m': "max_by_key f ys = Some m'"
    by (metis empty_iff empty_set max_by_key_None max_by_key_Some not_None_eq)
  from max_by_key_Some [OF Some] max_by_key_Some [OF m'] sets
  have "f m = f m'" "m \<in> set xs" "m' \<in> set xs"
    by (auto intro: antisym)
  with assms(2) have "m = m'" by (auto dest: inj_onD)
  with Some m' show ?thesis by simp
qed

lemma precedence_key_inj:
  "distinct (map pr_id ps) \<Longrightarrow> inj_on (precedence_key max_utc) (set ps)"
  by (auto simp: inj_on_def precedence_key_def distinct_map)

section \<open>Prefixes: transitivity, comparability, case\<close>

lemma trim_end_append:
  "trim_end_matches c (a @ b) =
     (if trim_end_matches c b = [] then trim_end_matches c a else a @ trim_end_matches c b)"
proof (induction b rule: rev_induct)
  case (snoc x xs)
  then show ?case
    using trim_end_matches_snoc(1) [of c "a @ xs"] trim_end_matches_snoc(2) [of x c "a @ xs"]
    by (cases "x = c") simp_all
qed simp

lemma trim_end_idem [simp]: "trim_end_matches c (trim_end_matches c s) = trim_end_matches c s"
  by (simp add: trim_end_matches_def)

lemma trim_end_restore: "\<exists>n. s = trim_end_matches c s @ replicate n c"
proof (induction s rule: rev_induct)
  case (snoc x xs)
  show ?case
  proof (cases "x = c")
    case True
    from snoc obtain n where n: "xs = trim_end_matches c xs @ replicate n c" by blast
    have "xs @ [x] = trim_end_matches c (xs @ [x]) @ replicate (Suc n) c"
      using True by (subst n) (simp add: replicate_append_same)
    then show ?thesis by blast
  qed (simp add: exI [of _ 0])
qed simp

text \<open>\<open>covers t q\<close>: the trimmed prefix \<open>t\<close> is \<open>q\<close> itself or ends at a slash of \<open>q\<close>.\<close>

definition covers :: "string \<Rightarrow> string \<Rightarrow> bool" where
  "covers t q \<longleftrightarrow> q = t \<or> (\<exists>r. q = t @ slash # r)"

lemma prefix_matches_covers:
  "prefix_matches p q \<longleftrightarrow>
     p = ''/'' \<or> (trim_end_matches slash p \<noteq> [] \<and> covers (trim_end_matches slash p) q)"
  by (simp add: prefix_matches_iff covers_def)

lemma covers_untrim: "covers t (trim_end_matches slash q) \<Longrightarrow> covers t q"
proof -
  assume a: "covers t (trim_end_matches slash q)"
  obtain n where q: "q = trim_end_matches slash q @ replicate n slash"
    using trim_end_restore [of q slash] by (elim exE)
  show "covers t q"
    using a by (subst q) (cases n, auto simp: covers_def)
qed

lemma covers_trans: "covers s t \<Longrightarrow> covers t q \<Longrightarrow> covers s q"
  by (auto simp: covers_def)

lemma covers_trim:
  assumes "covers t q" "t \<noteq> []" "trim_end_matches slash t = t"
  shows "covers t (trim_end_matches slash q)"
  using assms(1) unfolding covers_def
proof (elim disjE exE)
  fix r
  assume q: "q = t @ slash # r"
  have "trim_end_matches slash (slash # r) = []
      \<or> trim_end_matches slash (slash # r) = slash # trim_end_matches slash r"
    using trim_end_append [of slash "[slash]" r] by (auto simp: trim_end_matches_def)
  with assms(3) q show "trim_end_matches slash q = t \<or> (\<exists>r. trim_end_matches slash q = t @ slash # r)"
    by (auto simp: trim_end_append)
qed (simp add: assms(3))

lemma covers_comparable:
  assumes "covers s q" "covers t q"
  shows "covers s t \<or> covers t s"
proof -
  have alt: "covers t q \<longleftrightarrow> (\<exists>u. q = t @ u \<and> (u = [] \<or> hd u = slash))" for t q
    unfolding covers_def by (metis append_Nil2 list.exhaust_sel list.sel(1))
  have ordered: "covers t s" if "s @ u = t @ v" "length t \<le> length s" "v = [] \<or> hd v = slash" for s t u v
  proof -
    from that(1,2) obtain us where "s = t @ us" "us @ u = v"
      by (metis append_eq_append_conv_if append_take_drop_id)
    with that(3) show ?thesis
      unfolding alt by (metis append_is_Nil_conv hd_append2)
  qed
  from assms obtain u v where "q = s @ u" "q = t @ v" "u = [] \<or> hd u = slash" "v = [] \<or> hd v = slash"
    unfolding alt by blast
  then show ?thesis
    using ordered [of s u t v] ordered [of t v s u] by (metis nle_le)
qed

lemma prefix_matches_trans:
  assumes "prefix_matches p q" "prefix_matches q r"
  shows "prefix_matches p r"
proof (cases "p = ''/''")
  case False
  let ?p = "trim_end_matches slash p" and ?q = "trim_end_matches slash q"
  from False assms(1) have p: "?p \<noteq> []" "covers ?p q"
    by (simp_all add: prefix_matches_covers)
  have "?p \<noteq> ''/''"
    by (metis append_Nil list.distinct(1) trim_end_idem trim_end_matches_Nil trim_end_matches_snoc(1))
  with p have "q \<noteq> ''/''"
    by (auto simp: covers_def Cons_eq_append_conv)
  with assms(2) have "covers ?q r"
    by (simp add: prefix_matches_covers)
  moreover have "covers ?p ?q"
    using p by (simp add: covers_trim)
  ultimately show ?thesis
    using p by (simp add: prefix_matches_covers) (blast intro: covers_trans)
qed (simp add: prefix_matches_covers)

lemma prefix_matches_comparable:
  assumes "prefix_matches p r" "prefix_matches q r"
  shows "prefix_matches p q \<or> prefix_matches q p"
proof (cases "p = ''/'' \<or> q = ''/''")
  case False
  with assms have "covers (trim_end_matches slash p) (trim_end_matches slash q)
      \<or> covers (trim_end_matches slash q) (trim_end_matches slash p)"
    by (intro covers_comparable [where q = r]) (simp_all add: prefix_matches_covers)
  with False assms show ?thesis
    by (auto simp: prefix_matches_covers intro: covers_untrim)
qed (auto simp: prefix_matches_covers)

lemma lower_char_slash [simp]: "lower_char c = slash \<longleftrightarrow> c = slash"
proof -
  have "byte slash = 47"
    by (simp add: byte_def)
  then have "byte (lower_char c) = byte slash \<longleftrightarrow> byte c = byte slash"
    by (auto simp: byte_lower_char)
  then show ?thesis by simp
qed

lemma lower_char_of_slash [simp]: "lower_char slash = slash"
  by simp

lemma to_ascii_lowercase_eq_Nil [simp]: "to_ascii_lowercase s = [] \<longleftrightarrow> s = []"
  by (simp add: to_ascii_lowercase_def)

lemma trim_end_lower:
  "trim_end_matches slash (to_ascii_lowercase s) = to_ascii_lowercase (trim_end_matches slash s)"
proof (induction s rule: rev_induct)
  case (snoc x xs)
  then show ?case by (cases "x = slash") simp_all
qed simp

lemma prefix_matches_lower:
  assumes "prefix_matches p q"
  shows "prefix_matches (to_ascii_lowercase p) (to_ascii_lowercase q)"
  using assms by (auto simp: prefix_matches_covers trim_end_lower covers_def)

section \<open>What constraints mean\<close>

text \<open>
  The reading of a constraint triple as a set of concrete calls: an empty dimension is
  unconstrained; origins compare by effective target, methods without case, and a path must be
  covered by one of the prefixes.  A deny rule is read with case-insensitive prefixes.
\<close>

type_synonym call = "origin \<times> string \<times> string"

definition admits :: "origin list \<Rightarrow> string list \<Rightarrow> string list \<Rightarrow> call \<Rightarrow> bool" where
  "admits os ms ps = (\<lambda>(tgt, m, path).
     (os = [] \<or> list_ex (\<lambda>x. same_target x tgt) os)
     \<and> (ms = [] \<or> list_ex (\<lambda>x. eq_ignore_ascii_case x m) ms)
     \<and> (ps = [] \<or> list_ex (\<lambda>x. prefix_matches x path) ps))"

definition constraints_admit :: "constraints \<Rightarrow> call \<Rightarrow> bool" where
  "constraints_admit c = admits (c_origins c) (c_methods c) (c_path_prefixes c)"

definition rule_admits :: "policy_rule \<Rightarrow> call \<Rightarrow> bool" where
  "rule_admits p = admits (pr_origins p) (pr_methods p) (pr_path_prefixes p)"

definition rule_forbids :: "policy_rule \<Rightarrow> call \<Rightarrow> bool" where
  "rule_forbids p = (\<lambda>(tgt, m, path).
     admits (pr_origins p) (pr_methods p) (map to_ascii_lowercase (pr_path_prefixes p))
       (tgt, m, to_ascii_lowercase path))"

lemma same_target_trans: "same_target a b \<Longrightarrow> same_target b c \<Longrightarrow> same_target a c"
  by (simp add: same_target_def)

lemma same_target_sym: "same_target a b \<longleftrightarrow> same_target b a"
  by (auto simp: same_target_def)

lemma scopes_overlap_if_common_call:
  assumes "rule_forbids p call" "constraints_admit c call"
  shows "scopes_overlap p c"
proof -
  obtain tgt m path where call: "call = (tgt, m, path)"
    by (cases call)
  from assms(1) have f: "pr_origins p = [] \<or> (\<exists>x \<in> set (pr_origins p). same_target x tgt)"
    "pr_methods p = [] \<or> (\<exists>x \<in> set (pr_methods p). eq_ignore_ascii_case x m)"
    "pr_path_prefixes p = [] \<or> (\<exists>x \<in> set (pr_path_prefixes p).
       prefix_matches (to_ascii_lowercase x) (to_ascii_lowercase path))"
    by (simp_all add: call rule_forbids_def admits_def list_ex_iff)
  from assms(2) have a: "c_origins c = [] \<or> (\<exists>x \<in> set (c_origins c). same_target x tgt)"
    "c_methods c = [] \<or> (\<exists>x \<in> set (c_methods c). eq_ignore_ascii_case x m)"
    "c_path_prefixes c = [] \<or> (\<exists>x \<in> set (c_path_prefixes c). prefix_matches x path)"
    by (simp_all add: call constraints_admit_def admits_def list_ex_iff)
  have origins: "pr_origins p = [] \<or> c_origins c = []
      \<or> (\<exists>po \<in> set (pr_origins p). \<exists>ro \<in> set (c_origins c). same_target po ro)"
    using f(1) a(1) by (meson same_target_sym same_target_trans)
  have methods: "pr_methods p = [] \<or> c_methods c = []
      \<or> (\<exists>pm \<in> set (pr_methods p). \<exists>rm \<in> set (c_methods c). eq_ignore_ascii_case pm rm)"
    using f(2) a(2) by (meson eq_ignore_ascii_case_sym eq_ignore_ascii_case_trans)
  have prefixes: "pr_path_prefixes p = [] \<or> c_path_prefixes c = []
      \<or> (\<exists>pp \<in> set (pr_path_prefixes p). \<exists>rp \<in> set (c_path_prefixes c).
           prefix_matches (to_ascii_lowercase pp) (to_ascii_lowercase rp)
           \<or> prefix_matches (to_ascii_lowercase rp) (to_ascii_lowercase pp))"
    using f(3) a(3) by (meson prefix_matches_comparable prefix_matches_lower)
  show ?thesis
    using origins methods prefixes by (simp add: scopes_overlap_def list_ex_iff Let_def)
qed

section \<open>How a decision arises\<close>

lemma find_None_set: "find P xs = None \<longleftrightarrow> (\<forall>x \<in> set xs. \<not> P x)"
  by (auto simp: find_None_iff)

lemma find_Some_set: "find P xs = Some x \<Longrightarrow> x \<in> set xs \<and> P x"
  by (metis find_Some_iff nth_mem)

definition live_deny ::
  "policy_client \<Rightarrow> string list \<Rightarrow> requested_grant \<Rightarrow> time \<Rightarrow> policy_rule \<Rightarrow> bool" where
  "live_deny client tags req now p \<longleftrightarrow>
     is_applicable p client req tags now \<and> pr_outcome p = Out_Deny
     \<and> scopes_overlap p (rg_constraints req)"

definition live_candidate ::
  "policy_client \<Rightarrow> string list \<Rightarrow> requested_grant \<Rightarrow> time \<Rightarrow> policy_rule \<Rightarrow> bool" where
  "live_candidate client tags req now p \<longleftrightarrow>
     is_applicable p client req tags now \<and> pr_outcome p \<noteq> Out_Deny
     \<and> request_is_subset p (rg_constraints req)"

lemma evaluate_cases:
  obtains (Caps) r where "hard_caps client secret req = Some r"
      "evaluate us mx client secret tags req ps now = Some (evaluation_deny r)"
  | (Denied) p where "hard_caps client secret req = None" "p \<in> set ps" "live_deny client tags req now p"
      "evaluate us mx client secret tags req ps now =
         Some \<lparr>ev_decision = Dec_Deny (''denied by policy '' @ us (pr_id p)),
               ev_policy_not_after = pr_not_after p, ev_policy_id = Some (pr_id p)\<rparr>"
  | (Winner) p where "hard_caps client secret req = None"
      "\<forall>q \<in> set ps. \<not> live_deny client tags req now q"
      "max_by_key (precedence_key mx) (filter (live_candidate client tags req now) ps) = Some p"
      "evaluate us mx client secret tags req ps now = decide_winner secret req p"
  | (NoRow) "hard_caps client secret req = None"
      "\<forall>q \<in> set ps. \<not> live_deny client tags req now q"
      "filter (live_candidate client tags req now) ps = []"
      "evaluate us mx client secret tags req ps now =
         Some \<lparr>ev_decision = Dec_RequireApproval, ev_policy_not_after = None, ev_policy_id = None\<rparr>"
proof -
  have cand: "filter (\<lambda>p. pr_outcome p \<noteq> Out_Deny \<and> request_is_subset p (rg_constraints req))
      (filter (\<lambda>p. is_applicable p client req tags now) ps) =
      filter (live_candidate client tags req now) ps"
    unfolding filter_filter live_candidate_def by (rule filter_cong) auto
  have deny: "find (\<lambda>p. pr_outcome p = Out_Deny \<and> scopes_overlap p (rg_constraints req))
      (filter (\<lambda>p. is_applicable p client req tags now) ps) = None \<longleftrightarrow>
      (\<forall>q \<in> set ps. \<not> live_deny client tags req now q)"
    by (auto simp: find_None_set live_deny_def)
  show thesis
  proof (cases "hard_caps client secret req")
    case (Some r)
    then show thesis by (intro Caps) (simp_all add: evaluate_def)
  next
    case caps: None
    show thesis
    proof (cases "find (\<lambda>p. pr_outcome p = Out_Deny \<and> scopes_overlap p (rg_constraints req))
        (filter (\<lambda>p. is_applicable p client req tags now) ps)")
      case (Some p)
      with caps show thesis
        using find_Some_set [OF Some] by (intro Denied [of p]) (auto simp: evaluate_def live_deny_def)
    next
      case None
      show thesis
      proof (cases "max_by_key (precedence_key mx) (filter (live_candidate client tags req now) ps)")
        case (Some p)
        have "evaluate us mx client secret tags req ps now = decide_winner secret req p"
          by (simp only: evaluate_def Let_def cand caps None Some option.case)
        with caps None Some show thesis
          unfolding deny by (intro Winner [of p])
      next
        case nowin: None
        have "evaluate us mx client secret tags req ps now = Some
            \<lparr>ev_decision = Dec_RequireApproval, ev_policy_not_after = None, ev_policy_id = None\<rparr>"
          by (simp only: evaluate_def Let_def cand caps None nowin option.case)
        with caps None nowin show thesis
          unfolding deny max_by_key_None by (intro NoRow)
      qed
    qed
  qed
qed

lemma decide_winner_Some:
  assumes "live_candidate client tags req now p"
  obtains d where "outcome_decision (pr_outcome p) = Some d"
    "decide_winner secret req p = Some
       \<lparr>ev_decision =
          clamp_decision (rg_mechanism req = Mech_Brokered \<and> pr_origins p = [])
            (clamp_decision (case secret of None \<Rightarrow> True | Some s \<Rightarrow> \<not> ps_operator_vetted s) d),
        ev_policy_not_after = pr_not_after p, ev_policy_id = Some (pr_id p)\<rparr>"
proof (cases "pr_outcome p")
  case Out_Deny
  with assms show thesis by (simp add: live_candidate_def)
qed (auto intro: that simp: decide_winner_def)

lemma winner_live:
  "max_by_key (precedence_key mx) (filter (live_candidate client tags req now) ps) = Some p \<Longrightarrow>
     p \<in> set ps \<and> live_candidate client tags req now p
     \<and> (\<forall>q \<in> set ps. live_candidate client tags req now q \<longrightarrow> precedence_key mx q \<le> precedence_key mx p)"
  by (auto dest: max_by_key_Some)

lemma hard_caps_None:
  "hard_caps client secret req = None \<longleftrightarrow>
     pc_enabled client \<and> rg_mechanism req \<in> set (pc_allowed_mechanisms client)
     \<and> mech_tier (rg_mechanism req) \<le> pc_max_tier client
     \<and> (\<forall>s. secret = Some s \<longrightarrow> ps_enabled s \<and> mech_tier (rg_mechanism req) \<le> ps_max_tier s)"
  by (auto simp: hard_caps_def Let_def not_less split: option.splits if_splits)

lemma clamp_decision_grants:
  "clamp_decision b d = Dec_AutoApprove \<longleftrightarrow> d = Dec_AutoApprove \<and> \<not> b"
  "clamp_decision b d = Dec_NotifyOnly \<longleftrightarrow> d = Dec_NotifyOnly \<and> \<not> b"
  by (auto simp: clamp_decision_def)

lemma clamp_decision_deny: "clamp_decision b d = Dec_Deny r \<longleftrightarrow> d = Dec_Deny r"
  by (auto simp: clamp_decision_def)

lemma outcome_decision_not_deny: "outcome_decision oc \<noteq> Some (Dec_Deny r)"
  by (cases oc) auto

text \<open>The evaluation in the three cases: a hard cap, a live deny row, and neither.\<close>

definition denied_by :: "(uuid \<Rightarrow> string) \<Rightarrow> policy_rule \<Rightarrow> evaluation" where
  "denied_by uuid_str p =
     \<lparr>ev_decision = Dec_Deny (''denied by policy '' @ uuid_str (pr_id p)),
      ev_policy_not_after = pr_not_after p, ev_policy_id = Some (pr_id p)\<rparr>"

lemma evaluate_capped:
  "hard_caps client secret req = Some r \<Longrightarrow>
   evaluate us mx client secret tags req ps now = Some (evaluation_deny r)"
  by (simp add: evaluate_def)

lemma evaluate_denied:
  assumes "hard_caps client secret req = None" "p \<in> set ps" "live_deny client tags req now p"
  obtains q where "q \<in> set ps" "live_deny client tags req now q"
    "evaluate us mx client secret tags req ps now = Some (denied_by us q)"
  using assms
  by (cases rule: evaluate_cases [of client secret req us mx tags ps now]) (auto simp: denied_by_def)

lemma evaluate_by_winner:
  assumes "hard_caps client secret req = None" "\<not> (\<exists>p \<in> set ps. live_deny client tags req now p)"
  shows "evaluate us mx client secret tags req ps now =
    (case max_by_key (precedence_key mx) (filter (live_candidate client tags req now) ps) of
       Some p \<Rightarrow> decide_winner secret req p
     | None \<Rightarrow> Some \<lparr>ev_decision = Dec_RequireApproval, ev_policy_not_after = None, ev_policy_id = None\<rparr>)"
  using assms by (cases rule: evaluate_cases [of client secret req us mx tags ps now]) auto

lemma winner_perm:
  assumes "mset ps = mset qs" "distinct (map pr_id ps)"
  shows "max_by_key (precedence_key mx) (filter P ps) = max_by_key (precedence_key mx) (filter P qs)"
proof (rule max_by_key_perm)
  show "mset (filter P ps) = mset (filter P qs)"
    using assms(1) by (simp add: mset_filter)
  show "inj_on (precedence_key mx) (set (filter P ps))"
    using precedence_key_inj [OF assms(2), of mx] by (rule inj_on_subset) auto
qed

lemma evaluate_undenied:
  assumes "hard_caps client secret req = None" "\<not> (\<exists>p \<in> set ps. live_deny client tags req now p)"
  obtains e where "evaluate us mx client secret tags req ps now = Some e" "\<nexists>r. ev_decision e = Dec_Deny r"
proof (cases rule: evaluate_cases [of client secret req us mx tags ps now])
  case (Winner p)
  have "live_candidate client tags req now p"
    using winner_live [OF Winner(3)] by simp
  then obtain d where "outcome_decision (pr_outcome p) = Some d"
    "decide_winner secret req p = Some
       \<lparr>ev_decision =
          clamp_decision (rg_mechanism req = Mech_Brokered \<and> pr_origins p = [])
            (clamp_decision (case secret of None \<Rightarrow> True | Some s \<Rightarrow> \<not> ps_operator_vetted s) d),
        ev_policy_not_after = pr_not_after p, ev_policy_id = Some (pr_id p)\<rparr>"
    by (rule decide_winner_Some)
  moreover from this(1) have "\<nexists>r. d = Dec_Deny r"
    by (auto simp: outcome_decision_not_deny)
  ultimately show thesis
    using Winner that by (simp add: clamp_decision_deny)
qed (use assms that in auto)

text \<open>Everything an unattended decision rests on.\<close>

lemma evaluate_unattended:
  assumes ev: "evaluate uuid_str max_utc client secret tags req ps now = Some e"
    and d: "ev_decision e = Dec_AutoApprove \<or> ev_decision e = Dec_NotifyOnly"
  shows "pc_enabled client \<and> rg_mechanism req \<in> set (pc_allowed_mechanisms client)
    \<and> mech_tier (rg_mechanism req) \<le> pc_max_tier client
    \<and> (\<exists>s. secret = Some s \<and> ps_enabled s \<and> ps_operator_vetted s
           \<and> mech_tier (rg_mechanism req) \<le> ps_max_tier s)
    \<and> (\<forall>q \<in> set ps. \<not> live_deny client tags req now q)
    \<and> (\<exists>p \<in> set ps. live_candidate client tags req now p
         \<and> outcome_decision (pr_outcome p) = Some (ev_decision e)
         \<and> (rg_mechanism req = Mech_Brokered \<longrightarrow> pr_origins p \<noteq> [])
         \<and> ev_policy_id e = Some (pr_id p) \<and> ev_policy_not_after e = pr_not_after p
         \<and> (\<forall>q \<in> set ps. live_candidate client tags req now q \<longrightarrow>
              precedence_key max_utc q \<le> precedence_key max_utc p))"
proof (cases rule: evaluate_cases [of client secret req uuid_str max_utc tags ps now])
  case (Winner p)
  note win = winner_live [OF Winner(3)]
  obtain dd where dd: "outcome_decision (pr_outcome p) = Some dd"
    and e: "e = \<lparr>ev_decision = clamp_decision (rg_mechanism req = Mech_Brokered \<and> pr_origins p = [])
        (clamp_decision (case secret of None \<Rightarrow> True | Some s \<Rightarrow> \<not> ps_operator_vetted s) dd),
        ev_policy_not_after = pr_not_after p, ev_policy_id = Some (pr_id p)\<rparr>"
  proof (rule decide_winner_Some [of client tags req now p secret])
    show "live_candidate client tags req now p"
      using win by simp
  qed (use Winner(4) ev in \<open>simp add: that\<close>)
  have clamps: "ev_decision e = dd" "\<not> (rg_mechanism req = Mech_Brokered \<and> pr_origins p = [])"
    "\<not> (case secret of None \<Rightarrow> True | Some s \<Rightarrow> \<not> ps_operator_vetted s)"
    using d unfolding e by (auto simp: clamp_decision_grants)
  have e': "ev_policy_id e = Some (pr_id p) \<and> ev_policy_not_after e = pr_not_after p"
    by (simp add: e)
  from clamps obtain s where s: "secret = Some s" "ps_operator_vetted s"
    by (cases secret) auto
  have caps: "pc_enabled client \<and> rg_mechanism req \<in> set (pc_allowed_mechanisms client)
      \<and> mech_tier (rg_mechanism req) \<le> pc_max_tier client
      \<and> ps_enabled s \<and> mech_tier (rg_mechanism req) \<le> ps_max_tier s"
    using Winner(1) s(1) by (simp add: hard_caps_None)
  have row: "live_candidate client tags req now p
      \<and> outcome_decision (pr_outcome p) = Some (ev_decision e)
      \<and> (rg_mechanism req = Mech_Brokered \<longrightarrow> pr_origins p \<noteq> [])
      \<and> ev_policy_id e = Some (pr_id p) \<and> ev_policy_not_after e = pr_not_after p
      \<and> (\<forall>q \<in> set ps. live_candidate client tags req now q \<longrightarrow>
           precedence_key max_utc q \<le> precedence_key max_utc p)"
    using win dd clamps(1,2) e' by blast
  from caps s row win Winner(2) show ?thesis
    by blast
qed (use ev d in \<open>simp_all add: evaluation_deny_def\<close>)

section \<open>Properties\<close>

text \<open>Example rows for the witnesses.\<close>

definition ex_origin :: origin where
  "ex_origin = \<lparr>o_host = ''api.example.com'', o_port = None\<rparr>"

definition ex_constraints :: constraints where
  "ex_constraints = \<lparr>c_origins = [ex_origin], c_methods = [''GET''], c_path_prefixes = [''/v1/items''],
     c_ttl_seconds = 600, c_max_uses = Some 5\<rparr>"

definition ex_pclient :: policy_client where
  "ex_pclient = \<lparr>pc_name = ''fa'', pc_enabled = True, pc_max_tier = Tier_TrustedClient,
     pc_allowed_mechanisms = [Mech_Brokered]\<rparr>"

definition ex_psecret :: policy_secret where
  "ex_psecret = \<lparr>ps_name = ''tok'', ps_enabled = True, ps_max_tier = Tier_Brokered,
     ps_operator_vetted = True\<rparr>"

definition ex_grant :: requested_grant where
  "ex_grant = \<lparr>rg_secret_name = ''tok'', rg_mechanism = Mech_Brokered, rg_constraints = ex_constraints\<rparr>"

definition ex_rule :: policy_rule where
  "ex_rule = \<lparr>pr_id = 7, pr_client_name = Some ''fa'', pr_secret_name = None, pr_secret_tag = None,
     pr_mechanism = Mech_Brokered, pr_outcome = Out_AutoApprove, pr_priority = 0,
     pr_origins = [ex_origin], pr_methods = [''get'', ''post''], pr_path_prefixes = [''/v1''],
     pr_max_ttl_seconds = Some 3600, pr_max_uses = None, pr_not_after = Some 100\<rparr>"

definition ex_deny :: policy_rule where
  "ex_deny = ex_rule\<lparr>pr_id := 8, pr_outcome := Out_Deny, pr_client_name := None, pr_path_prefixes := [''/V1/Items'']\<rparr>"

lemmas ex_policy_defs = ex_origin_def ex_constraints_def ex_pclient_def ex_psecret_def ex_grant_def
  ex_rule_def ex_deny_def

text \<open>C2: no release without an operator unless everything allows it.  If evaluation decides
  auto-approve or notify-only, then the client is enabled and may use the mechanism, the tier is
  within the caps of client and secret, the secret exists, is enabled and was vetted by an
  operator, no applicable deny row overlaps the request, and some row of the table decided: it is
  applicable, contains the request in every dimension, names an origin if the mechanism is
  brokered, has the highest precedence among the matching rows, and its expiry is what the
  evaluation hands on as the cap of the grant.\<close>

theorem evaluate_unattended_sound:
  assumes ev: "evaluate uuid_str max_utc client secret tags req ps now = Some e"
    and d: "ev_decision e = Dec_AutoApprove \<or> ev_decision e = Dec_NotifyOnly"
  shows "pc_enabled client \<and> rg_mechanism req \<in> set (pc_allowed_mechanisms client)
    \<and> mech_tier (rg_mechanism req) \<le> pc_max_tier client
    \<and> (\<exists>s. secret = Some s \<and> ps_enabled s \<and> ps_operator_vetted s
           \<and> mech_tier (rg_mechanism req) \<le> ps_max_tier s)
    \<and> (\<forall>q \<in> set ps. \<not> live_deny client tags req now q)
    \<and> (\<exists>p \<in> set ps. live_candidate client tags req now p
         \<and> outcome_decision (pr_outcome p) = Some (ev_decision e)
         \<and> (rg_mechanism req = Mech_Brokered \<longrightarrow> pr_origins p \<noteq> [])
         \<and> ev_policy_id e = Some (pr_id p) \<and> ev_policy_not_after e = pr_not_after p
         \<and> (\<forall>q \<in> set ps. live_candidate client tags req now q \<longrightarrow>
              precedence_key max_utc q \<le> precedence_key max_utc p))"
  using assms by (rule evaluate_unattended)

theorem evaluate_unattended_sound_witness:
  "evaluate (\<lambda>_. []) 1000 ex_pclient (Some ex_psecret) [] ex_grant [ex_rule] 50 =
     Some \<lparr>ev_decision = Dec_AutoApprove, ev_policy_not_after = Some 100, ev_policy_id = Some 7\<rparr>
   \<and> mech_tier (rg_mechanism ex_grant) \<le> pc_max_tier ex_pclient"
proof -
  have e: "evaluate (\<lambda>_. []) 1000 ex_pclient (Some ex_psecret) [] ex_grant [ex_rule] 50 =
      Some \<lparr>ev_decision = Dec_AutoApprove, ev_policy_not_after = Some 100, ev_policy_id = Some 7\<rparr>"
    by code_simp
  show ?thesis
    using e evaluate_unattended_sound [OF e] by simp
qed

text \<open>C3: deny rules dominate and cannot be dodged by case.  If some concrete call (target,
  method, path) is forbidden by a live deny row, with prefixes read without case, and is admitted
  by the requested constraints, then the evaluation is a denial, whatever other rows exist.\<close>

theorem evaluate_deny_dominates:
  assumes "p \<in> set ps" and "pr_outcome p = Out_Deny" and "is_applicable p client req tags now"
    and "rule_forbids p call" and "constraints_admit (rg_constraints req) call"
  shows "\<exists>e r. evaluate uuid_str max_utc client secret tags req ps now = Some e \<and> ev_decision e = Dec_Deny r"
proof -
  from assms have live: "live_deny client tags req now p"
    by (auto simp: live_deny_def intro: scopes_overlap_if_common_call)
  show ?thesis
    using assms(1) live
    by (cases rule: evaluate_cases [of client secret req uuid_str max_utc tags ps now])
      (auto simp: evaluation_deny_def)
qed

theorem evaluate_deny_dominates_witness:
  "\<exists>e r. evaluate (\<lambda>_. []) 1000 ex_pclient (Some ex_psecret) [] ex_grant [ex_rule, ex_deny] 50 = Some e
     \<and> ev_decision e = Dec_Deny r"
proof (rule evaluate_deny_dominates [of ex_deny])
  show "rule_forbids ex_deny (ex_origin, ''GET'', ''/v1/items/9'')"
    by code_simp
  show "constraints_admit (rg_constraints ex_grant) (ex_origin, ''GET'', ''/v1/items/9'')"
    by code_simp
  show "is_applicable ex_deny ex_pclient ex_grant [] 50"
    by code_simp
  show "pr_outcome ex_deny = Out_Deny"
    by code_simp
qed simp

text \<open>C4: a matching allow row really contains the request.  Whenever the subset test accepts a
  request, every concrete call the requested constraints admit is admitted by the row, the
  requested lifetime does not exceed the row's cap, and a row with a use cap only accepts requests
  with a use cap at most as large.\<close>

theorem request_is_subset_sound:
  assumes "request_is_subset p c"
  shows "(constraints_admit c call \<longrightarrow> rule_admits p call)
    \<and> (\<forall>m. pr_max_ttl_seconds p = Some m \<longrightarrow> c_ttl_seconds c \<le> m)
    \<and> (\<forall>m. pr_max_uses p = Some m \<longrightarrow> (\<exists>r. c_max_uses c = Some r \<and> r \<le> m))"
proof (intro conjI impI allI)
  assume a: "constraints_admit c call"
  obtain tgt m path where call: "call = (tgt, m, path)"
    by (cases call)
  have o: "pr_origins p = [] \<or> (\<exists>po \<in> set (pr_origins p). same_target po tgt)"
    using assms a by (auto simp: call request_is_subset_def constraints_admit_def admits_def
        list_ex_iff list_all_iff split: if_splits dest: same_target_trans) (meson same_target_trans)+
  have me: "pr_methods p = [] \<or> (\<exists>pm \<in> set (pr_methods p). eq_ignore_ascii_case pm m)"
    using assms a by (auto simp: call request_is_subset_def constraints_admit_def admits_def
        list_ex_iff list_all_iff split: if_splits) (meson eq_ignore_ascii_case_trans)+
  have pa: "pr_path_prefixes p = [] \<or> (\<exists>pp \<in> set (pr_path_prefixes p). prefix_matches pp path)"
    using assms a by (auto simp: call request_is_subset_def constraints_admit_def admits_def
        list_ex_iff list_all_iff split: if_splits) (meson prefix_matches_trans)+
  show "rule_admits p call"
    using o me pa by (simp add: rule_admits_def admits_def call list_ex_iff)
next
  fix m
  assume "pr_max_ttl_seconds p = Some m"
  with assms show "c_ttl_seconds c \<le> m"
    by (simp add: request_is_subset_def not_less)
next
  fix m
  assume "pr_max_uses p = Some m"
  with assms show "\<exists>r. c_max_uses c = Some r \<and> r \<le> m"
    by (auto simp: request_is_subset_def not_less split: option.splits)
qed

theorem request_is_subset_sound_witness:
  "request_is_subset ex_rule ex_constraints \<and> rule_admits ex_rule (ex_origin, ''GET'', ''/v1/items/9'')
   \<and> c_ttl_seconds ex_constraints \<le> 3600"
proof -
  have s: "request_is_subset ex_rule ex_constraints"
    by code_simp
  have a: "constraints_admit ex_constraints (ex_origin, ''GET'', ''/v1/items/9'')"
    by code_simp
  have m: "pr_max_ttl_seconds ex_rule = Some 3600"
    by (simp add: ex_policy_defs)
  from request_is_subset_sound [OF s, of "(ex_origin, ''GET'', ''/v1/items/9'')"] s a m show ?thesis
    by blast
qed

text \<open>C5: the decision does not depend on the order of the policy table.  For two tables with
  the same rows (ids being unique) both evaluations return.  A denial by a hard cap is the same denial.
  If a live deny row overlaps the request, both are denials and may differ only in which such row of the
  table they name (the code stops at the first one).  Otherwise neither is a denial and the two
  evaluations are equal: same decision, same winning row, same expiry cap.\<close>

theorem evaluate_order_independent:
  assumes perm: "mset ps = mset qs" and ids: "distinct (map pr_id ps)"
  shows "\<exists>e f. evaluate uuid_str max_utc client secret tags req ps now = Some e
    \<and> evaluate uuid_str max_utc client secret tags req qs now = Some f
    \<and> (case hard_caps client secret req of
         Some r \<Rightarrow> e = evaluation_deny r \<and> f = e
       | None \<Rightarrow>
           if \<exists>p \<in> set ps. live_deny client tags req now p
           then \<exists>p \<in> set ps. \<exists>q \<in> set ps. live_deny client tags req now p \<and> live_deny client tags req now q
             \<and> e = denied_by uuid_str p \<and> f = denied_by uuid_str q
           else f = e \<and> (\<nexists>r. ev_decision e = Dec_Deny r))"
proof (cases "hard_caps client secret req")
  case (Some r)
  then show ?thesis by (simp add: evaluate_capped)
next
  case caps: None
  have sets: "set ps = set qs"
    using perm by (rule mset_eq_setD)
  show ?thesis
  proof (cases "\<exists>p \<in> set ps. live_deny client tags req now p")
    case True
    then obtain x where x: "x \<in> set ps" "x \<in> set qs" "live_deny client tags req now x"
      using sets by blast
    obtain p where p: "p \<in> set ps" "live_deny client tags req now p"
      "evaluate uuid_str max_utc client secret tags req ps now = Some (denied_by uuid_str p)"
      using caps x(1,3) by (rule evaluate_denied)
    obtain q where q: "q \<in> set ps" "live_deny client tags req now q"
      "evaluate uuid_str max_utc client secret tags req qs now = Some (denied_by uuid_str q)"
      using evaluate_denied [OF caps x(2,3)] sets by blast
    from True p q show ?thesis
      unfolding caps option.case by (metis (no_types, lifting))
  next
    case False
    obtain e where e: "evaluate uuid_str max_utc client secret tags req ps now = Some e" "\<nexists>r. ev_decision e = Dec_Deny r"
      using caps False by (rule evaluate_undenied)
    moreover have "evaluate uuid_str max_utc client secret tags req qs now = Some e"
      using e(1) False sets by (simp add: evaluate_by_winner [OF caps] winner_perm [OF perm ids])
    ultimately show ?thesis
      using False by (simp add: caps)
  qed
qed

theorem evaluate_order_independent_witness:
  "\<exists>f. evaluate (\<lambda>_. []) 1000 ex_pclient (Some ex_psecret) [] ex_grant [ex_rule, ex_rule\<lparr>pr_id := 9\<rparr>] 50 =
       Some \<lparr>ev_decision = Dec_AutoApprove, ev_policy_not_after = Some 100, ev_policy_id = Some 9\<rparr>
     \<and> evaluate (\<lambda>_. []) 1000 ex_pclient (Some ex_psecret) [] ex_grant [ex_rule\<lparr>pr_id := 9\<rparr>, ex_rule] 50 = Some f
     \<and> f = \<lparr>ev_decision = Dec_AutoApprove, ev_policy_not_after = Some 100, ev_policy_id = Some 9\<rparr>"
proof -
  let ?ps = "[ex_rule, ex_rule\<lparr>pr_id := 9\<rparr>]" and ?qs = "[ex_rule\<lparr>pr_id := 9\<rparr>, ex_rule]"
  let ?r = "\<lparr>ev_decision = Dec_AutoApprove, ev_policy_not_after = Some 100, ev_policy_id = Some 9\<rparr>"
  have e: "evaluate (\<lambda>_. []) 1000 ex_pclient (Some ex_psecret) [] ex_grant ?ps 50 = Some ?r"
    by code_simp
  have c: "hard_caps ex_pclient (Some ex_psecret) ex_grant = None"
    by code_simp
  have n: "\<not> (\<exists>p \<in> set ?ps. live_deny ex_pclient [] ex_grant 50 p)"
    by code_simp
  have m: "mset ?ps = mset ?qs" and d: "distinct (map pr_id ?ps)"
    by (simp_all add: ex_rule_def)
  from evaluate_order_independent [OF m d, of "\<lambda>_. []" 1000 ex_pclient "Some ex_psecret" "[]" ex_grant 50]
  show ?thesis
    unfolding e c option.case if_not_P [OF n] by auto
qed

end
