(* ===== verification/Notify.thy ===== *)
theory Notify
  imports Store_Secrets
begin

text \<open>
  The push outbox and the background sweeper (\<open>server/src/notify/mod.rs\<close>).  A request row is its
  own outbox entry: a push may be sent only after a conditional claim on the row, and the row is
  marked delivered after a successful send or when an identical pending request was just pushed.

  What the notifier answers is a parameter: \<open>sends\<close> tells for each request whether the send of
  this sweep succeeds (a failure and a timeout leave the row as it is).
\<close>

definition PUSH_DEDUP_WINDOW_SECONDS :: int where "PUSH_DEDUP_WINDOW_SECONDS = 60"
definition CONTEXT_RETENTION_HOURS :: int where "CONTEXT_RETENTION_HOURS = 24"
definition FYI_RETRY_WINDOW_HOURS :: int where "FYI_RETRY_WINDOW_HOURS = 24"

text \<open>\<open>UPDATE access_requests SET push_attempts = push_attempts + 1 WHERE ... RETURNING id\<close>.\<close>

definition claim_where :: "(access_request_row \<Rightarrow> bool) \<Rightarrow> db \<Rightarrow> store_error + (bool \<times> db)" where
  "claim_where hit d =
     (case find hit (db_requests d) of
        None \<Rightarrow> Inr (False, d)
      | Some r \<Rightarrow>
          if list_ex (\<lambda>r. hit r \<and> ar_push_attempts r = I32_MAX) (db_requests d)
            then Inl Integer_out_of_range
          else Inr (True, d\<lparr>db_requests := upd_where hit bump_push_attempts (db_requests d)\<rparr>))"

definition pushable :: "time \<Rightarrow> access_request_row \<Rightarrow> bool" where
  "pushable now r \<longleftrightarrow> ar_state r = ''pending'' \<and> ar_push_delivered_at r = None \<and> now < ar_expires_at r"

definition claim_for_push :: "time \<Rightarrow> uuid \<Rightarrow> db \<Rightarrow> store_error + (bool \<times> db)" where
  "claim_for_push now rid d = claim_where (\<lambda>r. ar_id r = rid \<and> pushable now r) d"

definition claim_for_fyi_push :: "uuid \<Rightarrow> db \<Rightarrow> store_error + (bool \<times> db)" where
  "claim_for_fyi_push rid d =
     claim_where (\<lambda>r. ar_id r = rid \<and> ar_notify_only r \<and> ar_push_delivered_at r = None) d"

text \<open>One approval push; \<open>clock\<close> is the process clock of the dedup window, \<open>sent\<close> the outcome of
  the send.  The result says whether a push went out.\<close>

definition push_one ::
  "time \<Rightarrow> time \<Rightarrow> bool \<Rightarrow> access_request_row \<Rightarrow> db \<Rightarrow> store_error + (bool \<times> db)" where
  "push_one clock now sent row d =
     (if recent_duplicate_push row (clock - interval_secs PUSH_DEDUP_WINDOW_SECONDS) d
        then Inr (False, mark_push_delivered now (ar_id row) d)
      else
        (case mech_from_str_opt (ar_mechanism row) of
           None \<Rightarrow> Inr (False, d)
         | Some _ \<Rightarrow>
             (case claim_for_push now (ar_id row) d of
                Inl e \<Rightarrow> Inl e
              | Inr (False, d1) \<Rightarrow> Inr (False, d1)
              | Inr (True, d1) \<Rightarrow>
                  if sent then Inr (True, mark_push_delivered now (ar_id row) d1) else Inr (False, d1))))"

definition push_one_fyi ::
  "time \<Rightarrow> bool \<Rightarrow> access_request_row \<Rightarrow> db \<Rightarrow> store_error + (bool \<times> db)" where
  "push_one_fyi now sent row d =
     (case mech_from_str_opt (ar_mechanism row) of
        None \<Rightarrow> Inr (False, d)
      | Some _ \<Rightarrow>
          (case claim_for_fyi_push (ar_id row) d of
             Inl e \<Rightarrow> Inl e
           | Inr (False, d1) \<Rightarrow> Inr (False, d1)
           | Inr (True, d1) \<Rightarrow>
               if sent then Inr (True, mark_push_delivered now (ar_id row) d1) else Inr (False, d1)))"

text \<open>The queue of the push phase: a failing row does not abandon the rest.  \<open>budget\<close> is the
  number of rows that start before the phase's deadline.\<close>

fun push_rows ::
  "time \<Rightarrow> time \<Rightarrow> (uuid \<Rightarrow> bool) \<Rightarrow> nat \<Rightarrow> access_request_row list \<Rightarrow> db \<Rightarrow> db" where
  "push_rows clock now sends budget [] d = d"
| "push_rows clock now sends 0 (r # rs) d = d"
| "push_rows clock now sends (Suc budget) (r # rs) d =
     (case (if ar_notify_only r then push_one_fyi now (sends (ar_id r)) r d
            else push_one clock now (sends (ar_id r)) r d) of
        Inl e \<Rightarrow> push_rows clock now sends budget rs d
      | Inr (_, d1) \<Rightarrow> push_rows clock now sends budget rs d1)"

definition push_phase ::
  "time \<Rightarrow> time \<Rightarrow> bool \<Rightarrow> (uuid \<Rightarrow> bool) \<Rightarrow> nat \<Rightarrow> db \<Rightarrow> db" where
  "push_phase clock now is_real sends budget d =
     (if \<not> is_real then d
      else push_rows clock now sends budget
             (list_pending_needing_push now I32_MAX d
              @ list_notify_only_needing_push now (FYI_RETRY_WINDOW_HOURS * 3600) d) d)"

definition expire_phase :: "time \<Rightarrow> db \<Rightarrow> db" where
  "expire_phase now d = snd (expire_stale now d)"

definition purge_phase :: "time \<Rightarrow> int \<Rightarrow> db \<Rightarrow> db" where
  "purge_phase now replay_window d =
     snd (unpin_stale_grant_reads now replay_window
       (snd (purge_request_context now (CONTEXT_RETENTION_HOURS * 3600)
         (snd (sweep_purge_passthroughs now replay_window d)))))"

definition sweep_once ::
  "time \<Rightarrow> time \<Rightarrow> int \<Rightarrow> bool \<Rightarrow> (uuid \<Rightarrow> bool) \<Rightarrow> nat \<Rightarrow> db \<Rightarrow> db" where
  "sweep_once clock now replay_window is_real sends budget d =
     push_phase clock now is_real sends budget (purge_phase now replay_window (expire_phase now d))"

text \<open>The label of a push: the name of a stored secret, never a name that only the client chose.\<close>

definition secret_push_label :: "string \<Rightarrow> db \<Rightarrow> string" where
  "secret_push_label nm d =
     (case get_secret_by_name nm d of Some s \<Rightarrow> sec_name s | None \<Rightarrow> ''a not-yet-stored secret'')"

section \<open>Laws of a claim\<close>

lemma claim_where_cases:
  assumes "claim_where hit d = Inr (b, d')"
  obtains (No) "b = False" "d' = d" "\<forall>r \<in> set (db_requests d). \<not> hit r"
  | (Yes) r where "b = True" "r \<in> set (db_requests d)" "hit r"
      "d' = d\<lparr>db_requests := upd_where hit bump_push_attempts (db_requests d)\<rparr>"
proof (cases "find hit (db_requests d)")
  case None
  with assms show thesis
    by (intro No) (auto simp: claim_where_def find_None_iff)
next
  case (Some r)
  with assms show thesis
    by (intro Yes [of r]) (auto simp: claim_where_def split: if_splits dest: find_Some_mem)
qed

end
