(* ===== verification/Api.thy ===== *)
theory Api
  imports Crypto Canonical Policy Paths Notify
begin

text \<open>
  What the client endpoints share: failures and their rendering (\<open>server/src/api/error.rs\<close>),
  the shared helpers of \<open>server/src/api/mod.rs\<close>, the authentication of a machine client
  (\<open>server/src/authn/client.rs\<close>), the application state and its concurrency slots
  (\<open>server/src/state.rs\<close>).

  Libraries and services are collected in \<open>api_env\<close>: the cipher and the hashes, base64 and hex,
  the JSON parsers and printers, the database collation, and the Kubernetes TokenReview call.
\<close>

section \<open>Failures\<close>

datatype api_failure =
    Unauthenticated | Not_Found | InvalidRequest string | MethodNotAllowed | RequestTooLarge string
  | InvalidPath string | WrongMechanism | IdempotencyKeyReuse | SecretExists | PolicyDenied string
  | RevalidationFailed | TooManyPending | TooManyWaits | TooManyStreams | TooManyDeposits
  | GrantExhausted | GrantExpired | PayloadLost | BodyTooLarge | BadCredentialEncoding
  | UpstreamUnreachable | UpstreamTimeout | Internal store_error

fun status_code_message :: "api_failure \<Rightarrow> nat \<times> string \<times> string" where
  "status_code_message Unauthenticated = (401, ''unauthenticated'', ''authentication required'')"
| "status_code_message Not_Found = (404, ''not-found'', ''not found'')"
| "status_code_message (InvalidRequest m) = (400, ''invalid-request'', m)"
| "status_code_message MethodNotAllowed = (405, ''method-not-allowed'', ''method not allowed on this route'')"
| "status_code_message (RequestTooLarge m) = (400, ''request-too-large'', m)"
| "status_code_message (InvalidPath m) = (400, ''invalid-path'', m)"
| "status_code_message WrongMechanism =
     (400, ''wrong-mechanism'', ''grant mechanism does not support this endpoint'')"
| "status_code_message IdempotencyKeyReuse =
     (409, ''idempotency-key-reuse'', ''idempotency key was already used with a different payload'')"
| "status_code_message SecretExists =
     (409, ''secret-exists'', ''a secret with this name already exists; rotation is operator-only'')"
| "status_code_message (PolicyDenied r) = (403, ''policy-denied'', r)"
| "status_code_message RevalidationFailed = (403, ''revalidation-failed'', ''grant is no longer usable'')"
| "status_code_message TooManyPending =
     (429, ''too-many-pending'', ''per-client pending request cap reached'')"
| "status_code_message TooManyWaits =
     (429, ''too-many-waits'', ''per-client concurrent wait cap reached'')"
| "status_code_message TooManyStreams =
     (429, ''too-many-streams'', ''per-client concurrent proxy stream cap reached'')"
| "status_code_message TooManyDeposits =
     (429, ''too-many-deposits'', ''per-client secret deposit rate cap reached'')"
| "status_code_message GrantExhausted = (410, ''grant-exhausted'', ''grant has no uses remaining'')"
| "status_code_message GrantExpired = (410, ''grant-expired'', ''grant is revoked or expired'')"
| "status_code_message PayloadLost =
     (410, ''payload-lost'', ''the grant payload is no longer available; submit a new access request'')"
| "status_code_message BodyTooLarge = (413, ''body-too-large'', ''request body exceeds the proxy limit'')"
| "status_code_message BadCredentialEncoding =
     (502, ''bad-credential-encoding'', ''credential cannot be encoded for header injection'')"
| "status_code_message UpstreamUnreachable = (502, ''upstream-unreachable'', ''upstream request failed'')"
| "status_code_message UpstreamTimeout = (504, ''upstream-timeout'', ''proxy stream deadline elapsed'')"
| "status_code_message (Internal e) = (500, ''internal'', ''internal error'')"

section \<open>Environment and state\<close>

record token_review_status =
  tr_authenticated :: bool
  tr_audiences :: "string list"
  tr_username :: string

datatype token_review = TR_Failed | TR_Status_Error | TR_Bad_Body | TR_Review token_review_status

record api_env =
  env_uuid_str :: "uuid \<Rightarrow> string"
  env_max_utc :: time
  env_aead :: aead
  env_hmac :: "bytes \<Rightarrow> bytes \<Rightarrow> bytes"
  env_sha256_hex :: "string \<Rightarrow> string"
  env_hex_decode :: "string \<Rightarrow> bytes option"
  env_b64_encode :: "bytes \<Rightarrow> string"
  env_b64_decode :: "string \<Rightarrow> bytes option"
  env_json_quote :: "string \<Rightarrow> string"
  env_json_vec :: "json \<Rightarrow> bytes option"
  env_context_vec :: "request_context \<Rightarrow> bytes option"
  env_parse_create :: "bytes \<Rightarrow> create_access_request option"
  env_parse_read :: "bytes \<Rightarrow> string option"
  env_parse_store :: "bytes \<Rightarrow> store_secret_request option"
  env_parse_uuid :: "string \<Rightarrow> uuid option"
  env_collate :: "string list \<Rightarrow> string list"
  env_tokenreview :: "string \<Rightarrow> string list \<Rightarrow> token_review"

record limits =
  lim_max_pending_per_client :: int
  lim_max_waits_per_client :: nat
  lim_wait_max_seconds :: nat
  lim_request_expiry_seconds :: int
  lim_proxy_max_body_bytes :: nat
  lim_proxy_stream_deadline_seconds :: nat
  lim_replay_window_seconds :: int
  lim_max_proxy_streams_per_client :: nat
  lim_max_deposits_per_hour_per_client :: int
  lim_drain_seconds :: nat

text \<open>The part of \<open>state.rs\<close>'s \<open>Inner\<close> the handlers read.\<close>

record app_state =
  app_keyset :: keyset
  app_ephemeral_kek :: bytes
  app_limits :: limits
  app_clients :: "client_config list"
  app_tokenreview_url :: "string option"
  app_notifier_real :: bool

section \<open>Bodies and ids\<close>

datatype bytes_rejection = Payload_too_large | Unreadable

definition body_bytes :: "bytes_rejection + bytes \<Rightarrow> api_failure + bytes" where
  "body_bytes body =
     (case body of
        Inl Payload_too_large \<Rightarrow> Inl BodyTooLarge
      | Inl Unreadable \<Rightarrow> Inl (InvalidRequest ''request body could not be read'')
      | Inr b \<Rightarrow> Inr b)"

text \<open>The path segment is \<^term>\<open>None\<close> when the extractor rejects it.\<close>

definition path_id :: "api_env \<Rightarrow> string option \<Rightarrow> api_failure + uuid" where
  "path_id env raw =
     (case raw of
        None \<Rightarrow> Inl Not_Found
      | Some s \<Rightarrow> (case env_parse_uuid env s of None \<Rightarrow> Inl Not_Found | Some i \<Rightarrow> Inr i))"

section \<open>Client authentication\<close>

text \<open>\<open>header\<close> is the text of the \<open>Authorization\<close> header, \<^term>\<open>None\<close> when it is missing or not text.\<close>

definition bearer_token :: "string option \<Rightarrow> string option" where
  "bearer_token header =
     (case header of
        None \<Rightarrow> None
      | Some value \<Rightarrow>
          (case split_once (CHR '' '') value of
             None \<Rightarrow> None
           | Some (scheme, token) \<Rightarrow>
               if \<not> eq_ignore_ascii_case scheme ''bearer'' then None
               else if trim token = [] then None
               else Some (trim token)))"

definition tokenreview_audiences :: "client_config list \<Rightarrow> string list" where
  "tokenreview_audiences cs =
     remdups_adj (sort_strings (map sa_audience (List.map_filter (ca_service_account \<circ> cc_auth) cs)))"

definition tokenreview_authenticate ::
  "api_env \<Rightarrow> app_state \<Rightarrow> string \<Rightarrow> db \<Rightarrow> api_failure + client_row" where
  "tokenreview_authenticate env app token d =
     (case app_tokenreview_url app of
        None \<Rightarrow> Inl Unauthenticated
      | Some url \<Rightarrow>
          (let audiences = tokenreview_audiences (app_clients app)
           in if audiences = [] then Inl Unauthenticated
              else
                (case env_tokenreview env token audiences of
                   TR_Failed \<Rightarrow> Inl (Internal (Bail ''tokenreview call failed''))
                 | TR_Status_Error \<Rightarrow> Inl Unauthenticated
                 | TR_Bad_Body \<Rightarrow> Inl Unauthenticated
                 | TR_Review review \<Rightarrow>
                     if \<not> tr_authenticated review \<or> tr_username review = [] then Inl Unauthenticated
                     else
                       (case filter (\<lambda>c. cl_enabled c
                                \<and> (case cl_sa_audience c of
                                     None \<Rightarrow> False
                                   | Some aud \<Rightarrow> list_ex (\<lambda>a. a = aud) (tr_audiences review)))
                              (get_clients_by_sa_subject (tr_username review) d) of
                          [c] \<Rightarrow> Inr c
                        | _ \<Rightarrow> Inl Unauthenticated))))"

text \<open>\<open>hex::decode\<close> of the presented hash cannot fail: it was printed by \<open>hex::encode\<close>.\<close>

definition authenticate_client ::
  "api_env \<Rightarrow> app_state \<Rightarrow> string option \<Rightarrow> db \<Rightarrow> api_failure + client_row" where
  "authenticate_client env app header d =
     (case bearer_token header of
        None \<Rightarrow> Inl Unauthenticated
      | Some token \<Rightarrow>
          (let presented = env_sha256_hex env token
           in case get_client_by_token_hash presented d of
                Some row \<Rightarrow>
                  (let stored = (case cl_api_token_sha256 row of None \<Rightarrow> [] | Some h \<Rightarrow> h);
                       stored_bytes = (case env_hex_decode env (to_ascii_lowercase stored) of
                                         None \<Rightarrow> [] | Some b \<Rightarrow> b);
                       presented_bytes = (case env_hex_decode env presented of None \<Rightarrow> [] | Some b \<Rightarrow> b)
                   in if ct_eq stored_bytes presented_bytes \<and> cl_enabled row then Inr row
                      else Inl Unauthenticated)
              | None \<Rightarrow>
                  if app_tokenreview_url app \<noteq> None then tokenreview_authenticate env app token d
                  else Inl Unauthenticated))"

section \<open>Concurrency slots\<close>

type_synonym counts = "string \<rightharpoonup> nat"

text \<open>Whether a slot was taken, and the counters afterwards: \<open>entry\<close> creates a zero counter even
  when the cap refuses the slot.\<close>

definition try_take_slot :: "nat \<Rightarrow> string \<Rightarrow> counts \<Rightarrow> bool \<times> counts" where
  "try_take_slot cap client m =
     (let n = (case m client of None \<Rightarrow> 0 | Some n \<Rightarrow> n)
      in if cap \<le> n then (False, m(client \<mapsto> n)) else (True, m(client \<mapsto> n + 1)))"

definition drop_slot :: "string \<Rightarrow> counts \<Rightarrow> counts" where
  "drop_slot client m =
     (case m client of
        None \<Rightarrow> m
      | Some n \<Rightarrow> if n - 1 = 0 then m(client := None) else m(client \<mapsto> n - 1))"

section \<open>Requests and grants of a client\<close>

definition status_from_row :: "access_request_row \<Rightarrow> db \<Rightarrow> api_failure + access_request_status" where
  "status_from_row row d =
     (case state_from_str_opt (ar_state row) of
        None \<Rightarrow> Inl (Internal (Bail ''unknown request state''))
      | Some st \<Rightarrow>
          (let g = (if st = Approved then get_grant_for_request (ar_id row) d else None)
           in Inr \<lparr>st_request_id = ar_id row, st_state = st, st_grant_id = map_option gr_id g,
                   st_deny_reason = ar_deny_reason row, st_expires_at = ar_expires_at row,
                   st_granted_secret_name = map_option gr_secret_name g,
                   st_auto_approved = (st = Approved
                     \<and> ar_resolved_by row = Some RESOLVED_BY_POLICY_AUTO)\<rparr>))"

definition owned_grant :: "string \<Rightarrow> uuid \<Rightarrow> db \<Rightarrow> api_failure + grant_row" where
  "owned_grant client_name gid d =
     (case get_grant gid d of
        None \<Rightarrow> Inl Not_Found
      | Some g \<Rightarrow> if gr_client_name g \<noteq> client_name then Inl Not_Found else Inr g)"

definition revalidate_grant :: "grant_row \<Rightarrow> db \<Rightarrow> api_failure + secret_row option" where
  "revalidate_grant g d =
     (case get_client_by_name (gr_client_name g) d of
        None \<Rightarrow> Inl RevalidationFailed
      | Some client \<Rightarrow>
          if \<not> cl_enabled client then Inl RevalidationFailed
          else
            (case mech_from_str_opt (gr_mechanism g) of
               None \<Rightarrow> Inl RevalidationFailed
             | Some m \<Rightarrow>
                 if \<not> list_ex (\<lambda>x. x = gr_mechanism g) (cl_mechanisms client) then Inl RevalidationFailed
                 else
                   (case tier_from_int (cl_max_tier client) of
                      None \<Rightarrow> Inl RevalidationFailed
                    | Some client_max \<Rightarrow>
                        if mech_tier m > client_max then Inl RevalidationFailed
                        else
                          (case get_secret_by_name (gr_secret_name g) d of
                             None \<Rightarrow> Inr None
                           | Some s \<Rightarrow>
                               if \<not> sec_enabled s then Inl RevalidationFailed
                               else
                                 (case tier_from_int (sec_max_tier s) of
                                    None \<Rightarrow> Inl RevalidationFailed
                                  | Some secret_max \<Rightarrow>
                                      if mech_tier m > secret_max then Inl RevalidationFailed
                                      else Inr (Some s))))))"

section \<open>Slots are counted exactly\<close>

definition slot_count :: "counts \<Rightarrow> string \<Rightarrow> nat" where
  "slot_count m c = (case m c of None \<Rightarrow> 0 | Some n \<Rightarrow> n)"

lemma try_take_slot_count:
  assumes "try_take_slot cap c m = (b, m')"
  shows "b \<longleftrightarrow> slot_count m c < cap" "slot_count m' c' = slot_count m c' + (if b \<and> c' = c then 1 else 0)"
  using assms by (auto simp: try_take_slot_def slot_count_def Let_def split: if_splits option.splits)

lemma drop_slot_count: "slot_count (drop_slot c m) c' = slot_count m c' - (if c' = c then 1 else 0)"
  by (auto simp: drop_slot_def slot_count_def split: option.splits)

lemma refused_slot: "try_take_slot cap c m = (False, m') \<Longrightarrow> slot_count m' = slot_count m"
  by (rule ext) (simp add: try_take_slot_count)

lemma take_drop_slot:
  "try_take_slot cap c m = (True, m') \<Longrightarrow> slot_count (drop_slot c m') = slot_count m"
  by (rule ext) (simp add: drop_slot_count try_take_slot_count)

section \<open>What admission establishes\<close>

text \<open>The client vouched for by TokenReview: the only enabled client of the subject whose audience
  the token was issued for.\<close>

definition token_review_vouches :: "api_env \<Rightarrow> app_state \<Rightarrow> string \<Rightarrow> db \<Rightarrow> client_row \<Rightarrow> bool" where
  "token_review_vouches env app token d c \<longleftrightarrow>
     (\<exists>review aud. env_tokenreview env token (tokenreview_audiences (app_clients app)) = TR_Review review
        \<and> tr_authenticated review \<and> tr_username review \<noteq> [] \<and> cl_sa_subject c = Some (tr_username review)
        \<and> cl_sa_audience c = Some aud \<and> aud \<in> set (tr_audiences review)
        \<and> (\<forall>c' \<in> set (db_clients d). cl_enabled c' \<and> cl_sa_subject c' = cl_sa_subject c
              \<and> (\<exists>aud'. cl_sa_audience c' = Some aud' \<and> aud' \<in> set (tr_audiences review)) \<longrightarrow> c' = c))"

lemma filter_single:
  assumes "filter P xs = [x]"
  shows "x \<in> set xs" "P x" "\<And>y. y \<in> set xs \<Longrightarrow> P y \<Longrightarrow> y = x"
proof -
  have s: "{y \<in> set xs. P y} = {x}"
    using assms by (metis list.simps(15) empty_set set_filter)
  then show "x \<in> set xs" "P x" by auto
  show "y = x" if "y \<in> set xs" "P y" for y
    using s that by blast
qed

lemma tokenreview_authenticate_Inr:
  assumes "tokenreview_authenticate env app token d = Inr c"
  shows "c \<in> set (db_clients d)" "cl_enabled c" "token_review_vouches env app token d c"
proof -
  let ?P = "\<lambda>review c. cl_enabled c
    \<and> (case cl_sa_audience c of None \<Rightarrow> False | Some aud \<Rightarrow> list_ex (\<lambda>a. a = aud) (tr_audiences review))"
  obtain review where r: "env_tokenreview env token (tokenreview_audiences (app_clients app)) = TR_Review review"
    "tr_authenticated review" "tr_username review \<noteq> []"
    "filter (?P review) (get_clients_by_sa_subject (tr_username review) d) = [c]"
    using assms by (auto simp: tokenreview_authenticate_def Let_def
        split: option.splits if_splits token_review.splits list.splits)
  note one = filter_single [OF r(4)]
  show "c \<in> set (db_clients d)" "cl_enabled c"
    using one(1,2) by (auto simp: get_clients_by_sa_subject_def)
  obtain aud where aud: "cl_sa_audience c = Some aud" "aud \<in> set (tr_audiences review)"
    using one(2) by (auto simp: list_ex_iff split: option.splits)
  have "c' = c" if "c' \<in> set (db_clients d)" "cl_enabled c'" "cl_sa_subject c' = cl_sa_subject c"
    "cl_sa_audience c' = Some aud'" "aud' \<in> set (tr_audiences review)" for c' aud'
    using that one(1) by (intro one(3)) (auto simp: get_clients_by_sa_subject_def list_ex_iff)
  then have "\<forall>c' \<in> set (db_clients d). cl_enabled c' \<and> cl_sa_subject c' = cl_sa_subject c
      \<and> (\<exists>aud'. cl_sa_audience c' = Some aud' \<and> aud' \<in> set (tr_audiences review)) \<longrightarrow> c' = c"
    by blast
  moreover have "cl_sa_subject c = Some (tr_username review)"
    using one(1) by (simp add: get_clients_by_sa_subject_def)
  ultimately show "token_review_vouches env app token d c"
    unfolding token_review_vouches_def using r(1-3) aud by blast
qed

text \<open>The token of the header belongs to the client: by the stored hash, or through TokenReview when
  no client has that hash.\<close>

definition token_of_client :: "api_env \<Rightarrow> app_state \<Rightarrow> string \<Rightarrow> db \<Rightarrow> client_row \<Rightarrow> bool" where
  "token_of_client env app token d c \<longleftrightarrow>
     cl_api_token_sha256 c = Some (env_sha256_hex env token)
     \<or> (\<forall>c' \<in> set (db_clients d). cl_api_token_sha256 c' \<noteq> Some (env_sha256_hex env token))
       \<and> token_review_vouches env app token d c"

lemma authenticate_client_Inr:
  assumes "authenticate_client env app header d = Inr c"
  obtains token where "bearer_token header = Some token" "c \<in> set (db_clients d)" "cl_enabled c"
    "token_of_client env app token d c"
proof -
  obtain token where t: "bearer_token header = Some token"
    using assms by (auto simp: authenticate_client_def split: option.splits)
  show thesis
  proof (cases "get_client_by_token_hash (env_sha256_hex env token) d")
    case (Some row)
    with assms t have "row = c" "cl_enabled c"
      by (auto simp: authenticate_client_def Let_def split: if_splits)
    with Some t that show thesis
      by (auto simp: get_client_by_token_hash_def token_of_client_def dest: find_Some_mem)
  next
    case None
    with assms t have "tokenreview_authenticate env app token d = Inr c"
      by (auto simp: authenticate_client_def Let_def split: if_splits)
    from tokenreview_authenticate_Inr [OF this] None t that show thesis
      by (auto simp: get_client_by_token_hash_def token_of_client_def find_None_iff)
  qed
qed

text \<open>What the checks before a use leave of the grant's permission.\<close>

definition still_permitted :: "grant_row \<Rightarrow> db \<Rightarrow> secret_row option \<Rightarrow> bool" where
  "still_permitted g d s \<longleftrightarrow>
     (\<exists>c m cm. get_client_by_name (gr_client_name g) d = Some c \<and> cl_enabled c
        \<and> mech_from_str_opt (gr_mechanism g) = Some m \<and> gr_mechanism g \<in> set (cl_mechanisms c)
        \<and> tier_from_int (cl_max_tier c) = Some cm \<and> mech_tier m \<le> cm
        \<and> get_secret_by_name (gr_secret_name g) d = s
        \<and> (case s of None \<Rightarrow> True
            | Some x \<Rightarrow> sec_enabled x \<and> (\<exists>sm. tier_from_int (sec_max_tier x) = Some sm \<and> mech_tier m \<le> sm)))"

lemma revalidate_grant_Inr:
  assumes "revalidate_grant g d = Inr s"
  shows "still_permitted g d s"
  using assms
  by (cases s; cases "get_secret_by_name (gr_secret_name g) d")
    (auto simp: revalidate_grant_def still_permitted_def list_ex_iff not_less split: option.splits if_splits)

lemma owned_grant_Inr:
  assumes "owned_grant client_name gid d = Inr g"
  shows "get_grant gid d = Some g" "gr_client_name g = client_name" "gr_id g = gid"
  using assms by (auto simp: owned_grant_def get_grant_def dest: find_Some_mem split: option.splits if_splits)

end
