(* ===== verification/Api_Requests.thy ===== *)
theory Api_Requests
  imports Api
begin

text \<open>
  The access-request endpoints (\<open>server/src/api/requests.rs\<close>): validation, the mapping of stored
  policy rows to the inputs of the policy engine, the create handler with its idempotent
  short-circuit, and polling.
\<close>

section \<open>Validation\<close>

definition MAX_IDEM_KEY_BYTES :: nat where "MAX_IDEM_KEY_BYTES = 128"
definition MAX_REASON_BYTES :: nat where "MAX_REASON_BYTES = 4 * 1024"
definition MAX_STRUCTURED_BYTES :: nat where "MAX_STRUCTURED_BYTES = 16 * 1024"
definition MAX_CONSTRAINT_ENTRIES :: nat where "MAX_CONSTRAINT_ENTRIES = 32"
definition MAX_TTL_SECONDS :: "64 word" where "MAX_TTL_SECONDS = 30 * 24 * 3600"
definition MAX_USES :: "32 word" where "MAX_USES = 2147483647"

lemmas request_bounds = MAX_IDEM_KEY_BYTES_def MAX_REASON_BYTES_def MAX_STRUCTURED_BYTES_def
  MAX_CONSTRAINT_ENTRIES_def MAX_TTL_SECONDS_def MAX_USES_def

definition validate_idempotency_key :: "create_access_request \<Rightarrow> api_failure + unit" where
  "validate_idempotency_key req =
     (if cr_idempotency_key req = [] then Inl (InvalidRequest ''idempotency_key is required'')
      else if length (cr_idempotency_key req) > MAX_IDEM_KEY_BYTES
        then Inl (RequestTooLarge ''idempotency_key too long'')
      else Inr ())"

text \<open>The bounds that come before the constraints are normalized.\<close>

definition validate_bounds :: "api_env \<Rightarrow> create_access_request \<Rightarrow> api_failure option" where
  "validate_bounds env req =
     (let c = cr_constraints req
      in if cr_secret_name req = [] \<or> length (cr_secret_name req) > 256
           then Some (InvalidRequest ''invalid secret_name'')
         else if length (cx_reason (cr_context req)) > MAX_REASON_BYTES
           then Some (RequestTooLarge ''context.reason too long'')
         else if (case cx_structured (cr_context req) of Some j \<Rightarrow> env_json_vec env j = None | None \<Rightarrow> False)
           then Some (InvalidRequest ''invalid structured context'')
         else if (case cx_structured (cr_context req) of
                    Some j \<Rightarrow> (case env_json_vec env j of
                                 Some v \<Rightarrow> length v > MAX_STRUCTURED_BYTES
                               | None \<Rightarrow> False)
                  | None \<Rightarrow> False)
           then Some (RequestTooLarge ''context.structured too large'')
         else if length (c_origins c) > MAX_CONSTRAINT_ENTRIES
                 \<or> length (c_methods c) > MAX_CONSTRAINT_ENTRIES
                 \<or> length (c_path_prefixes c) > MAX_CONSTRAINT_ENTRIES
           then Some (RequestTooLarge ''too many constraint entries'')
         else if c_ttl_seconds c < 1 \<or> c_ttl_seconds c > MAX_TTL_SECONDS
           then Some (InvalidRequest ''ttl_seconds must be between 1 and 30 days'')
         else None)"

fun canonicalize_all :: "string list \<Rightarrow> string list option" where
  "canonicalize_all [] = Some []"
| "canonicalize_all (p # ps) =
     (case canonicalize p of
        Inl _ \<Rightarrow> None
      | Inr q \<Rightarrow> map_option ((#) q) (canonicalize_all ps))"

definition validate_max_uses ::
  "mechanism \<Rightarrow> constraints \<Rightarrow> string list \<Rightarrow> api_failure + 32 word option" where
  "validate_max_uses m c methods =
     (if m = Mech_Brokered then
        (if length (c_origins c) \<noteq> 1
           then Inl (InvalidRequest ''brokered requests must name exactly one origin'')
         else if methods = []
           then Inl (InvalidRequest ''brokered requests must name at least one method'')
         else (case c_max_uses c of
                 Some u \<Rightarrow>
                   if u = 0 then Inl (InvalidRequest ''max_uses must be at least 1'')
                   else if u > MAX_USES then Inl (InvalidRequest ''max_uses is too large'')
                   else Inr (Some u)
               | None \<Rightarrow> Inr None))
      else (case c_max_uses c of
              None \<Rightarrow> Inr (Some 1)
            | Some u \<Rightarrow>
                if u = 1 then Inr (Some 1)
                else Inl (InvalidRequest ''releasing-tier requests may not exceed max_uses = 1'')))"

definition validate_request :: "api_env \<Rightarrow> create_access_request \<Rightarrow> api_failure + constraints" where
  "validate_request env req =
     (case validate_idempotency_key req of
        Inl e \<Rightarrow> Inl e
      | Inr _ \<Rightarrow>
          (case validate_bounds env req of
             Some e \<Rightarrow> Inl e
           | None \<Rightarrow>
               (let c = cr_constraints req
                in if \<not> list_all is_valid_http_method (c_methods c)
                     then Inl (InvalidRequest ''invalid method'')
                   else
                     (let methods = map to_ascii_uppercase (c_methods c)
                      in case canonicalize_all (c_path_prefixes c) of
                           None \<Rightarrow> Inl (InvalidRequest ''invalid path prefix'')
                         | Some pps \<Rightarrow>
                             (case validate_max_uses (cr_mechanism req) c methods of
                                Inl e \<Rightarrow> Inl e
                              | Inr mu \<Rightarrow>
                                  Inr \<lparr>c_origins = c_origins c, c_methods = methods,
                                       c_path_prefixes = pps, c_ttl_seconds = c_ttl_seconds c,
                                       c_max_uses = mu\<rparr>)))))"

section \<open>Policy inputs\<close>

definition row_is_applicable_raw ::
  "policy_row \<Rightarrow> string \<Rightarrow> requested_grant \<Rightarrow> string list \<Rightarrow> time \<Rightarrow> bool" where
  "row_is_applicable_raw r client_name req secret_tags now =
     (if pol_mechanism r \<noteq> mech_as_str (rg_mechanism req) then False
      else if (case pol_not_after r of Some t \<Rightarrow> t \<le> now | None \<Rightarrow> False) then False
      else if (case pol_client_name r of Some c \<Rightarrow> c \<noteq> client_name | None \<Rightarrow> False) then False
      else (case (pol_secret_name r, pol_secret_tag r) of
              (Some nm, _) \<Rightarrow> nm = rg_secret_name req
            | (None, Some tag) \<Rightarrow> list_ex (\<lambda>t. t = tag) secret_tags
            | (None, None) \<Rightarrow> True))"

text \<open>One stored row as the engine reads it; \<^term>\<open>None\<close> when some column does not parse.\<close>

definition parse_policy_row :: "policy_row \<Rightarrow> policy_rule option" where
  "parse_policy_row r =
     (case mech_from_str_opt (pol_mechanism r) of
        None \<Rightarrow> None
      | Some m \<Rightarrow>
          (case outcome_from_str_opt (pol_outcome r) of
             None \<Rightarrow> None
           | Some oc \<Rightarrow>
               (case pol_origins r of
                  Malformed _ \<Rightarrow> None
                | Parsed origins \<Rightarrow>
                    if \<not> list_all is_valid_http_method (pol_methods r) then None
                    else
                      (case canonicalize_all (pol_path_prefixes r) of
                         None \<Rightarrow> None
                       | Some pps \<Rightarrow>
                           Some \<lparr>pr_id = pol_id r, pr_client_name = pol_client_name r,
                             pr_secret_name = pol_secret_name r, pr_secret_tag = pol_secret_tag r,
                             pr_mechanism = m, pr_outcome = oc, pr_priority = pol_priority r,
                             pr_origins = origins, pr_methods = pol_methods r,
                             pr_path_prefixes = pps,
                             pr_max_ttl_seconds = map_option (\<lambda>v. word_of_int (max v 0)) (pol_max_ttl_seconds r),
                             pr_max_uses = map_option (\<lambda>v. word_of_int (max v 0)) (pol_max_uses r),
                             pr_not_after = pol_not_after r\<rparr>))))"

fun policy_rows ::
  "string \<Rightarrow> requested_grant \<Rightarrow> string list \<Rightarrow> time \<Rightarrow> policy_row list \<Rightarrow> api_failure + policy_rule list" where
  "policy_rows client_name req tags now [] = Inr []"
| "policy_rows client_name req tags now (r # rs) =
     (case parse_policy_row r of
        None \<Rightarrow>
          if row_is_applicable_raw r client_name req tags now
            then Inl (PolicyDenied ''policy set contains an unreadable rule'')
          else policy_rows client_name req tags now rs
      | Some p \<Rightarrow> map_sum id ((#) p) (policy_rows client_name req tags now rs))"

definition policy_client_of :: "client_row \<Rightarrow> policy_client" where
  "policy_client_of c =
     \<lparr>pc_name = cl_name c, pc_enabled = cl_enabled c,
      pc_max_tier = (case tier_from_int (cl_max_tier c) of Some t \<Rightarrow> t | None \<Rightarrow> Tier_Brokered),
      pc_allowed_mechanisms = List.map_filter mech_from_str_opt (cl_mechanisms c)\<rparr>"

definition policy_secret_of :: "secret_row \<Rightarrow> policy_secret" where
  "policy_secret_of s =
     \<lparr>ps_name = sec_name s, ps_enabled = sec_enabled s,
      ps_max_tier = (case tier_from_int (sec_max_tier s) of Some t \<Rightarrow> t | None \<Rightarrow> Tier_Brokered),
      ps_operator_vetted = sec_operator_vetted s\<rparr>"

definition policy_inputs ::
  "client_row \<Rightarrow> secret_row option \<Rightarrow> string list \<Rightarrow> requested_grant \<Rightarrow> policy_row list \<Rightarrow> time
   \<Rightarrow> api_failure + (policy_client \<times> policy_secret option \<times> policy_rule list)" where
  "policy_inputs client secret tags req rows now =
     map_sum id (\<lambda>ps. (policy_client_of client, map_option policy_secret_of secret, ps))
       (policy_rows (cl_name client) req tags now rows)"

definition ttl_human :: "nat \<Rightarrow> string" where
  "ttl_human s =
     (if s mod 3600 = 0 then dec (s div 3600) @ ''h''
      else if s mod 60 = 0 then dec (s div 60) @ ''m''
      else dec s @ ''s'')"

section \<open>Status\<close>

definition owned_request :: "string \<Rightarrow> uuid \<Rightarrow> db \<Rightarrow> api_failure + access_request_row" where
  "owned_request client_name i d =
     (case get_request i d of
        None \<Rightarrow> Inl Not_Found
      | Some row \<Rightarrow> if ar_client_name row \<noteq> client_name then Inl Not_Found else Inr row)"

section \<open>Create\<close>

text \<open>The grant an unattended approval mints.\<close>

definition auto_grant ::
  "client_row \<Rightarrow> secret_row \<Rightarrow> mechanism \<Rightarrow> constraints \<Rightarrow> evaluation \<Rightarrow> time \<Rightarrow> grant_params" where
  "auto_grant client s m c e now =
     (let base = now + interval_secs (uint (c_ttl_seconds c))
      in \<lparr>gp_client_name = cl_name client, gp_secret_name = sec_name s, gp_secret_id = Some (sec_id s),
          gp_mechanism = mech_as_str m, gp_constraints = Parsed c,
          gp_not_after = (case ev_policy_not_after e of Some cap \<Rightarrow> min base cap | None \<Rightarrow> base),
          gp_max_uses = map_option (\<lambda>u. if uint u \<le> I32_MAX then uint u else I32_MAX) (c_max_uses c),
          gp_passthrough = None\<rparr>)"

text \<open>What the handler decides before it touches the database for writing: the row, its
  resolution, the pending cap and the evaluation.\<close>

definition create_decide ::
  "api_env \<Rightarrow> limits \<Rightarrow> client_row \<Rightarrow> secret_row option \<Rightarrow> string list \<Rightarrow> policy_row list \<Rightarrow> time \<Rightarrow> bytes
   \<Rightarrow> create_access_request \<Rightarrow> api_failure + (new_access_request \<times> initial_resolution \<times> int option \<times> evaluation)" where
  "create_decide env lim client secret tags rows now mac req =
     (case validate_request env req of
        Inl e \<Rightarrow> Inl e
      | Inr c \<Rightarrow>
          (let requested = \<lparr>rg_secret_name = cr_secret_name req, rg_mechanism = cr_mechanism req, rg_constraints = c\<rparr>
           in case policy_inputs client secret tags requested rows now of
                Inl e \<Rightarrow> Inl e
              | Inr (pclient, psecret, prows) \<Rightarrow>
                  (case evaluate (env_uuid_str env) (env_max_utc env) pclient psecret tags requested prows now of
                     None \<Rightarrow> Inl (Internal (Bail ''unreachable: deny rows filtered above''))
                   | Some ev \<Rightarrow>
                       (let row = \<lparr>nr_client_name = cl_name client, nr_secret_name = cr_secret_name req,
                                   nr_mechanism = mech_as_str (cr_mechanism req), nr_constraints = Parsed c,
                                   nr_expires_at = now + interval_secs (lim_request_expiry_seconds lim),
                                   nr_policy_not_after = ev_policy_not_after ev,
                                   nr_idem_client = cl_name client, nr_idem_key = cr_idempotency_key req,
                                   nr_idem_mac = mac\<rparr>;
                            cap = (if ev_decision ev = Dec_RequireApproval
                                   then Some (lim_max_pending_per_client lim) else None)
                        in case ev_decision ev of
                             Dec_Deny reason \<Rightarrow> Inr (row, Res_Denied reason ''policy'', cap, ev)
                           | Dec_RequireApproval \<Rightarrow> Inr (row, Res_Pending, cap, ev)
                           | _ \<Rightarrow>
                               (case secret of
                                  None \<Rightarrow> Inl (Internal (Bail ''auto-approve decision without a stored secret''))
                                | Some s \<Rightarrow>
                                    Inr (row, Res_Approved RESOLVED_BY_POLICY_AUTO
                                           (auto_grant client s (cr_mechanism req) c ev now)
                                           (ev_decision ev = Dec_NotifyOnly), cap, ev))))))"

definition context_plaintext :: "api_env \<Rightarrow> create_access_request \<Rightarrow> api_failure + bytes option" where
  "context_plaintext env req =
     (if cx_reason (cr_context req) = [] \<and> cx_structured (cr_context req) = None then Inr None
      else (case env_context_vec env (cr_context req) of
              None \<Rightarrow> Inl (InvalidRequest ''invalid context'')
            | Some v \<Rightarrow> Inr (Some v)))"

text \<open>The push after the commit: \<open>real\<close> says whether a notifier is configured, \<open>sent\<close> whether its
  send succeeds, \<open>clock\<close> is the process clock.\<close>

definition create_fyi_push :: "time \<Rightarrow> bool \<Rightarrow> access_request_row \<Rightarrow> db \<Rightarrow> store_error + db" where
  "create_fyi_push now sent row d =
     (case claim_for_fyi_push (ar_id row) d of
        Inl e \<Rightarrow> Inl e
      | Inr (claimed, d1) \<Rightarrow> Inr (if claimed \<and> sent then mark_push_delivered now (ar_id row) d1 else d1))"

definition create_approval_push ::
  "time \<Rightarrow> time \<Rightarrow> bool \<Rightarrow> access_request_row \<Rightarrow> db \<Rightarrow> store_error + db" where
  "create_approval_push clock now sent row d =
     (if recent_duplicate_push row (clock - interval_secs PUSH_DEDUP_WINDOW_SECONDS) d
        then Inr (mark_push_delivered now (ar_id row) d)
      else
        (case claim_for_push now (ar_id row) d of
           Inl e \<Rightarrow> Inl e
         | Inr (claimed, d1) \<Rightarrow> Inr (if claimed \<and> sent then mark_push_delivered now (ar_id row) d1 else d1)))"

definition create_push ::
  "time \<Rightarrow> time \<Rightarrow> bool \<Rightarrow> bool \<Rightarrow> decision \<Rightarrow> access_request_row \<Rightarrow> db \<Rightarrow> store_error + db" where
  "create_push clock now real sent dcs row d =
     (if \<not> real then Inr d
      else (case dcs of
              Dec_NotifyOnly \<Rightarrow> create_fyi_push now sent row d
            | Dec_RequireApproval \<Rightarrow> create_approval_push clock now sent row d
            | _ \<Rightarrow> Inr d))"

definition retry_response ::
  "bytes \<Rightarrow> access_request_row \<Rightarrow> db \<Rightarrow> api_failure + (nat \<times> access_request_status)" where
  "retry_response mac row d =
     (if \<not> ct_eq (ar_idem_mac row) mac then Inl IdempotencyKeyReuse
      else map_sum id (Pair 200) (status_from_row row d))"

text \<open>The answer to a newly created row.\<close>

definition created_response ::
  "decision \<Rightarrow> secret_row option \<Rightarrow> access_request_row \<Rightarrow> uuid option
   \<Rightarrow> api_failure + (nat \<times> access_request_status)" where
  "created_response dcs secret row gid =
     (case dcs of
        Dec_Deny reason \<Rightarrow> Inl (PolicyDenied reason)
      | Dec_RequireApproval \<Rightarrow>
          Inr (201, \<lparr>st_request_id = ar_id row, st_state = Pending, st_grant_id = None,
                     st_deny_reason = None, st_expires_at = ar_expires_at row,
                     st_granted_secret_name = None, st_auto_approved = False\<rparr>)
      | _ \<Rightarrow>
          (case gid of
             None \<Rightarrow> Inl (Internal (Bail ''approved request created without a grant''))
           | Some g \<Rightarrow>
               Inr (201, \<lparr>st_request_id = ar_id row, st_state = Approved, st_grant_id = Some g,
                          st_deny_reason = None, st_expires_at = ar_expires_at row,
                          st_granted_secret_name = map_option sec_name secret,
                          st_auto_approved = True\<rparr>)))"

text \<open>A keyset seal as the store's seal function.\<close>

definition seal_fn_of :: "crypto_error + sealed \<Rightarrow> seal_fn" where
  "seal_fn_of r = (case r of Inl _ \<Rightarrow> None | Inr x \<Rightarrow> Some x)"

definition request_mac :: "api_env \<Rightarrow> app_state \<Rightarrow> string \<Rightarrow> create_access_request \<Rightarrow> bytes" where
  "request_mac env app client_name req =
     idem_mac (env_hmac env) (app_keyset app) client_name
       (canonical_request_payload (env_json_quote env) req)"

text \<open>What one call of the handler draws and observes besides the database: the clock at the
  evaluation and at the insert, the process clock, the random bytes of the seal, the fresh ids, and
  whether the push is sent in time.\<close>

record create_call =
  ccl_eval_now :: time
  ccl_now :: time
  ccl_clock :: time
  ccl_random :: seal_random
  ccl_request_id :: uuid
  ccl_grant_id :: uuid
  ccl_sent :: bool

text \<open>The handler.  The reads before the insert see the database \<open>d0\<close>, the insert sees \<open>d\<close>: other
  transactions may run in between.\<close>

definition create ::
  "api_env \<Rightarrow> app_state \<Rightarrow> create_call \<Rightarrow> string option \<Rightarrow> bytes_rejection + bytes \<Rightarrow> db \<Rightarrow> db
   \<Rightarrow> (api_failure + (nat \<times> access_request_status)) \<times> db" where
  "create env app call header body d0 d =
     (case body_bytes body of
        Inl e \<Rightarrow> (Inl e, d)
      | Inr raw \<Rightarrow>
     (case authenticate_client env app header d0 of
        Inl e \<Rightarrow> (Inl e, d)
      | Inr client \<Rightarrow>
     (case env_parse_create env raw of
        None \<Rightarrow> (Inl (InvalidRequest ''malformed request body''), d)
      | Some req \<Rightarrow>
     (case validate_idempotency_key req of
        Inl e \<Rightarrow> (Inl e, d)
      | Inr _ \<Rightarrow>
     (let mac = request_mac env app (cl_name client) req
      in case get_request_by_idem (cl_name client) (cr_idempotency_key req) d0 of
           Some row \<Rightarrow> (retry_response mac row d0, d)
         | None \<Rightarrow>
     (let secret = get_secret_by_name (cr_secret_name req) d0;
          tags = (case secret of Some s \<Rightarrow> get_tags_for_secret (env_collate env) (sec_id s) d0 | None \<Rightarrow> [])
      in case create_decide env (app_limits app) client secret tags (list_policies d0)
                (ccl_eval_now call) mac req of
           Inl e \<Rightarrow> (Inl e, d)
         | Inr (new_row, resolution, cap, ev) \<Rightarrow>
     (case context_plaintext env req of
        Inl e \<Rightarrow> (Inl e, d)
      | Inr ctx \<Rightarrow>
     (case insert_access_request_with_id (ccl_now call) (ccl_request_id call) (ccl_grant_id call)
             new_row cap resolution
             (map_option (\<lambda>p. seal_fn_of (keyset_seal (env_aead env) (env_uuid_str env) (ccl_random call)
                                 (app_keyset app) p (AadRequestContext (ccl_request_id call)))) ctx) d of
        Inl e \<Rightarrow> (Inl (Internal e), d)
      | Inr (PendingCapExceeded, d1) \<Rightarrow> (Inl TooManyPending, d1)
      | Inr (Existing row, d1) \<Rightarrow> (retry_response mac row d1, d1)
      | Inr (Created row gid, d1) \<Rightarrow>
          (case create_push (ccl_clock call) (ccl_now call) (app_notifier_real app) (ccl_sent call)
                  (ev_decision ev) row d1 of
             Inl e \<Rightarrow> (Inl (Internal e), d1)
           | Inr d2 \<Rightarrow> (created_response (ev_decision ev) secret row gid, d2))))))))))"

section \<open>Polling\<close>

text \<open>\<open>GET /v1/access-requests/{id}\<close>.\<close>

definition status ::
  "api_env \<Rightarrow> app_state \<Rightarrow> string option \<Rightarrow> string option \<Rightarrow> db \<Rightarrow> api_failure + access_request_status" where
  "status env app header raw d =
     (case authenticate_client env app header d of
        Inl e \<Rightarrow> Inl e
      | Inr client \<Rightarrow>
          (case path_id env raw of
             Inl e \<Rightarrow> Inl e
           | Inr rid \<Rightarrow>
               (case owned_request (cl_name client) rid d of
                  Inl e \<Rightarrow> Inl e
                | Inr row \<Rightarrow> status_from_row row d)))"

text \<open>The long poll, \<open>now\<close> seconds after its start: \<open>views\<close> is when each tick ends and the database it
  then sees.  The row fetched last and the view it was fetched from are returned.\<close>

fun wait_loop ::
  "string \<Rightarrow> uuid \<Rightarrow> nat \<Rightarrow> access_request_row \<Rightarrow> nat \<Rightarrow> db \<Rightarrow> (nat \<times> db) list
   \<Rightarrow> api_failure + (access_request_row \<times> db)" where
  "wait_loop c rid deadline row now d [] = Inr (row, d)"
| "wait_loop c rid deadline row now d ((t, d') # views) =
     (if ar_state row \<noteq> ''pending'' then Inr (row, d)
      else if deadline \<le> now then Inr (row, d)
      else (case owned_request c rid d' of
              Inl e \<Rightarrow> Inl e
            | Inr row' \<Rightarrow> wait_loop c rid deadline row' t d' views))"

definition wait_timeout :: "limits \<Rightarrow> nat option \<Rightarrow> nat" where
  "wait_timeout lim requested =
     min (case requested of Some t \<Rightarrow> t | None \<Rightarrow> lim_wait_max_seconds lim) (lim_wait_max_seconds lim)"

text \<open>\<open>GET /v1/access-requests/{id}/wait\<close>.  The query is \<^term>\<open>None\<close> when it does not parse.  The
  slot is given back on every return path.\<close>

definition wait ::
  "api_env \<Rightarrow> app_state \<Rightarrow> nat option option \<Rightarrow> string option \<Rightarrow> string option \<Rightarrow> db \<Rightarrow> (nat \<times> db) list \<Rightarrow> counts
   \<Rightarrow> (api_failure + access_request_status) \<times> counts" where
  "wait env app query header raw d views waits =
     (case query of
        None \<Rightarrow> (Inl (InvalidRequest ''malformed query string''), waits)
      | Some requested \<Rightarrow>
     (case authenticate_client env app header d of
        Inl e \<Rightarrow> (Inl e, waits)
      | Inr client \<Rightarrow>
     (case path_id env raw of
        Inl e \<Rightarrow> (Inl e, waits)
      | Inr rid \<Rightarrow>
     (case owned_request (cl_name client) rid d of
        Inl e \<Rightarrow> (Inl e, waits)
      | Inr row \<Rightarrow>
     (let timeout = wait_timeout (app_limits app) requested;
          (taken, waits1) = try_take_slot (lim_max_waits_per_client (app_limits app)) (cl_name client) waits
      in if \<not> taken then (Inl TooManyWaits, waits1)
         else ((case wait_loop (cl_name client) rid timeout row 0 d views of
                  Inl e \<Rightarrow> Inl e
                | Inr (row', d') \<Rightarrow> status_from_row row' d'),
               drop_slot (cl_name client) waits1))))))"

section \<open>Validation lemmas\<close>

lemma is_tchar_upper: "is_tchar c \<Longrightarrow> is_tchar (upper_char c)"
proof (cases "is_ascii_lowercase c")
  case True
  then have "is_ascii_uppercase (upper_char c)"
    by (auto simp: upper_char_def is_ascii_lowercase_def is_ascii_uppercase_def byte_def take_bit_nat_eq_self)
  then show ?thesis
    by (simp add: is_tchar_def is_ascii_alphanumeric_def)
qed (simp add: upper_char_def)

lemma valid_method_upper: "is_valid_http_method m \<Longrightarrow> is_valid_http_method (to_ascii_uppercase m)"
  by (auto simp: is_valid_http_method_def to_ascii_uppercase_def list_all_iff is_tchar_upper)

lemma canonicalize_all_Some:
  "canonicalize_all ps = Some qs \<Longrightarrow> list_all2 (\<lambda>p q. canonicalize p = Inr q) ps qs"
  by (induction ps arbitrary: qs) (auto split: sum.splits)

lemma canonicalize_all_canonical: "canonicalize_all ps = Some qs \<Longrightarrow> list_all canonical_path qs"
  by (induction ps arbitrary: qs) (auto split: sum.splits dest: canonicalize_canonical)

text \<open>The normal form of stored constraints.\<close>

definition uses_ok :: "mechanism \<Rightarrow> 32 word option \<Rightarrow> bool" where
  "uses_ok m mu \<longleftrightarrow> (if m = Mech_Brokered then \<forall>u. mu = Some u \<longrightarrow> 1 \<le> uint u \<and> uint u \<le> I32_MAX
     else mu = Some 1)"

definition constraints_normal :: "mechanism \<Rightarrow> constraints \<Rightarrow> bool" where
  "constraints_normal m c \<longleftrightarrow>
     list_all is_valid_http_method (c_methods c) \<and> map to_ascii_uppercase (c_methods c) = c_methods c
     \<and> list_all canonical_path (c_path_prefixes c)
     \<and> length (c_origins c) \<le> 32 \<and> length (c_methods c) \<le> 32 \<and> length (c_path_prefixes c) \<le> 32
     \<and> 1 \<le> uint (c_ttl_seconds c) \<and> uint (c_ttl_seconds c) \<le> 2592000
     \<and> (m = Mech_Brokered \<longrightarrow> length (c_origins c) = 1 \<and> c_methods c \<noteq> [])
     \<and> uses_ok m (c_max_uses c)"

lemma validate_max_uses_ok:
  assumes "validate_max_uses m c ms = Inr mu"
  shows "uses_ok m mu" "m = Mech_Brokered \<Longrightarrow> length (c_origins c) = 1 \<and> ms \<noteq> []"
    "m = Mech_Brokered \<Longrightarrow> mu = c_max_uses c"
  using assms
  by (auto simp: validate_max_uses_def uses_ok_def MAX_USES_def I32_MAX_def not_less word_le_def uint_pos
      split: if_splits option.splits)

lemma validate_bounds_ok:
  assumes "validate_bounds env req = None"
  shows "1 \<le> uint (c_ttl_seconds (cr_constraints req)) \<and> uint (c_ttl_seconds (cr_constraints req)) \<le> 2592000"
    "length (c_origins (cr_constraints req)) \<le> 32" "length (c_methods (cr_constraints req)) \<le> 32"
    "length (c_path_prefixes (cr_constraints req)) \<le> 32"
    "cr_secret_name req \<noteq> []" "length (cr_secret_name req) \<le> 256"
  using assms
  by (auto simp: validate_bounds_def request_bounds Let_def not_less word_le_def uint_pos split: if_splits)

lemma validate_request_Inr:
  assumes "validate_request env req = Inr c"
  obtains pps where "validate_idempotency_key req = Inr ()" "validate_bounds env req = None"
    "list_all is_valid_http_method (c_methods (cr_constraints req))"
    "canonicalize_all (c_path_prefixes (cr_constraints req)) = Some pps"
    "validate_max_uses (cr_mechanism req) (cr_constraints req)
       (map to_ascii_uppercase (c_methods (cr_constraints req))) = Inr (c_max_uses c)"
    "c_origins c = c_origins (cr_constraints req)"
    "c_methods c = map to_ascii_uppercase (c_methods (cr_constraints req))"
    "c_path_prefixes c = pps" "c_ttl_seconds c = c_ttl_seconds (cr_constraints req)"
  using assms
  by (auto simp: validate_request_def Let_def split: sum.splits option.splits if_splits)

lemma validate_request_normal:
  assumes "validate_request env req = Inr c"
  shows "constraints_normal (cr_mechanism req) c"
  using assms
proof (rule validate_request_Inr)
  fix pps
  assume b: "validate_bounds env req = None"
    and m: "list_all is_valid_http_method (c_methods (cr_constraints req))"
    and p: "canonicalize_all (c_path_prefixes (cr_constraints req)) = Some pps"
    and u: "validate_max_uses (cr_mechanism req) (cr_constraints req)
       (map to_ascii_uppercase (c_methods (cr_constraints req))) = Inr (c_max_uses c)"
    and c: "c_origins c = c_origins (cr_constraints req)"
      "c_methods c = map to_ascii_uppercase (c_methods (cr_constraints req))"
      "c_path_prefixes c = pps" "c_ttl_seconds c = c_ttl_seconds (cr_constraints req)"
  have "list_all is_valid_http_method (c_methods c)"
    using m by (simp add: c list_all_iff valid_method_upper)
  moreover have "length pps = length (c_path_prefixes (cr_constraints req))"
    using list_all2_lengthD [OF canonicalize_all_Some [OF p]] by simp
  ultimately show ?thesis
    using validate_bounds_ok [OF b] canonicalize_all_canonical [OF p] validate_max_uses_ok [OF u]
    by (auto simp: constraints_normal_def c)
qed

section \<open>Policy inputs lemmas\<close>

lemma parse_policy_row_Some:
  assumes "parse_policy_row r = Some p"
  shows "pol_mechanism r = mech_as_str (pr_mechanism p)" "pr_client_name p = pol_client_name r"
    "pr_secret_name p = pol_secret_name r" "pr_secret_tag p = pol_secret_tag r"
    "pr_not_after p = pol_not_after r" "pr_id p = pol_id r" "list_all canonical_path (pr_path_prefixes p)"
  using assms
  by (auto simp: parse_policy_row_def mech_from_str_opt_Some canonicalize_all_canonical
      split: option.splits jsonb.splits if_splits)

lemma raw_applicable_agrees:
  assumes "parse_policy_row r = Some p"
  shows "is_applicable p pc req tags now \<longleftrightarrow> row_is_applicable_raw r (pc_name pc) req tags now"
  using parse_policy_row_Some [OF assms]
  by (auto simp: is_applicable_def row_is_applicable_raw_def split: option.splits)

lemma policy_rows_eq:
  "policy_rows c req tags now rows =
     (if \<exists>r \<in> set rows. row_is_applicable_raw r c req tags now \<and> parse_policy_row r = None
      then Inl (PolicyDenied ''policy set contains an unreadable rule'')
      else Inr (List.map_filter parse_policy_row rows))"
  by (induction rows) (auto simp: map_filter_simps split: option.splits)

section \<open>How a request is created\<close>

abbreviation requested_of :: "create_access_request \<Rightarrow> constraints \<Rightarrow> requested_grant" where
  "requested_of req c \<equiv>
     \<lparr>rg_secret_name = cr_secret_name req, rg_mechanism = cr_mechanism req, rg_constraints = c\<rparr>"

lemma create_decide_Inr:
  assumes "create_decide env lim client secret tags rows now mac req = Inr (row, res, cap, ev)"
  obtains c ps where "validate_request env req = Inr c"
    "policy_rows (cl_name client) (requested_of req c) tags now rows = Inr ps"
    "evaluate (env_uuid_str env) (env_max_utc env) (policy_client_of client)
       (map_option policy_secret_of secret) tags (requested_of req c) ps now = Some ev"
    "nr_client_name row = cl_name client" "nr_idem_client row = cl_name client"
    "nr_idem_key row = cr_idempotency_key req" "nr_idem_mac row = mac"
    "\<And>r. ev_decision ev = Dec_Deny r \<Longrightarrow> res = Res_Denied r ''policy''"
    "ev_decision ev = Dec_RequireApproval \<Longrightarrow> res = Res_Pending"
    "ev_decision ev \<in> {Dec_AutoApprove, Dec_NotifyOnly} \<Longrightarrow>
       \<exists>s. secret = Some s \<and> res = Res_Approved RESOLVED_BY_POLICY_AUTO
         (auto_grant client s (cr_mechanism req) c ev now) (ev_decision ev = Dec_NotifyOnly)"
  using assms
  by (auto simp: create_decide_def policy_inputs_def Let_def map_sum_eq_Inr
      split: sum.splits option.splits decision.splits)

abbreviation secret_tags_of :: "api_env \<Rightarrow> secret_row option \<Rightarrow> db \<Rightarrow> string list" where
  "secret_tags_of env secret d \<equiv>
     (case secret of Some s \<Rightarrow> get_tags_for_secret (env_collate env) (sec_id s) d | None \<Rightarrow> [])"

abbreviation context_seal :: "api_env \<Rightarrow> app_state \<Rightarrow> create_call \<Rightarrow> bytes option \<Rightarrow> seal_fn option" where
  "context_seal env app call ctx \<equiv>
     map_option (\<lambda>p. seal_fn_of (keyset_seal (env_aead env) (env_uuid_str env) (ccl_random call)
       (app_keyset app) p (AadRequestContext (ccl_request_id call)))) ctx"

text \<open>A successful answer is either a retry, which changes nothing, or a new row.\<close>

lemma create_Inr:
  assumes "create env app call header body d0 d = (Inr (code, st), d')"
  obtains (Retry) raw client req row v where "body = Inr raw" "authenticate_client env app header d0 = Inr client"
      "env_parse_create env raw = Some req" "code = 200" "d' = d" "v \<in> {d0, d}"
      "get_request_by_idem (cl_name client) (cr_idempotency_key req) v = Some row"
      "ar_idem_mac row = request_mac env app (cl_name client) req" "status_from_row row v = Inr st"
  | (New) raw client req new_row res cap ev ctx row gid d1 where "body = Inr raw"
      "authenticate_client env app header d0 = Inr client" "env_parse_create env raw = Some req"
      "get_request_by_idem (cl_name client) (cr_idempotency_key req) d0 = None"
      "create_decide env (app_limits app) client (get_secret_by_name (cr_secret_name req) d0)
         (secret_tags_of env (get_secret_by_name (cr_secret_name req) d0) d0) (list_policies d0)
         (ccl_eval_now call) (request_mac env app (cl_name client) req) req = Inr (new_row, res, cap, ev)"
      "insert_access_request_with_id (ccl_now call) (ccl_request_id call) (ccl_grant_id call)
         new_row cap res (context_seal env app call ctx) d = Inr (Created row gid, d1)"
      "create_push (ccl_clock call) (ccl_now call) (app_notifier_real app) (ccl_sent call)
         (ev_decision ev) row d1 = Inr d'"
      "created_response (ev_decision ev) (get_secret_by_name (cr_secret_name req) d0) row gid = Inr (code, st)"
proof -
  obtain raw where raw: "body = Inr raw"
    using assms by (auto simp: create_def body_bytes_def split: sum.splits bytes_rejection.splits)
  obtain client where cl: "authenticate_client env app header d0 = Inr client"
    using assms by (auto simp: create_def raw body_bytes_def split: sum.splits)
  obtain req where req: "env_parse_create env raw = Some req"
    using assms by (auto simp: create_def raw cl body_bytes_def split: option.splits)
  obtain u where key: "validate_idempotency_key req = Inr u"
    using assms by (auto simp: create_def raw cl req body_bytes_def split: sum.splits)
  let ?mac = "request_mac env app (cl_name client) req"
  let ?s = "get_secret_by_name (cr_secret_name req) d0"
  have retry: "code = 200 \<and> ar_idem_mac row = ?mac \<and> status_from_row row v = Inr st"
    if "retry_response ?mac row v = Inr (code, st)" for row v
    using that by (auto simp: retry_response_def ct_eq_def map_sum_def split: if_splits sum.splits)
  show thesis
  proof (cases "get_request_by_idem (cl_name client) (cr_idempotency_key req) d0")
    case (Some row)
    with assms have "retry_response ?mac row d0 = Inr (code, st)" "d' = d"
      by (auto simp: create_def raw cl req key body_bytes_def Let_def)
    with retry [of row d0] Some raw cl req show thesis
      by (intro Retry [of raw client req d0 row]) auto
  next
    case None
    have "\<exists>x ctx. create_decide env (app_limits app) client ?s (secret_tags_of env ?s d0) (list_policies d0)
        (ccl_eval_now call) ?mac req = Inr x \<and> context_plaintext env req = Inr ctx"
      using assms None
      by (auto simp: create_def raw cl req key body_bytes_def Let_def split: sum.splits)
    then obtain new_row res cap ev ctx where dec: "create_decide env (app_limits app) client ?s
        (secret_tags_of env ?s d0) (list_policies d0) (ccl_eval_now call) ?mac req = Inr (new_row, res, cap, ev)"
      and ctx: "context_plaintext env req = Inr ctx"
      by (metis prod_cases4)
    let ?ins = "insert_access_request_with_id (ccl_now call) (ccl_request_id call) (ccl_grant_id call)
         new_row cap res (context_seal env app call ctx) d"
    obtain out d1 where ins: "?ins = Inr (out, d1)"
      using assms None
      by (auto simp: create_def raw cl req key dec ctx body_bytes_def Let_def split: sum.splits)
    show thesis
    proof (cases out)
      case PendingCapExceeded
      with assms None ins show thesis
        by (simp add: create_def raw cl req key dec ctx body_bytes_def Let_def)
    next
      case (Existing row)
      with assms None ins have r: "retry_response ?mac row d1 = Inr (code, st)" "d' = d1"
        by (auto simp: create_def raw cl req key dec ctx body_bytes_def Let_def)
      from dec have k: "nr_idem_client new_row = cl_name client" "nr_idem_key new_row = cr_idempotency_key req"
        by (auto elim: create_decide_Inr)
      from ins [unfolded Existing] have "d1 = d \<and>
          get_request_by_idem (nr_idem_client new_row) (nr_idem_key new_row) d = Some row"
        by (cases rule: insert_access_request_with_id_cases) auto
      with r retry [of row d1] k raw cl req show thesis
        by (intro Retry [of raw client req d row]) auto
    next
      case (Created row gid)
      with assms None ins have
        "\<exists>d2. create_push (ccl_clock call) (ccl_now call) (app_notifier_real app) (ccl_sent call)
           (ev_decision ev) row d1 = Inr d2 \<and> d' = d2
           \<and> created_response (ev_decision ev) ?s row gid = Inr (code, st)"
        by (auto simp: create_def raw cl req key dec ctx body_bytes_def Let_def split: sum.splits)
      with raw cl req None dec ins Created show thesis
        by (intro New [of raw client req new_row res cap ev ctx row gid d1]) auto
    qed
  qed
qed

text \<open>The push after the commit touches only the outbox columns of requests.\<close>

lemma claim_where_frame:
  "claim_where hit d = Inr (b, d') \<Longrightarrow> db_grants d' = db_grants d \<and> db_secrets d' = db_secrets d"
  by (auto simp: claim_where_def split: option.splits if_splits)

lemma create_push_frame:
  assumes "create_push clock now real sent dcs row d = Inr d'"
  shows "db_grants d' = db_grants d"
  using assms
  by (auto simp: create_push_def create_fyi_push_def create_approval_push_def mark_push_delivered_def
      claim_for_push_def claim_for_fyi_push_def
      split: if_splits decision.splits sum.splits prod.splits dest!: claim_where_frame)

lemma new_auto_grant:
  assumes "create_decide env lim client secret tags rows now0 mac req = Inr (new_row, res, cap, ev)"
    and "insert_access_request_with_id now i fg new_row cap res seal d = Inr (Created row gid, d1)"
    and "ev_decision ev \<in> {Dec_AutoApprove, Dec_NotifyOnly}"
  obtains c ps s where "validate_request env req = Inr c"
    "policy_rows (cl_name client) (requested_of req c) tags now0 rows = Inr ps"
    "evaluate (env_uuid_str env) (env_max_utc env) (policy_client_of client)
       (map_option policy_secret_of secret) tags (requested_of req c) ps now0 = Some ev"
    "secret = Some s" "secret_incarnation_exists (sec_id s) (sec_name s) d" "gid = Some fg"
    "new_grant_row now fg i (auto_grant client s (cr_mechanism req) c ev now0) \<in> set (db_grants d1)"
  using assms(1)
proof (rule create_decide_Inr)
  fix c ps
  assume v: "validate_request env req = Inr c"
    "policy_rows (cl_name client) (requested_of req c) tags now0 rows = Inr ps"
    "evaluate (env_uuid_str env) (env_max_utc env) (policy_client_of client)
       (map_option policy_secret_of secret) tags (requested_of req c) ps now0 = Some ev"
    and r: "ev_decision ev \<in> {Dec_AutoApprove, Dec_NotifyOnly} \<Longrightarrow>
       \<exists>s. secret = Some s \<and> res = Res_Approved RESOLVED_BY_POLICY_AUTO
         (auto_grant client s (cr_mechanism req) c ev now0) (ev_decision ev = Dec_NotifyOnly)"
  from r assms(3) obtain s where s: "secret = Some s" "res = Res_Approved RESOLVED_BY_POLICY_AUTO
         (auto_grant client s (cr_mechanism req) c ev now0) (ev_decision ev = Dec_NotifyOnly)"
    by blast
  let ?g = "auto_grant client s (cr_mechanism req) c ev now0"
  have g: "gp_passthrough ?g = None" "gp_secret_id ?g = Some (sec_id s)" "gp_secret_name ?g = sec_name s"
    by (simp_all add: auto_grant_def Let_def)
  from assms(2) show thesis
  proof (cases rule: insert_access_request_with_id_cases)
    case (App ctx d2 by_whom g' n e e')
    then have "same_secret_row ?g d"
      using g s by simp
    with g have "secret_incarnation_exists (sec_id s) (sec_name s) d"
      by (simp add: same_secret_row_def)
    with App s v that show thesis
      by auto
  qed (use s in auto)
qed

lemma auto_grant_fields:
  "gp_client_name (auto_grant client s m c ev now) = cl_name client"
  "gp_secret_name (auto_grant client s m c ev now) = sec_name s"
  "gp_mechanism (auto_grant client s m c ev now) = mech_as_str m"
  "gp_constraints (auto_grant client s m c ev now) = Parsed c"
  "gp_not_after (auto_grant client s m c ev now) \<le> now + interval_secs (uint (c_ttl_seconds c))"
  "ev_policy_not_after ev = Some t \<Longrightarrow> gp_not_after (auto_grant client s m c ev now) \<le> t"
  "gp_passthrough (auto_grant client s m c ev now) = None"
  by (auto simp: auto_grant_def Let_def split: option.splits)

lemma auto_grant_uses:
  "uses_ok m (c_max_uses c) \<Longrightarrow> gp_max_uses (auto_grant client s m c ev now) = map_option uint (c_max_uses c)"
  by (cases "c_max_uses c") (auto simp: auto_grant_def Let_def uses_ok_def I32_MAX_def split: if_splits)

lemma auto_response:
  assumes "created_response dcs secret row gid = Inr (code, st)" "st_state st = Approved"
  shows "dcs \<in> {Dec_AutoApprove, Dec_NotifyOnly}" "st_grant_id st = gid"
  using assms by (auto simp: created_response_def split: decision.splits option.splits)

lemma policy_client_of_fields [simp]:
  "pc_name (policy_client_of c) = cl_name c" "pc_enabled (policy_client_of c) = cl_enabled c"
  by (simp_all add: policy_client_of_def)

lemma policy_client_allowed:
  "m \<in> set (pc_allowed_mechanisms (policy_client_of c)) \<longleftrightarrow> mech_as_str m \<in> set (cl_mechanisms c)"
  by (auto simp: policy_client_of_def List.map_filter_def mech_from_str_opt_Some image_iff)

lemma policy_secret_of_fields [simp]:
  "ps_enabled (policy_secret_of s) = sec_enabled s"
  "ps_operator_vetted (policy_secret_of s) = sec_operator_vetted s"
  by (simp_all add: policy_secret_of_def)

lemma policy_rows_Inr:
  assumes "policy_rows c req tags now rows = Inr ps"
  shows "\<And>r. r \<in> set rows \<Longrightarrow> row_is_applicable_raw r c req tags now \<Longrightarrow> \<exists>p \<in> set ps. parse_policy_row r = Some p"
    "\<And>p. p \<in> set ps \<Longrightarrow> \<exists>r \<in> set rows. parse_policy_row r = Some p"
  using assms by (auto simp: policy_rows_eq List.map_filter_def split: if_splits) force+

text \<open>The stored policy permits the request: every applicable row is readable, none of them is a
  deny row that overlaps, and \<open>r\<close> is an applicable allow row that contains the request.\<close>

definition rows_permit ::
  "policy_row list \<Rightarrow> string \<Rightarrow> requested_grant \<Rightarrow> string list \<Rightarrow> time \<Rightarrow> policy_row \<Rightarrow> bool" where
  "rows_permit rows client_name req tags now r \<longleftrightarrow>
     (\<forall>q \<in> set rows. row_is_applicable_raw q client_name req tags now \<longrightarrow>
        (\<exists>p. parse_policy_row q = Some p
             \<and> (pr_outcome p = Out_Deny \<longrightarrow> \<not> scopes_overlap p (rg_constraints req))))
     \<and> r \<in> set rows \<and> row_is_applicable_raw r client_name req tags now
     \<and> (\<exists>p. parse_policy_row r = Some p \<and> pr_outcome p \<in> {Out_AutoApprove, Out_NotifyOnly}
            \<and> request_is_subset p (rg_constraints req))"

text \<open>The caps of client and secret permit the mechanism.\<close>

definition caps_permit :: "client_row \<Rightarrow> secret_row \<Rightarrow> mechanism \<Rightarrow> bool" where
  "caps_permit client s m \<longleftrightarrow>
     cl_enabled client \<and> mech_as_str m \<in> set (cl_mechanisms client)
     \<and> mech_tier m \<le> pc_max_tier (policy_client_of client)
     \<and> sec_enabled s \<and> sec_operator_vetted s \<and> mech_tier m \<le> ps_max_tier (policy_secret_of s)"

lemma unattended_permitted:
  assumes ps: "policy_rows (cl_name client) req tags now rows = Inr ps"
    and ev: "evaluate us mx (policy_client_of client) (Some (policy_secret_of s)) tags req ps now = Some ev"
    and dec: "ev_decision ev \<in> {Dec_AutoApprove, Dec_NotifyOnly}"
  obtains r where "rows_permit rows (cl_name client) req tags now r"
    "caps_permit client s (rg_mechanism req)" "ev_policy_not_after ev = pol_not_after r"
proof -
  from dec have "ev_decision ev = Dec_AutoApprove \<or> ev_decision ev = Dec_NotifyOnly"
    by simp
  note sound = evaluate_unattended [OF ev this]
  from sound obtain p where p: "p \<in> set ps" "live_candidate (policy_client_of client) tags req now p"
      "outcome_decision (pr_outcome p) = Some (ev_decision ev)" "ev_policy_not_after ev = pr_not_after p"
    by auto
  from policy_rows_Inr(2) [OF ps p(1)] obtain r where r: "r \<in> set rows" "parse_policy_row r = Some p"
    by blast
  have "pr_outcome p \<in> {Out_AutoApprove, Out_NotifyOnly}"
    using p(3) dec by (auto elim: outcome_decision.elims)
  moreover have "\<exists>p'. parse_policy_row q = Some p' \<and> (pr_outcome p' = Out_Deny \<longrightarrow> \<not> scopes_overlap p' (rg_constraints req))"
    if q: "q \<in> set rows" "row_is_applicable_raw q (cl_name client) req tags now" for q
  proof -
    obtain p' where p': "p' \<in> set ps" "parse_policy_row q = Some p'"
      using policy_rows_Inr(1) [OF ps q] by blast
    then have "\<not> live_deny (policy_client_of client) tags req now p'"
      using sound by blast
    with q(2) p'(2) raw_applicable_agrees [OF p'(2), of "policy_client_of client"] show ?thesis
      by (auto simp: live_deny_def)
  qed
  ultimately have "rows_permit rows (cl_name client) req tags now r"
    using r p(2) raw_applicable_agrees [OF r(2), of "policy_client_of client"]
    by (auto simp: rows_permit_def live_candidate_def)
  moreover have "caps_permit client s (rg_mechanism req)"
    using sound by (auto simp: caps_permit_def policy_client_allowed)
  ultimately show thesis
    using that p(4) parse_policy_row_Some(5) [OF r(2)] by metis
qed

text \<open>The grant row of an unattended approval.\<close>

definition grant_fits :: "client_row \<Rightarrow> secret_row \<Rightarrow> mechanism \<Rightarrow> constraints \<Rightarrow> time \<Rightarrow> time option \<Rightarrow> grant_row \<Rightarrow> bool" where
  "grant_fits client s m c now cap g \<longleftrightarrow>
     gr_client_name g = cl_name client \<and> gr_secret_name g = sec_name s
     \<and> gr_mechanism g = mech_as_str m \<and> gr_constraints g = Parsed c
     \<and> gr_max_uses g = map_option uint (c_max_uses c) \<and> gr_use_count g = 0 \<and> \<not> gr_revoked g
     \<and> gr_passthrough_ciphertext g = None
     \<and> gr_not_after g \<le> now + interval_secs (uint (c_ttl_seconds c))
     \<and> (\<forall>t. cap = Some t \<longrightarrow> gr_not_after g \<le> t)"

lemma auto_grant_fits:
  assumes "validate_request env req = Inr c"
  shows "grant_fits client s (cr_mechanism req) c now0 (ev_policy_not_after ev)
    (new_grant_row now fg i (auto_grant client s (cr_mechanism req) c ev now0))"
proof -
  have "uses_ok (cr_mechanism req) (c_max_uses c)"
    using validate_request_normal [OF assms] by (simp add: constraints_normal_def)
  then show ?thesis
    by (simp add: grant_fits_def new_grant_row_def auto_grant_fields auto_grant_uses)
qed

text \<open>C13: a grant that no operator approved.  When the create endpoint answers 201 with an
  approved request, then for the authenticated client and the parsed and validated body: the caps of
  client and secret permit the mechanism and an operator vetted the secret, the stored policy rows
  permit the request (every applicable row is readable, no applicable deny row overlaps it, some
  applicable allow row \<open>r\<close> contains it), and the database now holds the grant the answer names: for
  that client and secret, with the validated constraints, unused, expiring within the requested
  lifetime and by the expiry of \<open>r\<close>.  The secret row the policy was evaluated for still existed when
  the grant was inserted.\<close>

theorem unattended_grant_sound:
  assumes "create env app call header body d0 d = (Inr (201, st), d')" and "st_state st = Approved"
  shows "\<exists>client raw req c s g r. authenticate_client env app header d0 = Inr client
    \<and> body = Inr raw \<and> env_parse_create env raw = Some req \<and> validate_request env req = Inr c
    \<and> get_secret_by_name (cr_secret_name req) d0 = Some s \<and> caps_permit client s (cr_mechanism req)
    \<and> rows_permit (list_policies d0) (cl_name client) (requested_of req c)
        (get_tags_for_secret (env_collate env) (sec_id s) d0) (ccl_eval_now call) r
    \<and> secret_incarnation_exists (sec_id s) (sec_name s) d
    \<and> g \<in> set (db_grants d') \<and> st_grant_id st = Some (gr_id g) \<and> gr_request_id g = st_request_id st
    \<and> grant_fits client s (cr_mechanism req) c (ccl_eval_now call) (pol_not_after r) g"
  using assms(1)
proof (cases rule: create_Inr)
  case (New raw client req new_row res cap ev ctx row gid d1)
  note dec = auto_response [OF New(8) assms(2)]
  obtain c ps s where c: "validate_request env req = Inr c"
    and ps: "policy_rows (cl_name client) (requested_of req c) (secret_tags_of env (Some s) d0) (ccl_eval_now call)
        (list_policies d0) = Inr ps"
    and ev: "evaluate (env_uuid_str env) (env_max_utc env) (policy_client_of client)
        (Some (policy_secret_of s)) (secret_tags_of env (Some s) d0) (requested_of req c) ps (ccl_eval_now call) = Some ev"
    and s: "get_secret_by_name (cr_secret_name req) d0 = Some s" "secret_incarnation_exists (sec_id s) (sec_name s) d"
    and gid: "gid = Some (ccl_grant_id call)"
    and g: "new_grant_row (ccl_now call) (ccl_grant_id call) (ccl_request_id call)
        (auto_grant client s (cr_mechanism req) c ev (ccl_eval_now call)) \<in> set (db_grants d1)"
    by (rule new_auto_grant [OF New(5,6) dec(1)]) auto
  obtain r where r: "rows_permit (list_policies d0) (cl_name client) (requested_of req c)
        (secret_tags_of env (Some s) d0) (ccl_eval_now call) r"
      "caps_permit client s (cr_mechanism req)" "ev_policy_not_after ev = pol_not_after r"
    using unattended_permitted [OF ps ev dec(1)] by auto
  have "ar_id row = ccl_request_id call"
    using New(6) by (cases rule: insert_access_request_with_id_cases) auto
  with New(8) have "st_request_id st = ccl_request_id call"
    by (auto simp: created_response_def split: decision.splits option.splits)
  then show ?thesis
    using New(1-3) c s r g gid dec(2) create_push_frame [OF New(7)]
      auto_grant_fits [OF c, of client s "ccl_eval_now call" ev "ccl_now call" "ccl_grant_id call" "ccl_request_id call"]
    by (intro exI [of _ client] exI [of _ raw] exI [of _ req] exI [of _ c] exI [of _ s]
        exI [of _ "new_grant_row (ccl_now call) (ccl_grant_id call) (ccl_request_id call)
          (auto_grant client s (cr_mechanism req) c ev (ccl_eval_now call))"] exI [of _ r]) simp
qed simp

section \<open>An example deployment\<close>

definition ex_create :: create_access_request where
  "ex_create = \<lparr>cr_idempotency_key = ''job-1'', cr_secret_name = ''tok'', cr_mechanism = Mech_Brokered,
     cr_constraints = ex_constraints\<lparr>c_methods := [''get'']\<rparr>, cr_context = \<lparr>cx_reason = [], cx_structured = None\<rparr>\<rparr>"

definition ex_env :: api_env where
  "ex_env = \<lparr>env_uuid_str = ex_uuid_str, env_max_utc = 10 ^ 18, env_aead = ex_aead, env_hmac = (\<lambda>k m. k @ m),
     env_sha256_hex = (\<lambda>s. s), env_hex_decode = Some, env_b64_encode = (\<lambda>b. b), env_b64_decode = Some,
     env_json_quote = (\<lambda>s. CHR 0x22 # s @ [CHR 0x22]), env_json_vec = (\<lambda>_. Some []), env_context_vec = (\<lambda>_. Some []),
     env_parse_create = (\<lambda>b. if b = ''one'' then Some ex_create
        else if b = ''two'' then Some (ex_create\<lparr>cr_secret_name := ''other''\<rparr>) else None),
     env_parse_read = Some, env_parse_store = (\<lambda>_. None), env_parse_uuid = (\<lambda>s. Some (of_nat (digits_value s))),
     env_collate = (\<lambda>x. x), env_tokenreview = (\<lambda>_ _. TR_Failed)\<rparr>"

definition ex_limits :: limits where
  "ex_limits = \<lparr>lim_max_pending_per_client = 5, lim_max_waits_per_client = 2, lim_wait_max_seconds = 30,
     lim_request_expiry_seconds = 900, lim_proxy_max_body_bytes = 1000, lim_proxy_stream_deadline_seconds = 60,
     lim_replay_window_seconds = 60, lim_max_proxy_streams_per_client = 2,
     lim_max_deposits_per_hour_per_client = 3, lim_drain_seconds = 5\<rparr>"

definition ex_app :: app_state where
  "ex_app = \<lparr>app_keyset = ex_keyset, app_ephemeral_kek = replicate 32 CHR ''e'', app_limits = ex_limits,
     app_clients = [], app_tokenreview_url = None, app_notifier_real = True\<rparr>"

definition ex_client_row :: client_row where
  "ex_client_row = \<lparr>cl_id = 5, cl_name = ''fa'', cl_max_tier = 1, cl_mechanisms = [''brokered'', ''autofill''],
     cl_auth_kind = ''api-token'', cl_api_token_sha256 = Some ''abc'', cl_sa_audience = None,
     cl_sa_subject = None, cl_enabled = True, cl_may_store_secrets = False\<rparr>"

definition ex_policy_row :: policy_row where
  "ex_policy_row = \<lparr>pol_id = 7, pol_client_name = Some ''fa'', pol_secret_name = None, pol_secret_tag = None,
     pol_mechanism = ''brokered'', pol_outcome = ''notify-only'', pol_priority = 0,
     pol_origins = Parsed [ex_origin], pol_methods = [''get''], pol_path_prefixes = [''/v1''],
     pol_max_ttl_seconds = Some 3600, pol_max_uses = None, pol_not_after = Some 500000000,
     pol_created_by = ''op'', pol_created_at = 0, pol_managed_by_config = False\<rparr>"

definition ex_secret_row :: secret_row where
  "ex_secret_row = \<lparr>sec_id = 1, sec_name = ''tok'', sec_description = [], sec_max_tier = 1,
     sec_injection_kind = ''bearer'', sec_injection_header = None, sec_injection_username = None,
     sec_current_version = 1, sec_enabled = True, sec_operator_vetted = True, sec_managed_by_config = False,
     sec_created_at = 0, sec_updated_at = 0\<rparr>"

definition ex_api_db :: db where
  "ex_api_db = empty_db\<lparr>db_clients := [ex_client_row], db_policies := [ex_policy_row], db_secrets := [ex_secret_row]\<rparr>"

definition ex_call :: create_call where
  "ex_call = \<lparr>ccl_eval_now = 1000000, ccl_now = 1000001, ccl_clock = 1000000, ccl_random = ex_random,
     ccl_request_id = 10, ccl_grant_id = 20, ccl_sent = True\<rparr>"

definition ex_header :: "string option" where
  "ex_header = Some ''Bearer abc''"

abbreviation ex_created :: "(api_failure + (nat \<times> access_request_status)) \<times> db" where
  "ex_created \<equiv> create ex_env ex_app ex_call ex_header (Inr ''one'') ex_api_db ex_api_db"

definition ex_status :: access_request_status where
  "ex_status = \<lparr>st_request_id = 10, st_state = Approved, st_grant_id = Some 20, st_deny_reason = None,
     st_expires_at = 901000000, st_granted_secret_name = Some ''tok'', st_auto_approved = True\<rparr>"

lemma ex_created_ok: "ex_created = (Inr (201, ex_status), snd ex_created)"
proof -
  have "fst ex_created = Inr (201, ex_status)"
    by code_simp
  then show ?thesis
    by (metis prod.collapse)
qed

theorem unattended_grant_sound_witness:
  "\<exists>g \<in> set (db_grants (snd ex_created)). st_grant_id ex_status = Some (gr_id g) \<and> gr_client_name g = ''fa''
     \<and> gr_secret_name g = ''tok''"
proof -
  have st: "st_state ex_status = Approved" "authenticate_client ex_env ex_app ex_header ex_api_db = Inr ex_client_row"
    "get_secret_by_name (cr_secret_name ex_create) ex_api_db = Some ex_secret_row"
    by code_simp+
  have p: "env_parse_create ex_env ''one'' = Some ex_create"
    by (simp add: ex_env_def)
  from unattended_grant_sound [OF ex_created_ok st(1)] st(2,3) p show ?thesis
    by (auto simp: grant_fits_def ex_client_row_def ex_secret_row_def)
qed

section \<open>Properties of validation\<close>

text \<open>C15: what the create endpoint stores is in normal form.  Accepted constraints keep the
  requested origins and lifetime; their methods are upper-case HTTP tokens, the requested ones up
  to case; their prefixes are the canonical forms of the requested ones; the lifetime is between
  one second and thirty days; a brokered request names one origin and a method and its use cap fits
  the column it is stored in; a releasing request has exactly one use.\<close>

theorem validated_request_normal:
  assumes "validate_request env req = Inr c"
  shows "constraints_normal (cr_mechanism req) c
    \<and> c_origins c = c_origins (cr_constraints req) \<and> c_ttl_seconds c = c_ttl_seconds (cr_constraints req)
    \<and> list_all2 eq_ignore_ascii_case (c_methods (cr_constraints req)) (c_methods c)
    \<and> list_all2 (\<lambda>p q. canonicalize p = Inr q) (c_path_prefixes (cr_constraints req)) (c_path_prefixes c)
    \<and> (cr_mechanism req = Mech_Brokered \<longrightarrow> c_max_uses c = c_max_uses (cr_constraints req))"
  using assms
proof (rule validate_request_Inr)
  fix pps
  assume p: "canonicalize_all (c_path_prefixes (cr_constraints req)) = Some pps"
    and u: "validate_max_uses (cr_mechanism req) (cr_constraints req)
       (map to_ascii_uppercase (c_methods (cr_constraints req))) = Inr (c_max_uses c)"
    and c: "c_origins c = c_origins (cr_constraints req)"
      "c_methods c = map to_ascii_uppercase (c_methods (cr_constraints req))"
      "c_path_prefixes c = pps" "c_ttl_seconds c = c_ttl_seconds (cr_constraints req)"
  have "list_all2 eq_ignore_ascii_case ms (map to_ascii_uppercase ms)" for ms
    by (induction ms) (simp_all add: eq_ignore_ascii_case_upper)
  with c canonicalize_all_Some [OF p] validate_max_uses_ok(3) [OF u] validate_request_normal [OF assms]
  show ?thesis by simp
qed

theorem validated_request_normal_witness:
  "\<exists>c. validate_request ex_env ex_create = Inr c \<and> constraints_normal Mech_Brokered c
     \<and> c_ttl_seconds c = 600"
proof -
  have v: "validate_request ex_env ex_create = Inr (ex_constraints\<lparr>c_methods := [''GET'']\<rparr>)"
    by code_simp
  have "cr_mechanism ex_create = Mech_Brokered" "c_ttl_seconds (cr_constraints ex_create) = 600"
    by code_simp+
  with v validated_request_normal [OF v] show ?thesis by simp
qed

text \<open>C14: reading the policy table fails closed.  The inputs of the engine are exactly the
  parsed rows when every row that applies to the request can be parsed, and the request is refused
  when one of them cannot.  The test on raw columns that decides which unreadable rows matter agrees
  with the engine's own applicability test on every readable row.\<close>

theorem policy_inputs_fail_closed:
  shows "policy_inputs client secret tags req rows now =
      (if \<exists>r \<in> set rows. row_is_applicable_raw r (cl_name client) req tags now \<and> parse_policy_row r = None
       then Inl (PolicyDenied ''policy set contains an unreadable rule'')
       else Inr (policy_client_of client, map_option policy_secret_of secret,
                 List.map_filter parse_policy_row rows))
    \<and> (parse_policy_row r = Some p \<longrightarrow>
        is_applicable p (policy_client_of client) req tags now
        = row_is_applicable_raw r (cl_name client) req tags now)"
  using raw_applicable_agrees [of r p "policy_client_of client"]
  by (auto simp: policy_inputs_def policy_rows_eq)

theorem policy_inputs_fail_closed_witness:
  "policy_inputs ex_client_row None [] ex_grant [ex_policy_row, ex_policy_row\<lparr>pol_outcome := ''?''\<rparr>] 5
     = Inl (PolicyDenied ''policy set contains an unreadable rule'')
   \<and> is_applicable (the (parse_policy_row ex_policy_row)) (policy_client_of ex_client_row) ex_grant [] 5"
proof -
  let ?bad = "ex_policy_row\<lparr>pol_outcome := ''?''\<rparr>"
  have b: "row_is_applicable_raw ?bad (cl_name ex_client_row) ex_grant [] 5" "parse_policy_row ?bad = None"
    "row_is_applicable_raw ex_policy_row (cl_name ex_client_row) ex_grant [] 5"
    by code_simp+
  have p: "parse_policy_row ex_policy_row = Some (the (parse_policy_row ex_policy_row))"
    by code_simp
  from policy_inputs_fail_closed [of ex_client_row None "[]" ex_grant "[ex_policy_row, ?bad]" 5 ex_policy_row
      "the (parse_policy_row ex_policy_row)"] b p
  show ?thesis by simp
qed

text \<open>A stored prefix is decoded once more when it is read: the prefix \<open>/a%41\<close>, itself the canonical
  form of the configured \<open>/a%2541\<close>, governs \<open>/aA\<close>; the canonical prefix \<open>/100%\<close> cannot be read at all.\<close>

lemma stored_prefix_decoded_again:
  "canonicalize ''/a%2541'' = Inr ''/a%41''"
  "map_option pr_path_prefixes (parse_policy_row (ex_policy_row\<lparr>pol_path_prefixes := [''/a%41'']\<rparr>)) = Some [''/aA'']"
  "canonicalize ''/100%25'' = Inr ''/100%''"
  "parse_policy_row (ex_policy_row\<lparr>pol_path_prefixes := [''/100%'']\<rparr>) = None"
  by code_simp+

end
