(* ===== verification/Sigv4.thy ===== *)
theory Sigv4
  imports Provision Paths
begin

text \<open>
  AWS Signature Version 4 for the brokered leg (\<open>server/src/sigv4.rs\<close>), and the validation of an
  injection template (\<open>server/src/injection.rs\<close>).  HMAC, SHA-256, hexadecimal printing and the
  formatting of a timestamp are the arguments \<open>hm\<close>, \<open>sha_hex\<close>, \<open>hex\<close>, \<open>amz_date\<close> and \<open>date\<close>.
\<close>

section \<open>SigV4\<close>

definition quoted :: "string \<Rightarrow> string" where
  "quoted s = CHR 0x27 # s @ [CHR 0x27]"

definition SYNTHESIZED :: "string list" where
  "SYNTHESIZED = [''x-amz-date'', ''x-amz-content-sha256'', ''x-amz-security-token'']"

definition STRIPPED_CALLER_HEADERS :: "string list" where
  "STRIPPED_CALLER_HEADERS =
     [''x-amz-copy-source'', ''x-amz-copy-source-range'', ''x-amz-copy-source-if-match'',
      ''x-amz-copy-source-if-none-match'', ''x-amz-copy-source-if-modified-since'',
      ''x-amz-copy-source-if-unmodified-since'']"

definition MAX_SCOPE_PART_BYTES :: nat where "MAX_SCOPE_PART_BYTES = 64"

record sigv4_scope =
  sg_access_key_id :: string
  sg_region :: string
  sg_service :: string

definition validate_access_key_id :: "string \<Rightarrow> string + unit" where
  "validate_access_key_id i =
     (if i = [] \<or> length i > 128 then Inl ''SigV4 access key id must be 1-128 characters''
      else if \<not> list_all (\<lambda>b. is_ascii_alphanumeric b \<or> b = CHR ''-'' \<or> b = CHR ''_'') i
        then Inl (''SigV4 access key id may contain only letters, digits, '' @ quoted ''-'' @ '' and '' @ quoted ''_'')
      else Inr ())"

definition scope_part_ok :: "string \<Rightarrow> bool" where
  "scope_part_ok part \<longleftrightarrow>
     part \<noteq> [] \<and> length part \<le> MAX_SCOPE_PART_BYTES
     \<and> list_all (\<lambda>b. is_ascii_lowercase b \<or> is_ascii_digit b \<or> b = CHR ''-'') part"

definition parse_scope :: "string \<Rightarrow> string + (string \<times> string)" where
  "parse_scope scope =
     (case split_once (CHR ''/'') scope of
        None \<Rightarrow> Inl (''SigV4 scope must be '' @ quoted ''region/service'' @ '', e.g. '' @ quoted ''us-east-1/s3'')
      | Some (region, service) \<Rightarrow>
          if \<not> scope_part_ok region \<or> \<not> scope_part_ok service
            then Inl (''SigV4 region and service must be lowercase letters, digits and '' @ quoted ''-'')
          else if service \<noteq> ''s3'' then Inl (''SigV4 service must be '' @ quoted ''s3'' @ ''; other AWS services are not supported'')
          else Inr (region, service))"

definition is_unreserved :: "char \<Rightarrow> bool" where
  "is_unreserved b \<longleftrightarrow> is_ascii_alphanumeric b \<or> b = CHR ''-'' \<or> b = CHR ''.'' \<or> b = CHR ''_'' \<or> b = CHR ''~''"

definition uri_encode :: "string \<Rightarrow> bool \<Rightarrow> string" where
  "uri_encode input keep_slash =
     concat (map (\<lambda>b. if is_unreserved b \<or> (keep_slash \<and> b = slash) then [b] else percent_escape b) input)"

definition wire_path :: "string \<Rightarrow> string" where
  "wire_path decoded = (if decoded = [] then ''/'' else uri_encode decoded True)"

record sigv4_request =
  sq_method :: string
  sq_host :: string
  sq_wire_path :: string
  sq_extra_signed_headers :: "(string \<times> string) list"
  sq_payload :: bytes

record sigv4_signed =
  sd_authorization :: string
  sd_amz_date :: string
  sd_content_sha256 :: string

text \<open>\<open>split_whitespace\<close> and \<open>join(" ")\<close>.\<close>

fun split_ws :: "nat list \<Rightarrow> nat list list" where
  "split_ws [] = [[]]"
| "split_ws (c # cs) =
     (if cp_is_whitespace c then [] # split_ws cs
      else (case split_ws cs of w # ws \<Rightarrow> (c # w) # ws | [] \<Rightarrow> [[c]]))"

definition canonical_header_value :: "string \<Rightarrow> string" where
  "canonical_header_value v =
     (case from_utf8 v of
        None \<Rightarrow> v
      | Some cps \<Rightarrow> utf8_string (join_with [32] (filter (\<lambda>w. w \<noteq> []) (split_ws cps))))"

text \<open>The stable sort by name.\<close>

fun insert_header :: "string \<times> string \<Rightarrow> (string \<times> string) list \<Rightarrow> (string \<times> string) list" where
  "insert_header h [] = [h]"
| "insert_header h (g # gs) = (if bytes_le (fst h) (fst g) then h # g # gs else g # insert_header h gs)"

definition sort_headers :: "(string \<times> string) list \<Rightarrow> (string \<times> string) list" where
  "sort_headers hs = foldr insert_header hs []"

text \<open>Repeated names fold into one comma-joined line.\<close>

fun fold_headers :: "(string \<times> string) list \<Rightarrow> (string \<times> string) list" where
  "fold_headers [] = []"
| "fold_headers [h] = [h]"
| "fold_headers ((k, v) # (k', v') # hs) =
     (if k = k' then fold_headers ((k, v @ '','' @ v') # hs) else (k, v) # fold_headers ((k', v') # hs))"

definition newline :: string where "newline = [CHR 0x0A]"

definition signed_header_list :: "(string \<Rightarrow> string) \<Rightarrow> string \<Rightarrow> sigv4_request \<Rightarrow> (string \<times> string) list" where
  "signed_header_list sha_hex amz_date req =
     fold_headers (sort_headers
       (map (\<lambda>(k, v). (to_ascii_lowercase k, canonical_header_value v)) (sq_extra_signed_headers req)
        @ [(''host'', sq_host req), (''x-amz-content-sha256'', sha_hex (sq_payload req)), (''x-amz-date'', amz_date)]))"

definition canonical_request :: "(string \<Rightarrow> string) \<Rightarrow> string \<Rightarrow> sigv4_request \<Rightarrow> string" where
  "canonical_request sha_hex amz_date req =
     (let folded = signed_header_list sha_hex amz_date req
      in sq_method req @ newline @ sq_wire_path req @ newline @ [] @ newline
         @ concat (map (\<lambda>(k, v). k @ '':'' @ v @ newline) folded) @ newline
         @ join_with '';'' (map fst folded) @ newline @ sha_hex (sq_payload req))"

definition sign ::
  "(bytes \<Rightarrow> bytes \<Rightarrow> bytes) \<Rightarrow> (bytes \<Rightarrow> string) \<Rightarrow> (bytes \<Rightarrow> string) \<Rightarrow> string \<Rightarrow> string
   \<Rightarrow> sigv4_scope \<Rightarrow> bytes \<Rightarrow> sigv4_request \<Rightarrow> sigv4_signed" where
  "sign hm sha_hex hex amz_date date scope secret req =
     (let folded = signed_header_list sha_hex amz_date req;
          signed_headers = join_with '';'' (map fst folded);
          credential_scope = date @ ''/'' @ sg_region scope @ ''/'' @ sg_service scope @ ''/aws4_request'';
          string_to_sign = ''AWS4-HMAC-SHA256'' @ newline @ amz_date @ newline @ credential_scope @ newline
            @ sha_hex (canonical_request sha_hex amz_date req);
          k_date = hm (''AWS4'' @ secret) date;
          k_region = hm k_date (sg_region scope);
          k_service = hm k_region (sg_service scope);
          k_signing = hm k_service ''aws4_request'';
          signature = hex (hm k_signing string_to_sign)
      in \<lparr>sd_authorization = ''AWS4-HMAC-SHA256 Credential='' @ sg_access_key_id scope @ ''/''
            @ credential_scope @ '', SignedHeaders='' @ signed_headers @ '', Signature='' @ signature,
          sd_amz_date = amz_date, sd_content_sha256 = sha_hex (sq_payload req)\<rparr>)"

section \<open>Injection templates\<close>

definition RESERVED :: "string list" where
  "RESERVED =
     [''host'', ''authorization'', ''proxy-authorization'', ''cookie'', ''set-cookie'', ''forwarded'',
      ''x-real-ip'', ''x-http-method-override'', ''x-method-override'', ''x-original-url'',
      ''x-rewrite-url'', ''x-original-method'', ''connection'', ''keep-alive'', ''proxy-connection'',
      ''te'', ''trailer'', ''transfer-encoding'', ''upgrade'', ''content-length'', ''expect'']"

definition MAX_INJECTION_FIELD_BYTES :: nat where "MAX_INJECTION_FIELD_BYTES = 128"

definition is_header_name_char :: "char \<Rightarrow> bool" where
  "is_header_name_char b \<longleftrightarrow> is_ascii_alphanumeric b \<or> b \<in> set ''!#$%&*+-.^_|~'' \<or> b = CHR 0x27 \<or> b = CHR 0x60"

text \<open>A Rust string is valid UTF-8.\<close>

definition has_control :: "string \<Rightarrow> bool" where
  "has_control s = (case from_utf8 s of None \<Rightarrow> False | Some cps \<Rightarrow> list_ex cp_is_control cps)"

definition validate_injection ::
  "string \<Rightarrow> string option \<Rightarrow> string option \<Rightarrow> string + (string \<times> string option \<times> string option)" where
  "validate_injection kind header scope =
     (if scope \<noteq> None \<and> kind \<noteq> ''aws-sigv4''
        then Inl (''a SigV4 scope is only valid for injection kind '' @ quoted ''aws-sigv4'')
      else if kind = ''bearer'' then Inr (''bearer'', None, None)
      else if kind = ''header'' then
        (case header of
           None \<Rightarrow> Inl (''injection kind '' @ quoted ''header'' @ '' requires a header name'')
         | Some name \<Rightarrow>
             if length name > MAX_INJECTION_FIELD_BYTES then Inl ''injection header name is too long''
             else if name = [] \<or> \<not> list_all is_header_name_char name
               then Inl ''injection header is not a valid header name''
             else if to_ascii_lowercase name \<in> set RESERVED \<or> starts_with ''x-forwarded-'' (to_ascii_lowercase name)
               then Inl ''injection header is reserved''
             else Inr (''header'', Some name, None))
      else if kind = ''basic'' \<or> kind = ''basic-password'' then
        (case header of
           None \<Rightarrow> Inl (''injection kind '' @ quoted ''basic-password'' @ '' requires a username'')
         | Some username \<Rightarrow>
             if length username > MAX_INJECTION_FIELD_BYTES then Inl ''basic-auth username is too long''
             else if CHR '':'' \<in> set username \<or> has_control username then Inl ''invalid basic-auth username''
             else Inr (''basic'', None, Some username))
      else if kind = ''aws-sigv4'' then
        (case header of
           None \<Rightarrow> Inl (''injection kind '' @ quoted ''aws-sigv4'' @ '' requires an access key id'')
         | Some key \<Rightarrow>
             (case validate_access_key_id key of
                Inl e \<Rightarrow> Inl e
              | Inr _ \<Rightarrow>
                  (case scope of
                     None \<Rightarrow> Inl (''injection kind '' @ quoted ''aws-sigv4'' @ '' requires a region/service scope'')
                   | Some sc \<Rightarrow>
                       (case parse_scope sc of
                          Inl e \<Rightarrow> Inl e
                        | Inr _ \<Rightarrow> Inr (''aws-sigv4'', Some sc, Some key)))))
      else Inl ''unknown injection kind'')"

section \<open>Lemmas\<close>

lemma percent_not_unreserved [simp]: "\<not> is_unreserved (CHR ''%'')"
  by (simp add: is_unreserved_def is_ascii_alphanumeric_def is_ascii_digit_def
      is_ascii_lowercase_def is_ascii_uppercase_def byte_def)

lemma wire_path_decodes: "canonical_path p \<Longrightarrow> canonicalize (wire_path p) = Inr p"
proof -
  assume p: "canonical_path p"
  then have "p \<noteq> []"
    by (auto simp: canonical_path_def starts_with_append)
  moreover have "canonicalize (uri_encode p True) = Inr p"
    unfolding uri_encode_def
  proof (rule canonicalize_encode [OF _ p])
    fix c
    show "(if is_unreserved c \<or> True \<and> c = slash then [c] else percent_escape c) = [c] \<and> c \<noteq> CHR ''%''
      \<or> (if is_unreserved c \<or> True \<and> c = slash then [c] else percent_escape c) = percent_escape c \<and> c \<noteq> slash"
      by auto
  qed
  ultimately show ?thesis
    by (simp add: wire_path_def)
qed

lemma wire_path_chars: "c \<in> set (wire_path p) \<Longrightarrow> is_unreserved c \<or> c \<in> {slash, CHR ''%''}"
proof -
  have "is_unreserved (hex_digit n)" if "n < 16" for n
    using that by (auto simp: hex_digit_def is_unreserved_def is_ascii_alphanumeric_def is_ascii_digit_def
        is_ascii_lowercase_def is_ascii_uppercase_def)
  then have "is_unreserved d \<or> d \<in> {slash, CHR ''%''}" if "d \<in> set (percent_escape c)" for c d
    using that by (auto simp: percent_escape_def div_less_iff_less_mult)
  then show "c \<in> set (wire_path p) \<Longrightarrow> is_unreserved c \<or> c \<in> {slash, CHR ''%''}"
    by (auto simp: wire_path_def uri_encode_def split: if_splits)
qed

text \<open>Folding the sorted headers leaves each name once.\<close>

lemma bytes_le_total: "bytes_le x y \<or> bytes_le y x"
  by (induction x y rule: bytes_le.induct) auto

lemma bytes_le_refl [simp]: "bytes_le x x"
  using bytes_le_total by blast

lemma bytes_le_trans: "bytes_le x y \<Longrightarrow> bytes_le y z \<Longrightarrow> bytes_le x z"
proof (induction x y arbitrary: z rule: bytes_le.induct)
  case (3 x xs y ys)
  then show ?case by (cases z) auto
qed simp_all

lemma bytes_le_antisym: "bytes_le x y \<Longrightarrow> bytes_le y x \<Longrightarrow> x = y"
  by (induction x y rule: bytes_le.induct) (auto, metis bytes_le.elims(2) list.distinct(1))

lemma set_insert_header [simp]: "set (insert_header h hs) = insert h (set hs)"
  by (induction hs) auto

lemma sorted_insert_header:
  "sorted_wrt (\<lambda>g h. bytes_le (fst g) (fst h)) hs \<Longrightarrow>
   sorted_wrt (\<lambda>g h. bytes_le (fst g) (fst h)) (insert_header h hs)"
  using bytes_le_total by (induction hs) (auto intro: bytes_le_trans)

lemma sorted_sort_headers: "sorted_wrt (\<lambda>g h. bytes_le (fst g) (fst h)) (sort_headers hs)"
  unfolding sort_headers_def by (induction hs) (auto intro: sorted_insert_header)

lemma set_sort_headers [simp]: "set (sort_headers hs) = set hs"
  unfolding sort_headers_def by (induction hs) auto

lemma fold_headers_names: "fst ` set (fold_headers hs) = fst ` set hs"
  by (induction hs rule: fold_headers.induct) auto

lemma fold_headers_strict:
  "sorted_wrt (\<lambda>g h. bytes_le (fst g) (fst h)) hs \<Longrightarrow>
   sorted_wrt (\<lambda>g h. bytes_le (fst g) (fst h) \<and> fst g \<noteq> fst h) (fold_headers hs)"
proof (induction hs rule: fold_headers.induct)
  case (3 k v k' v' hs)
  have names: "fst ` set (fold_headers ((k', v') # hs)) = fst ` set ((k', v') # hs)"
    by (rule fold_headers_names)
  show ?case
  proof (cases "k = k'")
    case False
    have le: "bytes_le k n" "k \<noteq> n" if "n \<in> fst ` set (fold_headers ((k', v') # hs))" for n
    proof -
      from that names have n: "n = k' \<or> n \<in> fst ` set hs" by auto
      with 3(3) show "bytes_le k n" by auto
      from 3(3) n have "bytes_le k' n" by auto
      with 3(3) False show "k \<noteq> n" by (auto dest: bytes_le_antisym)
    qed
    with False 3 show ?thesis
      by auto
  qed (use 3 in auto)
qed simp_all

lemma strict_distinct: "sorted_wrt (\<lambda>g h. P g h \<and> fst g \<noteq> fst h) xs \<Longrightarrow> distinct (map fst xs)"
  by (induction xs) auto

lemma fold_headers_distinct:
  "sorted_wrt (\<lambda>g h. bytes_le (fst g) (fst h)) hs \<Longrightarrow> distinct (map fst (fold_headers hs))"
  by (rule strict_distinct [OF fold_headers_strict])

lemma fold_headers_once:
  "filter (\<lambda>h. fst h = k) hs = [(k, v)] \<Longrightarrow> (k, v) \<in> set (fold_headers hs)"
proof (induction hs rule: fold_headers.induct)
  case (3 k1 v1 k2 v2 hs)
  then show ?case by (cases "k1 = k2"; cases "k1 = k") auto
next
  case (2 h)
  then show ?case by (cases h) (auto split: if_splits)
qed simp

lemma length_filter_sort_headers: "length (filter P (sort_headers hs)) = length (filter P hs)"
proof -
  have "length (filter P (insert_header h hs)) = length (filter P (h # hs))" for h hs
    by (induction hs) auto
  then show ?thesis
    unfolding sort_headers_def by (induction hs) auto
qed

lemma signed_once:
  assumes "filter (\<lambda>h. fst h = k) hs = [(k, v)]"
  shows "(k, v) \<in> set (fold_headers (sort_headers hs))"
proof (rule fold_headers_once)
  have "length (filter (\<lambda>h. fst h = k) (sort_headers hs)) = 1"
    using assms by (simp add: length_filter_sort_headers)
  then obtain x where x: "filter (\<lambda>h. fst h = k) (sort_headers hs) = [x]"
    by (metis One_nat_def length_0_conv length_Suc_conv)
  have "set (filter (\<lambda>h. fst h = k) (sort_headers hs)) = set (filter (\<lambda>h. fst h = k) hs)"
    by simp
  with x assms show "filter (\<lambda>h. fst h = k) (sort_headers hs) = [(k, v)]"
    by simp
qed

section \<open>Properties\<close>

text \<open>the path SigV4 signs and sends decodes to the canonical path that was authorized.\<close>

theorem sigv4_wire_path_roundtrip:
  assumes "canonical_path p"
  shows "canonicalize (wire_path p) = Inr p \<and> (\<forall>c \<in> set (wire_path p). is_unreserved c \<or> c \<in> {slash, CHR ''%''})"
  using wire_path_decodes [OF assms] wire_path_chars by blast

theorem sigv4_wire_path_roundtrip_witness:
  "canonicalize (wire_path ''/bucket/a b%'') = Inr ''/bucket/a b%''"
proof -
  have "canonical_path ''/bucket/a b%''"
    by code_simp
  from sigv4_wire_path_roundtrip [OF this] show ?thesis by blast
qed

text \<open>the signature covers the request that is sent.  When no extra header bears the name of a
  synthesized one, the signed headers are sorted, each name occurs once, and host, timestamp and
  payload hash are among them with exactly the values that go out; the canonical request begins
  with the method and the wire path.\<close>

theorem signature_covers_request:
  assumes "\<forall>h \<in> set (sq_extra_signed_headers req).
    to_ascii_lowercase (fst h) \<notin> {''host'', ''x-amz-content-sha256'', ''x-amz-date''}"
  shows "distinct (map fst (signed_header_list sha_hex amz_date req))
    \<and> sorted_wrt bytes_le (map fst (signed_header_list sha_hex amz_date req))
    \<and> {(''host'', sq_host req), (''x-amz-content-sha256'', sha_hex (sq_payload req)), (''x-amz-date'', amz_date)}
        \<subseteq> set (signed_header_list sha_hex amz_date req)
    \<and> starts_with (sq_method req @ newline @ sq_wire_path req @ newline) (canonical_request sha_hex amz_date req)"
proof -
  let ?extra = "map (\<lambda>(k, v). (to_ascii_lowercase k, canonical_header_value v)) (sq_extra_signed_headers req)"
  let ?syn = "[(''host'', sq_host req), (''x-amz-content-sha256'', sha_hex (sq_payload req)), (''x-amz-date'', amz_date)]"
  have l: "signed_header_list sha_hex amz_date req = fold_headers (sort_headers (?extra @ ?syn))"
    by (simp add: signed_header_list_def)
  have e: "filter (\<lambda>h. fst h = k) ?extra = []" if "k \<in> {''host'', ''x-amz-content-sha256'', ''x-amz-date''}" for k
    unfolding filter_empty_conv using assms that by force
  have "set ?syn \<subseteq> set (signed_header_list sha_hex amz_date req)"
    unfolding l
  proof (rule subsetI, clarify)
    fix k v
    assume kv: "(k, v) \<in> set ?syn"
    then have "filter (\<lambda>h. fst h = k) ?syn = [(k, v)]"
      by auto
    with e [of k] kv have "filter (\<lambda>h. fst h = k) (?extra @ ?syn) = [(k, v)]"
      by (subst filter_append, subst e) auto
    then show "(k, v) \<in> set (fold_headers (sort_headers (?extra @ ?syn)))"
      by (rule signed_once)
  qed
  then have "{(''host'', sq_host req), (''x-amz-content-sha256'', sha_hex (sq_payload req)), (''x-amz-date'', amz_date)}
      \<subseteq> set (signed_header_list sha_hex amz_date req)"
    by simp
  moreover have "sorted_wrt (\<lambda>g h. bytes_le (fst g) (fst h)) (signed_header_list sha_hex amz_date req)"
    unfolding l using fold_headers_strict [OF sorted_sort_headers]
    by (rule sorted_wrt_mono_rel [rotated]) simp
  moreover have "starts_with (sq_method req @ newline @ sq_wire_path req @ newline) (canonical_request sha_hex amz_date req)"
    by (simp add: starts_with_append canonical_request_def Let_def)
  moreover have "distinct (map fst (signed_header_list sha_hex amz_date req))"
    unfolding l by (rule fold_headers_distinct [OF sorted_sort_headers])
  ultimately show ?thesis
    unfolding sorted_wrt_map by blast
qed

definition ex_sigv4_request :: sigv4_request where
  "ex_sigv4_request = \<lparr>sq_method = ''GET'', sq_host = ''s3.example'', sq_wire_path = ''/b/k'',
     sq_extra_signed_headers = [(''X-Amz-Meta'', '' a  b '')], sq_payload = []\<rparr>"

theorem signature_covers_request_witness:
  "(''host'', ''s3.example'') \<in> set (signed_header_list (\<lambda>b. ''h'' @ b) ''20250101T000000Z'' ex_sigv4_request)"
proof -
  have "\<forall>h \<in> set (sq_extra_signed_headers ex_sigv4_request).
      to_ascii_lowercase (fst h) \<notin> {''host'', ''x-amz-content-sha256'', ''x-amz-date''}"
    by code_simp
  from signature_covers_request [OF this, of "\<lambda>b. ''h'' @ b" "''20250101T000000Z''"] show ?thesis
    by (simp add: ex_sigv4_request_def)
qed

end
