(* ===== verification/Config.thy ===== *)
theory Config
  imports Api_Requests Sigv4
begin

text \<open>
  The configuration (\<open>server/src/config.rs\<close>): normalization and validation of the parsed file, the
  translation of configured policies and secrets into what the startup reconciliation stores
  (\<open>desired_secrets\<close> of \<open>server/src/db/provision.rs\<close>).

  The YAML parser and the file system are parameters: a configuration is a value of the record
  \<open>config\<close>, \<open>read_file\<close> gives the bytes of a file.  Socket and IP addresses are parsed as the standard
  library does.
\<close>

section \<open>Addresses\<close>

definition digit_val :: "nat \<Rightarrow> char \<Rightarrow> nat option" where
  "digit_val radix c = (case hex_val c of None \<Rightarrow> None | Some v \<Rightarrow> if v < radix then Some v else None)"

definition read_number :: "nat \<Rightarrow> nat option \<Rightarrow> bool \<Rightarrow> nat \<Rightarrow> string \<Rightarrow> (nat \<times> string) option" where
  "read_number radix max_digits zero_prefix bound s =
     (let ds = takeWhile (\<lambda>c. digit_val radix c \<noteq> None) s;
          v = foldl (\<lambda>acc c. acc * radix + the (digit_val radix c)) 0 ds
      in if ds = [] then None
         else if (case max_digits of None \<Rightarrow> False | Some m \<Rightarrow> m < length ds) then None
         else if \<not> zero_prefix \<and> hd ds = CHR ''0'' \<and> 1 < length ds then None
         else if bound < v then None
         else Some (v, drop (length ds) s))"

definition read_separator :: "char \<Rightarrow> nat \<Rightarrow> string \<Rightarrow> string option" where
  "read_separator sep i s = (if i = 0 then Some s else strip_prefix [sep] s)"

fun read_octets :: "nat \<Rightarrow> nat \<Rightarrow> string \<Rightarrow> (nat list \<times> string) option" where
  "read_octets i 0 s = Some ([], s)"
| "read_octets i (Suc k) s =
     (case read_separator (CHR ''.'') i s of
        None \<Rightarrow> None
      | Some s1 \<Rightarrow>
          (case read_number 10 (Some 3) False 255 s1 of
             None \<Rightarrow> None
           | Some (v, s2) \<Rightarrow> map_option (\<lambda>(vs, r). (v # vs, r)) (read_octets (i + 1) k s2)))"

definition read_ipv4 :: "string \<Rightarrow> (nat list \<times> string) option" where
  "read_ipv4 s = read_octets 0 4 s"

text \<open>\<open>read_groups\<close> with \<open>k\<close> of \<open>i + k\<close> groups left; the flag tells that an embedded IPv4 address ended it.\<close>

fun read_groups :: "nat \<Rightarrow> nat \<Rightarrow> string \<Rightarrow> nat list \<times> bool \<times> string" where
  "read_groups i 0 s = ([], False, s)"
| "read_groups i (Suc k) s =
     (case (if 0 < k then Option.bind (read_separator (CHR '':'') i s) read_ipv4 else None) of
        Some (v, s1) \<Rightarrow> ([v ! 0 * 256 + v ! 1, v ! 2 * 256 + v ! 3], True, s1)
      | None \<Rightarrow>
          (case Option.bind (read_separator (CHR '':'') i s) (read_number 16 (Some 4) True 65535) of
             None \<Rightarrow> ([], False, s)
           | Some (g, s1) \<Rightarrow> (let (gs, v4, s2) = read_groups (i + 1) k s1 in (g # gs, v4, s2))))"

definition read_ipv6 :: "string \<Rightarrow> (nat list \<times> string) option" where
  "read_ipv6 s =
     (let (head, v4, s1) = read_groups 0 8 s
      in if length head = 8 then Some (head, s1)
         else if v4 then None
         else (case strip_prefix ''::'' s1 of
                 None \<Rightarrow> None
               | Some s2 \<Rightarrow>
                   (let (tail, _, s3) = read_groups 0 (8 - (length head + 1)) s2
                    in Some (head @ replicate (8 - length head - length tail) 0 @ tail, s3))))"

datatype ip_addr = V4 "nat list" | V6 "nat list"

fun is_loopback :: "ip_addr \<Rightarrow> bool" where
  "is_loopback (V4 v) = (hd v = 127)"
| "is_loopback (V6 v) = (v = [0, 0, 0, 0, 0, 0, 0, 1])"

text \<open>\<open>parse::<IpAddr>\<close> and the address of \<open>parse::<SocketAddr>\<close>.\<close>

definition parse_ip :: "string \<Rightarrow> ip_addr option" where
  "parse_ip s =
     (case (case read_ipv4 s of
              Some (v, r) \<Rightarrow> Some (V4 v, r)
            | None \<Rightarrow> map_option (\<lambda>(v, r). (V6 v, r)) (read_ipv6 s)) of
        Some (a, []) \<Rightarrow> Some a
      | _ \<Rightarrow> None)"

definition read_port :: "string \<Rightarrow> string option" where
  "read_port s =
     (case strip_prefix '':'' s of
        None \<Rightarrow> None
      | Some s1 \<Rightarrow> map_option snd (read_number 10 None True 65535 s1))"

definition read_socket_v4 :: "string \<Rightarrow> (ip_addr \<times> string) option" where
  "read_socket_v4 s =
     (case read_ipv4 s of
        None \<Rightarrow> None
      | Some (v, s1) \<Rightarrow> map_option (Pair (V4 v)) (read_port s1))"

definition read_scope_id :: "string \<Rightarrow> string" where
  "read_scope_id s =
     (case strip_prefix ''%'' s of
        None \<Rightarrow> s
      | Some s1 \<Rightarrow> (case read_number 10 None True 4294967295 s1 of None \<Rightarrow> s | Some (_, s2) \<Rightarrow> s2))"

definition read_socket_v6 :: "string \<Rightarrow> (ip_addr \<times> string) option" where
  "read_socket_v6 s =
     (case strip_prefix ''['' s of
        None \<Rightarrow> None
      | Some s1 \<Rightarrow>
          (case read_ipv6 s1 of
             None \<Rightarrow> None
           | Some (v, s2) \<Rightarrow>
               (case strip_prefix '']'' (read_scope_id s2) of
                  None \<Rightarrow> None
                | Some s3 \<Rightarrow> map_option (Pair (V6 v)) (read_port s3))))"

definition parse_socket_ip :: "string \<Rightarrow> ip_addr option" where
  "parse_socket_ip s =
     (case (case read_socket_v4 s of Some x \<Rightarrow> Some x | None \<Rightarrow> read_socket_v6 s) of
        Some (a, []) \<Rightarrow> Some a
      | _ \<Rightarrow> None)"

section \<open>The file\<close>

record tls_config =
  tls_cert_path :: string
  tls_key_path :: string

datatype human_auth_mode = Mode_Static | Mode_Oidc

record static_human_auth =
  sh_token_sha256 :: string
  sh_subject :: string

record oidc_human_auth =
  oi_issuer :: string
  oi_audience :: string
  oi_jwks_url :: string
  oi_allowed_subjects :: "string list"
  oi_allowed_group :: "string option"
  oi_group_claim :: string
  oi_clock_skew_seconds :: nat

record human_auth_config =
  ha_mode :: human_auth_mode
  ha_static :: "static_human_auth option"
  ha_oidc :: "oidc_human_auth option"

record injection_config =
  ij_kind :: string
  ij_header :: "string option"
  ij_username :: "string option"
  ij_username_file :: "string option"
  ij_region :: "string option"
  ij_service :: "string option"

record secret_config =
  sc_name :: string
  sc_description :: string
  sc_max_tier :: tier
  sc_tags :: "string list"
  sc_injection :: injection_config
  sc_value_file :: string

record policy_config =
  pc_client :: "string option"
  pc_secret :: "string option"
  pc_secret_tag :: "string option"
  pc_mechanism :: mechanism
  pc_outcome :: string
  pc_priority :: int
  pc_origins :: "string list"
  pc_methods :: "string list"
  pc_path_prefixes :: "string list"
  pc_max_ttl_seconds :: "int option"
  pc_max_uses :: "int option"
  pc_not_after :: "time option"

record config =
  cfg_listen_addr :: string
  cfg_external_url :: string
  cfg_tls :: "tls_config option"
  cfg_allow_insecure_http :: bool
  cfg_allow_insecure_http_non_loopback :: bool
  cfg_database_url :: "string option"
  cfg_human_auth :: human_auth_config
  cfg_clients :: "client_config list"
  cfg_secrets :: "secret_config list"
  cfg_policies :: "policy_config list"
  cfg_tokenreview_url :: "string option"
  cfg_pushover_base_url :: "string option"
  cfg_limits :: limits

definition default_limits :: limits where
  "default_limits =
     \<lparr>lim_max_pending_per_client = 10, lim_max_waits_per_client = 5, lim_wait_max_seconds = 300,
      lim_request_expiry_seconds = 3600, lim_proxy_max_body_bytes = 10 * 1024 * 1024,
      lim_proxy_stream_deadline_seconds = 300, lim_replay_window_seconds = 60,
      lim_max_proxy_streams_per_client = 8, lim_max_deposits_per_hour_per_client = 20, lim_drain_seconds = 25\<rparr>"

datatype config_error =
    Database_url_missing | Plaintext_not_allowed | Plaintext_non_loopback
  | Static_missing | Bad_operator_digest nat | Oidc_missing | No_allowlist
  | No_auth_binding string | Two_auth_bindings string | Bad_client_digest string nat | No_mechanisms string
  | Tokenreview_missing string | Mechanism_above_tier string mechanism
  | Limit_not_positive string | Plaintext_outbound string string | Not_http_url string string
  | Duplicate_clients | Bad_secret_name string | Duplicate_secret string | Empty_tag string
  | Policy_two_secrets | Policy_bad_outcome string | Policy_bad_origin origin_error | Policy_needs_origin
  | Policy_bad_method string | Policy_bad_prefix string path_error | Policy_bad_ttl | Policy_bad_uses
  | Unknown_policy_client nat string | Duplicate_token_hash | Duplicate_binding string string
  | Username_twice | Unreadable_file string | Not_utf8_file string | Half_scope | Header_not_allowed
  | Username_not_allowed string | Bad_template string | Empty_secret_file string

text \<open>A sequence of checks: the first that fails decides.\<close>

fun first_error :: "'e option list \<Rightarrow> 'e option" where
  "first_error [] = None"
| "first_error (Some e # cs) = Some e"
| "first_error (None # cs) = first_error cs"

abbreviation bail_if :: "bool \<Rightarrow> 'e \<Rightarrow> 'e option" where
  "bail_if b e \<equiv> (if b then Some e else None)"

section \<open>Templates and files\<close>

definition trim_one_newline :: "bytes \<Rightarrow> bytes" where
  "trim_one_newline b =
     (if length b \<ge> 2 \<and> drop (length b - 2) b = [CHR 0x0D, CHR 0x0A] then take (length b - 2) b
      else if b \<noteq> [] \<and> last b = CHR 0x0A then butlast b
      else b)"

definition injection_username_of :: "(string \<Rightarrow> bytes option) \<Rightarrow> injection_config \<Rightarrow> config_error + string option" where
  "injection_username_of read_file ic =
     (case (ij_username ic, ij_username_file ic) of
        (Some _, Some _) \<Rightarrow> Inl Username_twice
      | (Some u, None) \<Rightarrow> Inr (Some u)
      | (None, Some path) \<Rightarrow>
          (case read_file path of
             None \<Rightarrow> Inl (Unreadable_file path)
           | Some raw \<Rightarrow>
               if valid_utf8 (trim_one_newline raw) then Inr (Some (trim_one_newline raw))
               else Inl (Not_utf8_file path))
      | (None, None) \<Rightarrow> Inr None)"

definition injection_resolve ::
  "(string \<Rightarrow> bytes option) \<Rightarrow> injection_config \<Rightarrow> config_error + (string \<times> string option \<times> string option)" where
  "injection_resolve read_file ic =
     (case injection_username_of read_file ic of
        Inl e \<Rightarrow> Inl e
      | Inr username \<Rightarrow>
     (case (case (ij_region ic, ij_service ic) of
              (Some r, Some s) \<Rightarrow> Inr (Some (r @ ''/'' @ s))
            | (None, None) \<Rightarrow> Inr None
            | _ \<Rightarrow> Inl Half_scope) of
        Inl e \<Rightarrow> Inl e
      | Inr scope \<Rightarrow>
     (if ij_kind ic \<noteq> ''header'' \<and> ij_header ic \<noteq> None then Inl Header_not_allowed
      else
     (let free_text = (if ij_kind ic = ''header'' then ij_header ic else username)
      in if ij_kind ic = ''header'' \<and> username \<noteq> None then Inl (Username_not_allowed ''header'')
         else if ij_kind ic = ''bearer'' \<and> username \<noteq> None then Inl (Username_not_allowed ''bearer'')
         else map_sum Bad_template id (validate_injection (ij_kind ic) free_text scope)))))"

fun desired_secrets :: "(string \<Rightarrow> bytes option) \<Rightarrow> secret_config list \<Rightarrow> config_error + desired_secret list" where
  "desired_secrets read_file [] = Inr []"
| "desired_secrets read_file (c # cs) =
     (case injection_resolve read_file (sc_injection c) of
        Inl e \<Rightarrow> Inl e
      | Inr (kind, header, username) \<Rightarrow>
          (case read_file (sc_value_file c) of
             None \<Rightarrow> Inl (Unreadable_file (sc_value_file c))
           | Some raw \<Rightarrow>
               if trim_one_newline raw = [] then Inl (Empty_secret_file (sc_value_file c))
               else map_sum id
                      ((#) \<lparr>ds_name = sc_name c, ds_description = sc_description c,
                            ds_max_tier = tier_as_int (sc_max_tier c), ds_injection_kind = kind,
                            ds_injection_header = header, ds_injection_username = username,
                            ds_tags = sc_tags c, ds_value = trim_one_newline raw\<rparr>)
                      (desired_secrets read_file cs)))"

section \<open>Policies\<close>

fun parse_origins :: "(string \<Rightarrow> string option option) \<Rightarrow> string list \<Rightarrow> origin_error + origin list" where
  "parse_origins url_host [] = Inr []"
| "parse_origins url_host (x # xs) =
     (case origin_parse url_host x of
        Inl e \<Rightarrow> Inl e
      | Inr x' \<Rightarrow> map_sum id ((#) x') (parse_origins url_host xs))"

fun canonical_prefixes :: "string list \<Rightarrow> config_error + string list" where
  "canonical_prefixes [] = Inr []"
| "canonical_prefixes (p # ps) =
     (case canonicalize p of
        Inl e \<Rightarrow> Inl (Policy_bad_prefix p e)
      | Inr q \<Rightarrow> map_sum id ((#) q) (canonical_prefixes ps))"

definition to_new_policy :: "(string \<Rightarrow> string option option) \<Rightarrow> policy_config \<Rightarrow> config_error + new_policy" where
  "to_new_policy url_host p =
     (if pc_secret p \<noteq> None \<and> pc_secret_tag p \<noteq> None then Inl Policy_two_secrets
      else if pc_outcome p \<notin> {''auto-approve'', ''notify-only'', ''require-approval'', ''deny''}
        then Inl (Policy_bad_outcome (pc_outcome p))
      else
     (case parse_origins url_host (pc_origins p) of
        Inl e \<Rightarrow> Inl (Policy_bad_origin e)
      | Inr origins \<Rightarrow>
     (if pc_mechanism p = Mech_Brokered \<and> origins = [] \<and> pc_outcome p \<in> {''auto-approve'', ''notify-only''}
        then Inl Policy_needs_origin
      else
     (case find (\<lambda>m. \<not> is_valid_http_method m) (pc_methods p) of
        Some m \<Rightarrow> Inl (Policy_bad_method m)
      | None \<Rightarrow>
     (case canonical_prefixes (pc_path_prefixes p) of
        Inl e \<Rightarrow> Inl e
      | Inr pps \<Rightarrow>
     (if (case pc_max_ttl_seconds p of Some v \<Rightarrow> v \<le> 0 | None \<Rightarrow> False) then Inl Policy_bad_ttl
      else if (case pc_max_uses p of Some v \<Rightarrow> v \<le> 0 | None \<Rightarrow> False) then Inl Policy_bad_uses
      else
        Inr \<lparr>np_client_name = pc_client p, np_secret_name = pc_secret p, np_secret_tag = pc_secret_tag p,
             np_mechanism = mech_as_str (pc_mechanism p), np_outcome = pc_outcome p,
             np_priority = pc_priority p, np_origins = Parsed origins,
             np_methods = map to_ascii_uppercase (pc_methods p), np_path_prefixes = pps,
             np_max_ttl_seconds = pc_max_ttl_seconds p, np_max_uses = pc_max_uses p,
             np_not_after = pc_not_after p, np_created_by = CONFIG_ACTOR\<rparr>))))))"

section \<open>Normalization and validation\<close>

definition normalize_digest :: "string \<Rightarrow> string" where
  "normalize_digest h = to_ascii_lowercase (trim h)"

definition normalize_client :: "client_config \<Rightarrow> client_config" where
  "normalize_client c =
     c\<lparr>cc_auth := (cc_auth c)\<lparr>ca_api_token_sha256 := map_option normalize_digest (ca_api_token_sha256 (cc_auth c))\<rparr>\<rparr>"

definition normalize :: "config \<Rightarrow> config" where
  "normalize cfg =
     cfg\<lparr>cfg_clients := map normalize_client (cfg_clients cfg),
         cfg_human_auth := (cfg_human_auth cfg)\<lparr>ha_static :=
           map_option (\<lambda>s. s\<lparr>sh_token_sha256 := normalize_digest (sh_token_sha256 s)\<rparr>) (ha_static (cfg_human_auth cfg))\<rparr>\<rparr>"

definition is_ascii_hexdigit :: "char \<Rightarrow> bool" where
  "is_ascii_hexdigit c \<longleftrightarrow> hex_val c \<noteq> None"

definition bad_digest :: "string \<Rightarrow> bool" where
  "bad_digest h \<longleftrightarrow> length h \<noteq> 64 \<or> \<not> list_all is_ascii_hexdigit h"

definition validate_outbound_https :: "string \<Rightarrow> string \<Rightarrow> bool \<Rightarrow> config_error option" where
  "validate_outbound_https what url insecure_ok =
     (case strip_prefix ''http://'' url of
        Some rest \<Rightarrow>
          (let hostport = takeWhile (\<lambda>c. c \<notin> {CHR ''/'', CHR ''?'', CHR ''#''}) rest;
               host = (case strip_prefix ''['' hostport of
                         Some v6 \<Rightarrow> takeWhile (\<lambda>c. c \<noteq> CHR '']'') v6
                       | None \<Rightarrow> takeWhile (\<lambda>c. c \<noteq> CHR '':'') hostport);
               loopback = eq_ignore_ascii_case host ''localhost''
                 \<or> (case parse_ip host of Some a \<Rightarrow> is_loopback a | None \<Rightarrow> False)
           in bail_if (\<not> loopback \<and> \<not> insecure_ok) (Plaintext_outbound what url))
      | None \<Rightarrow> bail_if (\<not> starts_with ''https://'' url) (Not_http_url what url))"

definition validate_listen :: "config \<Rightarrow> config_error option" where
  "validate_listen cfg =
     (if cfg_tls cfg \<noteq> None then None
      else if \<not> cfg_allow_insecure_http cfg then Some Plaintext_not_allowed
      else
        (let loopback = (case parse_socket_ip (cfg_listen_addr cfg) of Some a \<Rightarrow> is_loopback a | None \<Rightarrow> False)
         in bail_if (\<not> loopback \<and> \<not> cfg_allow_insecure_http_non_loopback cfg) Plaintext_non_loopback))"

definition validate_human_auth :: "human_auth_config \<Rightarrow> config_error option" where
  "validate_human_auth ha =
     (case ha_mode ha of
        Mode_Static \<Rightarrow>
          (case ha_static ha of
             None \<Rightarrow> Some Static_missing
           | Some s \<Rightarrow> bail_if (bad_digest (sh_token_sha256 s)) (Bad_operator_digest (length (sh_token_sha256 s))))
      | Mode_Oidc \<Rightarrow>
          (case ha_oidc ha of
             None \<Rightarrow> Some Oidc_missing
           | Some x \<Rightarrow> bail_if (oi_allowed_subjects x = [] \<and> oi_allowed_group x = None) No_allowlist))"

definition validate_client :: "string option \<Rightarrow> client_config \<Rightarrow> config_error option" where
  "validate_client tokenreview_url c =
     (let token = ca_api_token_sha256 (cc_auth c); sa = ca_service_account (cc_auth c)
      in first_error
           ([bail_if (token = None \<and> sa = None) (No_auth_binding (cc_name c)),
             bail_if (token \<noteq> None \<and> sa \<noteq> None) (Two_auth_bindings (cc_name c)),
             (case token of None \<Rightarrow> None | Some h \<Rightarrow> bail_if (bad_digest h) (Bad_client_digest (cc_name c) (length h))),
             bail_if (cc_mechanisms c = []) (No_mechanisms (cc_name c)),
             bail_if (sa \<noteq> None \<and> tokenreview_url = None) (Tokenreview_missing (cc_name c))]
            @ map (\<lambda>m. bail_if (mech_tier m > cc_max_tier c) (Mechanism_above_tier (cc_name c) m)) (cc_mechanisms c)))"

definition validate_limits :: "limits \<Rightarrow> config_error option" where
  "validate_limits l = first_error
     [bail_if (lim_request_expiry_seconds l \<le> 0) (Limit_not_positive ''request_expiry_seconds''),
      bail_if (lim_replay_window_seconds l \<le> 0) (Limit_not_positive ''replay_window_seconds''),
      bail_if (lim_max_pending_per_client l \<le> 0) (Limit_not_positive ''max_pending_per_client''),
      bail_if (lim_max_waits_per_client l = 0) (Limit_not_positive ''max_waits_per_client''),
      bail_if (lim_max_proxy_streams_per_client l = 0) (Limit_not_positive ''max_proxy_streams_per_client''),
      bail_if (lim_max_deposits_per_hour_per_client l \<le> 0) (Limit_not_positive ''max_deposits_per_hour_per_client'')]"

definition validate_outbound :: "config \<Rightarrow> config_error option" where
  "validate_outbound cfg =
     (let ok = cfg_allow_insecure_http_non_loopback cfg
      in first_error
           [(case cfg_tokenreview_url cfg of None \<Rightarrow> None | Some u \<Rightarrow> validate_outbound_https ''tokenreview_url'' u ok),
            (case cfg_pushover_base_url cfg of None \<Rightarrow> None | Some u \<Rightarrow> validate_outbound_https ''pushover.base_url'' u ok),
            (case ha_oidc (cfg_human_auth cfg) of
               None \<Rightarrow> None
             | Some x \<Rightarrow> validate_outbound_https ''human_auth.oidc.jwks_url'' (oi_jwks_url x) ok)])"

definition validate_late_limits :: "limits \<Rightarrow> config_error option" where
  "validate_late_limits l = first_error
     [bail_if (lim_wait_max_seconds l = 0) (Limit_not_positive ''wait_max_seconds''),
      bail_if (lim_proxy_max_body_bytes l = 0) (Limit_not_positive ''proxy_max_body_bytes''),
      bail_if (lim_proxy_stream_deadline_seconds l = 0) (Limit_not_positive ''proxy_stream_deadline_seconds'')]"

fun validate_secrets :: "string set \<Rightarrow> secret_config list \<Rightarrow> config_error option" where
  "validate_secrets seen [] = None"
| "validate_secrets seen (s # ss) =
     (if trim (sc_name s) = [] \<or> trim (sc_name s) \<noteq> sc_name s then Some (Bad_secret_name (sc_name s))
      else if sc_name s \<in> seen then Some (Duplicate_secret (sc_name s))
      else if list_ex (\<lambda>t. trim t = []) (sc_tags s) then Some (Empty_tag (sc_name s))
      else validate_secrets (insert (sc_name s) seen) ss)"

fun validate_policies :: "(string \<Rightarrow> string option option) \<Rightarrow> string list \<Rightarrow> nat \<Rightarrow> policy_config list \<Rightarrow> config_error option" where
  "validate_policies url_host names i [] = None"
| "validate_policies url_host names i (p # ps) =
     (case to_new_policy url_host p of
        Inl e \<Rightarrow> Some e
      | Inr _ \<Rightarrow>
          (case pc_client p of
             Some c \<Rightarrow> if c \<notin> set names then Some (Unknown_policy_client i c)
                       else validate_policies url_host names (i + 1) ps
           | None \<Rightarrow> validate_policies url_host names (i + 1) ps))"

fun validate_bindings :: "string set \<Rightarrow> (string \<times> string) set \<Rightarrow> client_config list \<Rightarrow> config_error option" where
  "validate_bindings hashes bindings [] = None"
| "validate_bindings hashes bindings (c # cs) =
     (let h = map_option to_ascii_lowercase (ca_api_token_sha256 (cc_auth c));
          b = map_option (\<lambda>sa. (sa_audience sa, sa_subject sa)) (ca_service_account (cc_auth c))
      in if (case h of Some x \<Rightarrow> x \<in> hashes | None \<Rightarrow> False) then Some Duplicate_token_hash
         else (case b of
                 Some (a, s) \<Rightarrow>
                   if (a, s) \<in> bindings then Some (Duplicate_binding a s)
                   else validate_bindings (set_option h \<union> hashes) (insert (a, s) bindings) cs
               | None \<Rightarrow> validate_bindings (set_option h \<union> hashes) bindings cs))"

definition validate :: "(string \<Rightarrow> string option option) \<Rightarrow> config \<Rightarrow> config_error option" where
  "validate url_host cfg =
     first_error
       ([bail_if (cfg_database_url cfg = None) Database_url_missing,
         validate_listen cfg,
         validate_human_auth (cfg_human_auth cfg)]
        @ map (validate_client (cfg_tokenreview_url cfg)) (cfg_clients cfg)
        @ [validate_limits (cfg_limits cfg),
           validate_outbound cfg,
           validate_late_limits (cfg_limits cfg),
           bail_if (\<not> distinct (map cc_name (cfg_clients cfg))) Duplicate_clients,
           validate_secrets {} (cfg_secrets cfg),
           validate_policies url_host (map cc_name (cfg_clients cfg)) 0 (cfg_policies cfg),
           validate_bindings {} {} (cfg_clients cfg)])"

text \<open>\<open>load\<close>, after the file has been parsed; \<open>env_url\<close> is \<open>KEYCHUTE_DATABASE_URL\<close>.\<close>

definition load :: "(string \<Rightarrow> string option option) \<Rightarrow> string option \<Rightarrow> config \<Rightarrow> config_error + config" where
  "load url_host env_url parsed =
     (let cfg = normalize (case env_url of None \<Rightarrow> parsed | Some u \<Rightarrow> parsed\<lparr>cfg_database_url := Some u\<rparr>)
      in case validate url_host cfg of Some e \<Rightarrow> Inl e | None \<Rightarrow> Inr cfg)"

section \<open>Reconciled clients\<close>

lemma configured_row_fields [simp]:
  "cl_name (configured_row i c) = cc_name c" "cl_id (configured_row i c) = i" "cl_enabled (configured_row i c)"
  "(configured_row i c)\<lparr>cl_id := j\<rparr> = configured_row j c"
  by (simp_all add: configured_row_def)

lemma upsert_client_Inr:
  assumes "upsert_client i c rows = Inr rows'"
  shows "\<And>r. r \<in> set rows' \<Longrightarrow> cl_name r = cc_name c \<Longrightarrow> r = configured_row (cl_id r) c"
    "\<exists>r \<in> set rows'. cl_name r = cc_name c"
    "\<And>r. cl_name r \<noteq> cc_name c \<Longrightarrow> r \<in> set rows' \<longleftrightarrow> r \<in> set rows"
proof -
  show "r = configured_row (cl_id r) c" if "r \<in> set rows'" "cl_name r = cc_name c" for r
    using assms that by (auto simp: upsert_client_def Let_def set_upd_where list_ex_iff split: if_splits)
  show "\<exists>r \<in> set rows'. cl_name r = cc_name c"
  proof (cases "\<exists>q \<in> set rows. cl_name q = cc_name c")
    case True
    then obtain q where q: "q \<in> set rows" "cl_name q = cc_name c" by blast
    have "rows' = upd_where (\<lambda>r. cl_name r = cc_name c) (\<lambda>r. configured_row (cl_id r) c) rows"
      using assms q by (auto simp: upsert_client_def Let_def list_ex_iff split: if_splits)
    with q show ?thesis
      by (intro bexI [of _ "configured_row (cl_id q) c"]) (auto simp: set_upd_where)
  next
    case False
    with assms show ?thesis
      by (auto simp: upsert_client_def Let_def list_ex_iff split: if_splits)
  qed
  show "r \<in> set rows' \<longleftrightarrow> r \<in> set rows" if "cl_name r \<noteq> cc_name c" for r
    using assms that by (auto simp: upsert_client_def Let_def set_upd_where split: if_splits)
qed

lemma upsert_clients_Inr:
  assumes "upsert_clients cs rows = Inr rows'" "distinct (map (cc_name \<circ> snd) cs)"
  shows "(\<forall>(i, c) \<in> set cs. (\<exists>r \<in> set rows'. cl_name r = cc_name c)
        \<and> (\<forall>r \<in> set rows'. cl_name r = cc_name c \<longrightarrow> r = configured_row (cl_id r) c))
    \<and> (\<forall>r. cl_name r \<notin> (cc_name \<circ> snd) ` set cs \<longrightarrow> (r \<in> set rows' \<longleftrightarrow> r \<in> set rows))"
  using assms
proof (induction cs rows rule: upsert_clients.induct)
  case (2 i c cs rows)
  then obtain rows1 where up: "upsert_client i c rows = Inr rows1" "upsert_clients cs rows1 = Inr rows'"
    by (auto split: sum.splits)
  note one = upsert_client_Inr [OF up(1)]
  have rest: "\<And>j x. (j, x) \<in> set cs \<Longrightarrow> (\<exists>r \<in> set rows'. cl_name r = cc_name x)
        \<and> (\<forall>r \<in> set rows'. cl_name r = cc_name x \<longrightarrow> r = configured_row (cl_id r) x)"
      "\<And>r. cl_name r \<notin> (cc_name \<circ> snd) ` set cs \<Longrightarrow> r \<in> set rows' \<longleftrightarrow> r \<in> set rows1"
    using "2.IH" [OF up] "2.prems"(2) by auto
  have c: "cc_name c \<notin> (cc_name \<circ> snd) ` set cs"
    using "2.prems"(2) by simp
  have "(\<exists>r \<in> set rows'. cl_name r = cc_name c) \<and> (\<forall>r \<in> set rows'. cl_name r = cc_name c \<longrightarrow> r = configured_row (cl_id r) c)"
    using one(1,2) rest(2) c by metis
  moreover have "r \<in> set rows' \<longleftrightarrow> r \<in> set rows" if "cl_name r \<notin> (cc_name \<circ> snd) ` set ((i, c) # cs)" for r
    using that one(3) [of r] rest(2) [of r] by auto
  ultimately show ?case
    using rest(1) by auto
qed simp

text \<open>A row no credential can authenticate.\<close>

definition unbound :: "client_row \<Rightarrow> bool" where
  "unbound r \<longleftrightarrow> cl_api_token_sha256 r = None \<and> cl_sa_audience r = None \<and> cl_sa_subject r = None"

lemma retired_fields [simp]:
  "cl_name (retire_client r) = cl_name r" "\<not> cl_enabled (retire_client r)" "unbound (retire_client r)"
  "cl_name (release_binding r) = cl_name r" "unbound (release_binding r)" "cl_id (retire_client r) = cl_id r"
  "cl_id (release_binding r) = cl_id r"
  by (simp_all add: retire_client_def release_binding_def unbound_def)

lemma released_rows:
  assumes "r \<in> set (upd_where (\<lambda>r. cl_name r \<in> N) release_binding (upd_where (\<lambda>r. cl_name r \<notin> N) retire_client rows))"
  shows "unbound r \<and> (cl_name r \<notin> N \<longrightarrow> \<not> cl_enabled r)"
proof -
  obtain q where q: "q \<in> set (upd_where (\<lambda>r. cl_name r \<notin> N) retire_client rows)"
      "r = (if cl_name q \<in> N then release_binding q else q)"
    using assms unfolding set_upd_where [of r] by blast
  obtain p where p: "q = (if cl_name p \<notin> N then retire_client p else p)"
    using q(1) unfolding set_upd_where by blast
  show ?thesis
    using q(2) p by (cases "cl_name p \<in> N") simp_all
qed

text \<open>after startup exactly the configured clients can act.  When the reconciliation of clients with distinct
  names succeeds, every configured client has a row, every row with a configured name is that client's
  configured row up to its id, and every other row is disabled and bears no credential; nothing else in
  the database changes.  So whoever authenticates afterwards is a configured client, with the tier,
  the mechanisms and the credential of the configuration.\<close>

theorem enabled_clients_are_configured:
  assumes "reconcile_clients cs d = Inr d'" "distinct (map (cc_name \<circ> snd) cs)"
  shows "(\<forall>(i, c) \<in> set cs. \<exists>r \<in> set (db_clients d'). r = configured_row (cl_id r) c)
    \<and> (\<forall>r \<in> set (db_clients d'). (\<exists>(i, c) \<in> set cs. r = configured_row (cl_id r) c) \<or> \<not> cl_enabled r \<and> unbound r)
    \<and> (authenticate_client env app header d' = Inr client \<longrightarrow> (\<exists>(i, c) \<in> set cs. client = configured_row (cl_id client) c))
    \<and> d' = d\<lparr>db_clients := db_clients d'\<rparr>"
proof -
  let ?names = "(cc_name \<circ> snd) ` set cs"
  let ?r1 = "upd_where (\<lambda>r. cl_name r \<notin> ?names) retire_client (db_clients d)"
  let ?r2 = "upd_where (\<lambda>r. cl_name r \<in> ?names) release_binding ?r1"
  obtain rows where rows: "upsert_clients cs ?r2 = Inr rows" "d' = d\<lparr>db_clients := rows\<rparr>"
    using assms(1) by (auto simp: reconcile_clients_def Let_def split: sum.splits)
  note up = upsert_clients_Inr [OF rows(1) assms(2)]
  have dead: "\<not> cl_enabled r \<and> unbound r" if r: "r \<in> set ?r2" "cl_name r \<notin> ?names" for r
    using released_rows [OF r(1)] r(2) by blast
  have each: "(\<exists>(i, c) \<in> set cs. r = configured_row (cl_id r) c) \<or> \<not> cl_enabled r \<and> unbound r" if r: "r \<in> set rows" for r
  proof (cases "cl_name r \<in> ?names")
    case True
    then obtain i c where "(i, c) \<in> set cs" "cl_name r = cc_name c" by auto
    with up r show ?thesis by blast
  next
    case False
    with up r dead show ?thesis by blast
  qed
  moreover have "\<exists>(i, c) \<in> set cs. client = configured_row (cl_id client) c" if "authenticate_client env app header d' = Inr client"
    using that by (rule authenticate_client_Inr) (use each in \<open>auto simp: rows(2)\<close>)
  moreover have "\<exists>r \<in> set rows. r = configured_row (cl_id r) c" if "(i, c) \<in> set cs" for i c
    using up that by blast
  ultimately show ?thesis
    unfolding rows(2) by auto
qed

definition ex_configured :: client_config where
  "ex_configured = \<lparr>cc_name = ''fa'', cc_max_tier = Tier_TrustedClient, cc_mechanisms = [Mech_Brokered],
     cc_auth = \<lparr>ca_api_token_sha256 = Some (replicate 64 (CHR ''a'')), ca_service_account = None\<rparr>, cc_may_store_secrets = False\<rparr>"

definition ex_old_db :: db where
  "ex_old_db = empty_db\<lparr>db_clients := [ex_client_row\<lparr>cl_name := ''old''\<rparr>]\<rparr>"

theorem enabled_clients_are_configured_witness:
  "\<exists>d'. reconcile_clients [(6, ex_configured)] ex_old_db = Inr d'
     \<and> (\<exists>r \<in> set (db_clients d'). r = configured_row (cl_id r) ex_configured)"
proof -
  have "\<not> isl (reconcile_clients [(6, ex_configured)] ex_old_db)"
    by code_simp
  then obtain d' where d': "reconcile_clients [(6, ex_configured)] ex_old_db = Inr d'"
    by (cases "reconcile_clients [(6, ex_configured)] ex_old_db") auto
  from enabled_clients_are_configured [OF d'] d' show ?thesis by auto
qed

section \<open>What validation establishes\<close>

lemma first_error_None: "first_error cs = None \<longleftrightarrow> (\<forall>x \<in> set cs. x = None)"
  by (induction cs rule: first_error.induct) auto

lemma first_error_map: "first_error (map f xs) = None \<longleftrightarrow> (\<forall>x \<in> set xs. f x = None)"
  by (simp add: first_error_None)

lemma first_error_append: "first_error (xs @ ys) = None \<longleftrightarrow> first_error xs = None \<and> first_error ys = None"
  by (auto simp: first_error_None)

lemma validate_parts:
  assumes "validate url_host cfg = None"
  shows "\<And>c. c \<in> set (cfg_clients cfg) \<Longrightarrow> validate_client (cfg_tokenreview_url cfg) c = None"
    "validate_limits (cfg_limits cfg) = None" "validate_late_limits (cfg_limits cfg) = None"
    "distinct (map cc_name (cfg_clients cfg))" "validate_bindings {} {} (cfg_clients cfg) = None"
    "validate_policies url_host (map cc_name (cfg_clients cfg)) 0 (cfg_policies cfg) = None"
    "validate_secrets {} (cfg_secrets cfg) = None" "validate_human_auth (cfg_human_auth cfg) = None"
    "validate_listen cfg = None"
  using assms by (auto simp: validate_def first_error_None split: if_splits)

lemma validate_client_None:
  assumes "validate_client url c = None"
  shows "(ca_api_token_sha256 (cc_auth c) = None) \<noteq> (ca_service_account (cc_auth c) = None)"
    "\<And>h. ca_api_token_sha256 (cc_auth c) = Some h \<Longrightarrow> \<not> bad_digest h"
    "cc_mechanisms c \<noteq> []" "ca_service_account (cc_auth c) \<noteq> None \<Longrightarrow> url \<noteq> None"
    "\<And>m. m \<in> set (cc_mechanisms c) \<Longrightarrow> mech_tier m \<le> cc_max_tier c"
proof -
  have all: "first_error (map (\<lambda>m. bail_if (mech_tier m > cc_max_tier c) (Mechanism_above_tier (cc_name c) m)) (cc_mechanisms c)) = None"
    using assms by (simp add: validate_client_def Let_def first_error_append del: append.simps)
  show "mech_tier m \<le> cc_max_tier c" if "m \<in> set (cc_mechanisms c)" for m
    using all that unfolding first_error_map by (auto simp: not_less split: if_splits)
qed (use assms in \<open>auto simp: validate_client_def Let_def first_error_None split: if_splits\<close>)

text \<open>A digest is hexadecimal, so trimming leaves it alone.\<close>

lemma utf8_string_ascii: "\<forall>c \<in> set s. byte c < 128 \<Longrightarrow> utf8_string (map byte s) = s"
  by (induction s) (auto simp: utf8_string_def utf8_bytes_def char_of_byte)

lemma dropWhile_none: "\<forall>x \<in> set xs. \<not> P x \<Longrightarrow> dropWhile P xs = xs"
  by (cases xs) auto

lemma trim_hex:
  assumes "list_all is_ascii_hexdigit h"
  shows "trim h = h"
proof -
  have c: "48 \<le> byte c \<and> byte c < 128" if "c \<in> set h" for c
    using assms that by (auto simp: list_all_iff is_ascii_hexdigit_def hex_val_def split: if_splits)
  have "from_utf8 h = Some (map byte h)"
    by (rule from_utf8_ascii) (use c in auto)
  moreover have "\<forall>n \<in> set (map byte h). \<not> cp_is_whitespace n"
    using c by (force simp: cp_is_whitespace_def)
  ultimately show ?thesis
    using c by (simp add: trim_def dropWhile_none utf8_string_ascii)
qed

definition client_hash :: "client_config \<Rightarrow> string option" where
  "client_hash c = map_option to_ascii_lowercase (ca_api_token_sha256 (cc_auth c))"

definition client_binding :: "client_config \<Rightarrow> (string \<times> string) option" where
  "client_binding c = map_option (\<lambda>sa. (sa_audience sa, sa_subject sa)) (ca_service_account (cc_auth c))"

lemma validate_bindings_None:
  assumes "validate_bindings H B cs = None"
  shows "(\<forall>c \<in> set cs. set_option (client_hash c) \<inter> H = {} \<and> set_option (client_binding c) \<inter> B = {})
    \<and> sorted_wrt (\<lambda>a b. set_option (client_hash a) \<inter> set_option (client_hash b) = {}
         \<and> set_option (client_binding a) \<inter> set_option (client_binding b) = {}) cs"
  using assms
proof (induction cs arbitrary: H B)
  case (Cons c cs)
  let ?h = "client_hash c" and ?b = "client_binding c"
  have fresh: "set_option ?h \<inter> H = {}" "set_option ?b \<inter> B = {}"
    and rest: "validate_bindings (set_option ?h \<union> H) (set_option ?b \<union> B) cs = None"
    using Cons.prems by (auto simp: client_hash_def client_binding_def Let_def split: if_splits option.splits)
  from Cons.IH [OF rest] fresh show ?case by auto
qed simp

section \<open>A validated configuration can be reconciled\<close>

definition no_clash :: "client_config \<Rightarrow> client_config \<Rightarrow> bool" where
  "no_clash a b \<longleftrightarrow> set_option (client_hash a) \<inter> set_option (client_hash b) = {}
     \<and> set_option (client_binding a) \<inter> set_option (client_binding b) = {}"

definition digest_ok :: "client_config \<Rightarrow> bool" where
  "digest_ok c \<longleftrightarrow> (\<forall>h. ca_api_token_sha256 (cc_auth c) = Some h \<longrightarrow> \<not> bad_digest h)"

lemma configured_hash: "digest_ok c \<Longrightarrow> cl_api_token_sha256 (configured_row i c) = client_hash c"
  by (cases "ca_api_token_sha256 (cc_auth c)")
    (auto simp: configured_row_def client_hash_def digest_ok_def bad_digest_def trim_hex)

lemma configured_no_clash:
  assumes "digest_ok a" "digest_ok b" "no_clash a b"
  shows "\<not> binding_clash (configured_row i a) (configured_row j b)"
  using assms configured_hash [of a i] configured_hash [of b j]
  by (cases "ca_service_account (cc_auth a)"; cases "ca_service_account (cc_auth b)")
    (auto simp: binding_clash_def no_clash_def client_binding_def configured_row_def)

lemma image_upd_where: "(\<And>r. k (f r) = k r) \<Longrightarrow> k ` set (upd_where P f rs) = k ` set rs"
  by (induction rs) auto

lemma unbound_no_clash: "unbound r \<Longrightarrow> \<not> binding_clash x r"
  by (auto simp: unbound_def binding_clash_def)

lemma upsert_client_total:
  assumes "digest_ok c" "\<forall>r \<in> set rows. unbound r \<or> (\<exists>j. \<exists>x \<in> set dn. r = configured_row j x)"
    and "\<forall>x \<in> set dn. digest_ok x \<and> no_clash c x" "i \<notin> cl_id ` set rows"
  shows "\<exists>rows'. upsert_client i c rows = Inr rows'
    \<and> (\<forall>r \<in> set rows'. unbound r \<or> (\<exists>j. \<exists>x \<in> set (c # dn). r = configured_row j x))
    \<and> cl_id ` set rows' \<subseteq> insert i (cl_id ` set rows)"
proof -
  have "\<not> binding_clash (configured_row i c) r" if r: "r \<in> set rows" for r
    using assms(2) [rule_format, OF r] assms(1,3) configured_no_clash unbound_no_clash by blast
  then have clash: "\<not> list_ex (\<lambda>r. cl_name r \<noteq> cc_name c \<and> binding_clash (configured_row i c) r) rows"
    by (simp add: list_ex_iff)
  have free: "\<not> list_ex (\<lambda>r. cl_id r = i) rows"
    using assms(4) by (auto simp: list_ex_iff)
  show ?thesis
  proof (cases "list_ex (\<lambda>r. cl_name r = cc_name c) rows")
    case True
    with clash have "upsert_client i c rows
        = Inr (upd_where (\<lambda>r. cl_name r = cc_name c) (\<lambda>r. configured_row (cl_id r) c) rows)"
      by (simp add: upsert_client_def Let_def)
    moreover have "cl_id ` set (upd_where (\<lambda>r. cl_name r = cc_name c) (\<lambda>r. configured_row (cl_id r) c) rows) = cl_id ` set rows"
      by (rule image_upd_where) simp
    moreover have "unbound r \<or> (\<exists>j. \<exists>x \<in> set (c # dn). r = configured_row j x)"
      if "r \<in> set (upd_where (\<lambda>r. cl_name r = cc_name c) (\<lambda>r. configured_row (cl_id r) c) rows)" for r
    proof -
      from that obtain q where q: "q \<in> set rows" "r = (if cl_name q = cc_name c then configured_row (cl_id q) c else q)"
        unfolding set_upd_where by blast
      then show ?thesis
        using assms(2) [rule_format, OF q(1)] by (cases "cl_name q = cc_name c") auto
    qed
    ultimately show ?thesis by auto
  next
    case False
    with clash free show ?thesis
      using assms(2) by (auto simp: upsert_client_def Let_def)
  qed
qed

lemma upsert_clients_total:
  assumes "\<forall>(i, c) \<in> set cs. digest_ok c \<and> (\<forall>x \<in> set dn. no_clash c x)" "\<forall>x \<in> set dn. digest_ok x"
    and "sorted_wrt (\<lambda>a b. no_clash b a) (map snd cs)" "distinct (map fst cs)" "fst ` set cs \<inter> cl_id ` set rows = {}"
    and "\<forall>r \<in> set rows. unbound r \<or> (\<exists>j. \<exists>x \<in> set dn. r = configured_row j x)"
  shows "\<exists>rows'. upsert_clients cs rows = Inr rows'"
  using assms
proof (induction cs arbitrary: rows dn)
  case (Cons x cs)
  obtain i c where x: "x = (i, c)" by fastforce
  obtain rows1 where r1: "upsert_client i c rows = Inr rows1"
      "\<forall>r \<in> set rows1. unbound r \<or> (\<exists>j. \<exists>x \<in> set (c # dn). r = configured_row j x)"
      "cl_id ` set rows1 \<subseteq> insert i (cl_id ` set rows)"
    using upsert_client_total [of c rows dn i] Cons.prems by (auto simp: x)
  have "\<exists>rows'. upsert_clients cs rows1 = Inr rows'"
  proof (rule Cons.IH [of "c # dn"])
    show "\<forall>(j, y) \<in> set cs. digest_ok y \<and> (\<forall>z \<in> set (c # dn). no_clash y z)"
      using Cons.prems(1,3) by (auto simp: x)
    show "fst ` set cs \<inter> cl_id ` set rows1 = {}"
    proof -
      have "fst ` set cs \<inter> insert i (cl_id ` set rows) = {}"
        using Cons.prems(4,5) by (auto simp: x)
      with r1(3) show ?thesis by blast
    qed
  qed (use Cons.prems r1(2) in \<open>auto simp: x\<close>)
  with r1(1) show ?case by (simp add: x)
qed simp

text \<open>C26: a configuration that loads can be applied.  Whatever clients an earlier run left in the database,
  the reconciliation of the clients of a loaded configuration succeeds, when the database draws ids
  that are new: old credentials are released first, and validation excludes that two configured clients share
  one.  The clients of a loaded configuration have distinct names and bear exactly one kind of
  credential, no mechanism above their tier, and all limits are positive.\<close>

theorem loaded_configuration_reconciles:
  assumes "load url_host env_url parsed = Inr cfg"
    and "length ids = length (cfg_clients cfg)" "distinct ids" "set ids \<inter> cl_id ` set (db_clients d) = {}"
  shows "(\<exists>d'. reconcile_clients (zip ids (cfg_clients cfg)) d = Inr d') \<and> distinct (map cc_name (cfg_clients cfg))
    \<and> (\<forall>c \<in> set (cfg_clients cfg). (ca_api_token_sha256 (cc_auth c) = None) \<noteq> (ca_service_account (cc_auth c) = None)
        \<and> cc_mechanisms c \<noteq> [] \<and> (\<forall>m \<in> set (cc_mechanisms c). mech_tier m \<le> cc_max_tier c))
    \<and> 0 < lim_request_expiry_seconds (cfg_limits cfg) \<and> 0 < lim_replay_window_seconds (cfg_limits cfg)
    \<and> 0 < lim_max_pending_per_client (cfg_limits cfg) \<and> 0 < lim_max_waits_per_client (cfg_limits cfg)
    \<and> 0 < lim_max_proxy_streams_per_client (cfg_limits cfg) \<and> 0 < lim_max_deposits_per_hour_per_client (cfg_limits cfg)"
proof -
  have v: "validate url_host cfg = None"
    using assms(1) by (auto simp: load_def Let_def split: option.splits)
  note parts = validate_parts [OF v]
  let ?cs = "zip ids (cfg_clients cfg)"
  let ?names = "(cc_name \<circ> snd) ` set ?cs"
  let ?r1 = "upd_where (\<lambda>r. cl_name r \<notin> ?names) retire_client (db_clients d)"
  let ?r2 = "upd_where (\<lambda>r. cl_name r \<in> ?names) release_binding ?r1"
  have ids: "cl_id ` set ?r2 = cl_id ` set (db_clients d)"
    by (simp add: image_upd_where)
  have unb: "unbound r" if "r \<in> set ?r2" for r
    using released_rows [OF that] by blast
  have "\<exists>rows'. upsert_clients ?cs ?r2 = Inr rows'"
  proof (rule upsert_clients_total [of _ "[]"])
    have "digest_ok c" if "c \<in> set (cfg_clients cfg)" for c
      using validate_client_None(2) [OF parts(1) [OF that]] by (simp add: digest_ok_def)
    then show "\<forall>(i, c) \<in> set ?cs. digest_ok c \<and> (\<forall>x \<in> set []. no_clash c x)"
      by (auto dest: set_zip_rightD)
    have "sorted_wrt (\<lambda>a b. no_clash a b) (cfg_clients cfg)"
      using validate_bindings_None [OF parts(5)] by (simp add: no_clash_def)
    moreover have "(\<lambda>a b. no_clash b a) = no_clash"
      by (auto simp: no_clash_def fun_eq_iff)
    ultimately show "sorted_wrt (\<lambda>a b. no_clash b a) (map snd ?cs)"
      using assms(2) by simp
    show "distinct (map fst ?cs)" "fst ` set ?cs \<inter> cl_id ` set ?r2 = {}"
      using assms(2-4) unfolding ids by (auto dest: set_zip_leftD)
  qed (use unb in auto)
  then have "\<exists>d'. reconcile_clients ?cs d = Inr d'"
    by (auto simp: reconcile_clients_def Let_def)
  moreover have "(ca_api_token_sha256 (cc_auth c) = None) \<noteq> (ca_service_account (cc_auth c) = None)
      \<and> cc_mechanisms c \<noteq> [] \<and> (\<forall>m \<in> set (cc_mechanisms c). mech_tier m \<le> cc_max_tier c)"
    if "c \<in> set (cfg_clients cfg)" for c
    using validate_client_None [OF parts(1) [OF that]] by blast
  ultimately show ?thesis
    using parts(2,4) by (auto simp: validate_limits_def first_error_None split: if_splits)
qed

definition ex_config :: config where
  "ex_config = \<lparr>cfg_listen_addr = ''[::1]:8443'', cfg_external_url = ''https://k.example'', cfg_tls = None,
     cfg_allow_insecure_http = True, cfg_allow_insecure_http_non_loopback = False, cfg_database_url = Some ''db'',
     cfg_human_auth = \<lparr>ha_mode = Mode_Static, ha_static = Some \<lparr>sh_token_sha256 = replicate 64 (CHR ''F''), sh_subject = ''op''\<rparr>,
       ha_oidc = None\<rparr>,
     cfg_clients = [ex_configured], cfg_secrets = [], cfg_policies = [], cfg_tokenreview_url = None,
     cfg_pushover_base_url = Some ''http://127.0.0.1:9/x'', cfg_limits = default_limits\<rparr>"

definition ex_url_host :: "string \<Rightarrow> string option option" where
  "ex_url_host u = Some (Some (drop 8 u))"

theorem loaded_configuration_reconciles_witness:
  "\<exists>cfg d'. load ex_url_host None ex_config = Inr cfg \<and> reconcile_clients (zip [6] (cfg_clients cfg)) ex_old_db = Inr d'"
proof -
  have "\<not> isl (load ex_url_host None ex_config)"
    by code_simp
  then obtain cfg where cfg: "load ex_url_host None ex_config = Inr cfg"
    by (cases "load ex_url_host None ex_config") auto
  have "length (cfg_clients cfg) = 1"
    using cfg by (auto simp: load_def Let_def normalize_def ex_config_def split: option.splits)
  moreover have "set [6] \<inter> cl_id ` set (db_clients ex_old_db) = {}"
    by (simp add: ex_old_db_def ex_client_row_def)
  ultimately show ?thesis
    using loaded_configuration_reconciles [OF cfg, of "[6]" ex_old_db] cfg by auto
qed

section \<open>Configured policies\<close>

lemma canonicalize_plain:
  assumes "canonical_path q" "CHR ''%'' \<notin> set q"
  shows "canonicalize q = Inr q"
proof -
  let ?enc = "\<lambda>c. if c = CHR ''%'' then percent_escape c else [c]"
  have "canonicalize (concat (map ?enc q)) = Inr q"
    by (rule canonicalize_encode [OF _ assms(1)]) auto
  moreover have "concat (map ?enc q) = q"
    using assms(2) by (induction q) auto
  ultimately show ?thesis by simp
qed

lemma canonical_prefixes_Inr: "canonical_prefixes ps = Inr qs \<Longrightarrow> \<forall>q \<in> set qs. canonical_path q"
  by (induction ps arbitrary: qs) (auto simp: map_sum_eq_Inr split: sum.splits dest: canonicalize_canonical)

lemma canonicalize_all_plain: "\<forall>q \<in> set qs. canonicalize q = Inr q \<Longrightarrow> canonicalize_all qs = Some qs"
  by (induction qs) auto

lemma canonical_prefixes_all2: "canonical_prefixes ps = Inr qs \<Longrightarrow> list_all2 (\<lambda>p q. canonicalize p = Inr q) ps qs"
  by (induction ps arbitrary: qs) (auto simp: map_sum_eq_Inr split: sum.splits)

lemma to_new_policy_Inr:
  assumes "to_new_policy url_host p = Inr np"
  obtains origins where "parse_origins url_host (pc_origins p) = Inr origins" "np_origins np = Parsed origins"
    "pc_outcome p \<in> {''auto-approve'', ''notify-only'', ''require-approval'', ''deny''}" "np_outcome np = pc_outcome p"
    "np_mechanism np = mech_as_str (pc_mechanism p)" "np_methods np = map to_ascii_uppercase (pc_methods p)"
    "list_all is_valid_http_method (pc_methods p)" "canonical_prefixes (pc_path_prefixes p) = Inr (np_path_prefixes np)"
    "np_client_name np = pc_client p" "np_secret_name np = pc_secret p" "np_secret_tag np = pc_secret_tag p"
    "pc_secret p = None \<or> pc_secret_tag p = None"
    "pc_mechanism p = Mech_Brokered \<Longrightarrow> pc_outcome p \<in> {''auto-approve'', ''notify-only''} \<Longrightarrow> origins \<noteq> []"
proof -
  from assms obtain origins where o: "(pc_secret p \<noteq> None \<and> pc_secret_tag p \<noteq> None) = False"
      "(pc_outcome p \<notin> {''auto-approve'', ''notify-only'', ''require-approval'', ''deny''}) = False"
      "parse_origins url_host (pc_origins p) = Inr origins"
      "(pc_mechanism p = Mech_Brokered \<and> origins = [] \<and> pc_outcome p \<in> {''auto-approve'', ''notify-only''}) = False"
    by (simp add: to_new_policy_def split: if_splits sum.splits)
  have m: "find (\<lambda>m. \<not> is_valid_http_method m) (pc_methods p) = None"
    using assms by (simp only: to_new_policy_def o if_False sum.case) (auto split: option.splits)
  then have valid: "list_all is_valid_http_method (pc_methods p)"
    by (auto simp: find_None_iff list_all_iff)
  obtain qs where q: "canonical_prefixes (pc_path_prefixes p) = Inr qs"
    using assms by (simp only: to_new_policy_def o m if_False sum.case option.case) (auto split: sum.splits)
  from assms have np: "np = \<lparr>np_client_name = pc_client p, np_secret_name = pc_secret p, np_secret_tag = pc_secret_tag p,
             np_mechanism = mech_as_str (pc_mechanism p), np_outcome = pc_outcome p,
             np_priority = pc_priority p, np_origins = Parsed origins,
             np_methods = map to_ascii_uppercase (pc_methods p), np_path_prefixes = qs,
             np_max_ttl_seconds = pc_max_ttl_seconds p, np_max_uses = pc_max_uses p,
             np_not_after = pc_not_after p, np_created_by = CONFIG_ACTOR\<rparr>"
    by (simp only: to_new_policy_def o m q if_False sum.case option.case) (simp split: if_splits)
  show thesis
    using o q valid by (intro that [of origins]) (auto simp: np)
qed

text \<open>a configured policy means what it says.  When a configured policy is accepted and its stored prefixes
  contain no percent sign, the row written for it is read back by the engine as a rule with the configured
  client, secret, mechanism and outcome, the parsed origins, the methods in upper case and the
  canonical forms of the prefixes.  A brokered rule that releases without an operator names an origin.\<close>

theorem configured_policy_readable:
  assumes "to_new_policy url_host p = Inr np" and "\<forall>q \<in> set (np_path_prefixes np). CHR ''%'' \<notin> set q"
  shows "\<exists>rule. parse_policy_row (new_policy_row now i np by_whom managed) = Some rule
    \<and> pr_client_name rule = pc_client p \<and> pr_secret_name rule = pc_secret p \<and> pr_secret_tag rule = pc_secret_tag p
    \<and> pr_mechanism rule = pc_mechanism p \<and> outcome_from_str_opt (pc_outcome p) = Some (pr_outcome rule)
    \<and> parse_origins url_host (pc_origins p) = Inr (pr_origins rule)
    \<and> pr_methods rule = map to_ascii_uppercase (pc_methods p)
    \<and> list_all2 (\<lambda>a b. canonicalize a = Inr b) (pc_path_prefixes p) (pr_path_prefixes rule)
    \<and> (pc_mechanism p = Mech_Brokered \<and> pr_outcome rule \<in> {Out_AutoApprove, Out_NotifyOnly} \<longrightarrow> pr_origins rule \<noteq> [])"
  using assms(1)
proof (rule to_new_policy_Inr)
  fix origins
  assume np: "parse_origins url_host (pc_origins p) = Inr origins" "np_origins np = Parsed origins"
    "pc_outcome p \<in> {''auto-approve'', ''notify-only'', ''require-approval'', ''deny''}" "np_outcome np = pc_outcome p"
    "np_mechanism np = mech_as_str (pc_mechanism p)" "np_methods np = map to_ascii_uppercase (pc_methods p)"
    "list_all is_valid_http_method (pc_methods p)" "canonical_prefixes (pc_path_prefixes p) = Inr (np_path_prefixes np)"
    "np_client_name np = pc_client p" "np_secret_name np = pc_secret p" "np_secret_tag np = pc_secret_tag p"
    and need: "pc_mechanism p = Mech_Brokered \<Longrightarrow> pc_outcome p \<in> {''auto-approve'', ''notify-only''} \<Longrightarrow> origins \<noteq> []"
  obtain oc where oc: "outcome_from_str_opt (pc_outcome p) = Some oc"
    using np(3) by (auto simp: outcome_from_str_opt_def)
  have "pc_outcome p \<in> {''auto-approve'', ''notify-only''}" if "oc \<in> {Out_AutoApprove, Out_NotifyOnly}"
    using oc that np(3) by (auto simp: outcome_from_str_opt_def)
  moreover have "canonicalize_all (np_path_prefixes np) = Some (np_path_prefixes np)"
    using canonicalize_all_plain canonical_prefixes_Inr [OF np(8)] assms(2) canonicalize_plain by blast
  moreover have "list_all is_valid_http_method (map to_ascii_uppercase (pc_methods p))"
    using np(7) by (auto simp: list_all_iff valid_method_upper)
  ultimately show ?thesis
    using np need oc canonical_prefixes_all2 [OF np(8)]
    by (simp add: parse_policy_row_def new_policy_row_def)
qed

definition ex_policy_config :: policy_config where
  "ex_policy_config = \<lparr>pc_client = Some ''fa'', pc_secret = None, pc_secret_tag = Some ''ci'', pc_mechanism = Mech_Brokered,
     pc_outcome = ''auto-approve'', pc_priority = 0, pc_origins = [''api.example''], pc_methods = [''get''],
     pc_path_prefixes = [''/v1/%61''], pc_max_ttl_seconds = Some 60, pc_max_uses = None, pc_not_after = None\<rparr>"

theorem configured_policy_readable_witness:
  "\<exists>np rule. to_new_policy ex_url_host ex_policy_config = Inr np
     \<and> parse_policy_row (new_policy_row 1 2 np ''config'' True) = Some rule \<and> pr_methods rule = [''GET'']"
proof -
  let ?np = "projr (to_new_policy ex_url_host ex_policy_config)"
  have "\<not> isl (to_new_policy ex_url_host ex_policy_config)"
    and q: "\<forall>q \<in> set (np_path_prefixes ?np). CHR ''%'' \<notin> set q"
    and m: "map to_ascii_uppercase (pc_methods ex_policy_config) = [''GET'']"
    by code_simp+
  then have np: "to_new_policy ex_url_host ex_policy_config = Inr ?np"
    by simp
  from configured_policy_readable [OF np q, of 1 2 "''config''" True] np m show ?thesis by auto
qed

text \<open>A userinfo part makes the plaintext check see a loopback host although the URL names another one.\<close>

lemma userinfo_passes_loopback_check:
  "validate_outbound_https ''tokenreview_url'' ''http://localhost:x@evil.example/'' False = None"
  by code_simp

end
