(* ===== verification/Human_Auth.thy ===== *)
theory Human_Auth
  imports Config
begin

text \<open>
  The authentication of the operator (\<open>server/src/authn/human.rs\<close>): the static bearer token, and OIDC
  tokens checked against a cached JWKS document and an allowlist.

  The JWT library, the key material and the HTTP fetch of the document are parameters.  Instants are
  readings of the monotonic clock in nanoseconds.
\<close>

section \<open>Operators\<close>

record operator =
  op_subject :: string

abbreviation UNAUTHORIZED :: nat where "UNAUTHORIZED \<equiv> 401"
abbreviation FORBIDDEN :: nat where "FORBIDDEN \<equiv> 403"
abbreviation INTERNAL_SERVER_ERROR :: nat where "INTERNAL_SERVER_ERROR \<equiv> 500"

definition authenticate_static :: "(string \<Rightarrow> string) \<Rightarrow> static_human_auth \<Rightarrow> string option \<Rightarrow> nat + operator" where
  "authenticate_static sha256_hex cfg bearer =
     (case bearer of
        None \<Rightarrow> Inl UNAUTHORIZED
      | Some token \<Rightarrow>
          (let got = sha256_hex token; want = to_ascii_lowercase (sh_token_sha256 cfg)
           in if ct_eq got want then Inr \<lparr>op_subject = sh_subject cfg\<rparr> else Inl UNAUTHORIZED))"

section \<open>Keys and their cache\<close>

datatype jwt_algorithm = RS256 | ES256 | Other_algorithm string

datatype key_use = Use_Signature | Use_Encryption | Use_Other string

datatype key_operation = Op_Verify | Op_Other string

datatype key_family = Family_RSA | Family_EC | Family_Other

record jwk =
  jwk_key_id :: "string option"
  jwk_public_key_use :: "key_use option"
  jwk_key_operations :: "key_operation list option"
  jwk_algorithm :: key_family
  jwk_material :: bytes

record cached_jwks =
  cj_keys :: "string \<rightharpoonup> jwk"
  cj_fetched_at :: int
  cj_last_attempt :: int

type_synonym jwks_cache = "string \<rightharpoonup> cached_jwks"

definition JWKS_MIN_REFRESH :: int where "JWKS_MIN_REFRESH = 10 * 10 ^ 9"
definition JWKS_MAX_AGE :: int where "JWKS_MAX_AGE = 10 * 60 * 10 ^ 9"
definition JWKS_STALE_IF_ERROR_MAX :: int where "JWKS_STALE_IF_ERROR_MAX = 60 * 60 * 10 ^ 9"

datatype cache_action = Serve | Refresh | RateLimited

text \<open>\<open>(has_kid, age, attempt_age)\<close>, \<^term>\<open>None\<close> when nothing is cached for the URL.\<close>

fun cache_action_of :: "(bool \<times> int \<times> int) option \<Rightarrow> cache_action" where
  "cache_action_of None = Refresh"
| "cache_action_of (Some (has_kid, age, attempt_age)) =
     (if has_kid \<and> age < JWKS_MAX_AGE then Serve
      else if attempt_age < JWKS_MIN_REFRESH then RateLimited
      else Refresh)"

text \<open>The document as a map: \<open>collect\<close> into a \<open>HashMap\<close> keeps the last key of an id; keys without an id
  are dropped.\<close>

definition keys_by_id :: "jwk list \<Rightarrow> (string \<rightharpoonup> jwk)" where
  "keys_by_id ks = map_of (rev (List.map_filter (\<lambda>k. map_option (\<lambda>kid. (kid, k)) (jwk_key_id k)) ks))"

text \<open>One call: the instants at which \<open>elapsed()\<close> is taken for the grace, the age and the last attempt,
  the instant after the fetch, and what the fetch of a URL gives (\<^term>\<open>None\<close> when it fails).\<close>

record jwks_call =
  jc_grace_at :: int
  jc_age_at :: int
  jc_attempt_at :: int
  jc_done_at :: int
  jc_fetch :: "string \<Rightarrow> jwk list option"

text \<open>\<open>Instant::elapsed\<close> saturates at zero.\<close>

definition elapsed :: "int \<Rightarrow> int \<Rightarrow> int" where
  "elapsed now since = max 0 (now - since)"

definition record_attempt :: "string \<Rightarrow> int \<Rightarrow> jwks_cache \<Rightarrow> jwks_cache" where
  "record_attempt url now cache =
     cache(url \<mapsto> (case cache url of
                      None \<Rightarrow> \<lparr>cj_keys = Map.empty, cj_fetched_at = now, cj_last_attempt = now\<rparr>
                    | Some c \<Rightarrow> c\<lparr>cj_last_attempt := now\<rparr>))"

definition jwks_action :: "jwks_call \<Rightarrow> string \<Rightarrow> string \<Rightarrow> jwks_cache \<Rightarrow> cache_action" where
  "jwks_action call url kid cache =
     cache_action_of
       (map_option (\<lambda>c. (cj_keys c kid \<noteq> None, elapsed (jc_age_at call) (cj_fetched_at c),
                         elapsed (jc_attempt_at call) (cj_last_attempt c))) (cache url))"

text \<open>A call runs to its end here: a request dropped by its client during the fetch, which records no attempt,
  is not a step of the model.\<close>

definition jwk_for_kid :: "jwks_call \<Rightarrow> string \<Rightarrow> string \<Rightarrow> jwks_cache \<Rightarrow> (nat + jwk) \<times> jwks_cache" where
  "jwk_for_kid call url kid cache =
     (let entry = cache url;
          stale_hit = Option.bind entry (\<lambda>c. cj_keys c kid);
          within_grace = (case entry of
                            None \<Rightarrow> False
                          | Some c \<Rightarrow> elapsed (jc_grace_at call) (cj_fetched_at c) < JWKS_STALE_IF_ERROR_MAX);
          action = jwks_action call url kid cache
      in case action of
           Serve \<Rightarrow> ((case stale_hit of Some k \<Rightarrow> Inr k | None \<Rightarrow> Inl UNAUTHORIZED), cache)
         | RateLimited \<Rightarrow>
             ((case stale_hit of Some k \<Rightarrow> if within_grace then Inr k else Inl UNAUTHORIZED
               | None \<Rightarrow> Inl UNAUTHORIZED), cache)
         | Refresh \<Rightarrow>
             (case jc_fetch call url of
                Some ks \<Rightarrow>
                  (let now = jc_done_at call;
                       cached = \<lparr>cj_keys = keys_by_id ks, cj_fetched_at = now, cj_last_attempt = now\<rparr>
                   in ((case cj_keys cached kid of Some k \<Rightarrow> Inr k | None \<Rightarrow> Inl UNAUTHORIZED),
                       cache(url \<mapsto> cached)))
              | None \<Rightarrow>
                  ((case stale_hit of Some k \<Rightarrow> if within_grace then Inr k else Inl UNAUTHORIZED
                    | None \<Rightarrow> Inl UNAUTHORIZED),
                   record_attempt url (jc_done_at call) cache)))"

section \<open>OIDC tokens\<close>

record jwt_header =
  jh_alg :: jwt_algorithm
  jh_kid :: "string option"

record validation =
  va_algorithm :: jwt_algorithm
  va_required_spec_claims :: "string set"
  va_issuer :: "string set"
  va_audience :: "string set"
  va_leeway :: nat
  va_validate_exp :: bool
  va_validate_nbf :: bool

text \<open>\<open>ji_decode now token key validation\<close> is the library's \<open>decode\<close>: the claims of a token whose
  signature and registered claims pass, at the wall clock \<open>now\<close>.\<close>

record jwt_env =
  ji_decode_header :: "string \<Rightarrow> jwt_header option"
  ji_key_ok :: "jwk \<Rightarrow> bool"
  ji_decode :: "int \<Rightarrow> string \<Rightarrow> jwk \<Rightarrow> validation \<Rightarrow> json option"

definition oidc_validation :: "oidc_human_auth \<Rightarrow> jwt_algorithm \<Rightarrow> validation" where
  "oidc_validation cfg alg =
     \<lparr>va_algorithm = alg, va_required_spec_claims = {''exp'', ''iss'', ''aud'', ''sub''},
      va_issuer = {oi_issuer cfg}, va_audience = {oi_audience cfg}, va_leeway = oi_clock_skew_seconds cfg,
      va_validate_exp = True, va_validate_nbf = True\<rparr>"

fun json_get :: "string \<Rightarrow> json \<Rightarrow> json option" where
  "json_get k (JObject fs) = map_of fs k"
| "json_get k _ = None"

fun json_as_str :: "json \<Rightarrow> string option" where
  "json_as_str (JString s) = Some s"
| "json_as_str _ = None"

fun json_as_array :: "json \<Rightarrow> json list option" where
  "json_as_array (JArray vs) = Some vs"
| "json_as_array _ = None"

definition authorize_claims :: "oidc_human_auth \<Rightarrow> string \<Rightarrow> json \<Rightarrow> bool" where
  "authorize_claims cfg sub claims \<longleftrightarrow>
     (if list_ex (\<lambda>s. s = sub) (oi_allowed_subjects cfg) then True
      else (case oi_allowed_group cfg of
              None \<Rightarrow> False
            | Some grp \<Rightarrow>
                (case Option.bind (json_get (oi_group_claim cfg) claims) json_as_array of
                   Some values \<Rightarrow> list_ex (\<lambda>v. json_as_str v = Some grp) values
                 | None \<Rightarrow> False)))"

definition family_ok :: "key_family \<Rightarrow> jwt_algorithm \<Rightarrow> bool" where
  "family_ok f alg \<longleftrightarrow> (f, alg) \<in> {(Family_RSA, RS256), (Family_EC, ES256)}"

definition signing_key :: "jwk \<Rightarrow> bool" where
  "signing_key k \<longleftrightarrow>
     (case jwk_public_key_use k of None \<Rightarrow> True | Some u \<Rightarrow> u = Use_Signature)
     \<and> (case jwk_key_operations k of None \<Rightarrow> True | Some ops \<Rightarrow> Op_Verify \<in> set ops)"

definition authenticate_oidc ::
  "jwt_env \<Rightarrow> int \<Rightarrow> jwks_call \<Rightarrow> oidc_human_auth \<Rightarrow> string option \<Rightarrow> jwks_cache \<Rightarrow> (nat + operator) \<times> jwks_cache" where
  "authenticate_oidc je now call cfg bearer cache =
     (case bearer of
        None \<Rightarrow> (Inl UNAUTHORIZED, cache)
      | Some token \<Rightarrow>
     (case ji_decode_header je token of
        None \<Rightarrow> (Inl UNAUTHORIZED, cache)
      | Some header \<Rightarrow>
     (if jh_alg header \<noteq> RS256 \<and> jh_alg header \<noteq> ES256 then (Inl UNAUTHORIZED, cache)
      else
     (case jh_kid header of
        None \<Rightarrow> (Inl UNAUTHORIZED, cache)
      | Some kid \<Rightarrow>
     (case jwk_for_kid call (oi_jwks_url cfg) kid cache of
        (Inl e, cache1) \<Rightarrow> (Inl e, cache1)
      | (Inr key, cache1) \<Rightarrow>
          (if \<not> signing_key key then Inl UNAUTHORIZED
           else if \<not> family_ok (jwk_algorithm key) (jh_alg header) then Inl UNAUTHORIZED
           else if \<not> ji_key_ok je key then Inl UNAUTHORIZED
           else
             (case ji_decode je now token key (oidc_validation cfg (jh_alg header)) of
                None \<Rightarrow> Inl UNAUTHORIZED
              | Some claims \<Rightarrow>
                  (case Option.bind (json_get ''sub'' claims) json_as_str of
                     None \<Rightarrow> Inl UNAUTHORIZED
                   | Some sub \<Rightarrow>
                       if authorize_claims cfg sub claims then Inr \<lparr>op_subject = sub\<rparr>
                       else Inl FORBIDDEN)), cache1))))))"

definition authenticate_human ::
  "(string \<Rightarrow> string) \<Rightarrow> jwt_env \<Rightarrow> int \<Rightarrow> jwks_call \<Rightarrow> human_auth_config \<Rightarrow> string option \<Rightarrow> jwks_cache
   \<Rightarrow> (nat + operator) \<times> jwks_cache" where
  "authenticate_human sha256_hex je now call ha header cache =
     (let bearer = bearer_token header
      in case ha_mode ha of
           Mode_Static \<Rightarrow>
             (case ha_static ha of
                None \<Rightarrow> (Inl INTERNAL_SERVER_ERROR, cache)
              | Some cfg \<Rightarrow> (authenticate_static sha256_hex cfg bearer, cache))
         | Mode_Oidc \<Rightarrow>
             (case ha_oidc ha of
                None \<Rightarrow> (Inl INTERNAL_SERVER_ERROR, cache)
              | Some cfg \<Rightarrow> authenticate_oidc je now call cfg bearer cache))"

section \<open>Which keys authenticate\<close>

text \<open>The cache over time, with the log of the fetches (newest first) and the clock.\<close>

type_synonym jwks_log = "(int \<times> string \<times> jwk list option) list"

definition call_ordered :: "int \<Rightarrow> jwks_call \<Rightarrow> bool" where
  "call_ordered t call \<longleftrightarrow>
     t \<le> jc_grace_at call \<and> jc_grace_at call \<le> jc_age_at call \<and> jc_age_at call \<le> jc_attempt_at call
     \<and> jc_attempt_at call \<le> jc_done_at call"

inductive jwks_reach :: "int \<Rightarrow> int \<times> jwks_cache \<times> jwks_log \<Rightarrow> bool" for t0 :: int where
  jwks_init: "jwks_reach t0 (t0, Map.empty, [])"
| jwks_call_step: "jwks_reach t0 (t, cache, h) \<Longrightarrow> call_ordered t call \<Longrightarrow>
    jwk_for_kid call url kid cache = (res, cache') \<Longrightarrow>
    h' = (if jwks_action call url kid cache = Refresh then (jc_done_at call, url, jc_fetch call url) # h else h) \<Longrightarrow>
    jwks_reach t0 (jc_done_at call, cache', h')"

definition fetches_of :: "string \<Rightarrow> jwks_log \<Rightarrow> jwks_log" where
  "fetches_of url h = filter (\<lambda>(t, u, r). u = url) h"

text \<open>The document in force: the last one that was fetched.\<close>

definition last_good :: "string \<Rightarrow> jwks_log \<Rightarrow> (int \<times> jwk list) option" where
  "last_good url h =
     map_option (\<lambda>(t, u, r). (t, the r)) (find (\<lambda>(t, u, r). u = url \<and> r \<noteq> None) h)"

definition fetches_spaced :: "int \<Rightarrow> int \<Rightarrow> jwks_log \<Rightarrow> bool" where
  "fetches_spaced t0 t h \<longleftrightarrow>
     sorted_wrt (\<lambda>(a, _) (b, _). b + JWKS_MIN_REFRESH \<le> a) h \<and> (\<forall>(a, _) \<in> set h. t0 \<le> a \<and> a \<le> t)"

definition cache_reflects :: "jwks_cache \<Rightarrow> jwks_log \<Rightarrow> bool" where
  "cache_reflects cache h \<longleftrightarrow>
     (\<forall>url. case cache url of
        None \<Rightarrow> fetches_of url h = []
      | Some c \<Rightarrow> (\<exists>r rest. fetches_of url h = (cj_last_attempt c, url, r) # rest)
          \<and> (case last_good url h of
               None \<Rightarrow> cj_keys c = Map.empty
             | Some (f, ks) \<Rightarrow> cj_fetched_at c = f \<and> cj_keys c = keys_by_id ks))"

lemma cache_reflects_Some:
  assumes "cache_reflects cache h" "cache url = Some c"
  obtains r rest where "fetches_of url h = (cj_last_attempt c, url, r) # rest"
    "last_good url h = None \<Longrightarrow> cj_keys c = Map.empty"
    "\<And>f ks. last_good url h = Some (f, ks) \<Longrightarrow> cj_fetched_at c = f \<and> cj_keys c = keys_by_id ks"
  using assms(1) [unfolded cache_reflects_def, THEN spec, of url] assms(2) that by fastforce

lemma fetches_of_Cons [simp]:
  "fetches_of url ((t, u, r) # h) = (if u = url then [(t, u, r)] else []) @ fetches_of url h"
  by (simp add: fetches_of_def)

lemma last_good_Cons [simp]:
  "last_good url ((t, u, r) # h) = (if u = url \<and> r \<noteq> None then Some (t, the r) else last_good url h)"
  by (auto simp: last_good_def)

lemma last_good_Nil [simp]: "last_good url [] = None"
  by (simp add: last_good_def)

lemma jwk_for_kid_cache:
  "snd (jwk_for_kid call url kid cache) =
     (if jwks_action call url kid cache = Refresh
      then (case jc_fetch call url of
              Some ks \<Rightarrow> cache(url \<mapsto> \<lparr>cj_keys = keys_by_id ks, cj_fetched_at = jc_done_at call,
                                      cj_last_attempt = jc_done_at call\<rparr>)
            | None \<Rightarrow> record_attempt url (jc_done_at call) cache)
      else cache)"
  by (simp add: jwk_for_kid_def Let_def split: cache_action.splits option.splits)

lemma cache_reflects_fetch:
  assumes "cache_reflects cache h"
  shows "cache_reflects (snd (jwk_for_kid call url kid cache))
    (if jwks_action call url kid cache = Refresh then (jc_done_at call, url, jc_fetch call url) # h else h)"
proof (cases "jwks_action call url kid cache = Refresh")
  case False
  with assms show ?thesis by (simp add: jwk_for_kid_cache)
next
  case True
  have none: "last_good url h = None" if "cache url = None"
  proof -
    have "fetches_of url h = []"
      using assms that by (auto simp: cache_reflects_def dest: spec [of _ url])
    then show ?thesis
      by (auto simp: fetches_of_def last_good_def filter_empty_conv find_None_iff)
  qed
  show ?thesis
    unfolding cache_reflects_def
  proof
    fix u
    have "case cache u of
        None \<Rightarrow> fetches_of u h = []
      | Some c \<Rightarrow> (\<exists>r rest. fetches_of u h = (cj_last_attempt c, u, r) # rest)
          \<and> (case last_good u h of
               None \<Rightarrow> cj_keys c = Map.empty
             | Some (f, ks) \<Rightarrow> cj_fetched_at c = f \<and> cj_keys c = keys_by_id ks)"
      using assms by (simp add: cache_reflects_def)
    with True none show "case snd (jwk_for_kid call url kid cache) u of
        None \<Rightarrow> fetches_of u (if jwks_action call url kid cache = Refresh
                 then (jc_done_at call, url, jc_fetch call url) # h else h) = []
      | Some c \<Rightarrow> (\<exists>r rest. fetches_of u (if jwks_action call url kid cache = Refresh
                 then (jc_done_at call, url, jc_fetch call url) # h else h) = (cj_last_attempt c, u, r) # rest)
          \<and> (case last_good u (if jwks_action call url kid cache = Refresh
                 then (jc_done_at call, url, jc_fetch call url) # h else h) of
               None \<Rightarrow> cj_keys c = Map.empty
             | Some (f, ks) \<Rightarrow> cj_fetched_at c = f \<and> cj_keys c = keys_by_id ks)"
      by (auto simp: jwk_for_kid_cache record_attempt_def split: option.splits)
  qed
qed

lemma refresh_spaced:
  assumes "cache_reflects cache h" "fetches_spaced t0 t (fetches_of url h)" "call_ordered t call" "t0 \<le> t"
    "jwks_action call url kid cache = Refresh"
  shows "fetches_spaced t0 (jc_done_at call) ((jc_done_at call, url, r) # fetches_of url h)"
proof (cases "cache url")
  case None
  with assms show ?thesis
    by (auto simp: cache_reflects_def fetches_spaced_def call_ordered_def dest: spec [of _ url])
next
  case (Some c)
  from assms(1) Some obtain r' rest where f: "fetches_of url h = (cj_last_attempt c, url, r') # rest"
    by (rule cache_reflects_Some)
  have "cj_last_attempt c + JWKS_MIN_REFRESH \<le> jc_attempt_at call"
    using assms(2,3,5) Some f
    by (auto simp: jwks_action_def elapsed_def fetches_spaced_def call_ordered_def split: if_splits)
  moreover have "b + JWKS_MIN_REFRESH \<le> cj_last_attempt c" if "(b, x) \<in> set rest" for b x
    using assms(2) that by (auto simp: f fetches_spaced_def)
  moreover have "0 \<le> JWKS_MIN_REFRESH"
    by (simp add: JWKS_MIN_REFRESH_def)
  ultimately have "b + JWKS_MIN_REFRESH \<le> jc_done_at call" if "(b, x) \<in> set (fetches_of url h)" for b x
    using assms(3) that by (fastforce simp: f call_ordered_def)
  with assms(2,3,4) show ?thesis
    by (fastforce simp: fetches_spaced_def call_ordered_def)
qed

lemma jwks_reach_inv:
  assumes "jwks_reach t0 s"
  shows "t0 \<le> fst s \<and> cache_reflects (fst (snd s)) (snd (snd s))
    \<and> (\<forall>url. fetches_spaced t0 (fst s) (fetches_of url (snd (snd s))))"
  using assms
proof induction
  case jwks_init
  then show ?case by (simp add: cache_reflects_def fetches_of_def fetches_spaced_def)
next
  case (jwks_call_step t cache h call url kid res cache' h')
  have c: "cache' = snd (jwk_for_kid call url kid cache)"
    using jwks_call_step.hyps(3) by simp
  have ih: "cache_reflects cache h" "t0 \<le> t" "\<And>u. fetches_spaced t0 t (fetches_of u h)"
    using jwks_call_step.IH by auto
  have late: "fetches_spaced t0 (jc_done_at call) (fetches_of u h)" for u
    using ih(3) [of u] jwks_call_step.hyps(2) by (fastforce simp: fetches_spaced_def call_ordered_def)
  have "fetches_spaced t0 (jc_done_at call) (fetches_of u h')" for u
    using late [of u] refresh_spaced [OF ih(1) ih(3) jwks_call_step.hyps(2) ih(2)] jwks_call_step.hyps(4)
    by (auto split: if_splits)
  moreover have "t0 \<le> jc_done_at call"
    using ih(2) jwks_call_step.hyps(2) by (simp add: call_ordered_def)
  ultimately show ?case
    using cache_reflects_fetch [OF ih(1), of call url kid] jwks_call_step.hyps(4) by (simp add: c)
qed

lemma fetches_spaced_length:
  assumes "fetches_spaced t0 t h" "t0 \<le> t"
  shows "int (length h) * JWKS_MIN_REFRESH \<le> t - t0 + JWKS_MIN_REFRESH"
  using assms
proof (induction h arbitrary: t)
  case Nil
  then show ?case by (simp add: JWKS_MIN_REFRESH_def)
next
  case (Cons e h)
  obtain a x where e: "e = (a, x)" by (cases e)
  show ?case
  proof (cases h)
    case Nil
    with Cons.prems show ?thesis by simp
  next
    case (Cons e' h')
    have "fetches_spaced t0 (a - JWKS_MIN_REFRESH) h" "t0 \<le> a - JWKS_MIN_REFRESH" "a \<le> t"
      using Cons.prems local.Cons by (fastforce simp: fetches_spaced_def e)+
    with Cons.IH [of "a - JWKS_MIN_REFRESH"] show ?thesis
      by (simp add: algebra_simps)
  qed
qed

text \<open>A key that authenticates at \<open>now\<close> is the one its id has in the document in force: the one
  fetched by this very call, or the last one fetched before, then less than an hour ago.\<close>

definition trusted_key :: "jwks_call \<Rightarrow> string \<Rightarrow> string \<Rightarrow> jwks_log \<Rightarrow> jwk \<Rightarrow> bool" where
  "trusted_key call url kid h k \<longleftrightarrow>
     (\<exists>ks. jc_fetch call url = Some ks \<and> keys_by_id ks kid = Some k)
     \<or> (\<exists>f ks. last_good url h = Some (f, ks) \<and> keys_by_id ks kid = Some k
            \<and> jc_grace_at call - f < JWKS_STALE_IF_ERROR_MAX)"

lemma jwk_for_kid_trusted:
  assumes "jwks_reach t0 (t, cache, h)" "call_ordered t call" "jwk_for_kid call url kid cache = (Inr k, cache')"
  shows "trusted_key call url kid h k"
proof (cases "jwks_action call url kid cache = Refresh \<and> jc_fetch call url \<noteq> None")
  case True
  with assms(3) show ?thesis
    by (auto simp: jwk_for_kid_def trusted_key_def Let_def split: option.splits)
next
  case False
  obtain c where c: "cache url = Some c" "cj_keys c kid = Some k"
    and age: "elapsed (jc_grace_at call) (cj_fetched_at c) < JWKS_STALE_IF_ERROR_MAX
      \<or> elapsed (jc_age_at call) (cj_fetched_at c) < JWKS_MAX_AGE"
    using assms(3) False
    by (auto simp: jwk_for_kid_def jwks_action_def Let_def bind_eq_Some_conv
        split: cache_action.splits option.splits if_splits)
  have "cache_reflects cache h"
    using jwks_reach_inv [OF assms(1)] by simp
  from this c(1) obtain r rest where
    "last_good url h = None \<Longrightarrow> cj_keys c = Map.empty"
    "\<And>f ks. last_good url h = Some (f, ks) \<Longrightarrow> cj_fetched_at c = f \<and> cj_keys c = keys_by_id ks"
    by (rule cache_reflects_Some) blast
  with c(2) obtain f ks where f: "last_good url h = Some (f, ks)" "cj_fetched_at c = f" "keys_by_id ks kid = Some k"
    by (cases "last_good url h") auto
  have "jc_grace_at call - f < JWKS_STALE_IF_ERROR_MAX"
    using age assms(2)
    by (auto simp: f(2) elapsed_def call_ordered_def JWKS_MAX_AGE_def JWKS_STALE_IF_ERROR_MAX_def)
  with f show ?thesis
    by (auto simp: trusted_key_def)
qed

definition on_allowlist :: "oidc_human_auth \<Rightarrow> string \<Rightarrow> json \<Rightarrow> bool" where
  "on_allowlist cfg sub claims \<longleftrightarrow>
     sub \<in> set (oi_allowed_subjects cfg)
     \<or> (\<exists>g vs. oi_allowed_group cfg = Some g \<and> json_get (oi_group_claim cfg) claims = Some (JArray vs)
            \<and> JString g \<in> set vs)"

lemma json_as_str_Some: "json_as_str v = Some s \<longleftrightarrow> v = JString s"
  by (cases v) auto

lemma json_as_array_Some: "json_as_array v = Some vs \<longleftrightarrow> v = JArray vs"
  by (cases v) auto

lemma authorize_claims_iff: "authorize_claims cfg sub claims \<longleftrightarrow> on_allowlist cfg sub claims"
  by (auto simp: authorize_claims_def on_allowlist_def list_ex_iff bind_eq_Some_conv json_as_str_Some
      json_as_array_Some split: option.splits)

lemma authenticate_oidc_Inr:
  assumes "authenticate_oidc je now call cfg bearer cache = (Inr op, cache')"
  obtains token hd kid key claims where "bearer = Some token" "ji_decode_header je token = Some hd"
    "jh_kid hd = Some kid" "jwk_for_kid call (oi_jwks_url cfg) kid cache = (Inr key, cache')"
    "signing_key key" "family_ok (jwk_algorithm key) (jh_alg hd)"
    "ji_decode je now token key (oidc_validation cfg (jh_alg hd)) = Some claims"
    "json_get ''sub'' claims = Some (JString (op_subject op))" "authorize_claims cfg (op_subject op) claims"
  using assms
  by (auto simp: authenticate_oidc_def bind_eq_Some_conv json_as_str_Some
      split: option.splits if_splits sum.splits prod.splits)

text \<open>C27: whoever is authenticated as the operator presented the configured static token, or a token
  that verifies under a signing key of the matching family out of the provider's document in force,
  for the configured issuer and audience, and whose subject or group is on the allowlist.\<close>

theorem operator_authorized:
  assumes "jwks_reach t0 (t, cache, h)" "call_ordered t call"
    and "authenticate_human sha256_hex je now call ha header cache = (Inr op, cache')"
  shows "\<exists>token. bearer_token header = Some token \<and>
    (case ha_mode ha of
       Mode_Static \<Rightarrow> \<exists>cfg. ha_static ha = Some cfg \<and> op_subject op = sh_subject cfg
         \<and> sha256_hex token = to_ascii_lowercase (sh_token_sha256 cfg)
     | Mode_Oidc \<Rightarrow> \<exists>cfg hd kid key claims. ha_oidc ha = Some cfg
         \<and> ji_decode_header je token = Some hd \<and> jh_kid hd = Some kid
         \<and> trusted_key call (oi_jwks_url cfg) kid h key \<and> signing_key key \<and> family_ok (jwk_algorithm key) (jh_alg hd)
         \<and> ji_decode je now token key (oidc_validation cfg (jh_alg hd)) = Some claims
         \<and> json_get ''sub'' claims = Some (JString (op_subject op)) \<and> on_allowlist cfg (op_subject op) claims)"
proof (cases "ha_mode ha")
  case Mode_Static
  with assms(3) show ?thesis
    by (auto simp: authenticate_human_def authenticate_static_def Let_def ct_eq_def split: option.splits if_splits)
next
  case Mode_Oidc
  with assms(3) obtain cfg where cfg: "ha_oidc ha = Some cfg"
    "authenticate_oidc je now call cfg (bearer_token header) cache = (Inr op, cache')"
    by (auto simp: authenticate_human_def split: option.splits)
  from cfg(2) show ?thesis
    by (rule authenticate_oidc_Inr)
      (simp add: Mode_Oidc cfg(1) authorize_claims_iff, blast intro: jwk_for_kid_trusted [OF assms(1,2)])
qed

definition ex_key :: jwk where
  "ex_key = \<lparr>jwk_key_id = Some ''k1'', jwk_public_key_use = Some Use_Signature, jwk_key_operations = None,
     jwk_algorithm = Family_RSA, jwk_material = ''m''\<rparr>"

definition ex_jwks_call :: jwks_call where
  "ex_jwks_call = \<lparr>jc_grace_at = 5, jc_age_at = 5, jc_attempt_at = 5, jc_done_at = 6, jc_fetch = (\<lambda>u. Some [ex_key])\<rparr>"

definition ex_jwt_env :: jwt_env where
  "ex_jwt_env = \<lparr>ji_decode_header = (\<lambda>s. Some \<lparr>jh_alg = RS256, jh_kid = Some ''k1''\<rparr>), ji_key_ok = (\<lambda>k. True),
     ji_decode = (\<lambda>now s k v. if s = ''jwt'' then Some (JObject [(''sub'', JString ''alice''),
       (''groups'', JArray [JString ''ops''])]) else None)\<rparr>"

definition ex_oidc :: oidc_human_auth where
  "ex_oidc = \<lparr>oi_issuer = ''i'', oi_audience = ''a'', oi_jwks_url = ''u'', oi_allowed_subjects = [],
     oi_allowed_group = Some ''ops'', oi_group_claim = ''groups'', oi_clock_skew_seconds = 60\<rparr>"

definition ex_human_auth :: human_auth_config where
  "ex_human_auth = \<lparr>ha_mode = Mode_Oidc, ha_static = None, ha_oidc = Some ex_oidc\<rparr>"

theorem operator_authorized_witness:
  "\<exists>cache'. authenticate_human id ex_jwt_env 7 ex_jwks_call ex_human_auth (Some ''Bearer jwt'') Map.empty
       = (Inr \<lparr>op_subject = ''alice''\<rparr>, cache')
     \<and> trusted_key ex_jwks_call ''u'' ''k1'' [] ex_key"
proof -
  let ?r = "authenticate_human id ex_jwt_env 7 ex_jwks_call ex_human_auth (Some ''Bearer jwt'') Map.empty"
  have "fst ?r = Inr \<lparr>op_subject = ''alice''\<rparr>"
    by code_simp
  then have r: "?r = (Inr \<lparr>op_subject = ''alice''\<rparr>, snd ?r)"
    by (simp add: prod_eq_iff)
  have o: "call_ordered 0 ex_jwks_call"
    by code_simp
  have "\<exists>token hd kid. ji_decode_header ex_jwt_env token = Some hd \<and> jh_kid hd = Some kid
      \<and> (\<exists>key. trusted_key ex_jwks_call (oi_jwks_url ex_oidc) kid [] key)"
    using operator_authorized [OF jwks_init o r] by (simp add: ex_human_auth_def) blast
  then obtain key where "trusted_key ex_jwks_call ''u'' ''k1'' [] key"
    by (auto simp: ex_jwt_env_def ex_oidc_def)
  moreover have "key = ex_key" if "trusted_key ex_jwks_call ''u'' ''k1'' [] key" for key
    using that by (auto simp: trusted_key_def ex_jwks_call_def keys_by_id_def ex_key_def map_filter_simps)
  ultimately show ?thesis
    using r by blast
qed

text \<open>C28: whatever tokens arrive and whether or not the provider answers, in every reachable state of
  the key cache, for every URL: any two fetches of its document finished at least ten seconds apart (the
  log is newest first); so there are no more of them than one in ten seconds of the elapsed time, and one;
  and the cache holds what was fetched: no entry before the first fetch, and otherwise the time of the last
  attempt with the keys and the time of the last document that arrived, or no key when none has.\<close>

theorem jwks_fetches_bounded:
  assumes "jwks_reach t0 (t, cache, h)"
  shows "(\<forall>i j. i < j \<longrightarrow> j < length (fetches_of url h) \<longrightarrow>
        fst (fetches_of url h ! j) + JWKS_MIN_REFRESH \<le> fst (fetches_of url h ! i))
    \<and> int (length (fetches_of url h)) \<le> (t - t0) div JWKS_MIN_REFRESH + 1
    \<and> (case cache url of
         None \<Rightarrow> fetches_of url h = []
       | Some c \<Rightarrow> fetches_of url h \<noteq> [] \<and> cj_last_attempt c = fst (hd (fetches_of url h))
           \<and> (case last_good url h of
                None \<Rightarrow> cj_keys c = Map.empty
              | Some (f, ks) \<Rightarrow> cj_fetched_at c = f \<and> cj_keys c = keys_by_id ks))"
proof (intro conjI)
  have inv: "t0 \<le> t" "cache_reflects cache h" "fetches_spaced t0 t (fetches_of url h)"
    using jwks_reach_inv [OF assms] by simp_all
  then show "\<forall>i j. i < j \<longrightarrow> j < length (fetches_of url h) \<longrightarrow>
      fst (fetches_of url h ! j) + JWKS_MIN_REFRESH \<le> fst (fetches_of url h ! i)"
    by (simp add: fetches_spaced_def sorted_wrt_iff_nth_less case_prod_beta)
  have "int (length (fetches_of url h)) * JWKS_MIN_REFRESH \<le> t - t0 + JWKS_MIN_REFRESH"
    using inv(1,3) by (simp add: fetches_spaced_length)
  then show "int (length (fetches_of url h)) \<le> (t - t0) div JWKS_MIN_REFRESH + 1"
    by (simp add: JWKS_MIN_REFRESH_def)
  show "case cache url of
      None \<Rightarrow> fetches_of url h = []
    | Some c \<Rightarrow> fetches_of url h \<noteq> [] \<and> cj_last_attempt c = fst (hd (fetches_of url h))
        \<and> (case last_good url h of
             None \<Rightarrow> cj_keys c = Map.empty
           | Some (f, ks) \<Rightarrow> cj_fetched_at c = f \<and> cj_keys c = keys_by_id ks)"
    using inv(2) [unfolded cache_reflects_def, rule_format, of url] by (auto split: option.splits)
qed

text \<open>A second call, for a key the document lacks, long enough after the first: the provider does not answer.\<close>

definition ex_jwks_call2 :: jwks_call where
  "ex_jwks_call2 = \<lparr>jc_grace_at = 20000000000, jc_age_at = 20000000000,
     jc_attempt_at = 20000000000, jc_done_at = 20000000001, jc_fetch = (\<lambda>u. None)\<rparr>"

theorem jwks_fetches_bounded_witness:
  "\<exists>cache. jwks_reach 0 (20000000001, cache, [(20000000001, ''u'', None), (6, ''u'', Some [ex_key])])
     \<and> (6::int) + JWKS_MIN_REFRESH \<le> 20000000001
     \<and> (\<exists>c. cache ''u'' = Some c \<and> cj_last_attempt c = 20000000001 \<and> cj_fetched_at c = 6 \<and> cj_keys c = keys_by_id [ex_key])"
proof -
  let ?c1 = "snd (jwk_for_kid ex_jwks_call ''u'' ''k1'' Map.empty)"
  let ?c2 = "snd (jwk_for_kid ex_jwks_call2 ''u'' ''k2'' ?c1)"
  let ?h = "[(20000000001, ''u'', None), (6, ''u'', Some [ex_key])]"
  have o: "call_ordered 0 ex_jwks_call" "call_ordered 6 ex_jwks_call2"
    by code_simp+
  have second: "jwks_action ex_jwks_call2 ''u'' ''k2'' ?c1 = Refresh"
    by code_simp
  have "jwks_reach 0 (jc_done_at ex_jwks_call, ?c1, [(6, ''u'', Some [ex_key])])"
    by (rule jwks_call_step [OF jwks_init o(1) prod.collapse [symmetric]])
      (simp add: jwks_action_def ex_jwks_call_def)
  then have "jwks_reach 0 (6, ?c1, [(6, ''u'', Some [ex_key])])"
    by (simp add: ex_jwks_call_def)
  then have "jwks_reach 0 (jc_done_at ex_jwks_call2, ?c2, ?h)"
    by (rule jwks_call_step [OF _ o(2) prod.collapse [symmetric]])
      (simp only: second if_True, simp add: ex_jwks_call2_def)
  then have r: "jwks_reach 0 (20000000001, ?c2, ?h)"
    by (simp add: ex_jwks_call2_def)
  note facts = jwks_fetches_bounded [OF r, of "''u''"]
  have "(6::int) + JWKS_MIN_REFRESH \<le> 20000000001"
    using facts [THEN conjunct1, rule_format, of 0 1] by simp
  moreover have "\<exists>c. ?c2 ''u'' = Some c \<and> cj_last_attempt c = 20000000001 \<and> cj_fetched_at c = 6 \<and> cj_keys c = keys_by_id [ex_key]"
    using facts [THEN conjunct2, THEN conjunct2] by (simp split: option.splits)
  ultimately show ?thesis
    using r by blast
qed

end
