(* ===== verification/Csrf.thy ===== *)
theory Csrf
  imports Crypto
begin

text \<open>
  The guard of the operator's POSTs (\<open>server/src/ui/csrf.rs\<close>): form tokens bound to a route, an object,
  an operator and the state the page showed, and the check of the browser's request metadata.

  Base64 and the URL parser are parameters, like the hash.
\<close>

unbundle bit_operations_syntax

type_synonym header_map = "(string \<times> bytes) list"

record parsed_url =
  pu_scheme :: string
  pu_username :: string
  pu_password :: "string option"
  pu_host_str :: "string option"
  pu_port_or_known_default :: "16 word option"

text \<open>\<open>ce_header_text\<close> is \<open>HeaderValue::to_str\<close>.\<close>

record csrf_env =
  ce_hmac :: "bytes \<Rightarrow> bytes \<Rightarrow> bytes"
  ce_b64_encode :: "bytes \<Rightarrow> string"
  ce_b64_decode :: "string \<Rightarrow> bytes option"
  ce_header_text :: "bytes \<Rightarrow> string option"
  ce_parse_url :: "string \<Rightarrow> parsed_url option"

section \<open>Form tokens\<close>

definition CSRF_TTL_SECONDS :: int where "CSRF_TTL_SECONDS = 15 * 60"

definition mac_input :: "string \<Rightarrow> string \<Rightarrow> string \<Rightarrow> string \<Rightarrow> int \<Rightarrow> bytes" where
  "mac_input route action_id subject form_state expiry =
     route @ [CHR 0x00] @ action_id @ [CHR 0x00] @ subject @ [CHR 0x00] @ form_state @ [CHR 0x00] @ dec_int expiry"

text \<open>\<open>DateTime::timestamp\<close> of an instant in microseconds.\<close>

definition timestamp :: "time \<Rightarrow> int" where
  "timestamp now = now div 1000000"

definition to_be_bytes :: "64 word \<Rightarrow> bytes" where
  "to_be_bytes w = map (\<lambda>i. char_of (unat (drop_bit (8 * i) w))) [7, 6, 5, 4, 3, 2, 1, 0]"

definition from_be_bytes :: "bytes \<Rightarrow> 64 word" where
  "from_be_bytes b = foldl (\<lambda>acc c. push_bit 8 acc OR word_of_nat (byte c)) 0 b"

definition issue_token ::
  "csrf_env \<Rightarrow> keyset \<Rightarrow> string \<Rightarrow> string \<Rightarrow> string \<Rightarrow> string \<Rightarrow> time \<Rightarrow> string" where
  "issue_token ce ks route action_id subject form_state now =
     (let expiry = timestamp now + CSRF_TTL_SECONDS;
          mac = csrf_mac (ce_hmac ce) ks (mac_input route action_id subject form_state expiry)
      in ce_b64_encode ce (to_be_bytes (word_of_int expiry) @ mac))"

definition verify_token ::
  "csrf_env \<Rightarrow> keyset \<Rightarrow> string \<Rightarrow> string \<Rightarrow> string \<Rightarrow> string \<Rightarrow> string \<Rightarrow> time \<Rightarrow> bool" where
  "verify_token ce ks route action_id subject form_state token now =
     (case ce_b64_decode ce token of
        None \<Rightarrow> False
      | Some raw \<Rightarrow>
          if length raw \<noteq> 8 + 32 then False
          else
            (let expiry = sint (from_be_bytes (take 8 raw)); ts = timestamp now
             in if ts \<ge> expiry \<or> expiry - ts > CSRF_TTL_SECONDS then False
                else ct_eq (drop 8 raw)
                       (csrf_mac (ce_hmac ce) ks (mac_input route action_id subject form_state expiry))))"

section \<open>Browser metadata\<close>

definition parse_origin :: "csrf_env \<Rightarrow> string \<Rightarrow> (string \<times> string \<times> 16 word) option" where
  "parse_origin ce s =
     (case ce_parse_url ce (trim s) of
        None \<Rightarrow> None
      | Some u \<Rightarrow>
          if pu_scheme u \<notin> {''http'', ''https''} then None
          else if pu_username u \<noteq> [] \<or> pu_password u \<noteq> None then None
          else (case (pu_host_str u, pu_port_or_known_default u) of
                  (Some host, Some port) \<Rightarrow> Some (pu_scheme u, to_ascii_lowercase host, port)
                | _ \<Rightarrow> None))"

definition browser_metadata_ok :: "csrf_env \<Rightarrow> string \<Rightarrow> bool \<Rightarrow> header_map \<Rightarrow> bool" where
  "browser_metadata_ok ce external_url tls headers =
     (case map_of headers ''origin'' of
        Some origin \<Rightarrow>
          (case Option.bind (ce_header_text ce origin) (parse_origin ce) of
             None \<Rightarrow> False
           | Some got \<Rightarrow>
               parse_origin ce external_url = Some got
               \<or> (case Option.bind (map_of headers ''host'') (ce_header_text ce) of
                    None \<Rightarrow> False
                  | Some host \<Rightarrow>
                      parse_origin ce ((if tls then ''https'' else ''http'') @ ''://'' @ host) = Some got))
      | None \<Rightarrow>
          (case map_option (ce_header_text ce) (map_of headers ''sec-fetch-site'') of
             None \<Rightarrow> True
           | Some None \<Rightarrow> False
           | Some (Some site) \<Rightarrow> to_ascii_lowercase site \<in> {''same-origin'', ''none''}))"

section \<open>What a token is good for\<close>

lemma to_be_bytes_length [simp]: "length (to_be_bytes w) = 8"
  by (simp add: to_be_bytes_def)

lemma from_to_be_bytes [simp]: "from_be_bytes (to_be_bytes w) = w"
proof -
  have "word_of_nat (byte (char_of (unat v))) = (take_bit 8 v :: 64 word)" for v :: "64 word"
  proof -
    have "byte (char_of (unat v)) = take_bit 8 (unat v)"
      by (simp add: byte_def take_bit_eq_mod)
    then show ?thesis
      by (simp flip: unsigned_take_bit_eq)
  qed
  then have "from_be_bytes (to_be_bytes w) =
      foldl (\<lambda>acc i. push_bit 8 acc OR take_bit 8 (drop_bit (8 * i) w)) 0 [7, 6, 5, 4, 3, 2, 1, 0]"
    by (simp add: from_be_bytes_def to_be_bytes_def)
  also have "\<dots> = w"
  proof -
    have step: "push_bit 8 (drop_bit (8 * Suc i) w) OR take_bit 8 (drop_bit (8 * i) w) = drop_bit (8 * i) w" for i
    proof -
      have "push_bit 8 (drop_bit 8 v) OR take_bit 8 v = v" for v :: "64 word"
        by (rule bit_word_eqI) (auto simp: bit_or_iff bit_push_bit_iff bit_take_bit_iff bit_drop_bit_eq)
      from this [of "drop_bit (8 * i) w"] show ?thesis
        by (simp add: add.commute)
    qed
    have "drop_bit (8 * Suc 7) w = 0"
      by (rule bit_word_eqI) (simp add: bit_drop_bit_eq)
    with step [of 7] step [of 6] step [of 5] step [of 4] step [of 3] step [of 2] step [of 1] step [of 0]
    show ?thesis
      by simp
  qed
  finally show ?thesis .
qed

text \<open>Splitting at the first separator, and at the last one.\<close>

lemma split_first_eq:
  assumes "c \<notin> set a" "c \<notin> set b"
  shows "a @ c # x = b @ c # y \<longleftrightarrow> a = b \<and> x = y"
  using assms by (auto simp: append_eq_append_conv2 Cons_eq_append_conv append_eq_Cons_conv)

lemma split_last_eq:
  assumes "c \<notin> set x" "c \<notin> set y"
  shows "a @ c # x = b @ c # y \<longleftrightarrow> a = b \<and> x = y"
proof -
  have "a @ c # x = b @ c # y \<longleftrightarrow> rev x @ c # rev a = rev y @ c # rev b"
    by (metis (no_types) append.assoc append_Cons append_Nil rev.simps(2) rev_append rev_rev_ident)
  then show ?thesis
    using split_first_eq [of c "rev x" "rev y" "rev a" "rev b"] assms by auto
qed

lemma dec_int_no_nul [simp]: "CHR 0x00 \<notin> set (dec_int i)"
  using dec_digits [of "CHR 0x00"] by (auto simp: dec_int_def is_ascii_digit_def byte_def)

lemma mac_input_inject:
  assumes "CHR 0x00 \<notin> set r" "CHR 0x00 \<notin> set a" "CHR 0x00 \<notin> set s"
    "CHR 0x00 \<notin> set r'" "CHR 0x00 \<notin> set a'" "CHR 0x00 \<notin> set s'"
  shows "mac_input r a s f e = mac_input r' a' s' f' e' \<longleftrightarrow> r = r' \<and> a = a' \<and> s = s' \<and> f = f' \<and> e = e'"
proof -
  have "f @ CHR 0x00 # dec_int e = f' @ CHR 0x00 # dec_int e' \<longleftrightarrow> f = f' \<and> e = e'"
    by (simp add: split_last_eq)
  then show ?thesis
    using assms by (simp add: mac_input_def split_first_eq)
qed

text \<open>The parts of the hash's and the encoding's documented behaviour the tokens rely on.\<close>

definition token_env_ok :: "csrf_env \<Rightarrow> bool" where
  "token_env_ok ce \<longleftrightarrow>
     (\<forall>b. ce_b64_decode ce (ce_b64_encode ce b) = Some b) \<and> (\<forall>k m. length (ce_hmac ce k m) = 32)"

definition no_collision :: "csrf_env \<Rightarrow> keyset \<Rightarrow> bytes \<Rightarrow> bytes \<Rightarrow> bool" where
  "no_collision ce ks m m' \<longleftrightarrow> (csrf_mac (ce_hmac ce) ks m = csrf_mac (ce_hmac ce) ks m' \<longrightarrow> m = m')"

lemma verify_issued:
  assumes "token_env_ok ce" "- (2 ^ 63) \<le> timestamp t + CSRF_TTL_SECONDS" "timestamp t + CSRF_TTL_SECONDS < 2 ^ 63"
  shows "verify_token ce ks r' a' s' f' (issue_token ce ks r a s f t) now \<longleftrightarrow>
    timestamp t \<le> timestamp now \<and> timestamp now < timestamp t + CSRF_TTL_SECONDS
    \<and> csrf_mac (ce_hmac ce) ks (mac_input r' a' s' f' (timestamp t + CSRF_TTL_SECONDS))
      = csrf_mac (ce_hmac ce) ks (mac_input r a s f (timestamp t + CSRF_TTL_SECONDS))"
proof -
  have "sint (word_of_int (timestamp t + CSRF_TTL_SECONDS) :: 64 word) = timestamp t + CSRF_TTL_SECONDS"
    using assms(2,3) unfolding sint_sbintrunc' by (simp add: signed_take_bit_int_eq_self)
  with assms(1) show ?thesis
    by (auto simp: verify_token_def issue_token_def Let_def token_env_ok_def csrf_mac_def ct_eq_def simp del: of_int_add)
qed

text \<open>C29: a form token is accepted exactly for the route, the object, the operator and the form state
  it was minted for, and only in the fifteen minutes after it was minted.\<close>

theorem form_token_single_purpose:
  assumes "token_env_ok ce" "- (2 ^ 63) \<le> timestamp t + CSRF_TTL_SECONDS" "timestamp t + CSRF_TTL_SECONDS < 2 ^ 63"
    and "no_collision ce ks (mac_input r' a' s' f' (timestamp t + CSRF_TTL_SECONDS))
           (mac_input r a s f (timestamp t + CSRF_TTL_SECONDS))"
    and "CHR 0x00 \<notin> set (r @ a @ s)" "CHR 0x00 \<notin> set (r' @ a' @ s')"
  shows "verify_token ce ks r' a' s' f' (issue_token ce ks r a s f t) now \<longleftrightarrow>
    r' = r \<and> a' = a \<and> s' = s \<and> f' = f
    \<and> timestamp t \<le> timestamp now \<and> timestamp now < timestamp t + 15 * 60"
  using assms(4-6) unfolding verify_issued [OF assms(1-3)]
  by (auto simp: no_collision_def mac_input_inject CSRF_TTL_SECONDS_def)

definition ex_csrf_env :: csrf_env where
  "ex_csrf_env =
     \<lparr>ce_hmac = (\<lambda>k m. replicate 31 CHR 0x00 @ [char_of (length m)]),
      ce_b64_encode = id, ce_b64_decode = Some, ce_header_text = Some,
      ce_parse_url = (\<lambda>s. if s = ''https://kc'' then
        Some \<lparr>pu_scheme = ''https'', pu_username = [], pu_password = None, pu_host_str = Some ''kc'',
              pu_port_or_known_default = Some 443\<rparr> else None)\<rparr>"

theorem form_token_single_purpose_witness:
  "verify_token ex_csrf_env ex_keyset ''/ui/grants/revoke'' ''7'' ''alice'' []
     (issue_token ex_csrf_env ex_keyset ''/ui/grants/revoke'' ''7'' ''alice'' [] 5000000) 6000000
   \<and> \<not> verify_token ex_csrf_env ex_keyset ''/ui/grants/revoke'' ''78'' ''alice'' []
     (issue_token ex_csrf_env ex_keyset ''/ui/grants/revoke'' ''7'' ''alice'' [] 5000000) 6000000"
proof -
  have ok: "token_env_ok ex_csrf_env"
    by (simp add: token_env_ok_def ex_csrf_env_def)
  have "no_collision ex_csrf_env ex_keyset (mac_input ''/ui/grants/revoke'' ''7'' ''alice'' [] (timestamp 5000000 + CSRF_TTL_SECONDS))
      (mac_input ''/ui/grants/revoke'' ''7'' ''alice'' [] (timestamp 5000000 + CSRF_TTL_SECONDS))"
    "no_collision ex_csrf_env ex_keyset (mac_input ''/ui/grants/revoke'' ''78'' ''alice'' [] (timestamp 5000000 + CSRF_TTL_SECONDS))
      (mac_input ''/ui/grants/revoke'' ''7'' ''alice'' [] (timestamp 5000000 + CSRF_TTL_SECONDS))"
    by code_simp+
  then show ?thesis
    using form_token_single_purpose [OF ok, of 5000000 ex_keyset "''/ui/grants/revoke''" "''7''" "''alice''" "[]"
        "''/ui/grants/revoke''" "''7''" "''alice''" "[]" 6000000]
      form_token_single_purpose [OF ok, of 5000000 ex_keyset "''/ui/grants/revoke''" "''78''" "''alice''" "[]"
        "''/ui/grants/revoke''" "''7''" "''alice''" "[]" 6000000]
    by (simp add: timestamp_def CSRF_TTL_SECONDS_def)
qed

end
