(* ===== verification/Utf8.thy ===== *)
theory Utf8
  imports Prelude
begin

text \<open>
  UTF-8 as an encoding: decoding and encoding are inverse on well-formed text.  On top of them
  \<open>str::trim\<close>, \<open>str::lines\<close> and the splitting of a string at characters, as the forms of the operator
  interface use them.
\<close>

section \<open>Decoding and encoding\<close>

definition scalar :: "nat \<Rightarrow> bool" where
  "scalar n \<longleftrightarrow> n < 55296 \<or> 57344 \<le> n \<and> n < 1114112"

lemma scalar_small [simp]: "n < 55296 \<Longrightarrow> scalar n"
  by (simp add: scalar_def)

lemma base64_digits: "y < 64 \<Longrightarrow> (x * 64 + y) mod 64 = y \<and> (x * 64 + y) div 64 = x" for x y :: nat
  by simp

lemma utf8_cps_encode1:
  assumes "scalar n"
  shows "utf8_cps (utf8_bytes n @ bs) = map_option ((#) n) (utf8_cps bs)"
proof -
  have m: "k mod 64 \<le> 63" for k :: nat
    using mod_less_divisor [of 64 k] by linarith
  consider "n < 128" | "128 \<le> n" "n < 2048" | "2048 \<le> n" "n < 65536" | "65536 \<le> n" by linarith
  then show ?thesis
  proof cases
    case 1
    then show ?thesis by (simp add: utf8_bytes_def)
  next
    case 2
    obtain x y where n: "n = x * 64 + y" "y < 64"
      by (metis mod_div_mult_eq mod_less_divisor add.commute zero_less_numeral)
    with 2 have "2 \<le> x" "x < 32" by linarith+
    with 2 n base64_digits [of y x] show ?thesis
      by (simp add: utf8_bytes_def cont_byte_def)
  next
    case 3
    have q: "n div 4096 < 16" "n div 64 mod 64 < 64" "n mod 64 < 64"
      using 3 by (simp_all add: less_mult_imp_div_less)
    have "n = (n div 64 div 64 * 64 + n div 64 mod 64) * 64 + n mod 64"
      by simp
    then have n: "n = n div 4096 * 4096 + n div 64 mod 64 * 64 + n mod 64"
      by (simp add: algebra_simps flip: div_mult2_eq)
    have "n div 4096 = 0 \<Longrightarrow> 32 \<le> n div 64 mod 64" "n div 4096 = 13 \<Longrightarrow> n div 64 mod 64 \<le> 31"
      using n 3 assms q by (simp_all add: scalar_def)
    with 3(1) q(1) n show ?thesis
      by (simp add: utf8_bytes_def cont_byte_def m 3(2))
  next
    case 4
    have q: "n div 262144 \<le> 4" "n div 4096 mod 64 < 64" "n div 64 mod 64 < 64" "n mod 64 < 64"
      using assms by (auto simp: scalar_def less_Suc_eq_le [symmetric] less_mult_imp_div_less)
    have n: "n = n div 262144 * 262144 + n div 4096 mod 64 * 4096 + n div 64 mod 64 * 64 + n mod 64"
      (is "n = ?m")
    proof -
      have "n = ((n div 64 div 64 div 64 * 64 + n div 64 div 64 mod 64) * 64 + n div 64 mod 64) * 64 + n mod 64"
        by simp
      also have "\<dots> = ?m"
        by (simp add: algebra_simps flip: div_mult2_eq)
      finally show ?thesis .
    qed
    have "n div 262144 = 0 \<Longrightarrow> 16 \<le> n div 4096 mod 64" "n div 262144 = 4 \<Longrightarrow> n div 4096 mod 64 \<le> 15"
      using n 4 assms q by (simp_all add: scalar_def)
    with 4 q n show ?thesis
      by (simp add: utf8_bytes_def cont_byte_def m)
  qed
qed

lemma utf8_cps_encode:
  assumes "\<forall>n \<in> set cps. scalar n"
  shows "utf8_cps (concat (map utf8_bytes cps)) = Some cps"
  using assms by (induction cps) (simp_all add: utf8_cps_encode1)

lemma utf8_bytes_2:
  assumes "194 \<le> b" "b \<le> 223" "cont_byte c"
  shows "utf8_bytes ((b - 192) * 64 + (c - 128)) = [b, c]" "scalar ((b - 192) * 64 + (c - 128))"
proof -
  obtain x y where xy: "b = 192 + x" "c = 128 + y" "2 \<le> x" "x \<le> 31" "y < 64"
    using assms that [of "b - 192" "c - 128"] by (auto simp: cont_byte_def)
  then show "utf8_bytes ((b - 192) * 64 + (c - 128)) = [b, c]" "scalar ((b - 192) * 64 + (c - 128))"
    using base64_digits [of y x] by (auto simp: utf8_bytes_def scalar_def)
qed

lemma utf8_bytes_3:
  assumes "224 \<le> b" "b \<le> 239" "cont_byte c" "cont_byte d" "b = 224 \<longrightarrow> 160 \<le> c" "b = 237 \<longrightarrow> c \<le> 159"
  shows "utf8_bytes ((b - 224) * 4096 + (c - 128) * 64 + (d - 128)) = [b, c, d]"
    "scalar ((b - 224) * 4096 + (c - 128) * 64 + (d - 128))"
proof -
  obtain x y z where xy: "b = 224 + x" "c = 128 + y" "d = 128 + z" "x \<le> 15" "y < 64" "z < 64"
    "x = 0 \<longrightarrow> 32 \<le> y" "x = 13 \<longrightarrow> y \<le> 31"
    using assms by (intro that [of "b - 224" "c - 128" "d - 128"]) (auto simp: cont_byte_def)
  define n where "n = (x * 64 + y) * 64 + z"
  have n: "n mod 64 = z" "n div 64 mod 64 = y" "n div 4096 = x"
    using xy base64_digits [of z "x * 64 + y"] base64_digits [of y x] div_mult2_eq [of n 64 64]
    by (auto simp: n_def)
  have "x \<le> 12 \<or> x = 13 \<or> 14 \<le> x" by linarith
  then have "2048 \<le> n" "n < 65536" "scalar n"
    using xy by (auto simp: n_def scalar_def)
  moreover have "(b - 224) * 4096 + (c - 128) * 64 + (d - 128) = n"
    by (simp add: xy n_def)
  ultimately show "utf8_bytes ((b - 224) * 4096 + (c - 128) * 64 + (d - 128)) = [b, c, d]"
    "scalar ((b - 224) * 4096 + (c - 128) * 64 + (d - 128))"
    using n by (simp_all add: utf8_bytes_def xy)
qed

lemma utf8_bytes_4:
  assumes "240 \<le> b" "b \<le> 244" "cont_byte c" "cont_byte d" "cont_byte e"
    "b = 240 \<longrightarrow> 144 \<le> c" "b = 244 \<longrightarrow> c \<le> 143"
  shows "utf8_bytes ((b - 240) * 262144 + (c - 128) * 4096 + (d - 128) * 64 + (e - 128)) = [b, c, d, e]"
    "scalar ((b - 240) * 262144 + (c - 128) * 4096 + (d - 128) * 64 + (e - 128))"
proof -
  obtain x y z u where xy: "b = 240 + x" "c = 128 + y" "d = 128 + z" "e = 128 + u" "x \<le> 4" "y < 64" "z < 64" "u < 64"
    "x = 0 \<longrightarrow> 16 \<le> y" "x = 4 \<longrightarrow> y \<le> 15"
    using assms by (intro that [of "b - 240" "c - 128" "d - 128" "e - 128"]) (auto simp: cont_byte_def)
  define n where "n = ((x * 64 + y) * 64 + z) * 64 + u"
  have n: "n mod 64 = u" "n div 64 mod 64 = z" "n div 4096 mod 64 = y" "n div 262144 = x"
    using xy base64_digits [of u "(x * 64 + y) * 64 + z"] base64_digits [of z "x * 64 + y"] base64_digits [of y x]
      div_mult2_eq [of n 64 64] div_mult2_eq [of n 4096 64]
    by (auto simp: n_def)
  have "65536 \<le> n" "scalar n"
    using xy by (auto simp: n_def scalar_def)
  moreover have "(b - 240) * 262144 + (c - 128) * 4096 + (d - 128) * 64 + (e - 128) = n"
    by (simp add: xy n_def)
  ultimately show "utf8_bytes ((b - 240) * 262144 + (c - 128) * 4096 + (d - 128) * 64 + (e - 128)) = [b, c, d, e]"
    "scalar ((b - 240) * 262144 + (c - 128) * 4096 + (d - 128) * 64 + (e - 128))"
    using n by (simp_all add: utf8_bytes_def xy)
qed

lemma utf8_cps_decode:
  "utf8_cps bs = Some cps \<Longrightarrow> concat (map utf8_bytes cps) = bs \<and> (\<forall>n \<in> set cps. scalar n)"
proof (induction bs arbitrary: cps rule: utf8_cps.induct)
  case (2 b bs)
  consider "b < 128" | "128 \<le> b" "194 \<le> b \<and> b \<le> 223" | "128 \<le> b" "224 \<le> b \<and> b \<le> 239"
    | "128 \<le> b" "240 \<le> b \<and> b \<le> 244"
    using "2.prems"(1) by (auto split: if_splits)
  then show ?case
  proof cases
    case 1
    with 2 show ?thesis by (auto simp: utf8_bytes_def)
  next
    case 2
    with "2.prems" "2.IH"(2) show ?thesis
      by (auto simp: utf8_bytes_2 split: if_splits list.splits)
  next
    case 3
    with "2.prems" "2.IH"(3) show ?thesis
      by (auto simp: utf8_bytes_3 split: if_splits list.splits)
  next
    case 4
    with "2.prems" "2.IH"(4) show ?thesis
      by (auto simp: utf8_bytes_4 split: if_splits list.splits)
  qed
qed simp

lemma utf8_bytes_small: "scalar n \<Longrightarrow> b \<in> set (utf8_bytes n) \<Longrightarrow> b < 256"
  by (auto simp: utf8_bytes_def scalar_def less_mult_imp_div_less split: if_splits)

lemma from_utf8_utf8_string [simp]:
  assumes "\<forall>n \<in> set cps. scalar n"
  shows "from_utf8 (utf8_string cps) = Some cps"
proof -
  have "b < 256" if "b \<in> set (concat (map utf8_bytes cps))" for b
    using assms that utf8_bytes_small by auto
  then have "map byte (utf8_string cps) = concat (map utf8_bytes cps)"
    by (auto simp: utf8_string_def byte_def comp_def intro!: map_idI)
  with assms show ?thesis
    by (simp add: from_utf8_def utf8_cps_encode)
qed

lemma from_utf8_Some:
  assumes "from_utf8 s = Some cps"
  shows "utf8_string cps = s" "\<And>n. n \<in> set cps \<Longrightarrow> scalar n"
proof -
  have "concat (map utf8_bytes cps) = map byte s" "\<forall>n \<in> set cps. scalar n"
    using assms utf8_cps_decode by (auto simp: from_utf8_def)
  then show "utf8_string cps = s" "\<And>n. n \<in> set cps \<Longrightarrow> scalar n"
    by (auto simp: utf8_string_def byte_def comp_def)
qed

section \<open>Trimming\<close>

definition trim_cps :: "nat list \<Rightarrow> nat list" where
  "trim_cps cps = rev (dropWhile cp_is_whitespace (rev (dropWhile cp_is_whitespace cps)))"

lemma trim_cps_subset: "set (trim_cps cps) \<subseteq> set cps"
proof
  fix x
  assume "x \<in> set (trim_cps cps)"
  then have "x \<in> set (rev (dropWhile cp_is_whitespace cps))"
    by (metis set_dropWhileD set_rev trim_cps_def)
  then show "x \<in> set cps"
    by (metis set_dropWhileD set_rev)
qed

lemma trim_cps_id:
  "(cps \<noteq> [] \<Longrightarrow> \<not> cp_is_whitespace (hd cps) \<and> \<not> cp_is_whitespace (last cps)) \<Longrightarrow> trim_cps cps = cps"
  using dropWhile_eq_self_iff [of cp_is_whitespace cps] dropWhile_eq_self_iff [of cp_is_whitespace "rev cps"]
  by (cases "cps = []") (simp_all add: trim_cps_def hd_rev)

lemma trim_cps_idem [simp]: "trim_cps (trim_cps cps) = trim_cps cps"
proof (rule trim_cps_id)
  assume ne: "trim_cps cps \<noteq> []"
  let ?d = "dropWhile cp_is_whitespace cps"
  have "\<not> cp_is_whitespace (last (trim_cps cps))"
    using ne hd_dropWhile [of cp_is_whitespace "rev ?d"] by (auto simp: trim_cps_def last_rev)
  moreover have "hd (trim_cps cps) = hd ?d"
  proof -
    obtain w where "rev ?d = w @ dropWhile cp_is_whitespace (rev ?d)"
      by (metis takeWhile_dropWhile_id)
    then have "?d = trim_cps cps @ rev w"
      by (metis rev_append rev_rev_ident trim_cps_def)
    with ne show ?thesis by (metis hd_append2)
  qed
  moreover have "?d \<noteq> []"
    using ne by (metis dropWhile.simps(1) rev.simps(1) trim_cps_def)
  ultimately show "\<not> cp_is_whitespace (hd (trim_cps cps)) \<and> \<not> cp_is_whitespace (last (trim_cps cps))"
    using hd_dropWhile [of cp_is_whitespace cps] by simp
qed

lemma trim_conv: "from_utf8 s = Some cps \<Longrightarrow> trim s = utf8_string (trim_cps cps)"
  by (simp add: trim_def trim_cps_def)

lemma from_utf8_trim:
  assumes "from_utf8 s = Some cps"
  shows "from_utf8 (trim s) = Some (trim_cps cps)"
  using from_utf8_Some(2) [OF assms] trim_cps_subset [of cps]
  by (simp add: trim_conv [OF assms] subset_iff)

lemma trim_trim [simp]: "trim (trim s) = trim s"
proof (cases "from_utf8 s")
  case None
  then show ?thesis by (simp add: trim_def)
next
  case (Some cps)
  show ?thesis
    using trim_conv [OF from_utf8_trim [OF Some]] by (simp add: trim_conv [OF Some])
qed

lemma trim_no_whitespace:
  assumes "from_utf8 s = Some cps" "\<forall>n \<in> set cps. \<not> cp_is_whitespace n"
  shows "trim s = s"
  using assms trim_cps_id [of cps] from_utf8_Some(1) [OF assms(1)] by (auto simp: trim_conv)

lemma trim_ascii:
  assumes "\<forall>c \<in> set s. 32 < byte c \<and> byte c < 127"
  shows "trim s = s"
  by (rule trim_no_whitespace [OF from_utf8_ascii])
    (use assms in \<open>fastforce simp: cp_is_whitespace_def\<close>)+

lemma trim_Nil [simp]: "trim [] = []"
  by (simp add: trim_def from_utf8_def utf8_string_def)

section \<open>Lines and separated fields\<close>

text \<open>\<open>str::lines\<close>: a line ends in a line_feed or a carriage return and a line_feed, a last unterminated
  line is kept as it is, an empty one is not a line.\<close>

abbreviation line_feed :: char where "line_feed \<equiv> CHR 0x0A"
abbreviation carriage_return :: char where "carriage_return \<equiv> CHR 0x0D"

definition strip_cr :: "string \<Rightarrow> string" where
  "strip_cr s = (if s \<noteq> [] \<and> last s = carriage_return then butlast s else s)"

definition str_lines :: "string \<Rightarrow> string list" where
  "str_lines s =
     (let parts = split_on line_feed s
      in map strip_cr (butlast parts) @ (if last parts = [] then [] else [last parts]))"

lemma str_lines_join:
  assumes "\<forall>x \<in> set xs. line_feed \<notin> set x \<and> x \<noteq> []"
  shows "str_lines (join_with [carriage_return, line_feed] xs) = xs"
proof -
  have one: "split_on c w = [w]" if "c \<notin> set w" for c :: char and w
    using that by (induction w) auto
  have sep: "split_on c (w @ c # r) = w # split_on c r" if "c \<notin> set w" for c :: char and w r
    using that by (induction w) (auto split: list.splits)
  have ne: "split_on c w \<noteq> []" for c :: char and w
    by (induction w) (auto split: list.splits)
  show ?thesis
    using assms
  proof (induction xs rule: induct_list012)
    case (3 x y ys)
    have "split_on line_feed (x @ [carriage_return] @ line_feed # r) = (x @ [carriage_return]) # split_on line_feed r" for r
      using sep [of line_feed "x @ [carriage_return]" r] "3.prems" by simp
    then have "str_lines (x @ [carriage_return] @ line_feed # r) = x # str_lines r" for r
      using ne by (simp add: str_lines_def Let_def strip_cr_def)
    with 3 show ?case
      by simp
  qed (auto simp: str_lines_def one Let_def)
qed

text \<open>\<open>str::split\<close> at the characters that satisfy a predicate.\<close>

fun split_where :: "('a \<Rightarrow> bool) \<Rightarrow> 'a list \<Rightarrow> 'a list list" where
  "split_where P [] = [[]]"
| "split_where P (c # cs) =
     (if P c then [] # split_where P cs
      else (case split_where P cs of w # ws \<Rightarrow> (c # w) # ws | [] \<Rightarrow> [[c]]))"

definition split_chars :: "(nat \<Rightarrow> bool) \<Rightarrow> string \<Rightarrow> string list" where
  "split_chars P s =
     (case from_utf8 s of None \<Rightarrow> [s] | Some cps \<Rightarrow> map utf8_string (split_where P cps))"

lemma split_where_none: "\<forall>x \<in> set w. \<not> P x \<Longrightarrow> split_where P w = [w]"
  by (induction w) auto

lemma split_where_sep: "\<forall>x \<in> set w. \<not> P x \<Longrightarrow> P c \<Longrightarrow> split_where P (w @ c # r) = w # split_where P r"
  by (induction w) auto

lemma split_where_nonempty [simp]: "split_where P w \<noteq> []"
  by (induction w) (auto split: list.splits)

lemma split_where_join:
  assumes "\<forall>w \<in> set ws. w \<noteq> [] \<and> (\<forall>x \<in> set w. \<not> P x)" "P a" "P b"
  shows "filter (\<lambda>w. w \<noteq> []) (split_where P (join_with [a, b] ws)) = ws"
  using assms(1)
proof (induction ws rule: induct_list012)
  case (3 x y ys)
  then show ?case
    using split_where_sep [of x P a "b # join_with [a, b] (y # ys)"] assms(2,3) by auto
qed (auto simp: split_where_none)

end
