(* ===== verification/Ui_Forms.thy ===== *)
theory Ui_Forms
  imports Utf8 Config
begin

text \<open>
  The forms of the operator interface (\<open>server/src/ui/mod.rs\<close>): how submitted fields are read and how
  stored rows are spelled in a form.  The handlers that act on them are in \<open>Ui\<close>.

  A form is the record axum decodes from the body.  The date library is a parameter
  (\<open>date_format\<close>, \<open>date_parse\<close>), as is the URL parser used by the origins.
\<close>

section \<open>Errors\<close>

datatype ui_message =
    Text string | Bad_origin origin_error | Bad_prefix path_error | Internal_error store_error

datatype ui_error = Ui_Error (ui_status: nat) (ui_msg: ui_message)

abbreviation bad_request :: "string \<Rightarrow> ui_error" where
  "bad_request msg \<equiv> Ui_Error 400 (Text msg)"

abbreviation conflict :: "string \<Rightarrow> ui_error" where
  "conflict msg \<equiv> Ui_Error 409 (Text msg)"

abbreviation ui_internal :: "store_error \<Rightarrow> ui_error" where
  "ui_internal e \<equiv> Ui_Error 500 (Internal_error e)"

section \<open>Fields\<close>

definition non_empty :: "string option \<Rightarrow> string option" where
  "non_empty v = Option.bind v (\<lambda>s. if trim s = [] then None else Some (trim s))"

text \<open>\<open>str::parse\<close> of the integer types: an optional sign, at least one digit, in range.\<close>

definition parse_digits :: "string \<Rightarrow> nat option" where
  "parse_digits d = (if d \<noteq> [] \<and> list_all is_ascii_digit d then Some (digits_value d) else None)"

fun parse_signed :: "string \<Rightarrow> int option" where
  "parse_signed [] = None"
| "parse_signed (c # r) =
     (if c = CHR ''+'' then map_option int (parse_digits r)
      else if c = CHR ''-'' then map_option (\<lambda>n. - int n) (parse_digits r)
      else map_option int (parse_digits (c # r)))"

definition in_range :: "int \<Rightarrow> int \<Rightarrow> int option \<Rightarrow> int option" where
  "in_range lo hi v = Option.bind v (\<lambda>i. if lo \<le> i \<and> i \<le> hi then Some i else None)"

definition parse_i32 :: "string \<Rightarrow> int option" where
  "parse_i32 s = in_range (- (2 ^ 31)) (2 ^ 31 - 1) (parse_signed s)"

definition parse_i64 :: "string \<Rightarrow> int option" where
  "parse_i64 s = in_range (- (2 ^ 63)) (2 ^ 63 - 1) (parse_signed s)"

definition parse_u64 :: "string \<Rightarrow> int option" where
  "parse_u64 s = (if starts_with ''-'' s then None else in_range 0 (2 ^ 64 - 1) (parse_signed s))"

definition parse_narrow_u64 :: "string option \<Rightarrow> int \<Rightarrow> string \<Rightarrow> ui_error + int" where
  "parse_narrow_u64 input requested what =
     (case input of
        None \<Rightarrow> Inr requested
      | Some raw \<Rightarrow>
          (case parse_u64 raw of
             None \<Rightarrow> Inl (bad_request (''invalid '' @ what))
           | Some v \<Rightarrow>
               if v = 0 then Inl (bad_request (what @ '' must be positive''))
               else if v > requested
                 then Inl (bad_request (what @ '' may only narrow the request (requested '' @ dec_int requested @ '')''))
               else Inr v))"

definition tier_from_str :: "string \<Rightarrow> tier option" where
  "tier_from_str s =
     (if s = ''brokered'' then Some Tier_Brokered
      else if s = ''trusted-client'' then Some Tier_TrustedClient
      else if s = ''cooperating-client'' then Some Tier_CooperatingClient
      else if s = ''direct'' then Some Tier_Direct
      else None)"

text \<open>Exact durations, as the pages label the limits.\<close>

definition duration_label :: "nat \<Rightarrow> string" where
  "duration_label secs =
     (let units = [(secs div 86400, ''d''), (secs mod 86400 div 3600, ''h''), (secs mod 3600 div 60, ''m''), (secs mod 60, ''s'')]
      in case filter (\<lambda>(n, u). n > 0) units of
           [] \<Rightarrow> ''0s''
         | us \<Rightarrow> join_with '' '' (map (\<lambda>(n, u). dec n @ u) us))"

definition age_label :: "time \<Rightarrow> time \<Rightarrow> string" where
  "age_label created_at now =
     (let secs = nat (max 0 ((now - created_at) div 1000000))
      in if secs < 60 then dec secs @ ''s''
         else if secs < 3600 then dec (secs div 60) @ ''m '' @ dec (secs mod 60) @ ''s''
         else dec (secs div 3600) @ ''h '' @ dec (secs mod 3600 div 60) @ ''m'')"

section \<open>The state an approval page showed\<close>

definition secret_state_marker :: "secret_row option \<Rightarrow> string" where
  "secret_state_marker secret =
     (case secret of Some s \<Rightarrow> ''1:'' @ dec_int (sec_current_version s) | None \<Rightarrow> ''0'')"

definition parse_secret_present :: "string option \<Rightarrow> bool option" where
  "parse_secret_present rendered =
     (case rendered of
        None \<Rightarrow> None
      | Some s \<Rightarrow>
          if s = ''0'' then Some False
          else Option.bind (strip_prefix ''1:'' s) (\<lambda>v. map_option (\<lambda>_. True) (parse_i32 v)))"

definition substitute_option_value :: "secret_row \<Rightarrow> string" where
  "substitute_option_value s = dec_int (sec_current_version s) @ '':'' @ sec_name s"

definition parse_substitute_option :: "string \<Rightarrow> (int \<times> string) option" where
  "parse_substitute_option raw =
     (case split_once (CHR '':'') raw of
        None \<Rightarrow> None
      | Some (version, name) \<Rightarrow>
          (case parse_i32 version of
             None \<Rightarrow> None
           | Some v \<Rightarrow> if name = [] then None else Some (v, name)))"

definition substitute_candidates :: "mechanism \<Rightarrow> secret_row list \<Rightarrow> secret_row list" where
  "substitute_candidates m secrets = filter (\<lambda>s. sec_enabled s \<and> tier_as_int (mech_tier m) \<le> sec_max_tier s) secrets"

definition policy_cap_elapsed :: "time option \<Rightarrow> time \<Rightarrow> bool" where
  "policy_cap_elapsed cap now = (case cap of Some t \<Rightarrow> t \<le> now | None \<Rightarrow> False)"

section \<open>Policies as forms\<close>

record policy_form =
  pf_csrf_token :: string
  pf_client_name :: "string option"
  pf_secret_name :: "string option"
  pf_secret_tag :: "string option"
  pf_mechanism :: string
  pf_outcome :: string
  pf_priority :: "string option"
  pf_origins :: "string option"
  pf_methods :: "string option"
  pf_path_prefixes :: "string option"
  pf_max_ttl_seconds :: "string option"
  pf_max_uses :: "string option"
  pf_not_after :: "string option"

record policy_form_values =
  pv_client :: "string option"
  pv_secret :: "string option"
  pv_tag :: "string option"
  pv_mechanism :: "mechanism option"
  pv_outcome :: "string option"
  pv_priority :: string
  pv_origins :: string
  pv_methods :: string
  pv_paths :: string
  pv_max_ttl :: string
  pv_max_uses :: string
  pv_not_after :: string

definition POLICY_OUTCOMES :: "string list" where
  "POLICY_OUTCOMES = [''require-approval'', ''notify-only'', ''auto-approve'', ''deny'']"

definition origin_field :: "origin \<Rightarrow> string" where
  "origin_field x = (case o_port x of Some p \<Rightarrow> o_host x @ '':'' @ dec (unat p) | None \<Rightarrow> o_host x)"

definition path_char_field :: "nat \<Rightarrow> string" where
  "path_char_field c =
     (if c = byte (CHR ''%'') \<or> cp_is_whitespace c
      then concat (map (\<lambda>b. percent_escape (char_of b)) (utf8_bytes c))
      else utf8_string [c])"

definition path_field :: "string \<Rightarrow> string" where
  "path_field canonical =
     (case from_utf8 canonical of None \<Rightarrow> canonical | Some cps \<Rightarrow> concat (map path_char_field cps))"

text \<open>\<open>date_parts\<close>: the seconds of a minute of an instant, and its spelling to the minute and to the second.\<close>

record date_env =
  de_second :: "time \<Rightarrow> nat"
  de_format_minute :: "time \<Rightarrow> string"
  de_format_second :: "time \<Rightarrow> string"
  de_parse_minute :: "string \<Rightarrow> time option"
  de_parse_second :: "string \<Rightarrow> time option"

definition datetime_local_value :: "date_env \<Rightarrow> time \<Rightarrow> string" where
  "datetime_local_value de t = (if de_second de t = 0 then de_format_minute de t else de_format_second de t)"

definition from_row :: "date_env \<Rightarrow> policy_row \<Rightarrow> policy_form_values" where
  "from_row de p =
     \<lparr>pv_client = pol_client_name p, pv_secret = pol_secret_name p, pv_tag = pol_secret_tag p,
      pv_mechanism = mech_from_str_opt (pol_mechanism p), pv_outcome = Some (pol_outcome p),
      pv_priority = dec_int (pol_priority p),
      pv_origins = (case pol_origins p of
                      Parsed xs \<Rightarrow> join_with [line_feed] (map origin_field xs)
                    | _ \<Rightarrow> []),
      pv_methods = join_with '', '' (pol_methods p),
      pv_paths = join_with [line_feed] (map path_field (pol_path_prefixes p)),
      pv_max_ttl = (case pol_max_ttl_seconds p of Some v \<Rightarrow> dec_int v | None \<Rightarrow> []),
      pv_max_uses = (case pol_max_uses p of Some v \<Rightarrow> dec_int v | None \<Rightarrow> []),
      pv_not_after = (case pol_not_after p of Some t \<Rightarrow> datetime_local_value de t | None \<Rightarrow> [])\<rparr>"

text \<open>What a browser submits for the form \<open>policy_form\<close> renders from the values: a picker sends the
  selected name or the blank option, the two selects their selected or first option, a text area its
  text with network line ends.\<close>

definition crlf :: "string \<Rightarrow> string" where
  "crlf s = concat (map (\<lambda>c. if c = line_feed then [carriage_return, line_feed] else [c]) s)"

definition select_value :: "string option \<Rightarrow> string" where
  "select_value selected = (case selected of Some v \<Rightarrow> v | None \<Rightarrow> [])"

definition submitted :: "string \<Rightarrow> policy_form_values \<Rightarrow> policy_form" where
  "submitted csrf_token v =
     \<lparr>pf_csrf_token = csrf_token, pf_client_name = Some (select_value (pv_client v)),
      pf_secret_name = Some (select_value (pv_secret v)), pf_secret_tag = Some (select_value (pv_tag v)),
      pf_mechanism = mech_as_str (case pv_mechanism v of Some m \<Rightarrow> m | None \<Rightarrow> Mech_Brokered),
      pf_outcome = (case pv_outcome v of
                      Some x \<Rightarrow> if x \<in> set POLICY_OUTCOMES then x else hd POLICY_OUTCOMES
                    | None \<Rightarrow> hd POLICY_OUTCOMES),
      pf_priority = Some (pv_priority v), pf_origins = Some (crlf (pv_origins v)), pf_methods = Some (pv_methods v),
      pf_path_prefixes = Some (crlf (pv_paths v)), pf_max_ttl_seconds = Some (pv_max_ttl v),
      pf_max_uses = Some (pv_max_uses v), pf_not_after = Some (pv_not_after v)\<rparr>"

fun parse_methods :: "string list \<Rightarrow> ui_error + string list" where
  "parse_methods [] = Inr []"
| "parse_methods (raw # ms) =
     (let m = trim raw
      in if m = [] then parse_methods ms
         else if \<not> is_valid_http_method m then Inl (bad_request ''invalid HTTP method'')
         else map_sum id ((#) (to_ascii_uppercase m)) (parse_methods ms))"

definition field_separator :: "nat \<Rightarrow> bool" where
  "field_separator c \<longleftrightarrow> c = byte (CHR '','') \<or> cp_is_whitespace c"

definition parse_methods_field :: "string \<Rightarrow> ui_error + string list" where
  "parse_methods_field raw = parse_methods (split_chars field_separator raw)"

text \<open>The loop over the lines of a text area: trimmed, empty lines skipped.\<close>

fun parse_lines :: "(string \<Rightarrow> ui_error + 'a) \<Rightarrow> string list \<Rightarrow> ui_error + 'a list" where
  "parse_lines f [] = Inr []"
| "parse_lines f (raw # ls) =
     (let line = trim raw
      in if line = [] then parse_lines f ls
         else (case f line of Inl e \<Rightarrow> Inl e | Inr x \<Rightarrow> map_sum id ((#) x) (parse_lines f ls)))"

definition parse_origin_line :: "(string \<Rightarrow> string option option) \<Rightarrow> string \<Rightarrow> ui_error + origin" where
  "parse_origin_line url_host line = map_sum (\<lambda>e. Ui_Error 400 (Bad_origin e)) id (origin_parse url_host line)"

definition parse_prefix_line :: "string \<Rightarrow> ui_error + string" where
  "parse_prefix_line line = map_sum (\<lambda>e. Ui_Error 400 (Bad_prefix e)) id (canonicalize line)"

definition parse_positive :: "(string \<Rightarrow> int option) \<Rightarrow> string \<Rightarrow> string option \<Rightarrow> ui_error + int option" where
  "parse_positive parse what field =
     (case non_empty field of
        None \<Rightarrow> Inr None
      | Some raw \<Rightarrow>
          (case parse raw of
             Some v \<Rightarrow> if v > 0 then Inr (Some v) else Inl (bad_request (''invalid '' @ what))
           | None \<Rightarrow> Inl (bad_request (''invalid '' @ what))))"

definition parse_not_after :: "date_env \<Rightarrow> string option \<Rightarrow> ui_error + time option" where
  "parse_not_after de field =
     (case non_empty field of
        None \<Rightarrow> Inr None
      | Some raw \<Rightarrow>
          (case de_parse_minute de raw of
             Some t \<Rightarrow> Inr (Some t)
           | None \<Rightarrow>
               (case de_parse_second de raw of
                  Some t \<Rightarrow> Inr (Some t)
                | None \<Rightarrow> Inl (bad_request ''invalid not_after datetime''))))"

definition or_empty :: "string option \<Rightarrow> string" where
  "or_empty v = (case v of Some s \<Rightarrow> s | None \<Rightarrow> [])"

definition parse_policy_form ::
  "(string \<Rightarrow> string option option) \<Rightarrow> date_env \<Rightarrow> policy_form \<Rightarrow> string \<Rightarrow> ui_error + new_policy" where
  "parse_policy_form url_host de form created_by =
     (let secret_name = non_empty (pf_secret_name form); secret_tag = non_empty (pf_secret_tag form)
      in if secret_name \<noteq> None \<and> secret_tag \<noteq> None
           then Inl (bad_request ''set at most one of secret name / secret tag'')
         else
     (case mech_from_str_opt (trim (pf_mechanism form)) of
        None \<Rightarrow> Inl (bad_request ''invalid mechanism'')
      | Some mechanism \<Rightarrow>
     (let outcome = trim (pf_outcome form)
      in if outcome \<notin> set POLICY_OUTCOMES then Inl (bad_request ''invalid outcome'')
         else
     (case (case non_empty (pf_priority form) of
              None \<Rightarrow> Inr 0
            | Some raw \<Rightarrow> (case parse_i32 raw of Some v \<Rightarrow> Inr v | None \<Rightarrow> Inl (bad_request ''invalid priority''))) of
        Inl e \<Rightarrow> Inl e
      | Inr priority \<Rightarrow>
     (case parse_lines (parse_origin_line url_host) (str_lines (or_empty (pf_origins form))) of
        Inl e \<Rightarrow> Inl e
      | Inr origins \<Rightarrow>
     (if mechanism = Mech_Brokered \<and> origins = [] \<and> outcome \<in> {''auto-approve'', ''notify-only''}
        then Inl (bad_request ''a brokered auto-approve/notify-only policy must name at least one origin: without one it would release the credential to any host the client asks for'')
      else
     (case parse_methods_field (or_empty (pf_methods form)) of
        Inl e \<Rightarrow> Inl e
      | Inr methods \<Rightarrow>
     (case parse_lines parse_prefix_line (str_lines (or_empty (pf_path_prefixes form))) of
        Inl e \<Rightarrow> Inl e
      | Inr pps \<Rightarrow>
     (case parse_positive parse_i64 ''max_ttl_seconds'' (pf_max_ttl_seconds form) of
        Inl e \<Rightarrow> Inl e
      | Inr max_ttl_seconds \<Rightarrow>
     (case parse_positive parse_i32 ''max_uses'' (pf_max_uses form) of
        Inl e \<Rightarrow> Inl e
      | Inr max_uses \<Rightarrow>
     (case parse_not_after de (pf_not_after form) of
        Inl e \<Rightarrow> Inl e
      | Inr not_after \<Rightarrow>
          Inr \<lparr>np_client_name = non_empty (pf_client_name form), np_secret_name = secret_name,
               np_secret_tag = secret_tag, np_mechanism = mech_as_str mechanism, np_outcome = outcome,
               np_priority = priority, np_origins = Parsed origins, np_methods = methods, np_path_prefixes = pps,
               np_max_ttl_seconds = max_ttl_seconds, np_max_uses = max_uses, np_not_after = not_after,
               np_created_by = created_by\<rparr>)))))))))))"

section \<open>Secrets as forms\<close>

text \<open>The stored template as the form spells it: kind, header or user name, scope.\<close>

definition injection_form_fields :: "secret_row \<Rightarrow> string \<times> string \<times> string" where
  "injection_form_fields s =
     (let header = or_empty (sec_injection_header s); username = sec_injection_username s; kind = sec_injection_kind s
      in if kind = ''header'' then (''header'', header, [])
         else if kind = ''basic'' \<or> kind = ''basic-password''
           then (''basic'', (case username of Some u \<Rightarrow> u | None \<Rightarrow> header), [])
         else if kind = ''aws-sigv4'' then (''aws-sigv4'', or_empty username, header)
         else (''bearer'', [], []))"

fun check_tags :: "string list \<Rightarrow> ui_error + string list" where
  "check_tags [] = Inr []"
| "check_tags (t # ts) =
     (if t = [] then check_tags ts
      else if length t > 128 \<or> has_control t then Inl (bad_request ''invalid tag'')
      else map_sum id ((#) t) (check_tags ts))"

definition parse_tags_field :: "string \<Rightarrow> ui_error + string list" where
  "parse_tags_field raw =
     map_sum id (\<lambda>ts. remdups_adj (sort_strings ts)) (check_tags (split_chars field_separator raw))"

section \<open>Policies a secret is subject to\<close>

definition selects_secret :: "string \<Rightarrow> string list \<Rightarrow> policy_row \<Rightarrow> bool" where
  "selects_secret name tags p =
     (case pol_secret_name p of
        Some n \<Rightarrow> n = name
      | None \<Rightarrow> (case pol_secret_tag p of Some t \<Rightarrow> t \<in> set tags | None \<Rightarrow> True))"

definition policies_selecting_secret :: "policy_row list \<Rightarrow> string \<Rightarrow> string list \<Rightarrow> policy_row list" where
  "policies_selecting_secret ps name tags = filter (selects_secret name tags) ps"

definition policies_activated_by_vetting ::
  "policy_row list \<Rightarrow> string \<Rightarrow> string list \<Rightarrow> time \<Rightarrow> policy_row list" where
  "policies_activated_by_vetting ps name tags now =
     filter (selects_secret name tags)
       (filter (\<lambda>p. case pol_not_after p of None \<Rightarrow> True | Some t \<Rightarrow> now < t)
         (filter (\<lambda>p. pol_outcome p \<in> {''auto-approve'', ''notify-only''}) ps))"

section \<open>Reading back what was written\<close>

lemma dec_not_Nil [simp]: "dec n \<noteq> []"
  by (subst dec.simps) simp

lemma parse_digits_dec [simp]: "parse_digits (dec n) = Some n"
  using dec_digits by (auto simp: parse_digits_def list_all_iff dec_not_Nil)

lemma parse_signed_dec_int [simp]: "parse_signed (dec_int i) = Some i"
proof -
  have "parse_signed (dec n) = Some (int n)" for n
  proof (cases "dec n")
    case (Cons c r)
    then have "is_ascii_digit c"
      using dec_digits [of c n] by simp
    then have "c \<noteq> CHR ''+''" "c \<noteq> CHR ''-''"
      by (auto simp: is_ascii_digit_def byte_def)
    with Cons parse_digits_dec [of n] show ?thesis by simp
  qed (simp add: dec_not_Nil)
  then show ?thesis
    by (auto simp: dec_int_def)
qed

lemma trim_dec_int [simp]: "trim (dec_int i) = dec_int i"
  by (rule trim_ascii) (auto simp: dec_int_def is_ascii_digit_def byte_def dest!: dec_digits)

lemma dec_int_not_Nil [simp]: "dec_int i \<noteq> []"
  by (simp add: dec_int_def dec_not_Nil)

lemma non_empty_id: "trim s = s \<Longrightarrow> s \<noteq> [] \<Longrightarrow> non_empty (Some s) = Some s"
  by (simp add: non_empty_def)

lemma non_empty_Nil [simp]: "non_empty (Some []) = None"
  by (simp add: non_empty_def)

lemma non_empty_Some: "non_empty v = Some s \<Longrightarrow> trim s = s \<and> s \<noteq> []"
  by (auto simp: non_empty_def bind_eq_Some_conv split: if_splits)

lemma crlf_join:
  assumes "\<forall>x \<in> set xs. line_feed \<notin> set x"
  shows "crlf (join_with [line_feed] xs) = join_with [carriage_return, line_feed] xs"
proof -
  have id: "crlf x = x" if "line_feed \<notin> set x" for x
    using that by (induction x) (auto simp: crlf_def)
  have app: "crlf (x @ y) = crlf x @ crlf y" for x y
    by (simp add: crlf_def)
  show ?thesis
    using assms by (induction xs rule: induct_list012) (auto simp: app id, auto simp: crlf_def)
qed

definition plain_line :: "string \<Rightarrow> bool" where
  "plain_line x \<longleftrightarrow> x \<noteq> [] \<and> trim x = x \<and> line_feed \<notin> set x"

lemma parse_lines_read_back:
  assumes "\<forall>y \<in> set ys. plain_line (f y) \<and> parse (f y) = Inr y"
  shows "parse_lines parse (str_lines (crlf (join_with [line_feed] (map f ys)))) = Inr ys"
proof -
  have "str_lines (crlf (join_with [line_feed] (map f ys))) = map f ys"
    using assms by (simp add: crlf_join str_lines_join plain_line_def)
  moreover have "parse_lines parse (map f ys) = Inr ys"
    using assms by (induction ys) (auto simp: plain_line_def Let_def)
  ultimately show ?thesis by simp
qed

lemma parse_lines_Inr:
  assumes "parse_lines f ls = Inr ys" "y \<in> set ys"
  shows "\<exists>l. trim l = l \<and> f l = Inr y"
  using assms
proof (induction ls arbitrary: ys)
  case (Cons raw ls)
  show ?case
  proof (cases "trim raw = []")
    case True
    with Cons show ?thesis by simp
  next
    case False
    with Cons.prems obtain z zs where "f (trim raw) = Inr z" "parse_lines f ls = Inr zs" "ys = z # zs"
      by (auto simp: Let_def map_sum_eq_Inr split: sum.splits)
    with Cons.IH [of zs] Cons.prems(2) show ?thesis
      by (metis set_ConsD trim_trim)
  qed
qed simp

lemma host_chars:
  assumes "list_all host_char h" "c \<in> set h"
  shows "32 < byte c" "byte c < 127" "c \<noteq> CHR '':''" "c \<notin> {CHR ''/'', CHR ''@'', CHR ''?'', CHR ''#''}"
proof -
  have "host_char c" using assms by (simp add: list_all_iff)
  then have "(48 \<le> byte c \<and> byte c \<le> 57) \<or> (65 \<le> byte c \<and> byte c \<le> 90) \<or> (97 \<le> byte c \<and> byte c \<le> 122)
      \<or> byte c = 45 \<or> byte c = 46"
    by (auto simp: host_char_def is_ascii_alphanumeric_def is_ascii_digit_def is_ascii_lowercase_def
        is_ascii_uppercase_def byte_def)
  then show "32 < byte c" "byte c < 127" "c \<noteq> CHR '':''" "c \<notin> {CHR ''/'', CHR ''@'', CHR ''?'', CHR ''#''}"
    by (auto simp: byte_def)
qed

lemma dec_chars: "c \<in> set (dec n) \<Longrightarrow> 48 \<le> byte c \<and> byte c \<le> 57"
  using dec_digits by (simp add: is_ascii_digit_def)

text \<open>An origin the parser produced is spelled so that the parser produces it again.\<close>

definition normal_origin :: "(string \<Rightarrow> string option option) \<Rightarrow> origin \<Rightarrow> bool" where
  "normal_origin url_host x \<longleftrightarrow>
     o_host x \<noteq> [] \<and> list_all host_char (o_host x) \<and> to_ascii_lowercase (o_host x) = o_host x
     \<and> trim_end_matches (CHR ''.'') (o_host x) = o_host x \<and> url_host (''https://'' @ o_host x) = Some (Some (o_host x))
     \<and> o_port x \<noteq> Some 0"

lemma trim_end_matches_idem [simp]: "trim_end_matches c (trim_end_matches c s) = trim_end_matches c s"
  by (simp add: trim_end_matches_def)

lemma trim_end_matches_lower:
  "trim_end_matches (CHR ''.'') (to_ascii_lowercase s) = to_ascii_lowercase (trim_end_matches (CHR ''.'') s)"
proof -
  have "lower_char x = CHR ''.'' \<longleftrightarrow> x = CHR ''.''" for x
  proof -
    have "y = CHR ''.'' \<longleftrightarrow> byte y = 46" for y
      using byte_inject [of y "CHR ''.''"] by (simp add: byte_def)
    then show ?thesis
      using byte_lower_char [of x] by auto
  qed
  then show ?thesis
    by (simp add: trim_end_matches_def to_ascii_lowercase_def dropWhile_map comp_def rev_map)
qed

lemma origin_parse_normal:
  assumes "origin_parse url_host raw = Inr x"
  shows "normal_origin url_host x"
proof -
  obtain h where h: "parse_origin_host url_host h = Inr (o_host x)" "o_port x \<noteq> Some 0"
    using assms
    by (auto simp: origin_parse_def Let_def split: if_splits sum.splits option.splits prod.splits dest!: sym [of "Some _"])
  then have "o_host x = to_ascii_lowercase (trim_end_matches (CHR ''.'') h)"
    by (auto simp: parse_origin_host_def Let_def split: if_splits option.splits)
  with h show ?thesis
    by (auto simp: parse_origin_host_def Let_def normal_origin_def trim_end_matches_lower split: if_splits option.splits)
qed

lemma parse_u16_dec: "parse_u16 (dec (unat p)) = Some p"
proof -
  have "(case dec (unat p) of c # r \<Rightarrow> if c = CHR ''+'' then r else dec (unat p) | [] \<Rightarrow> dec (unat p)) = dec (unat p)"
    using dec_chars [of "CHR ''+''" "unat p"] by (auto simp: byte_def split: list.splits)
  moreover have "unat p \<le> 65535"
  proof -
    have "unat p < 2 ^ LENGTH(16)"
      by (rule unsigned_less)
    then show ?thesis by simp
  qed
  moreover have "list_all is_ascii_digit (dec (unat p))"
    using dec_digits by (simp add: list_all_iff)
  ultimately show ?thesis
    by (simp add: parse_u16_def)
qed

lemma origin_field_read_back:
  assumes "normal_origin url_host x"
  shows "plain_line (origin_field x) \<and> origin_parse url_host (origin_field x) = Inr x"
proof -
  have h: "list_all host_char (o_host x)" "o_host x \<noteq> []"
    using assms by (simp_all add: normal_origin_def)
  have colon: "CHR '':'' \<notin> set (o_host x)" "CHR '':'' \<notin> set (dec n)" for n
    using host_chars(3) [OF h(1)] dec_chars [of "CHR '':''" n] by (auto simp: byte_def)
  have chars: "32 < byte c \<and> byte c < 127 \<and> c \<notin> {CHR ''/'', CHR ''@'', CHR ''?'', CHR ''#''}"
    if "c \<in> set (origin_field x)" for c
  proof -
    note c = that
    consider "c \<in> set (o_host x)" | "c = CHR '':''" | n where "c \<in> set (dec n)"
      using c by (auto simp: origin_field_def split: option.splits)
    then show ?thesis
    proof cases
      case 1
      then show ?thesis using host_chars [OF h(1)] by blast
    next
      case 3
      then have "48 \<le> byte c \<and> byte c \<le> 57" by (rule dec_chars)
      then show ?thesis by (auto simp: byte_def)
    qed (simp add: byte_def)
  qed
  have tr: "trim (origin_field x) = origin_field x"
    by (rule trim_ascii) (use chars in blast)
  have ne: "origin_field x \<noteq> []"
    using h(2) by (simp add: origin_field_def split: option.splits)
  have pl: "plain_line (origin_field x)"
    using tr ne chars [of line_feed] by (auto simp: plain_line_def byte_def)
  have ph: "parse_origin_host url_host (o_host x) = Inr (o_host x)"
  proof -
    have "CHR ''*'' \<notin> set (o_host x)"
      using h(1) by (auto simp: list_all_iff host_char_def is_ascii_alphanumeric_def is_ascii_digit_def
          is_ascii_lowercase_def is_ascii_uppercase_def byte_def)
    then show ?thesis
      using assms by (simp add: parse_origin_host_def normal_origin_def)
  qed
  have sep: "CHR ''/'' \<notin> set (origin_field x)" "CHR ''@'' \<notin> set (origin_field x)"
    "CHR ''?'' \<notin> set (origin_field x)" "CHR ''#'' \<notin> set (origin_field x)"
    using chars by blast+
  have "origin_parse url_host (origin_field x) = Inr x"
  proof (cases "o_port x")
    case None
    have "rsplit_once (CHR '':'') (o_host x) = None"
      using colon(1) by (cases "rsplit_once (CHR '':'') (o_host x)") (auto simp: rsplit_once_Some)
    with None tr ne sep ph show ?thesis
      by (auto simp: origin_parse_def origin_field_def)
  next
    case (Some p)
    have "rsplit_once (CHR '':'') (o_host x @ '':'' @ dec (unat p)) = Some (o_host x, dec (unat p))"
      using colon by (simp add: rsplit_once_Some)
    moreover have "p \<noteq> 0"
      using assms Some by (simp add: normal_origin_def)
    ultimately show ?thesis
      using Some tr ne sep ph colon(1) by (auto simp: origin_parse_def origin_field_def parse_u16_dec)
  qed
  with pl show ?thesis by simp
qed

lemma utf8_string_eq_Nil: "utf8_string w = [] \<longleftrightarrow> w = []"
  by (cases w) (auto simp: utf8_string_def utf8_bytes_def)

text \<open>Methods: upper-case tokens, separated by commas and blanks.\<close>

lemma tchar_ascii: "is_tchar c \<Longrightarrow> 32 < byte c \<and> byte c < 127 \<and> byte c \<noteq> 44"
  by (auto simp: is_tchar_def is_ascii_alphanumeric_def is_ascii_digit_def is_ascii_lowercase_def
      is_ascii_uppercase_def byte_def)

lemma field_separator_ascii: "32 < n \<Longrightarrow> n < 127 \<Longrightarrow> field_separator n \<longleftrightarrow> n = 44"
  by (auto simp: field_separator_def cp_is_whitespace_def byte_def)

lemma parse_methods_filter: "parse_methods (filter (\<lambda>m. m \<noteq> []) ms) = parse_methods ms"
  by (induction ms) (auto simp: Let_def)

lemma parse_methods_read_back:
  assumes "\<forall>m \<in> set ms. is_valid_http_method m \<and> to_ascii_uppercase m = m"
  shows "parse_methods_field (join_with '', '' ms) = Inr ms"
proof -
  have tok: "\<forall>c \<in> set m. 32 < byte c \<and> byte c < 127 \<and> byte c \<noteq> 44" "m \<noteq> []" if "m \<in> set ms" for m
    using assms that tchar_ascii by (auto simp: is_valid_http_method_def list_all_iff)
  have "byte c < 128" if "c \<in> set (join_with '', '' ms)" for c
  proof -
    have "c \<in> set '', '' \<or> (\<exists>m \<in> set ms. c \<in> set m)"
      using that by (induction ms rule: induct_list012) auto
    then show ?thesis
      using tok by (fastforce simp: byte_def)
  qed
  then have u: "from_utf8 (join_with '', '' ms) = Some (map byte (join_with '', '' ms))"
    by (intro from_utf8_ascii) blast
  have j: "map byte (join_with '', '' ms) = join_with [44, 32] (map (map byte) ms)"
    by (induction ms rule: induct_list012) (auto simp: byte_def)
  have "filter (\<lambda>w. w \<noteq> []) (split_where field_separator (join_with [44, 32] (map (map byte) ms))) = map (map byte) ms"
    by (rule split_where_join)
      (use tok in \<open>auto simp: field_separator_ascii, auto simp: field_separator_def cp_is_whitespace_def byte_def\<close>)
  moreover have "filter (\<lambda>m. m \<noteq> []) (map utf8_string ws) = map utf8_string (filter (\<lambda>w. w \<noteq> []) ws)" for ws
    by (induction ws) (auto simp: utf8_string_eq_Nil)
  ultimately have "filter (\<lambda>m. m \<noteq> []) (split_chars field_separator (join_with '', '' ms))
      = map utf8_string (map (map byte) ms)"
    by (simp add: split_chars_def u j)
  also have "\<dots> = ms"
    using tok by (force intro: map_idI utf8_string_ascii)
  finally have "parse_methods_field (join_with '', '' ms) = parse_methods ms"
    unfolding parse_methods_field_def by (metis parse_methods_filter)
  moreover have "parse_methods ms = Inr ms"
    using assms tok
  proof (induction ms)
    case (Cons m ms)
    have "trim m = m"
      by (rule trim_ascii) (use Cons.prems(2) [of m] in simp)
    moreover have "parse_methods ms = Inr ms"
      by (rule Cons.IH) (use Cons.prems in auto)
    ultimately show ?case
      using Cons.prems by simp
  qed simp
  ultimately show ?thesis by simp
qed

lemma parse_methods_Inr:
  assumes "parse_methods raw = Inr ms" "m \<in> set ms"
  shows "is_valid_http_method m \<and> to_ascii_uppercase m = m"
  using assms
proof (induction raw arbitrary: ms)
  case (Cons r raw)
  have up: "is_valid_http_method (to_ascii_uppercase x)" "to_ascii_uppercase (to_ascii_uppercase x) = to_ascii_uppercase x"
    if "is_valid_http_method x" for x
    using that valid_method_upper by auto
  from Cons show ?case
    by (auto simp: Let_def map_sum_eq_Inr up split: if_splits)
qed simp

text \<open>Path prefixes: one more decoding undoes the escapes, and nothing else is touched.\<close>

definition path_char_cps :: "nat \<Rightarrow> nat list" where
  "path_char_cps c =
     (if c = byte (CHR ''%'') \<or> cp_is_whitespace c
      then map byte (concat (map (\<lambda>b. percent_escape (char_of b)) (utf8_bytes c)))
      else [c])"

lemma hex_digit_byte: "n < 16 \<Longrightarrow> 48 \<le> byte (hex_digit n) \<and> byte (hex_digit n) \<le> 70"
  by (auto simp: hex_digit_def)

lemma path_char_cps_scalar:
  assumes "scalar c" "n \<in> set (path_char_cps c)"
  shows "scalar n" "\<not> cp_is_whitespace n"
proof -
  have "scalar n \<and> \<not> cp_is_whitespace n"
  proof (cases "c = byte (CHR ''%'') \<or> cp_is_whitespace c")
    case True
    with assms(2) obtain b x where b: "b \<in> set (utf8_bytes c)" "x \<in> set (percent_escape (char_of b))" "n = byte x"
      by (auto simp: path_char_cps_def)
    have "33 \<le> n \<and> n < 127"
    proof -
      have h: "byte (char_of b) div 16 < 16" "byte (char_of b) mod 16 < 16"
        using byte_less [of "char_of b"] by (simp_all add: less_mult_imp_div_less)
      from b(2) consider "x = CHR ''%''" | "x = hex_digit (byte (char_of b) div 16)" | "x = hex_digit (byte (char_of b) mod 16)"
        unfolding percent_escape_def by auto
      then show ?thesis
      proof cases
        case 1
        then show ?thesis by (simp add: b(3) byte_def)
      next
        case 2
        with hex_digit_byte [OF h(1)] show ?thesis by (simp only: b(3)) linarith
      next
        case 3
        with hex_digit_byte [OF h(2)] show ?thesis by (simp only: b(3)) linarith
      qed
    qed
    then show ?thesis
      by (auto simp: cp_is_whitespace_def)
  qed (use assms in \<open>auto simp: path_char_cps_def\<close>)
  then show "scalar n" "\<not> cp_is_whitespace n" by auto
qed

lemma path_field_cps:
  assumes "from_utf8 q = Some cps"
  shows "path_field q = utf8_string (concat (map path_char_cps cps))"
    "from_utf8 (path_field q) = Some (concat (map path_char_cps cps))"
proof -
  have one: "path_char_field c = utf8_string (path_char_cps c)" if "c \<in> set cps" for c
  proof -
    have "\<forall>x \<in> set (concat (map (\<lambda>b. percent_escape (char_of b)) (utf8_bytes c))). byte x < 128"
      if w: "c = byte (CHR ''%'') \<or> cp_is_whitespace c"
    proof
      fix x
      assume "x \<in> set (concat (map (\<lambda>b. percent_escape (char_of b)) (utf8_bytes c)))"
      then obtain b :: nat where "x \<in> set (percent_escape (char_of b))"
        by auto
      moreover have "byte (char_of b) div 16 < 16" "byte (char_of b) mod 16 < 16"
        using byte_less [of "char_of b"] by (simp_all add: less_mult_imp_div_less)
      ultimately show "byte x < 128"
        using hex_digit_byte [of "byte (char_of b) div 16"] hex_digit_byte [of "byte (char_of b) mod 16"]
        unfolding percent_escape_def by (auto simp del: byte_char_of) (simp add: byte_def)
    qed
    then show ?thesis
      by (auto simp: path_char_field_def path_char_cps_def utf8_string_ascii)
  qed
  have app: "utf8_string (xs @ ys) = utf8_string xs @ utf8_string ys" for xs ys
    by (simp add: utf8_string_def)
  have "concat (map path_char_field cps) = utf8_string (concat (map path_char_cps cps))"
    using one by (induction cps) (auto simp: app, simp add: utf8_string_def)
  with assms show e: "path_field q = utf8_string (concat (map path_char_cps cps))"
    by (simp add: path_field_def)
  show "from_utf8 (path_field q) = Some (concat (map path_char_cps cps))"
    unfolding e
    by (rule from_utf8_utf8_string) (use path_char_cps_scalar(1) from_utf8_Some(2) [OF assms] in auto)
qed

lemma utf8_bytes_other: "b \<in> set (utf8_bytes c) \<Longrightarrow> b = c \<and> c < 128 \<or> 128 \<le> b"
  by (auto simp: utf8_bytes_def split: if_splits)

lemma percent_decode_raw:
  assumes "\<forall>c \<in> set w. c \<noteq> CHR ''%'' \<and> c \<noteq> backslash"
  shows "percent_decode (w @ rest) = map_sum id ((@) w) (percent_decode rest)"
  using assms by (induction w) (cases "percent_decode rest"; auto)+

lemma percent_decode_escapes:
  assumes "\<forall>c \<in> set w. c \<noteq> slash \<and> c \<noteq> backslash"
  shows "percent_decode (concat (map percent_escape w) @ rest) = map_sum id ((@) w) (percent_decode rest)"
  using assms
  by (induction w) (cases "percent_decode rest"; simp add: percent_decode_escape)+

lemma percent_decode_path_char:
  assumes "scalar c" "c \<noteq> 92"
  shows "percent_decode (path_char_field c @ rest) = map_sum id ((@) (utf8_string [c])) (percent_decode rest)"
proof -
  have b: "byte x = c \<and> c < 128 \<or> 128 \<le> byte x" if "x \<in> set (utf8_string [c])" for x
  proof -
    note x = that
    obtain n where "x = char_of n" "n \<in> set (utf8_bytes c)"
      using x by (auto simp: utf8_string_def)
    then show ?thesis
      using utf8_bytes_small [OF assms(1), of n] utf8_bytes_other [of n c] by simp
  qed
  show ?thesis
  proof (cases "c = byte (CHR ''%'') \<or> cp_is_whitespace c")
    case True
    then have c: "c \<noteq> 47"
      by (auto simp: cp_is_whitespace_def byte_def)
    have "path_char_field c = concat (map percent_escape (utf8_string [c]))"
      using True by (simp add: path_char_field_def utf8_string_def comp_def)
    moreover have "\<forall>x \<in> set (utf8_string [c]). x \<noteq> slash \<and> x \<noteq> backslash"
      using b c assms(2) by (force simp: byte_def)
    ultimately show ?thesis
      by (simp add: percent_decode_escapes)
  next
    case False
    have "\<forall>x \<in> set (utf8_string [c]). x \<noteq> CHR ''%'' \<and> x \<noteq> backslash"
      using b False assms(2) by (force simp: byte_def)
    with False show ?thesis
      by (simp add: path_char_field_def percent_decode_raw)
  qed
qed

lemma slash_char: "char_of (47 :: nat) = slash"
  by code_simp

lemma path_field_read_back:
  assumes "canonical_path q"
  shows "plain_line (path_field q) \<and> parse_prefix_line (path_field q) = Inr q"
proof -
  obtain cps where cps: "from_utf8 q = Some cps" and bs: "backslash \<notin> set q" and sl: "starts_with ''/'' q"
    using assms by (auto simp: canonical_path_def split: option.splits)
  note u = from_utf8_Some [OF cps]
  have no: "92 \<notin> set cps"
  proof
    assume "92 \<in> set cps"
    moreover have "92 \<in> set (utf8_bytes 92)"
      by (simp add: utf8_bytes_def)
    ultimately have "char_of (92 :: nat) \<in> set (utf8_string cps)"
      unfolding utf8_string_def set_map set_concat by blast
    moreover have "char_of (92 :: nat) = backslash"
      by code_simp
    ultimately show False
      using bs u(1) by simp
  qed
  have dec: "percent_decode (concat (map path_char_field xs)) = Inr (utf8_string xs)"
    if "\<forall>c \<in> set xs. scalar c \<and> c \<noteq> 92" for xs
    using that
  proof (induction xs)
    case (Cons c xs)
    then show ?case
      by (simp add: percent_decode_path_char, simp add: utf8_string_def)
  qed (simp add: utf8_string_def)
  have pd: "percent_decode (path_field q) = Inr q"
    using dec [of cps] u no cps by (auto simp: path_field_def)
  obtain r where r: "q = slash # r"
    using sl by (auto simp: starts_with_append)
  obtain cps' where "cps = 47 # cps'"
    using cps by (auto simp: r from_utf8_def byte_def)
  then have "path_field q = slash # concat (map path_char_field cps')"
    using cps by (simp add: path_field_def path_char_field_def utf8_string_def utf8_bytes_def byte_def
        cp_is_whitespace_def slash_char)
  then have st: "starts_with ''/'' (path_field q)" "path_field q \<noteq> []"
    by simp_all
  have nows: "\<forall>n \<in> set (concat (map path_char_cps cps)). \<not> cp_is_whitespace n"
    using path_char_cps_scalar(2) u(2) by auto
  have tr: "trim (path_field q) = path_field q"
    by (rule trim_no_whitespace [OF path_field_cps(2) [OF cps] nows])
  have "line_feed \<notin> set (path_field q)"
  proof
    assume "line_feed \<in> set (path_field q)"
    then have "10 \<in> set (map byte (path_field q))"
      by (force simp: byte_def)
    then have "10 \<in> set (concat (map path_char_cps cps))"
      using path_field_cps(2) [OF cps] utf8_cps_ascii_mem [of "map byte (path_field q)" _ 10]
      by (simp add: from_utf8_def)
    with nows have "\<not> cp_is_whitespace 10" by blast
    then show False by (simp add: cp_is_whitespace_def)
  qed
  moreover have "canonicalize (path_field q) = Inr q"
    using assms st(1) pd by (auto simp: canonicalize_def canonical_path_def split: option.splits)
  ultimately show ?thesis
    using st(2) tr by (simp add: plain_line_def parse_prefix_line_def)
qed

text \<open>What is relied on of the date library, for the instants its parsers return (they have whole seconds): the
  spelling to the minute reads back when the second is zero, the spelling to the second reads back and is
  refused by the format without seconds, and neither spelling is empty or has white space around it.\<close>

definition date_library :: "date_env \<Rightarrow> bool" where
  "date_library de \<longleftrightarrow>
     (\<forall>s t. de_parse_minute de s = Some t \<or> de_parse_second de s = Some t \<longrightarrow>
        (de_second de t = 0 \<longrightarrow> de_parse_minute de (de_format_minute de t) = Some t)
        \<and> de_parse_minute de (de_format_second de t) = None
        \<and> de_parse_second de (de_format_second de t) = Some t
        \<and> (\<forall>f \<in> {de_format_minute de t, de_format_second de t}. f \<noteq> [] \<and> trim f = f))"

text \<open>The form then reads an instant back from the spelling it gives it.\<close>

lemma parse_datetime_local:
  assumes "date_library de" "de_parse_minute de s = Some t \<or> de_parse_second de s = Some t"
  shows "parse_not_after de (Some (datetime_local_value de t)) = Inr (Some t)"
  using assms(1) [unfolded date_library_def, rule_format, OF assms(2)]
  by (auto simp: parse_not_after_def datetime_local_value_def non_empty_id)

definition trimmed_name :: "string option \<Rightarrow> bool" where
  "trimmed_name v \<longleftrightarrow> (case v of None \<Rightarrow> True | Some s \<Rightarrow> trim s = s \<and> s \<noteq> [])"

lemma trimmed_name_field: "trimmed_name v \<Longrightarrow> non_empty (Some (select_value v)) = v"
  by (cases v) (auto simp: trimmed_name_def select_value_def non_empty_id)

text \<open>The rules a form can hold.\<close>

definition form_rule :: "(string \<Rightarrow> string option option) \<Rightarrow> new_policy \<Rightarrow> bool" where
  "form_rule url_host np \<longleftrightarrow>
     trimmed_name (np_client_name np) \<and> trimmed_name (np_secret_name np) \<and> trimmed_name (np_secret_tag np)
     \<and> (np_secret_name np = None \<or> np_secret_tag np = None)
     \<and> (\<exists>m xs. np_mechanism np = mech_as_str m \<and> np_origins np = Parsed xs \<and> (\<forall>x \<in> set xs. normal_origin url_host x)
          \<and> \<not> (m = Mech_Brokered \<and> xs = [] \<and> np_outcome np \<in> {''auto-approve'', ''notify-only''}))
     \<and> np_outcome np \<in> set POLICY_OUTCOMES
     \<and> - (2 ^ 31) \<le> np_priority np \<and> np_priority np \<le> 2 ^ 31 - 1
     \<and> (\<forall>m \<in> set (np_methods np). is_valid_http_method m \<and> to_ascii_uppercase m = m)
     \<and> (\<forall>q \<in> set (np_path_prefixes np). canonical_path q)
     \<and> (\<forall>v \<in> set_option (np_max_ttl_seconds np). 0 < v \<and> v \<le> 2 ^ 63 - 1)
     \<and> (\<forall>v \<in> set_option (np_max_uses np). 0 < v \<and> v \<le> 2 ^ 31 - 1)"

lemma parse_positive_read_back:
  assumes "\<And>v. x = Some v \<Longrightarrow> 0 < v \<and> parse (dec_int v) = Some v"
  shows "parse_positive parse what (Some (case x of Some v \<Rightarrow> dec_int v | None \<Rightarrow> [])) = Inr x"
  using assms by (cases x) (auto simp: parse_positive_def non_empty_id)

lemma parse_i64_dec: "0 < v \<Longrightarrow> v \<le> 2 ^ 63 - 1 \<Longrightarrow> parse_i64 (dec_int v) = Some v"
  by (simp add: parse_i64_def in_range_def)

lemma parse_i32_dec: "0 < v \<Longrightarrow> v \<le> 2 ^ 31 - 1 \<Longrightarrow> parse_i32 (dec_int v) = Some v"
  by (simp add: parse_i32_def in_range_def)

lemma outcome_trim: "x \<in> set POLICY_OUTCOMES \<Longrightarrow> trim x = x"
  by (rule trim_ascii) (auto simp: POLICY_OUTCOMES_def byte_def)

lemma mech_trim [simp]: "trim (mech_as_str m) = mech_as_str m"
  by (rule trim_ascii) (cases m; auto simp: byte_def)

lemma form_rule_read_back:
  assumes "form_rule url_host np"
    "\<And>t. np_not_after np = Some t \<Longrightarrow> parse_not_after de (Some (datetime_local_value de t)) = Inr (Some t)"
  shows "parse_policy_form url_host de (submitted token (from_row de (new_policy_row now i np by_whom managed))) created_by
    = Inr (np\<lparr>np_created_by := created_by\<rparr>)"
proof -
  obtain m xs where m: "np_mechanism np = mech_as_str m" "np_origins np = Parsed xs" "\<forall>x \<in> set xs. normal_origin url_host x"
    "\<not> (m = Mech_Brokered \<and> xs = [] \<and> np_outcome np \<in> {''auto-approve'', ''notify-only''})"
    using assms(1) by (auto simp: form_rule_def)
  let ?f = "submitted token (from_row de (new_policy_row now i np by_whom managed))"
  have names: "non_empty (pf_client_name ?f) = np_client_name np" "non_empty (pf_secret_name ?f) = np_secret_name np"
    "non_empty (pf_secret_tag ?f) = np_secret_tag np"
    using assms(1) by (simp_all add: form_rule_def submitted_def from_row_def new_policy_row_def trimmed_name_field)
  have mech: "mech_from_str_opt (trim (pf_mechanism ?f)) = Some m"
    by (simp add: submitted_def from_row_def new_policy_row_def m(1))
  have out: "trim (pf_outcome ?f) = np_outcome np" "np_outcome np \<in> set POLICY_OUTCOMES"
    using assms(1) by (simp_all add: form_rule_def submitted_def from_row_def new_policy_row_def outcome_trim)
  have prio: "non_empty (pf_priority ?f) = Some (dec_int (np_priority np))" "parse_i32 (dec_int (np_priority np)) = Some (np_priority np)"
    using assms(1)
    by (simp_all add: form_rule_def submitted_def from_row_def new_policy_row_def non_empty_id parse_i32_def in_range_def)
  have orig: "parse_lines (parse_origin_line url_host) (str_lines (or_empty (pf_origins ?f))) = Inr xs"
    using parse_lines_read_back [of xs origin_field "parse_origin_line url_host"] origin_field_read_back m(3)
    by (auto simp: submitted_def from_row_def new_policy_row_def m(2) or_empty_def parse_origin_line_def)
  have meth: "parse_methods_field (or_empty (pf_methods ?f)) = Inr (np_methods np)"
    using parse_methods_read_back [of "np_methods np"] assms(1)
    by (simp add: form_rule_def submitted_def from_row_def new_policy_row_def or_empty_def)
  have pth: "parse_lines parse_prefix_line (str_lines (or_empty (pf_path_prefixes ?f))) = Inr (np_path_prefixes np)"
    using parse_lines_read_back [of "np_path_prefixes np" path_field parse_prefix_line] path_field_read_back assms(1)
    by (simp add: form_rule_def submitted_def from_row_def new_policy_row_def or_empty_def)
  have "\<And>v. np_max_ttl_seconds np = Some v \<Longrightarrow> 0 < v \<and> v \<le> 2 ^ 63 - 1"
    "\<And>v. np_max_uses np = Some v \<Longrightarrow> 0 < v \<and> v \<le> 2 ^ 31 - 1"
    using assms(1) by (simp_all add: form_rule_def)
  note limits = this [THEN conjunct1] this [THEN conjunct2]
  have ttl: "parse_positive parse_i64 ''max_ttl_seconds'' (pf_max_ttl_seconds ?f) = Inr (np_max_ttl_seconds np)"
    using parse_positive_read_back [of "np_max_ttl_seconds np" parse_i64 "''max_ttl_seconds''"]
      limits(1) parse_i64_dec [OF limits(1,3)]
    by (simp add: submitted_def from_row_def new_policy_row_def)
  have uses: "parse_positive parse_i32 ''max_uses'' (pf_max_uses ?f) = Inr (np_max_uses np)"
    using parse_positive_read_back [of "np_max_uses np" parse_i32 "''max_uses''"]
      limits(2) parse_i32_dec [OF limits(2,4)]
    by (simp add: submitted_def from_row_def new_policy_row_def)
  have date: "parse_not_after de (pf_not_after ?f) = Inr (np_not_after np)"
    using assms(2) by (cases "np_not_after np")
      (simp_all add: submitted_def from_row_def new_policy_row_def parse_not_after_def non_empty_def)
  have two: "\<not> (np_secret_name np \<noteq> None \<and> np_secret_tag np \<noteq> None)"
    using assms(1) by (auto simp: form_rule_def)
  show ?thesis
    using m two out(2)
    by (auto simp: parse_policy_form_def Let_def names mech out(1) prio orig meth pth ttl uses date)
qed

lemma parse_positive_Inr:
  assumes "parse_positive parse what field = Inr (Some v)"
  shows "0 < v \<and> (\<exists>s. parse s = Some v)"
  using assms by (auto simp: parse_positive_def split: option.splits if_splits)

lemma in_range_Some: "in_range lo hi x = Some v \<Longrightarrow> lo \<le> v \<and> v \<le> hi"
  by (auto simp: in_range_def bind_eq_Some_conv split: if_splits)

lemma parse_policy_form_rule:
  assumes "parse_policy_form url_host de form created_by = Inr np"
  shows "form_rule url_host np" "np_created_by np = created_by"
    "np_not_after np = Some t \<Longrightarrow> \<exists>s. de_parse_minute de s = Some t \<or> de_parse_second de s = Some t"
proof -
  from assms obtain m priority xs ms pps ttl uses na where p:
    "\<not> (non_empty (pf_secret_name form) \<noteq> None \<and> non_empty (pf_secret_tag form) \<noteq> None)"
    "trim (pf_outcome form) \<in> set POLICY_OUTCOMES"
    "(case non_empty (pf_priority form) of None \<Rightarrow> Inr 0
      | Some raw \<Rightarrow> (case parse_i32 raw of Some v \<Rightarrow> Inr v | None \<Rightarrow> Inl (bad_request ''invalid priority''))) = Inr priority"
    "parse_lines (parse_origin_line url_host) (str_lines (or_empty (pf_origins form))) = Inr xs"
    "\<not> (m = Mech_Brokered \<and> xs = [] \<and> trim (pf_outcome form) \<in> {''auto-approve'', ''notify-only''})"
    "parse_methods_field (or_empty (pf_methods form)) = Inr ms"
    "parse_lines parse_prefix_line (str_lines (or_empty (pf_path_prefixes form))) = Inr pps"
    "parse_positive parse_i64 ''max_ttl_seconds'' (pf_max_ttl_seconds form) = Inr ttl"
    "parse_positive parse_i32 ''max_uses'' (pf_max_uses form) = Inr uses"
    "parse_not_after de (pf_not_after form) = Inr na"
    and np: "np = \<lparr>np_client_name = non_empty (pf_client_name form), np_secret_name = non_empty (pf_secret_name form),
               np_secret_tag = non_empty (pf_secret_tag form), np_mechanism = mech_as_str m, np_outcome = trim (pf_outcome form),
               np_priority = priority, np_origins = Parsed xs, np_methods = ms, np_path_prefixes = pps,
               np_max_ttl_seconds = ttl, np_max_uses = uses, np_not_after = na, np_created_by = created_by\<rparr>"
    unfolding parse_policy_form_def Let_def by (auto split: if_splits option.splits sum.splits)
  have names: "trimmed_name (non_empty v)" for v
    by (auto simp: trimmed_name_def dest: non_empty_Some split: option.splits)
  have "- (2 ^ 31) \<le> priority \<and> priority \<le> 2 ^ 31 - 1"
    using p(3) by (auto simp: parse_i32_def dest: in_range_Some split: option.splits)
  moreover have "\<forall>x \<in> set xs. normal_origin url_host x"
    using parse_lines_Inr [OF p(4)] origin_parse_normal by (fastforce simp: parse_origin_line_def map_sum_eq_Inr)
  moreover have "\<forall>q \<in> set pps. canonical_path q"
    using parse_lines_Inr [OF p(7)] canonicalize_canonical by (fastforce simp: parse_prefix_line_def map_sum_eq_Inr)
  moreover have "\<forall>m \<in> set ms. is_valid_http_method m \<and> to_ascii_uppercase m = m"
    using p(6) parse_methods_Inr by (auto simp: parse_methods_field_def)
  moreover have "\<forall>v \<in> set_option ttl. 0 < v \<and> v \<le> 2 ^ 63 - 1"
    using p(8) by (auto simp: parse_i64_def dest!: parse_positive_Inr in_range_Some)
  moreover have "\<forall>v \<in> set_option uses. 0 < v \<and> v \<le> 2 ^ 31 - 1"
    using p(9) by (auto simp: parse_i32_def dest!: parse_positive_Inr in_range_Some)
  ultimately show "form_rule url_host np"
    using p(1,2,5) names by (auto simp: form_rule_def np)
  show "np_created_by np = created_by"
    by (simp add: np)
  show "\<exists>s. de_parse_minute de s = Some t \<or> de_parse_second de s = Some t" if "np_not_after np = Some t"
    using p(10) that by (auto simp: np parse_not_after_def split: option.splits)
qed

text \<open>C30: a rule the policy form accepted is shown by the edit form such that saving it unchanged
  accepts exactly the same rule, for every client, secret, tag, origin, method, path prefix, limit and
  expiry, the latter by the laws of the date library's two formats.\<close>

theorem policy_form_roundtrip:
  assumes "parse_policy_form url_host de form created_by = Inr np"
    and "date_library de"
  shows "parse_policy_form url_host de (submitted token (from_row de (new_policy_row now i np by_whom managed))) created_by
    = Inr np"
proof -
  have "np\<lparr>np_created_by := created_by\<rparr> = np"
    using parse_policy_form_rule(2) [OF assms(1)] by simp
  then show ?thesis
    using form_rule_read_back [OF parse_policy_form_rule(1) [OF assms(1)]]
      parse_datetime_local [OF assms(2)] parse_policy_form_rule(3) [OF assms(1)] by metis
qed

text \<open>An example of a date library: minutes written in decimal, and seconds written in decimal after a mark.\<close>

definition ex_date :: date_env where
  "ex_date = \<lparr>de_second = (\<lambda>t. nat (t mod 60)), de_format_minute = (\<lambda>t. dec_int (t div 60)),
     de_format_second = (\<lambda>t. CHR ''s'' # dec_int t),
     de_parse_minute = (\<lambda>s. map_option ((*) 60) (parse_signed s)),
     de_parse_second = (\<lambda>s. if starts_with ''s'' s then parse_signed (tl s) else None)\<rparr>"

lemma ex_date_library: "date_library ex_date"
proof -
  have "trim (CHR ''s'' # dec_int t) = CHR ''s'' # dec_int t" for t
    by (rule trim_ascii) (auto simp: dec_int_def is_ascii_digit_def byte_def dest!: dec_digits)
  moreover have "parse_signed (CHR ''s'' # r) = None" for r
    by (simp add: parse_digits_def is_ascii_digit_def byte_def)
  moreover have "60 * (t div 60) = t" if "nat (t mod 60) = 0" for t :: int
    using that mult_div_mod_eq [of 60 t] by (metis add.right_neutral nat_eq_iff2 nat_0_iff order_antisym pos_mod_sign zero_less_numeral)
  ultimately show ?thesis
    by (simp add: date_library_def ex_date_def del: parse_signed.simps)
qed

definition ex_policy_form :: policy_form where
  "ex_policy_form =
     \<lparr>pf_csrf_token = ''t'', pf_client_name = Some '' bot '', pf_secret_name = Some ''db'', pf_secret_tag = Some [],
      pf_mechanism = ''brokered'', pf_outcome = ''auto-approve'', pf_priority = Some ''-3'',
      pf_origins = Some ''API.example.com.'', pf_methods = Some ''get, Post'',
      pf_path_prefixes = Some ''/v1/100%25%20'', pf_max_ttl_seconds = Some ''60'', pf_max_uses = None,
      pf_not_after = Some '' s77''\<rparr>"

theorem policy_form_roundtrip_witness:
  "\<exists>np. parse_policy_form ex_url_host ex_date ex_policy_form ''alice'' = Inr np
     \<and> np_path_prefixes np = [''/v1/100% ''] \<and> np_methods np = [''GET'', ''POST''] \<and> np_not_after np = Some 77
     \<and> parse_policy_form ex_url_host ex_date
         (submitted ''t2'' (from_row ex_date (new_policy_row 5 9 np ''alice'' False))) ''alice'' = Inr np"
proof -
  have f: "map_sum ui_status (\<lambda>np. (np_path_prefixes np, np_methods np, np_not_after np)) (parse_policy_form ex_url_host ex_date ex_policy_form ''alice'')
      = Inr ([''/v1/100% ''], [''GET'', ''POST''], Some 77)"
    by code_simp
  then obtain np where np: "parse_policy_form ex_url_host ex_date ex_policy_form ''alice'' = Inr np"
    "np_path_prefixes np = [''/v1/100% '']" "np_methods np = [''GET'', ''POST'']" "np_not_after np = Some 77"
    by (auto simp: map_sum_eq_Inr)
  show ?thesis
    using policy_form_roundtrip [OF np(1) ex_date_library] np by blast
qed

end
