(* ===== verification/Api_Grants.thy ===== *)
theory Api_Grants
  imports Api_Requests
begin

text \<open>
  The grant endpoints (\<open>server/src/api/grants.rs\<close>): the metadata of a grant, and the release of its
  payload with idempotent replay.
\<close>

section \<open>Metadata\<close>

text \<open>The TTL in whole seconds, rounded, of a span in microseconds.\<close>

definition span_seconds :: "int \<Rightarrow> 64 word" where
  "span_seconds span = word_of_int ((max (span div 1000) 0 + 500) div 1000)"

definition column_u32 :: "int \<Rightarrow> 32 word" where
  "column_u32 v = word_of_int (max v 0)"

definition info ::
  "api_env \<Rightarrow> app_state \<Rightarrow> string option \<Rightarrow> string option \<Rightarrow> time \<Rightarrow> db \<Rightarrow> api_failure + grant_info" where
  "info env app header raw now d =
     (case authenticate_client env app header d of
        Inl e \<Rightarrow> Inl e
      | Inr client \<Rightarrow>
     (case path_id env raw of
        Inl e \<Rightarrow> Inl e
      | Inr gid \<Rightarrow>
     (case owned_grant (cl_name client) gid d of
        Inl e \<Rightarrow> Inl e
      | Inr g \<Rightarrow>
     (case mech_from_str_opt (gr_mechanism g) of
        None \<Rightarrow> Inl (Internal (Bail ''unknown grant mechanism''))
      | Some m \<Rightarrow>
     (case gr_constraints g of
        Malformed _ \<Rightarrow> Inl (Internal (Bail ''grant constraints''))
      | Parsed c \<Rightarrow>
          Inr \<lparr>gi_grant_id = gr_id g, gi_mechanism = m,
               gi_constraints = c\<lparr>c_max_uses := map_option column_u32 (gr_max_uses g),
                                  c_ttl_seconds := span_seconds (gr_not_after g - gr_created_at g)\<rparr>,
               gi_not_after = gr_not_after g, gi_max_uses = map_option column_u32 (gr_max_uses g),
               gi_use_count = column_u32 (gr_use_count g), gi_revoked = gr_revoked g,
               gi_server_time = Some now\<rparr>)))))"

section \<open>Opening payloads\<close>

definition open_passthrough :: "api_env \<Rightarrow> app_state \<Rightarrow> grant_row \<Rightarrow> api_failure + bytes" where
  "open_passthrough env app g =
     (case (gr_passthrough_ciphertext g, gr_passthrough_nonce g, gr_passthrough_wrapped_dek g) of
        (Some ct, Some nonce, Some dek) \<Rightarrow>
          if \<not> gr_passthrough_ephemeral g then Inl PayloadLost
          else
            (case ephemeral_open (env_aead env) (env_uuid_str env) (app_ephemeral_kek app) ct nonce dek
                    (AadGrantPassthrough (gr_id g)) of
               Inl _ \<Rightarrow> Inl PayloadLost
             | Inr m \<Rightarrow> Inr m)
      | _ \<Rightarrow> Inl PayloadLost)"

definition open_secret_version :: "api_env \<Rightarrow> app_state \<Rightarrow> secret_version_row \<Rightarrow> api_failure + bytes" where
  "open_secret_version env app v =
     (case keyset_open (env_aead env) (env_uuid_str env) (app_keyset app) (ver_ciphertext v) (ver_nonce v)
             (ver_wrapped_dek v) (ver_kek_id v) (AadSecretVersion (ver_secret_id v) (ver_version v)) of
        Inl _ \<Rightarrow> Inl (Internal Open_error)
      | Inr m \<Rightarrow> Inr m)"

section \<open>Release\<close>

datatype release_source = Src_Passthrough | Src_PassthroughGone | Src_Stored secret_version_row

text \<open>Revocation and expiry on the database clock.\<close>

definition grant_dead :: "time \<Rightarrow> uuid \<Rightarrow> db \<Rightarrow> bool" where
  "grant_dead now gid d =
     (case get_grant gid d of
        None \<Rightarrow> True
      | Some g \<Rightarrow> gr_revoked g \<or> gr_not_after g \<le> now)"

text \<open>Where the payload comes from, and the version id pinned for replays.\<close>

definition payload_source ::
  "grant_row \<Rightarrow> secret_row option \<Rightarrow> db \<Rightarrow> api_failure + (release_source \<times> uuid)" where
  "payload_source g secret d =
     (if gr_passthrough_ciphertext g \<noteq> None then Inr (Src_Passthrough, gr_id g)
      else if gr_passthrough_ephemeral g then Inr (Src_PassthroughGone, gr_id g)
      else
        (case secret of
           None \<Rightarrow> Inl PayloadLost
         | Some s \<Rightarrow>
             (case get_secret_version (sec_id s) (sec_current_version s) d of
                None \<Rightarrow> Inl PayloadLost
              | Some v \<Rightarrow> Inr (Src_Stored v, ver_id v))))"

text \<open>The plaintext an accounted use obtains, with the version it is of.\<close>

definition use_payload ::
  "api_env \<Rightarrow> app_state \<Rightarrow> release_source \<Rightarrow> uuid \<Rightarrow> grant_use \<Rightarrow> db
   \<Rightarrow> api_failure + (bytes \<times> uuid \<times> grant_row)" where
  "use_payload env app source version_id outcome d =
     (case outcome of
        NotFound \<Rightarrow> Inl Not_Found
      | ExpiredOrRevoked \<Rightarrow> Inl GrantExpired
      | Exhausted \<Rightarrow> Inl GrantExhausted
      | FirstUse g \<Rightarrow>
          map_sum id (\<lambda>pt. (pt, version_id, g))
            (case source of
               Src_Passthrough \<Rightarrow> open_passthrough env app g
             | Src_PassthroughGone \<Rightarrow> Inl PayloadLost
             | Src_Stored v \<Rightarrow> open_secret_version env app v)
      | Replay g pinned passthrough \<Rightarrow>
          if passthrough then map_sum id (\<lambda>pt. (pt, gr_id g, g)) (open_passthrough env app g)
          else
            (case pinned of
               None \<Rightarrow> Inl PayloadLost
             | Some p \<Rightarrow>
                 (case get_secret_version_by_id p d of
                    None \<Rightarrow> Inl PayloadLost
                  | Some v \<Rightarrow> map_sum id (\<lambda>pt. (pt, p, g)) (open_secret_version env app v))))"

definition read_response :: "api_env \<Rightarrow> bytes \<Rightarrow> uuid \<Rightarrow> read_grant_response" where
  "read_response env plaintext vid =
     (if valid_utf8 plaintext then \<lparr>rr_secret = plaintext, rr_encoding = Enc_Utf8, rr_secret_version_id = vid\<rparr>
      else \<lparr>rr_secret = env_b64_encode env plaintext, rr_encoding = Enc_Base64, rr_secret_version_id = vid\<rparr>)"

definition release_completed :: "grant_row \<Rightarrow> uuid \<Rightarrow> audit_event" where
  "release_completed g vid =
     audit_default\<lparr>ae_kind := RELEASE_COMPLETED, ae_request_id := Some (gr_request_id g),
       ae_grant_id := Some (gr_id g), ae_client_name := Some (gr_client_name g),
       ae_secret_name := Some (gr_secret_name g), ae_secret_version_id := Some vid, ae_status := Some 200\<rparr>"

text \<open>One call: the clock when the grant was found alive and when the use is accounted, and whether
  the detached completion row is written in time.\<close>

record read_call =
  rcl_check_now :: time
  rcl_now :: time
  rcl_audited :: bool

text \<open>\<open>POST /v1/grants/{id}/read\<close>.  The reads before the accounting see \<open>d0\<close>, the accounting
  transaction sees \<open>d\<close>; the pinned version of a replay is read after it.\<close>

definition read ::
  "api_env \<Rightarrow> app_state \<Rightarrow> read_call \<Rightarrow> string option \<Rightarrow> string option \<Rightarrow> bytes_rejection + bytes \<Rightarrow> db \<Rightarrow> db
   \<Rightarrow> (api_failure + read_grant_response) \<times> db" where
  "read env app call header raw body d0 d =
     (case body_bytes body of
        Inl e \<Rightarrow> (Inl e, d)
      | Inr bs \<Rightarrow>
     (case authenticate_client env app header d0 of
        Inl e \<Rightarrow> (Inl e, d)
      | Inr client \<Rightarrow>
     (case path_id env raw of
        Inl e \<Rightarrow> (Inl e, d)
      | Inr gid \<Rightarrow>
     (case env_parse_read env bs of
        None \<Rightarrow> (Inl (InvalidRequest ''malformed request body''), d)
      | Some key \<Rightarrow>
     (if key = [] then (Inl (InvalidRequest ''idempotency_key is required''), d)
      else if length key > 160 then (Inl (RequestTooLarge ''idempotency_key too long''), d)
      else
     (case owned_grant (cl_name client) gid d0 of
        Inl e \<Rightarrow> (Inl e, d)
      | Inr g0 \<Rightarrow>
     (case mech_from_str_opt (gr_mechanism g0) of
        None \<Rightarrow> (Inl RevalidationFailed, d)
      | Some m \<Rightarrow>
     (if \<not> is_releasing m then (Inl WrongMechanism, d)
      else
     (case revalidate_grant g0 d0 of
        Inl e \<Rightarrow> (Inl e, d)
      | Inr secret \<Rightarrow>
     (if grant_dead (rcl_check_now call) (gr_id g0) d0 then (Inl GrantExpired, d)
      else
     (case payload_source g0 secret d0 of
        Inl e \<Rightarrow> (Inl e, d)
      | Inr (source, version_id) \<Rightarrow>
     (case begin_grant_use (rcl_now call) (gr_id g0) (Some key) (Some version_id) RELEASE_ATTEMPT
             (lim_replay_window_seconds (app_limits app)) None d of
        Inl e \<Rightarrow> (Inl (Internal e), d)
      | Inr (outcome, d1) \<Rightarrow>
     (case use_payload env app source version_id outcome d1 of
        Inl e \<Rightarrow> (Inl e, d1)
      | Inr (plaintext, vid, g) \<Rightarrow>
          (Inr (read_response env plaintext vid),
           if rcl_audited call then insert_audit (rcl_now call) (release_completed g vid) d1 else d1))))))))))))))"

section \<open>What a release presupposes\<close>

lemma read_Inr:
  assumes "read env app call header raw body d0 d = (Inr resp, d')"
  obtains bs client gid key g0 m secret source vid0 outcome d1 plaintext vid g where
    "body = Inr bs" "authenticate_client env app header d0 = Inr client" "path_id env raw = Inr gid"
    "env_parse_read env bs = Some key" "key \<noteq> []" "length key \<le> 160"
    "owned_grant (cl_name client) gid d0 = Inr g0" "mech_from_str_opt (gr_mechanism g0) = Some m" "is_releasing m"
    "revalidate_grant g0 d0 = Inr secret" "payload_source g0 secret d0 = Inr (source, vid0)"
    "begin_grant_use (rcl_now call) gid (Some key) (Some vid0) RELEASE_ATTEMPT
       (lim_replay_window_seconds (app_limits app)) None d = Inr (outcome, d1)"
    "use_payload env app source vid0 outcome d1 = Inr (plaintext, vid, g)" "resp = read_response env plaintext vid"
    "d' = (if rcl_audited call then insert_audit (rcl_now call) (release_completed g vid) d1 else d1)"
proof -
  from assms obtain bs client gid key g0 m where pre: "body = Inr bs" "authenticate_client env app header d0 = Inr client"
      "path_id env raw = Inr gid" "env_parse_read env bs = Some key" "key \<noteq> []" "length key \<le> 160"
      "owned_grant (cl_name client) gid d0 = Inr g0" "mech_from_str_opt (gr_mechanism g0) = Some m" "is_releasing m"
    by (auto simp: read_def body_bytes_def split: sum.splits bytes_rejection.splits option.splits if_splits)
  have gid: "gr_id g0 = gid"
    by (rule owned_grant_Inr(3) [OF pre(7)])
  from assms pre gid obtain secret source vid0 where mid: "revalidate_grant g0 d0 = Inr secret"
      "\<not> grant_dead (rcl_check_now call) gid d0" "payload_source g0 secret d0 = Inr (source, vid0)"
    by (auto simp: read_def body_bytes_def split: sum.splits if_splits)
  from assms pre gid mid that show thesis
    by (auto simp: read_def body_bytes_def split: sum.splits prod.splits)
qed

text \<open>The plaintext of a release: the version row of the given id, or the payload of the grant itself.\<close>

definition released_from :: "api_env \<Rightarrow> app_state \<Rightarrow> db \<Rightarrow> db \<Rightarrow> uuid \<Rightarrow> bytes \<Rightarrow> uuid \<Rightarrow> bool" where
  "released_from env app d0 d gid pt vid \<longleftrightarrow>
     (\<exists>v \<in> set (db_versions d0) \<union> set (db_versions d). ver_id v = vid \<and> open_secret_version env app v = Inr pt)
     \<or> vid = gid \<and> (\<exists>g. gr_id g = gid \<and> get_grant gid d = Some g \<and> open_passthrough env app g = Inr pt)"

lemma get_grant_id: "get_grant gid d = Some g \<Longrightarrow> gr_id g = gid"
  by (auto simp: get_grant_def dest: find_Some_mem)

lemma get_grant_bump:
  assumes "get_grant gid d = Some g" and "db_grants d1 = upd_where (\<lambda>q. gr_id q = gid) bump_use (db_grants d)"
  shows "get_grant gid d1 = Some (bump_use g)"
  using assms get_grant_id [OF assms(1)] by (simp add: get_grant_def)

text \<open>C17: every release is authorized and accounted first.  When the read endpoint answers with a
  secret, an enabled client was authenticated and owns the grant, whose mechanism releases; client, mechanism and
  secret are still enabled within their tiers; the grant was live when the read was accounted; and either
  it had uses left, the key was new and one use more is counted, or the key is being replayed within the window and no use is
  spent.  Before the answer the audit log got a row with this grant, its client and, for a stored secret,
  the version whose plaintext is returned; the bytes come from that version or from the grant's own payload.\<close>

theorem release_authorized:
  assumes "read env app call header raw body d0 d = (Inr resp, d')"
    and ids: "distinct (map gr_id (db_grants d))"
  shows "\<exists>client gid key g0 m secret g e rest pt. authenticate_client env app header d0 = Inr client \<and> cl_enabled client
    \<and> path_id env raw = Inr gid \<and> get_grant gid d0 = Some g0 \<and> gr_client_name g0 = cl_name client
    \<and> mech_from_str_opt (gr_mechanism g0) = Some m \<and> is_releasing m \<and> still_permitted g0 d0 secret
    \<and> get_grant gid d = Some g \<and> live_grant (rcl_now call) g
    \<and> (uses_left g \<and> find_read gid key d = None
          \<and> db_grants d' = upd_where (\<lambda>q. gr_id q = gid) bump_use (db_grants d)
        \<or> (\<exists>q. find_read gid key d = Some q \<and> in_window (rcl_now call) (lim_replay_window_seconds (app_limits app)) q)
          \<and> db_grants d' = db_grants d)
    \<and> db_audit d' = db_audit d @ (rcl_now call, e) # rest \<and> ae_kind e = RELEASE_ATTEMPT
    \<and> ae_grant_id e = Some gid \<and> ae_client_name e = Some (gr_client_name g)
    \<and> (rr_secret_version_id resp = gid \<or> ae_secret_version_id e = Some (rr_secret_version_id resp))
    \<and> resp = read_response env pt (rr_secret_version_id resp)
    \<and> released_from env app d0 d' gid pt (rr_secret_version_id resp)"
  using assms(1)
proof (cases rule: read_Inr)
  case (1 bs client gid key g0 m secret source vid0 outcome d1 plaintext vid gu)
  have vid: "rr_secret_version_id resp = vid"
    by (simp add: 1(14) read_response_def)
  have frame: "db_grants d' = db_grants d1" "db_versions d' = db_versions d1"
      "\<exists>rest. db_audit d' = db_audit d1 @ rest"
    by (auto simp: 1(15) insert_audit_def)
  have "cl_enabled client"
    using 1(2) by (rule authenticate_client_Inr)
  note pre = 1(2,3) this owned_grant_Inr [OF 1(7)] 1(8,9) revalidate_grant_Inr [OF 1(10)]
  from ids 1(12) show ?thesis
  proof (cases rule: begin_grant_use_cases)
    case Nothing
    with 1(13) show ?thesis by (auto simp: use_payload_def)
  next
    case (Again g k q)
    have rel: "released_from env app d0 d' gid plaintext vid"
      using 1(13) Again(1,6,7) frame get_grant_id [OF Again(1)]
      by (auto simp: use_payload_def released_from_def map_sum_eq_Inr get_grant_def get_secret_version_by_id_def insert_audit_def
          split: if_splits option.splits dest: find_Some_mem)
    have ver: "vid = gid \<or> rd_secret_version_id q = Some vid"
      using 1(13) Again(6) get_grant_id [OF Again(1)]
      by (auto simp: use_payload_def map_sum_eq_Inr split: if_splits option.splits)
    let ?e = "use_event RELEASE_ATTEMPT g (rd_secret_version_id q) None (Some replay_detail)"
    obtain rest where "db_audit d' = db_audit d @ (rcl_now call, ?e) # rest" "db_grants d' = db_grants d"
      using frame Again(7) by (auto simp: insert_audit_def)
    moreover have "ae_kind ?e = RELEASE_ATTEMPT" "ae_grant_id ?e = Some gid" "ae_client_name ?e = Some (gr_client_name g)"
        "ae_secret_version_id ?e = rd_secret_version_id q"
      using get_grant_id [OF Again(1)] by (simp_all add: use_event_def)
    ultimately show ?thesis
      using pre Again(1-5) rel ver 1(14) unfolding vid
      by (intro exI [of _ client] exI [of _ gid] exI [of _ key] exI [of _ g0] exI [of _ m] exI [of _ secret] exI [of _ g]
          exI [of _ ?e] exI [of _ rest] exI [of _ plaintext]) simp
  next
    case (First g)
    have g1: "get_grant gid d' = Some (bump_use g)"
      using get_grant_bump [OF First(1,7)] frame by (simp add: get_grant_def)
    have rel: "released_from env app d0 d' gid plaintext vid" and ver: "vid = vid0"
      using 1(11,13) First(6) g1 get_grant_id [OF First(1)] get_grant_id [OF owned_grant_Inr(1) [OF 1(7)]]
      by (auto simp: use_payload_def payload_source_def released_from_def map_sum_eq_Inr get_secret_version_def
          split: if_splits option.splits dest: find_Some_mem)
    let ?e = "use_event RELEASE_ATTEMPT (bump_use g) (Some vid0) None None"
    obtain rest where "db_audit d' = db_audit d @ (rcl_now call, ?e) # rest"
        "db_grants d' = upd_where (\<lambda>q. gr_id q = gid) bump_use (db_grants d)"
      using frame First(7,9) by auto
    moreover have "ae_kind ?e = RELEASE_ATTEMPT" "ae_grant_id ?e = Some gid" "ae_client_name ?e = Some (gr_client_name g)"
        "ae_secret_version_id ?e = Some vid0"
      using get_grant_id [OF First(1)] by (simp_all add: use_event_def)
    ultimately show ?thesis
      using pre First(1-3,5) rel ver 1(14) unfolding vid
      by (intro exI [of _ client] exI [of _ gid] exI [of _ key] exI [of _ g0] exI [of _ m] exI [of _ secret] exI [of _ g]
          exI [of _ ?e] exI [of _ rest] exI [of _ plaintext]) simp
  qed
qed

section \<open>An example release\<close>

definition ex_proxy_grant :: grant_row where
  "ex_proxy_grant = \<lparr>gr_id = 20, gr_request_id = 10, gr_client_name = ''fa'', gr_secret_name = ''tok'',
     gr_mechanism = ''brokered'', gr_constraints = Parsed ex_constraints, gr_not_after = 600000000,
     gr_max_uses = Some 3, gr_use_count = 1, gr_revoked = False, gr_passthrough_ciphertext = None,
     gr_passthrough_nonce = None, gr_passthrough_wrapped_dek = None, gr_passthrough_ephemeral = False,
     gr_created_at = 0\<rparr>"

definition ex_version_row :: secret_version_row where
  "ex_version_row = \<lparr>ver_id = 30, ver_secret_id = 7, ver_version = 1, ver_ciphertext = sl_ciphertext ex_sealed,
     ver_nonce = sl_nonce ex_sealed, ver_wrapped_dek = sl_wrapped_dek ex_sealed, ver_kek_id = sl_kek_id ex_sealed,
     ver_created_at = 0, ver_created_by_request = None\<rparr>"

definition ex_proxy_db :: db where
  "ex_proxy_db = empty_db\<lparr>db_clients := [ex_client_row], db_secrets := [ex_secret_row\<lparr>sec_id := 7\<rparr>],
     db_versions := [ex_version_row], db_grants := [ex_proxy_grant]\<rparr>"

definition ex_read_db :: db where
  "ex_read_db = ex_proxy_db\<lparr>db_grants := [ex_proxy_grant\<lparr>gr_mechanism := ''autofill'', gr_max_uses := Some 1, gr_use_count := 0\<rparr>]\<rparr>"

definition ex_read_call :: read_call where
  "ex_read_call = \<lparr>rcl_check_now = 4, rcl_now = 5, rcl_audited = True\<rparr>"

abbreviation ex_read :: "(api_failure + read_grant_response) \<times> db" where
  "ex_read \<equiv> read ex_env ex_app ex_read_call ex_header (Some ''20'') (Inr ''k1'') ex_read_db ex_read_db"

definition ex_read_response :: read_grant_response where
  "ex_read_response = \<lparr>rr_secret = ''pw'', rr_encoding = Enc_Utf8, rr_secret_version_id = 30\<rparr>"

lemma ex_read_ok: "ex_read = (Inr ex_read_response, snd ex_read)"
proof -
  have "fst ex_read = Inr ex_read_response"
    by code_simp
  then show ?thesis
    by (simp add: prod_eq_iff)
qed

theorem release_authorized_witness:
  "\<exists>e rest. db_audit (snd ex_read) = (5, e) # rest \<and> ae_kind e = RELEASE_ATTEMPT \<and> ae_grant_id e = Some 20
     \<and> ae_secret_version_id e = Some 30"
proof -
  have ids: "distinct (map gr_id (db_grants ex_read_db))"
    and p: "path_id ex_env (Some ''20'') = Inr 20" "rr_secret_version_id ex_read_response = 30" "rcl_now ex_read_call = 5"
      "db_audit ex_read_db = []" "(30 :: uuid) \<noteq> 20"
    by code_simp+
  from release_authorized [OF ex_read_ok ids] p show ?thesis by fastforce
qed

end
