(* ===== verification/Proxy.thy ===== *)
theory Proxy
  imports Api_Grants Sigv4
begin

text \<open>
  The brokered proxy leg (\<open>server/src/proxy.rs\<close>): which calls a grant lets through, how the
  outbound request is built, and in which order accounting, decryption and sending happen.

  A header map is the list of its (lower-case name, value) entries.  The \<open>http\<close> and \<open>url\<close> crates, the
  clock formats of a signature and the upstream itself are the fields of \<open>proxy_env\<close>: \<open>px_url\<close> is
  \<open>Url::parse\<close> followed by \<open>set_path\<close> and \<open>set_query\<close>.
\<close>

section \<open>Environment\<close>

type_synonym headers = "(string \<times> bytes) list"

record sent_url =
  su_host :: "string option"
  su_port :: "16 word option"
  su_path :: string
  su_query :: "string option"

record outbound =
  ob_method :: string
  ob_url :: sent_url
  ob_headers :: headers
  ob_body :: bytes

datatype upstream_result = Up_Timeout | Up_Unreachable | Up_Response nat headers "bytes list"

record proxy_env =
  px_header_text :: "bytes \<Rightarrow> string option"
  px_header_name :: "string \<Rightarrow> string option"
  px_header_value_ok :: "bytes \<Rightarrow> bool"
  px_method_ok :: "string \<Rightarrow> bool"
  px_url :: "string \<Rightarrow> string \<Rightarrow> string option \<Rightarrow> sent_url option"
  px_hex :: "bytes \<Rightarrow> string"
  px_amz_date :: string
  px_date :: string
  px_upstream :: "outbound \<Rightarrow> upstream_result"

section \<open>Headers\<close>

definition KEYCHUTE_ERROR_HEADER :: string where "KEYCHUTE_ERROR_HEADER = ''x-keychute-error''"

definition STRIP_LIST :: "string list" where
  "STRIP_LIST =
     [''host'', ''authorization'', ''proxy-authorization'', ''cookie'', ''set-cookie'', ''forwarded'',
      ''x-real-ip'', ''x-http-method-override'', ''x-method-override'', ''x-original-url'',
      ''x-rewrite-url'', ''x-original-method'', ''connection'', ''keep-alive'', ''proxy-connection'',
      ''te'', ''trailer'', ''transfer-encoding'', ''upgrade'', ''content-length'', ''expect'']"

definition RESPONSE_STRIP :: "string list" where
  "RESPONSE_STRIP =
     [KEYCHUTE_ERROR_HEADER, ''connection'', ''keep-alive'', ''proxy-authenticate'', ''proxy-authorization'',
      ''proxy-connection'', ''te'', ''trailer'', ''transfer-encoding'', ''upgrade'']"

definition connection_named :: "proxy_env \<Rightarrow> headers \<Rightarrow> string list" where
  "connection_named px hs =
     filter (\<lambda>t. t \<noteq> [])
       (map (\<lambda>t. to_ascii_lowercase (trim t))
         (concat (map (split_on (CHR '',''))
           (List.map_filter (\<lambda>(n, v). if n = ''connection'' then px_header_text px v else None) hs))))"

definition build_outbound_headers :: "proxy_env \<Rightarrow> headers \<Rightarrow> string list \<Rightarrow> headers" where
  "build_outbound_headers px caller injected =
     (let dynamic = connection_named px caller
      in filter (\<lambda>(n, v). \<not> (n \<in> set STRIP_LIST \<or> starts_with ''x-forwarded-'' n
                              \<or> n \<in> set dynamic \<or> n \<in> set injected)) caller)"

definition build_response_headers :: "proxy_env \<Rightarrow> headers \<Rightarrow> headers" where
  "build_response_headers px upstream =
     (let dynamic = connection_named px upstream
      in filter (\<lambda>(n, v). \<not> (n \<in> set RESPONSE_STRIP \<or> n \<in> set dynamic)) upstream)"

text \<open>\<open>HeaderMap::insert\<close>.\<close>

definition header_insert :: "string \<Rightarrow> bytes \<Rightarrow> headers \<Rightarrow> headers" where
  "header_insert n v hs = filter (\<lambda>(m, _). m \<noteq> n) hs @ [(n, v)]"

section \<open>Credential placement\<close>

datatype injection_spec = Spec_Bearer | Spec_Header string | Spec_BasicPassword string | Spec_AwsSigV4 sigv4_scope

definition crlf_or_nul :: "char \<Rightarrow> bool" where
  "crlf_or_nul b \<longleftrightarrow> b = CHR 0x0D \<or> b = CHR 0x0A \<or> b = CHR 0x00"

fun spec_validate :: "proxy_env \<Rightarrow> injection_spec \<Rightarrow> api_failure + string" where
  "spec_validate px Spec_Bearer = Inr ''authorization''"
| "spec_validate px (Spec_Header name) =
     (let lower = to_ascii_lowercase name
      in if lower \<in> set STRIP_LIST \<or> starts_with ''x-forwarded-'' lower then Inl BadCredentialEncoding
         else (case px_header_name px name of None \<Rightarrow> Inl BadCredentialEncoding | Some n \<Rightarrow> Inr n))"
| "spec_validate px (Spec_BasicPassword username) =
     (if CHR '':'' \<in> set username \<or> list_ex crlf_or_nul username then Inl BadCredentialEncoding
      else Inr ''authorization'')"
| "spec_validate px (Spec_AwsSigV4 scope) =
     (case validate_access_key_id (sg_access_key_id scope) of
        Inl _ \<Rightarrow> Inl BadCredentialEncoding
      | Inr _ \<Rightarrow>
          (case parse_scope (sg_region scope @ ''/'' @ sg_service scope) of
             Inl _ \<Rightarrow> Inl BadCredentialEncoding
           | Inr _ \<Rightarrow> Inr ''authorization''))"

fun owned_headers :: "injection_spec \<Rightarrow> string list" where
  "owned_headers (Spec_AwsSigV4 scope) = ''authorization'' # SYNTHESIZED @ STRIPPED_CALLER_HEADERS"
| "owned_headers _ = []"

definition header_value :: "proxy_env \<Rightarrow> bytes \<Rightarrow> api_failure + bytes" where
  "header_value px b = (if px_header_value_ok px b then Inr b else Inl BadCredentialEncoding)"

definition injection_header ::
  "api_env \<Rightarrow> proxy_env \<Rightarrow> injection_spec \<Rightarrow> bytes \<Rightarrow> api_failure + (string \<times> bytes)" where
  "injection_header env px spec secret =
     (case spec_validate px spec of
        Inl e \<Rightarrow> Inl e
      | Inr name \<Rightarrow>
          (case spec of
             Spec_Bearer \<Rightarrow>
               if list_ex crlf_or_nul secret then Inl BadCredentialEncoding
               else map_sum id (Pair name) (header_value px (''Bearer '' @ secret))
           | Spec_Header _ \<Rightarrow>
               if list_ex crlf_or_nul secret then Inl BadCredentialEncoding
               else map_sum id (Pair name) (header_value px secret)
           | Spec_BasicPassword username \<Rightarrow>
               map_sum id (Pair name)
                 (header_value px (''Basic '' @ env_b64_encode env (username @ '':'' @ secret)))
           | Spec_AwsSigV4 _ \<Rightarrow> Inl (Internal (Bail ''aws-sigv4 has no static injection header''))))"

fun amz_headers :: "proxy_env \<Rightarrow> headers \<Rightarrow> api_failure + (string \<times> string) list" where
  "amz_headers px [] = Inr []"
| "amz_headers px ((n, v) # hs) =
     (if starts_with ''x-amz-'' n then
        (case px_header_text px v of
           None \<Rightarrow> Inl (InvalidRequest ''x-amz-* header is not visible ASCII'')
         | Some t \<Rightarrow> map_sum id ((#) (n, t)) (amz_headers px hs))
      else amz_headers px hs)"

definition sigv4_request_of ::
  "string \<Rightarrow> string \<Rightarrow> sent_url \<Rightarrow> (string \<times> string) list \<Rightarrow> bytes \<Rightarrow> sigv4_request" where
  "sigv4_request_of method host url extra payload =
     \<lparr>sq_method = method,
      sq_host = (case su_port url of Some p \<Rightarrow> host @ '':'' @ dec (unat p) | None \<Rightarrow> host),
      sq_wire_path = su_path url, sq_extra_signed_headers = extra, sq_payload = payload\<rparr>"

definition sigv4_headers ::
  "api_env \<Rightarrow> proxy_env \<Rightarrow> sigv4_scope \<Rightarrow> bytes \<Rightarrow> string \<Rightarrow> sent_url \<Rightarrow> headers \<Rightarrow> bytes \<Rightarrow> api_failure + headers" where
  "sigv4_headers env px scope secret method url outbound payload =
     (case su_host url of
        None \<Rightarrow> Inl (Internal (Bail ''upstream URL has no host''))
      | Some host \<Rightarrow>
          (case amz_headers px outbound of
             Inl e \<Rightarrow> Inl e
           | Inr extra \<Rightarrow>
               (let signed = sign (env_hmac env) (env_sha256_hex env) (px_hex px) (px_amz_date px) (px_date px)
                               scope secret (sigv4_request_of method host url extra payload)
                in if \<not> px_header_value_ok px (sd_authorization signed) then Inl BadCredentialEncoding
                   else if \<not> px_header_value_ok px (sd_amz_date signed) then Inl (Internal (Bail ''x-amz-date''))
                   else if \<not> px_header_value_ok px (sd_content_sha256 signed)
                     then Inl (Internal (Bail ''x-amz-content-sha256''))
                   else Inr [(''authorization'', sd_authorization signed), (''x-amz-date'', sd_amz_date signed),
                             (''x-amz-content-sha256'', sd_content_sha256 signed)])))"

section \<open>Target\<close>

fun escape_percent :: "string \<Rightarrow> string" where
  "escape_percent [] = []"
| "escape_percent (c # s) = (if c = CHR ''%'' then ''%25'' else [c]) @ escape_percent s"

definition outbound_url :: "proxy_env \<Rightarrow> string \<Rightarrow> string \<Rightarrow> string option \<Rightarrow> bool \<Rightarrow> sent_url option" where
  "outbound_url px origin canonical query sigv4_path =
     px_url px origin (if sigv4_path then wire_path canonical else escape_percent canonical) query"

definition grant_id_from_path :: "api_env \<Rightarrow> string \<Rightarrow> api_failure + uuid" where
  "grant_id_from_path env raw =
     (case strip_prefix ''/v1/grants/'' raw of
        None \<Rightarrow> Inl Not_Found
      | Some rest \<Rightarrow>
          (case split_once slash rest of
             None \<Rightarrow> Inl Not_Found
           | Some (i, _) \<Rightarrow> (case env_parse_uuid env i of None \<Rightarrow> Inl Not_Found | Some u \<Rightarrow> Inr u)))"

definition proxy_suffix :: "string \<Rightarrow> string option" where
  "proxy_suffix raw =
     (case strip_prefix ''/v1/grants/'' raw of
        None \<Rightarrow> None
      | Some after_prefix \<Rightarrow>
          (case split_once slash after_prefix of
             None \<Rightarrow> None
           | Some (_, rest) \<Rightarrow>
               (case strip_prefix ''proxy'' rest of
                  None \<Rightarrow> None
                | Some [] \<Rightarrow> Some ''/''
                | Some (c # s) \<Rightarrow> if c = slash then Some (c # s) else None)))"

section \<open>The handler\<close>

record proxy_request =
  pq_method :: string
  pq_path :: string
  pq_query :: "string option"
  pq_headers :: headers
  pq_body :: "bytes option list"

text \<open>The buffered body; a chunk that cannot be read is \<^term>\<open>None\<close>.\<close>

fun read_body :: "nat \<Rightarrow> bytes \<Rightarrow> bytes option list \<Rightarrow> api_failure + bytes" where
  "read_body max_body buf [] = Inr buf"
| "read_body max_body buf (None # cs) = Inl (InvalidRequest ''request body read failed'')"
| "read_body max_body buf (Some c # cs) =
     (if length buf + length c > max_body then Inl BodyTooLarge else read_body max_body (buf @ c) cs)"

text \<open>The static messages of \<open>canonicalize\<close>.\<close>

fun path_error_message :: "path_error \<Rightarrow> string" where
  "path_error_message Path_must_start_with_slash = ''path must start with '' @ quoted ''/''"
| "path_error_message Truncated_percent_escape = ''truncated percent escape''"
| "path_error_message Invalid_percent_escape = ''invalid percent escape''"
| "path_error_message Encoded_slash = ''encoded '' @ quoted ''/'' @ '' in path''"
| "path_error_message Encoded_backslash = ''encoded '' @ quoted [backslash] @ '' in path''"
| "path_error_message Raw_backslash = ''raw '' @ quoted [backslash] @ '' in path''"
| "path_error_message Not_utf8_after_decoding = ''path is not valid UTF-8 after decoding''"
| "path_error_message Control_character = ''control character in path''"
| "path_error_message Dot_segment = ''dot segment in path''"
| "path_error_message Duplicate_slash = ''duplicate slash in path''"

text \<open>The method and the path, judged by the constraints of the grant.\<close>

definition check_call :: "constraints \<Rightarrow> proxy_request \<Rightarrow> api_failure + (string \<times> string \<times> origin)" where
  "check_call c rq =
     (let method = to_ascii_uppercase (pq_method rq)
      in if method = ''TRACE''
           then Inl (PolicyDenied ''TRACE is never proxied (it would reflect the injected credential)'')
         else if c_methods c \<noteq> [] \<and> \<not> list_ex (\<lambda>m. eq_ignore_ascii_case m method) (c_methods c)
           then Inl (PolicyDenied ''method not allowed by grant'')
         else
           (case proxy_suffix (pq_path rq) of
              None \<Rightarrow> Inl (Internal (Bail ''route prefix mismatch''))
            | Some rest \<Rightarrow>
                (case canonicalize rest of
                   Inl e \<Rightarrow> Inl (InvalidPath (path_error_message e))
                 | Inr canonical \<Rightarrow>
                     if c_path_prefixes c \<noteq> [] \<and> \<not> list_ex (\<lambda>p. prefix_matches p canonical) (c_path_prefixes c)
                       then Inl (PolicyDenied ''path not allowed by grant'')
                     else
                       (case c_origins c of
                          [x] \<Rightarrow> Inr (method, canonical, x)
                        | _ \<Rightarrow> Inl (Internal (Bail ''brokered grant must have exactly one origin''))))))"

definition spec_of_secret :: "secret_row \<Rightarrow> api_failure + injection_spec" where
  "spec_of_secret s =
     (let kind = sec_injection_kind s
      in if kind = ''bearer'' then Inr Spec_Bearer
         else if kind = ''header'' then
           (case sec_injection_header s of
              None \<Rightarrow> Inl BadCredentialEncoding
            | Some n \<Rightarrow> Inr (Spec_Header n))
         else if kind = ''basic'' \<or> kind = ''basic-password'' then
           (case (case sec_injection_username s of Some u \<Rightarrow> Some u | None \<Rightarrow> sec_injection_header s) of
              None \<Rightarrow> Inl BadCredentialEncoding
            | Some u \<Rightarrow> Inr (Spec_BasicPassword u))
         else if kind = ''aws-sigv4'' then
           (case sec_injection_username s of
              None \<Rightarrow> Inl BadCredentialEncoding
            | Some key \<Rightarrow>
                (case sec_injection_header s of
                   None \<Rightarrow> Inl BadCredentialEncoding
                 | Some sc \<Rightarrow>
                     (case parse_scope sc of
                        Inl _ \<Rightarrow> Inl BadCredentialEncoding
                      | Inr (region, service) \<Rightarrow>
                          Inr (Spec_AwsSigV4 \<lparr>sg_access_key_id = key, sg_region = region, sg_service = service\<rparr>))))
         else Inl BadCredentialEncoding)"

definition is_sigv4 :: "injection_spec \<Rightarrow> bool" where
  "is_sigv4 spec = (case spec of Spec_AwsSigV4 _ \<Rightarrow> True | _ \<Rightarrow> False)"

text \<open>Everything decided before a use is accounted.\<close>

record proxy_plan =
  pl_method :: string
  pl_origin :: origin
  pl_path :: string
  pl_body :: bytes
  pl_version :: secret_version_row
  pl_spec :: injection_spec
  pl_url :: sent_url
  pl_audited_path :: string

definition proxy_plan_of ::
  "proxy_env \<Rightarrow> app_state \<Rightarrow> grant_row \<Rightarrow> secret_row \<Rightarrow> proxy_request \<Rightarrow> db \<Rightarrow> api_failure + proxy_plan" where
  "proxy_plan_of px app g secret rq d =
     (case gr_constraints g of
        Malformed _ \<Rightarrow> Inl (Internal (Bail ''grant constraints''))
      | Parsed c \<Rightarrow>
     (case check_call c rq of
        Inl e \<Rightarrow> Inl e
      | Inr (method, canonical, origin) \<Rightarrow>
     (case read_body (lim_proxy_max_body_bytes (app_limits app)) [] (pq_body rq) of
        Inl e \<Rightarrow> Inl e
      | Inr body \<Rightarrow>
     (case get_secret_version (sec_id secret) (sec_current_version secret) d of
        None \<Rightarrow> Inl PayloadLost
      | Some version \<Rightarrow>
     (case spec_of_secret secret of
        Inl e \<Rightarrow> Inl e
      | Inr spec \<Rightarrow>
     (case spec_validate px spec of
        Inl e \<Rightarrow> Inl e
      | Inr _ \<Rightarrow>
     (if is_sigv4 spec \<and> pq_query rq \<noteq> None
        then Inl (InvalidRequest ''aws-sigv4 grants do not forward a query string'')
      else
     (case outbound_url px (origin_to_display origin) canonical (pq_query rq) (is_sigv4 spec) of
        None \<Rightarrow> Inl (Internal (Bail ''origin parse''))
      | Some url \<Rightarrow>
          Inr \<lparr>pl_method = method, pl_origin = origin, pl_path = canonical, pl_body = body,
               pl_version = version, pl_spec = spec, pl_url = url,
               pl_audited_path = (case su_query url of Some q \<Rightarrow> su_path url @ ''?'' @ q | None \<Rightarrow> su_path url)\<rparr>))))))))"

definition plan_target :: "proxy_plan \<Rightarrow> audit_target" where
  "plan_target p =
     \<lparr>at_method = pl_method p, at_origin = origin_to_display (pl_origin p), at_path = pl_audited_path p\<rparr>"

text \<open>The outbound request of an accounted use.\<close>

definition build_outbound ::
  "api_env \<Rightarrow> proxy_env \<Rightarrow> app_state \<Rightarrow> proxy_plan \<Rightarrow> headers \<Rightarrow> api_failure + outbound" where
  "build_outbound env px app p caller =
     (case open_secret_version env app (pl_version p) of
        Inl e \<Rightarrow> Inl e
      | Inr plaintext \<Rightarrow>
          (case (case pl_spec p of
                   Spec_AwsSigV4 scope \<Rightarrow>
                     (let out = build_outbound_headers px caller (owned_headers (pl_spec p))
                      in map_sum id (Pair out)
                           (sigv4_headers env px scope plaintext (pl_method p) (pl_url p) out (pl_body p)))
                 | _ \<Rightarrow>
                     (case injection_header env px (pl_spec p) plaintext of
                        Inl e \<Rightarrow> Inl e
                      | Inr (n, v) \<Rightarrow> Inr (build_outbound_headers px caller [n], [(n, v)]))) of
             Inl e \<Rightarrow> Inl e
           | Inr (out, injected) \<Rightarrow>
               if \<not> px_method_ok px (pl_method p) then Inl (InvalidRequest ''invalid HTTP method'')
               else Inr \<lparr>ob_method = pl_method p, ob_url = pl_url p,
                         ob_headers = fold (\<lambda>(n, v). header_insert n v) injected out, ob_body = pl_body p\<rparr>))"

record proxy_response =
  px_status :: nat
  px_response_headers :: headers
  px_chunks :: "bytes list"
  px_truncated :: bool

text \<open>The response body, cut where it crosses the cap.\<close>

fun cap_chunks :: "nat \<Rightarrow> nat \<Rightarrow> bytes list \<Rightarrow> bytes list \<times> bool" where
  "cap_chunks max_body seen [] = ([], False)"
| "cap_chunks max_body seen (c # cs) =
     (if seen + length c > max_body then ([], True)
      else (let (out, cut) = cap_chunks max_body (seen + length c) cs in (c # out, cut)))"

definition proxy_completed :: "grant_row \<Rightarrow> proxy_plan \<Rightarrow> nat \<Rightarrow> audit_event" where
  "proxy_completed g p code =
     audit_default\<lparr>ae_kind := PROXY_COMPLETED, ae_request_id := Some (gr_request_id g),
       ae_grant_id := Some (gr_id g), ae_client_name := Some (gr_client_name g),
       ae_secret_name := Some (gr_secret_name g), ae_secret_version_id := Some (ver_id (pl_version p)),
       ae_method := Some (pl_method p), ae_origin := Some (origin_to_display (pl_origin p)),
       ae_path := Some (pl_audited_path p), ae_status := Some (int code)\<rparr>"

definition respond :: "proxy_env \<Rightarrow> limits \<Rightarrow> nat \<Rightarrow> headers \<Rightarrow> bytes list \<Rightarrow> proxy_response" where
  "respond px lim code hs chunks =
     (let (out, cut) = cap_chunks (lim_proxy_max_body_bytes lim) 0 chunks
      in \<lparr>px_status = code,
          px_response_headers = header_insert ''cache-control'' ''no-store'' (build_response_headers px hs),
          px_chunks = out, px_truncated = cut\<rparr>)"

text \<open>When the stream deadline elapses, relative to the handler's progress.\<close>

datatype race = In_time | Elapsed_before_use | Elapsed_before_send | Elapsed_before_response

record proxy_call =
  pcl_now :: time
  pcl_audited :: bool
  pcl_race :: race

text \<open>What happened: the answer, the request that went upstream if one did, the database and the
  stream counters.  On success the slot stays taken until the response stream is dropped.\<close>

type_synonym proxy_outcome = "(api_failure + proxy_response) \<times> outbound option \<times> db \<times> counts"

text \<open>After the use has been accounted in \<open>d1\<close>.\<close>

definition proxy_forward ::
  "api_env \<Rightarrow> proxy_env \<Rightarrow> app_state \<Rightarrow> proxy_call \<Rightarrow> string \<Rightarrow> grant_row \<Rightarrow> proxy_plan \<Rightarrow> proxy_request
   \<Rightarrow> db \<Rightarrow> counts \<Rightarrow> proxy_outcome" where
  "proxy_forward env px app call client_name g p rq d1 streams =
     (case build_outbound env px app p (pq_headers rq) of
        Inl e \<Rightarrow> (Inl e, None, d1, drop_slot client_name streams)
      | Inr out \<Rightarrow>
          if pcl_race call = Elapsed_before_send
            then (Inl UpstreamTimeout, None, d1, drop_slot client_name streams)
          else if pcl_race call = Elapsed_before_response
            then (Inl UpstreamTimeout, Some out, d1, drop_slot client_name streams)
          else
            (case px_upstream px out of
               Up_Timeout \<Rightarrow> (Inl UpstreamTimeout, Some out, d1, drop_slot client_name streams)
             | Up_Unreachable \<Rightarrow> (Inl UpstreamUnreachable, Some out, d1, drop_slot client_name streams)
             | Up_Response code hs chunks \<Rightarrow>
                 (Inr (respond px (app_limits app) code hs chunks), Some out,
                  (if pcl_audited call then insert_audit (pcl_now call) (proxy_completed g p code) d1 else d1),
                  streams)))"

text \<open>Who calls, on which grant, for which secret.\<close>

definition proxy_admit ::
  "api_env \<Rightarrow> app_state \<Rightarrow> string option \<Rightarrow> uuid \<Rightarrow> db \<Rightarrow> api_failure + (client_row \<times> grant_row \<times> secret_row)" where
  "proxy_admit env app header gid d =
     (case authenticate_client env app header d of
        Inl e \<Rightarrow> Inl e
      | Inr client \<Rightarrow>
     (case owned_grant (cl_name client) gid d of
        Inl e \<Rightarrow> Inl e
      | Inr g \<Rightarrow>
     (if mech_from_str_opt (gr_mechanism g) \<noteq> Some Mech_Brokered then Inl WrongMechanism
      else
     (case revalidate_grant g d of
        Inl e \<Rightarrow> Inl e
      | Inr None \<Rightarrow> Inl PayloadLost
      | Inr (Some secret) \<Rightarrow> Inr (client, g, secret)))))"

text \<open>The accounting of one use; a refusal still returns the database.\<close>

definition proxy_account ::
  "app_state \<Rightarrow> time \<Rightarrow> uuid \<Rightarrow> proxy_plan \<Rightarrow> db \<Rightarrow> (api_failure + unit) \<times> db" where
  "proxy_account app now gid p d =
     (case begin_grant_use now gid None (Some (ver_id (pl_version p))) PROXY_ATTEMPT
             (lim_replay_window_seconds (app_limits app)) (Some (plan_target p)) d of
        Inl e \<Rightarrow> (Inl (Internal e), d)
      | Inr (FirstUse _, d1) \<Rightarrow> (Inr (), d1)
      | Inr (NotFound, d1) \<Rightarrow> (Inl Not_Found, d1)
      | Inr (ExpiredOrRevoked, d1) \<Rightarrow> (Inl GrantExpired, d1)
      | Inr (Exhausted, d1) \<Rightarrow> (Inl GrantExhausted, d1)
      | Inr (Replay _ _ _, d1) \<Rightarrow> (Inl (Internal (Bail ''replay outcome without idempotency key'')), d1))"

text \<open>The handler: reads before the accounting see \<open>d0\<close>, the accounting sees \<open>d\<close>.\<close>

definition handle ::
  "api_env \<Rightarrow> proxy_env \<Rightarrow> app_state \<Rightarrow> proxy_call \<Rightarrow> string option \<Rightarrow> proxy_request \<Rightarrow> db \<Rightarrow> db \<Rightarrow> counts
   \<Rightarrow> proxy_outcome" where
  "handle env px app call header rq d0 d streams =
     (case grant_id_from_path env (pq_path rq) of
        Inl e \<Rightarrow> (Inl e, None, d, streams)
      | Inr gid \<Rightarrow>
     (if pcl_race call = Elapsed_before_use then (Inl UpstreamTimeout, None, d, streams)
      else
     (case proxy_admit env app header gid d0 of
        Inl e \<Rightarrow> (Inl e, None, d, streams)
      | Inr (client, g, secret) \<Rightarrow>
     (let (taken, streams1) = try_take_slot (lim_max_proxy_streams_per_client (app_limits app)) (cl_name client) streams;
          streams2 = drop_slot (cl_name client) streams1
      in if \<not> taken then (Inl TooManyStreams, None, d, streams1)
         else
     (case proxy_plan_of px app g secret rq d0 of
        Inl e \<Rightarrow> (Inl e, None, d, streams2)
      | Inr p \<Rightarrow>
     (case proxy_account app (pcl_now call) gid p d of
        (Inl e, d1) \<Rightarrow> (Inl e, None, d1, streams2)
      | (Inr _, d1) \<Rightarrow> proxy_forward env px app call (cl_name client) g p rq d1 streams1))))))"

section \<open>How a call is handled\<close>

lemma proxy_account_cases:
  assumes "proxy_account app now gid p d = (r, d')"
  obtains (Refused) e where "r = Inl e" "d' = d"
  | (Used) g1 where "r = Inr ()"
      "begin_grant_use now gid None (Some (ver_id (pl_version p))) PROXY_ATTEMPT
         (lim_replay_window_seconds (app_limits app)) (Some (plan_target p)) d = Inr (FirstUse g1, d')"
  using assms
  by (auto simp: proxy_account_def begin_grant_use_def fresh_use_def Let_def
      split: option.splits if_splits sum.splits)

lemma proxy_admit_Inr:
  assumes "proxy_admit env app header gid d = Inr (client, g, secret)"
  shows "authenticate_client env app header d = Inr client" "owned_grant (cl_name client) gid d = Inr g"
    "mech_from_str_opt (gr_mechanism g) = Some Mech_Brokered" "revalidate_grant g d = Inr (Some secret)"
  using assms by (auto simp: proxy_admit_def split: sum.splits if_splits option.splits)

lemma handle_cases:
  assumes "handle env px app call header rq d0 d streams = (r, out, d', streams')"
  obtains (Refused) e where "r = Inl e" "out = None" "d' = d" "slot_count streams' = slot_count streams"
  | (Used) gid client g secret p g1 d1 streams1 where "grant_id_from_path env (pq_path rq) = Inr gid"
      "proxy_admit env app header gid d0 = Inr (client, g, secret)"
      "try_take_slot (lim_max_proxy_streams_per_client (app_limits app)) (cl_name client) streams = (True, streams1)"
      "proxy_plan_of px app g secret rq d0 = Inr p"
      "begin_grant_use (pcl_now call) gid None (Some (ver_id (pl_version p))) PROXY_ATTEMPT
         (lim_replay_window_seconds (app_limits app)) (Some (plan_target p)) d = Inr (FirstUse g1, d1)"
      "proxy_forward env px app call (cl_name client) g p rq d1 streams1 = (r, out, d', streams')"
proof (cases "\<exists>gid client g secret. grant_id_from_path env (pq_path rq) = Inr gid
    \<and> proxy_admit env app header gid d0 = Inr (client, g, secret) \<and> pcl_race call \<noteq> Elapsed_before_use")
  case False
  with assms show thesis
    by (auto simp: handle_def split: sum.splits if_splits intro: Refused)
next
  case True
  then obtain gid client g secret where pre: "grant_id_from_path env (pq_path rq) = Inr gid"
    "proxy_admit env app header gid d0 = Inr (client, g, secret)" "pcl_race call \<noteq> Elapsed_before_use"
    by blast
  obtain taken streams1 where slot:
    "try_take_slot (lim_max_proxy_streams_per_client (app_limits app)) (cl_name client) streams = (taken, streams1)"
    by fastforce
  show thesis
  proof (cases "taken \<and> \<not> isl (proxy_plan_of px app g secret rq d0)")
    case False
    with assms pre slot refused_slot [of _ _ streams streams1] take_drop_slot [of _ _ streams streams1]
    show thesis
      by (cases taken) (auto simp: handle_def Let_def isl_def split: sum.splits intro: Refused)
  next
    case True
    then obtain p where p: "taken" "proxy_plan_of px app g secret rq d0 = Inr p"
      by (cases "proxy_plan_of px app g secret rq d0") auto
    obtain a d1 where acc: "proxy_account app (pcl_now call) gid p d = (a, d1)"
      by fastforce
    then show thesis
    proof (cases rule: proxy_account_cases)
      case (Refused e)
      with assms pre slot p acc that(1) [of e] take_drop_slot [of _ _ streams streams1] show thesis
        by (auto simp: handle_def Let_def)
    next
      case (Used g1)
      with assms pre slot p acc that(2) show thesis
        by (auto simp: handle_def Let_def)
    qed
  qed
qed

section \<open>Which calls are sent\<close>

lemma begin_proxy_use:
  assumes "distinct (map gr_id (db_grants d))"
    and "begin_grant_use now gid None vid kind w target d = Inr (FirstUse g1, d1)"
  obtains g0 where "get_grant gid d = Some g0" "live_grant now g0" "uses_left g0" "g1 = bump_use g0"
    "db_audit d1 = db_audit d @ [(now, use_event kind (bump_use g0) vid target None)]"
    "db_grants d1 = upd_where (\<lambda>q. gr_id q = gid) bump_use (db_grants d)"
  using assms by (cases rule: begin_grant_use_cases) auto

lemma proxy_forward_cases:
  assumes "proxy_forward env px app call nm g p rq d1 streams = (r, out, d', streams')"
  obtains (Failed) e where "r = Inl e" "d' = d1" "streams' = drop_slot nm streams"
      "out = None \<or> (\<exists>o'. out = Some o' \<and> build_outbound env px app p (pq_headers rq) = Inr o')"
  | (Answered) o' code hs chunks where "build_outbound env px app p (pq_headers rq) = Inr o'" "out = Some o'"
      "px_upstream px o' = Up_Response code hs chunks" "r = Inr (respond px (app_limits app) code hs chunks)"
      "streams' = streams" "d' = d1 \<or> d' = insert_audit (pcl_now call) (proxy_completed g p code) d1"
  using assms
  by (auto simp: proxy_forward_def split: sum.splits if_splits upstream_result.splits)

lemma proxy_forward_audit:
  assumes "proxy_forward env px app call nm g p rq d1 streams = (r, out, d', streams')"
  shows "\<exists>rest. db_audit d' = db_audit d1 @ rest" "db_grants d' = db_grants d1"
  using assms by (cases rule: proxy_forward_cases; auto simp: insert_audit_def)+

lemma build_outbound_target:
  assumes "build_outbound env px app p caller = Inr out"
  shows "ob_method out = pl_method p" "ob_url out = pl_url p" "ob_body out = pl_body p"
  using assms by (auto simp: build_outbound_def split: sum.splits if_splits)

lemma check_call_Inr:
  assumes "check_call c rq = Inr (method, canonical, x)"
  obtains suffix where "proxy_suffix (pq_path rq) = Some suffix" "canonicalize suffix = Inr canonical"
    "c_origins c = [x]" "method = to_ascii_uppercase (pq_method rq)" "method \<noteq> ''TRACE''"
    "constraints_admit c (x, method, canonical)"
  using assms
  by (auto simp: check_call_def Let_def constraints_admit_def admits_def same_target_def
      split: if_splits option.splits sum.splits list.splits)

lemma proxy_plan_of_Inr:
  assumes "proxy_plan_of px app g secret rq d = Inr p"
  obtains c where "gr_constraints g = Parsed c" "check_call c rq = Inr (pl_method p, pl_path p, pl_origin p)"
    "get_secret_version (sec_id secret) (sec_current_version secret) d = Some (pl_version p)"
    "spec_of_secret secret = Inr (pl_spec p)"
    "outbound_url px (origin_to_display (pl_origin p)) (pl_path p) (pq_query rq) (is_sigv4 (pl_spec p)) = Some (pl_url p)"
    "pl_audited_path p = (case su_query (pl_url p) of Some q \<Rightarrow> su_path (pl_url p) @ ''?'' @ q | None \<Rightarrow> su_path (pl_url p))"
  using assms
  by (auto simp: proxy_plan_of_def split: jsonb.splits sum.splits option.splits if_splits)

text \<open>The write-ahead row of an accounted call: the method, the origin and the wire path with its
  query, as sent.\<close>

definition attempt_target :: "outbound \<Rightarrow> origin \<Rightarrow> audit_target" where
  "attempt_target out x =
     \<lparr>at_method = ob_method out, at_origin = origin_to_display x,
      at_path = (case su_query (ob_url out) of Some q \<Rightarrow> su_path (ob_url out) @ ''?'' @ q
                                             | None \<Rightarrow> su_path (ob_url out))\<rparr>"

text \<open>C16: every request the proxy sends is authorized and accounted first.  When a request \<open>out\<close>
  goes upstream, then an enabled client was authenticated and owns the brokered grant of the path;
  client, mechanism and secret are still enabled within their tiers; the constraints of the grant
  name one origin \<open>x\<close> and admit the method sent to \<open>x\<close> with the canonical path of the call; the
  method is not TRACE; the URL is built from exactly that origin, that path and the caller's query;
  and the grant was live with uses left when the use was accounted: one use more is counted, and the
  audit log has a row that names this method, origin and wire path.\<close>

theorem proxied_call_authorized:
  assumes "handle env px app call header rq d0 d streams = (r, Some out, d', streams')"
    and "distinct (map gr_id (db_grants d))"
  shows "\<exists>gid client g secret c x suffix path g0 rest vid. grant_id_from_path env (pq_path rq) = Inr gid
    \<and> authenticate_client env app header d0 = Inr client \<and> cl_enabled client
    \<and> get_grant gid d0 = Some g \<and> gr_client_name g = cl_name client
    \<and> mech_from_str_opt (gr_mechanism g) = Some Mech_Brokered \<and> still_permitted g d0 (Some secret)
    \<and> gr_constraints g = Parsed c \<and> c_origins c = [x]
    \<and> proxy_suffix (pq_path rq) = Some suffix \<and> canonicalize suffix = Inr path
    \<and> constraints_admit c (x, ob_method out, path) \<and> ob_method out \<noteq> ''TRACE''
    \<and> (\<exists>signed. outbound_url px (origin_to_display x) path (pq_query rq) signed = Some (ob_url out))
    \<and> get_grant gid d = Some g0 \<and> live_grant (pcl_now call) g0 \<and> uses_left g0
    \<and> db_grants d' = upd_where (\<lambda>q. gr_id q = gid) bump_use (db_grants d)
    \<and> db_audit d' = db_audit d @ (pcl_now call,
        use_event PROXY_ATTEMPT (bump_use g0) vid (Some (attempt_target out x)) None) # rest"
  using assms(1)
proof (cases rule: handle_cases)
  case (Used gid client g secret p g1 d1 streams1)
  note adm = proxy_admit_Inr [OF Used(2)]
  obtain c where c: "gr_constraints g = Parsed c" "check_call c rq = Inr (pl_method p, pl_path p, pl_origin p)"
    "outbound_url px (origin_to_display (pl_origin p)) (pl_path p) (pq_query rq) (is_sigv4 (pl_spec p)) = Some (pl_url p)"
    "pl_audited_path p = (case su_query (pl_url p) of Some q \<Rightarrow> su_path (pl_url p) @ ''?'' @ q | None \<Rightarrow> su_path (pl_url p))"
    using proxy_plan_of_Inr [OF Used(4)] by metis
  obtain suffix where suf: "proxy_suffix (pq_path rq) = Some suffix" "canonicalize suffix = Inr (pl_path p)"
    "c_origins c = [pl_origin p]" "pl_method p \<noteq> ''TRACE''"
    "constraints_admit c (pl_origin p, pl_method p, pl_path p)"
    using check_call_Inr [OF c(2)] by metis
  obtain g0 where g0: "get_grant gid d = Some g0" "live_grant (pcl_now call) g0" "uses_left g0" "g1 = bump_use g0"
    "db_audit d1 = db_audit d @ [(pcl_now call, use_event PROXY_ATTEMPT (bump_use g0) (Some (ver_id (pl_version p))) (Some (plan_target p)) None)]"
    "db_grants d1 = upd_where (\<lambda>q. gr_id q = gid) bump_use (db_grants d)"
    by (rule begin_proxy_use [OF assms(2) Used(5)])
  have out: "build_outbound env px app p (pq_headers rq) = Inr out"
    using Used(6) by (cases rule: proxy_forward_cases) auto
  note tgt = build_outbound_target [OF out]
  have "attempt_target out (pl_origin p) = plan_target p"
    unfolding attempt_target_def plan_target_def tgt c(4) ..
  moreover obtain rest where "db_audit d' = db_audit d1 @ rest" "db_grants d' = db_grants d1"
    using proxy_forward_audit [OF Used(6)] by blast
  moreover have "cl_enabled client"
    using adm(1) by (rule authenticate_client_Inr)
  ultimately show ?thesis
    using Used(1) adm owned_grant_Inr [OF adm(2)] revalidate_grant_Inr [OF adm(4)] c(1,3) suf g0 tgt
    by (intro exI [of _ gid] exI [of _ client] exI [of _ g] exI [of _ secret] exI [of _ c] exI [of _ "pl_origin p"]
        exI [of _ suffix] exI [of _ "pl_path p"] exI [of _ g0] exI [of _ rest]
        exI [of _ "Some (ver_id (pl_version p))"] conjI) (simp_all, blast)
qed simp

section \<open>An example call\<close>

definition ex_url :: "string \<Rightarrow> string \<Rightarrow> string option \<Rightarrow> sent_url option" where
  "ex_url orig path query = Some \<lparr>su_host = Some ''h'', su_port = None, su_path = path, su_query = query\<rparr>"

definition ex_proxy_env :: proxy_env where
  "ex_proxy_env = \<lparr>px_header_text = Some, px_header_name = (\<lambda>s. Some (to_ascii_lowercase s)), px_header_value_ok = (\<lambda>_. True),
     px_method_ok = (\<lambda>_. True), px_url = ex_url, px_hex = (\<lambda>b. b), px_amz_date = ''t'', px_date = ''d'',
     px_upstream = (\<lambda>_. Up_Response 200 [(''x-keychute-error'', ''no''), (''content-type'', ''text/plain'')] [''ok'', ''done''])\<rparr>"

definition ex_proxy_request :: proxy_request where
  "ex_proxy_request = \<lparr>pq_method = ''get'', pq_path = ''/v1/grants/20/proxy/v1/items/%41'', pq_query = Some ''q=1'',
     pq_headers = [(''authorization'', ''Bearer abc''), (''accept'', ''*''), (''x-forwarded-for'', ''me''),
       (''connection'', ''close, x-hop''), (''x-hop'', ''1'')], pq_body = []\<rparr>"

definition ex_proxy_call :: proxy_call where
  "ex_proxy_call = \<lparr>pcl_now = 5, pcl_audited = True, pcl_race = In_time\<rparr>"

definition ex_outbound :: outbound where
  "ex_outbound = \<lparr>ob_method = ''GET'',
     ob_url = \<lparr>su_host = Some ''h'', su_port = None, su_path = ''/v1/items/A'', su_query = Some ''q=1''\<rparr>,
     ob_headers = [(''accept'', ''*''), (''authorization'', ''Bearer pw'')], ob_body = []\<rparr>"

definition ex_response :: proxy_response where
  "ex_response = \<lparr>px_status = 200, px_response_headers = [(''content-type'', ''text/plain''), (''cache-control'', ''no-store'')],
     px_chunks = [''ok'', ''done''], px_truncated = False\<rparr>"

abbreviation ex_handled :: proxy_outcome where
  "ex_handled \<equiv> handle ex_env ex_proxy_env ex_app ex_proxy_call ex_header ex_proxy_request ex_proxy_db ex_proxy_db Map.empty"


lemma ex_handled_ok:
  "ex_handled = (Inr ex_response, Some ex_outbound, fst (snd (snd ex_handled)), snd (snd (snd ex_handled)))"
proof -
  have "(case ex_handled of (r, out, _) \<Rightarrow> (r, out)) = (Inr ex_response, Some ex_outbound)"
    by code_simp
  then show ?thesis
    by (simp add: split_beta prod_eq_iff)
qed

theorem proxied_call_authorized_witness:
  "\<exists>c. gr_constraints ex_proxy_grant = Parsed c \<and> constraints_admit c (ex_origin, ob_method ex_outbound, ''/v1/items/A'')
     \<and> db_grants (fst (snd (snd ex_handled))) = [bump_use ex_proxy_grant]"
proof -
  have ids: "distinct (map gr_id (db_grants ex_proxy_db))"
    and p: "proxy_suffix (pq_path ex_proxy_request) = Some ''/v1/items/%41''" "canonicalize ''/v1/items/%41'' = Inr ''/v1/items/A''"
    and g: "grant_id_from_path ex_env (pq_path ex_proxy_request) = Inr 20" "get_grant 20 ex_proxy_db = Some ex_proxy_grant"
      "upd_where (\<lambda>q. gr_id q = 20) bump_use (db_grants ex_proxy_db) = [bump_use ex_proxy_grant]"
      "gr_constraints ex_proxy_grant = Parsed ex_constraints" "c_origins ex_constraints = [ex_origin]"
    by code_simp+
  from proxied_call_authorized [OF ex_handled_ok ids] p g show ?thesis by auto
qed

section \<open>What a failed call costs\<close>

text \<open>Failures that are decided before the use is accounted.\<close>

fun free_failure :: "api_failure \<Rightarrow> bool" where
  "free_failure Unauthenticated = True"
| "free_failure Not_Found = True"
| "free_failure WrongMechanism = True"
| "free_failure RevalidationFailed = True"
| "free_failure PayloadLost = True"
| "free_failure TooManyStreams = True"
| "free_failure (PolicyDenied _) = True"
| "free_failure (InvalidPath _) = True"
| "free_failure BodyTooLarge = True"
| "free_failure GrantExpired = True"
| "free_failure GrantExhausted = True"
| "free_failure _ = False"

lemma amz_headers_failure: "amz_headers px hs = Inl e \<Longrightarrow> \<not> free_failure e"
  by (induction px hs rule: amz_headers.induct) (auto split: if_splits option.splits simp: map_sum_eq_Inl)

lemma spec_validate_failure: "spec_validate px spec = Inl e \<Longrightarrow> \<not> free_failure e"
  by (cases "(px, spec)" rule: spec_validate.cases) (auto simp: Let_def split: if_splits option.splits sum.splits)

lemma build_outbound_failure:
  assumes "build_outbound env px app p caller = Inl e"
  shows "\<not> free_failure e"
  using assms
  by (auto simp: build_outbound_def open_secret_version_def injection_header_def header_value_def sigv4_headers_def
      Let_def map_sum_eq_Inl amz_headers_failure spec_validate_failure
      split: sum.splits if_splits option.splits injection_spec.splits)

lemma proxy_forward_failure:
  assumes "proxy_forward env px app call nm g p rq d1 streams = (Inl e, out, d', streams')"
  shows "\<not> free_failure e"
  using assms build_outbound_failure
  by (auto simp: proxy_forward_def split: sum.splits if_splits upstream_result.splits)

text \<open>C22: a refusal costs nothing, and slots are given back.  A failed call leaves every stream
  counter as it was; a failure of admission, of the constraints, of the body or of the accounting
  sends nothing and leaves the database as it was, so no use of the grant is spent.  A successful call
  holds exactly one slot of its client, within the cap.\<close>

theorem proxy_failures_free:
  assumes "handle env px app call header rq d0 d streams = (r, out, d', streams')"
  shows "case r of
      Inl e \<Rightarrow> slot_count streams' = slot_count streams \<and> (free_failure e \<longrightarrow> out = None \<and> d' = d)
    | Inr _ \<Rightarrow> \<exists>client. authenticate_client env app header d0 = Inr client
        \<and> slot_count streams' = (slot_count streams)(cl_name client := slot_count streams (cl_name client) + 1)
        \<and> slot_count streams' (cl_name client) \<le> lim_max_proxy_streams_per_client (app_limits app)"
  using assms
proof (cases rule: handle_cases)
  case (Used gid client g secret p g1 d1 streams1)
  note slot = try_take_slot_count [OF Used(3)]
  from Used(6) show ?thesis
  proof (cases rule: proxy_forward_cases)
    case (Failed e)
    with Used(6) take_drop_slot [OF Used(3)] proxy_forward_failure [of env px app call "cl_name client" g p rq d1 streams1 e]
    show ?thesis by auto
  next
    case (Answered o' code hs chunks)
    with slot proxy_admit_Inr(1) [OF Used(2)] show ?thesis
      by (auto intro!: ext)
  qed
qed simp

theorem proxy_failures_free_witness:
  "slot_count (snd (snd (snd ex_handled))) ''fa'' = 1
   \<and> handle ex_env ex_proxy_env ex_app ex_proxy_call ex_header (ex_proxy_request\<lparr>pq_method := ''POST''\<rparr>)
       ex_proxy_db ex_proxy_db Map.empty
     = (Inl (PolicyDenied ''method not allowed by grant''), None, ex_proxy_db,
        snd (snd (snd (handle ex_env ex_proxy_env ex_app ex_proxy_call ex_header (ex_proxy_request\<lparr>pq_method := ''POST''\<rparr>)
       ex_proxy_db ex_proxy_db Map.empty))))"
proof -
  let ?h = "handle ex_env ex_proxy_env ex_app ex_proxy_call ex_header (ex_proxy_request\<lparr>pq_method := ''POST''\<rparr>)
       ex_proxy_db ex_proxy_db Map.empty"
  have a: "authenticate_client ex_env ex_app ex_header ex_proxy_db = Inr ex_client_row" "cl_name ex_client_row = ''fa''"
    by code_simp+
  have "fst ?h = Inl (PolicyDenied ''method not allowed by grant'')"
    by code_simp
  then have h: "?h = (Inl (PolicyDenied ''method not allowed by grant''), fst (snd ?h), fst (snd (snd ?h)), snd (snd (snd ?h)))"
    by (simp add: prod_eq_iff)
  from proxy_failures_free [OF ex_handled_ok] a have "slot_count (snd (snd (snd ex_handled))) ''fa'' = 1"
    by (auto simp: slot_count_def)
  moreover from proxy_failures_free [OF h] have "fst (snd ?h) = None" "fst (snd (snd ?h)) = ex_proxy_db"
    by simp_all
  ultimately show ?thesis
    using h by (simp add: prod_eq_iff)
qed

section \<open>Headers in both directions\<close>

text \<open>The headers the proxy writes itself.\<close>

fun credential_headers :: "proxy_env \<Rightarrow> injection_spec \<Rightarrow> string list" where
  "credential_headers px (Spec_Header name) = (case px_header_name px name of None \<Rightarrow> [] | Some n \<Rightarrow> [n])"
| "credential_headers px (Spec_AwsSigV4 _) = [''authorization'', ''x-amz-date'', ''x-amz-content-sha256'']"
| "credential_headers px _ = [''authorization'']"

lemma filter_header_insert:
  "filter (\<lambda>(m, _). P m) (header_insert n v hs) =
     filter (\<lambda>(m, _). P m \<and> m \<noteq> n) hs @ (if P n then [(n, v)] else [])"
  by (auto simp: header_insert_def intro: filter_cong)

lemma fold_header_insert:
  assumes "distinct (map fst ins)" and "\<forall>h \<in> set ins. fst h \<notin> fst ` set hs"
  shows "fold (\<lambda>(n, v). header_insert n v) ins hs = hs @ ins"
  using assms
proof (induction ins arbitrary: hs)
  case (Cons h ins)
  obtain n v where h: "h = (n, v)" by fastforce
  have "filter (\<lambda>(m, _). m \<noteq> n) hs = hs"
    using Cons.prems(2) by (auto simp: h filter_id_conv rev_image_eqI)
  then show ?case
    using Cons.IH [of "hs @ [(n, v)]"] Cons.prems by (auto simp: h header_insert_def split_beta)
qed simp

lemma injection_header_name:
  assumes "injection_header env px spec secret = Inr (n, v)"
  shows "credential_headers px spec = [n]"
  using assms
  by (cases spec) (auto simp: injection_header_def Let_def map_sum_eq_Inr split: sum.splits if_splits option.splits)

text \<open>What build_outbound sends: the filtered headers of the caller, then the credential.\<close>

lemma build_outbound_headers_sent:
  assumes "build_outbound env px app p caller = Inr out"
  obtains ins where "map fst ins = credential_headers px (pl_spec p)"
    "ob_headers out = build_outbound_headers px caller (credential_headers px (pl_spec p) @ owned_headers (pl_spec p)) @ ins"
proof -
  let ?cred = "credential_headers px (pl_spec p)"
  obtain plaintext where pt: "open_secret_version env app (pl_version p) = Inr plaintext"
    using assms by (auto simp: build_outbound_def split: sum.splits)
  show thesis
  proof (cases "\<exists>scope. pl_spec p = Spec_AwsSigV4 scope")
    case True
    then obtain scope where sc: "pl_spec p = Spec_AwsSigV4 scope" by blast
    let ?hs = "build_outbound_headers px caller (owned_headers (pl_spec p))"
    from assms pt sc obtain ins where ins: "sigv4_headers env px scope plaintext (pl_method p) (pl_url p) ?hs (pl_body p) = Inr ins"
      "ob_headers out = fold (\<lambda>(n, v). header_insert n v) ins ?hs"
      by (auto simp: build_outbound_def Let_def map_sum_eq_Inr split: sum.splits if_splits)
    have names: "map fst ins = ?cred"
      using ins(1) by (auto simp: sigv4_headers_def sc Let_def split: option.splits sum.splits if_splits)
    have "set ?cred \<subseteq> set (owned_headers (pl_spec p))"
      by (simp add: sc SYNTHESIZED_def)
    then have eq: "build_outbound_headers px caller (?cred @ owned_headers (pl_spec p)) = ?hs"
      by (auto simp: build_outbound_headers_def Let_def intro!: filter_cong)
    have "ob_headers out = ?hs @ ins"
      unfolding ins(2)
    proof (rule fold_header_insert)
      show "distinct (map fst ins)"
        by (simp add: names sc)
      have "\<forall>n \<in> set ?cred. n \<notin> fst ` set ?hs"
        using \<open>set ?cred \<subseteq> _\<close> by (auto simp: build_outbound_headers_def Let_def)
      then show "\<forall>h \<in> set ins. fst h \<notin> fst ` set ?hs"
        unfolding names [symmetric] by simp
    qed
    with names eq that show thesis by metis
  next
    case False
    from assms pt False obtain n v where nv: "injection_header env px (pl_spec p) plaintext = Inr (n, v)"
      "ob_headers out = header_insert n v (build_outbound_headers px caller [n])"
      by (auto simp: build_outbound_def Let_def split: sum.splits if_splits injection_spec.splits)
    have own: "owned_headers (pl_spec p) = []"
      using False by (cases "pl_spec p") auto
    show thesis
      using that [of "[(n, v)]"] injection_header_name [OF nv(1)] nv(2)
      by (auto simp: own header_insert_def build_outbound_headers_def Let_def intro!: filter_cong)
  qed
qed

lemma length_filter_key:
  assumes "distinct (map fst ins)" and "n \<in> fst ` set ins"
  shows "length (filter (\<lambda>(m, _). m = n) ins) = 1"
  using assms by (induction ins) (force simp: split_beta filter_empty_conv)+

text \<open>C23: the caller reaches the upstream with no header that could displace the credential or
  redirect the call.  In every request sent, each header the proxy writes for the stored template occurs
  exactly once; every other header is the caller's own, and is neither on the strip list (host, authorization,
  cookies, method and URL overrides, hop-by-hop headers), nor an \<open>x-forwarded-\<close> header, nor named by
  a \<open>connection\<close> header, nor owned by the signer.\<close>

theorem outbound_headers_clean:
  assumes "handle env px app call header rq d0 d streams = (r, Some out, d', streams')"
  shows "\<exists>gid client g secret spec. proxy_admit env app header gid d0 = Inr (client, g, secret)
    \<and> spec_of_secret secret = Inr spec
    \<and> (\<forall>n \<in> set (credential_headers px spec). length (filter (\<lambda>(m, _). m = n) (ob_headers out)) = 1)
    \<and> (\<forall>(n, v) \<in> set (ob_headers out). n \<in> set (credential_headers px spec)
        \<or> (n, v) \<in> set (pq_headers rq) \<and> n \<notin> set STRIP_LIST \<and> \<not> starts_with ''x-forwarded-'' n
          \<and> n \<notin> set (connection_named px (pq_headers rq)) \<and> n \<notin> set (owned_headers spec))"
  using assms
proof (cases rule: handle_cases)
  case (Used gid client g secret p g1 d1 streams1)
  let ?cred = "credential_headers px (pl_spec p)"
  let ?hs = "build_outbound_headers px (pq_headers rq) (?cred @ owned_headers (pl_spec p))"
  have spec: "spec_of_secret secret = Inr (pl_spec p)"
    by (rule proxy_plan_of_Inr [OF Used(4)])
  have "build_outbound env px app p (pq_headers rq) = Inr out"
    using Used(6) by (cases rule: proxy_forward_cases) auto
  then obtain ins where ins: "map fst ins = ?cred" "ob_headers out = ?hs @ ins"
    by (rule build_outbound_headers_sent)
  have cred: "set ?cred = fst ` set ins" "distinct (map fst ins)"
    unfolding ins(1) by (simp add: ins(1) [symmetric], cases "(px, pl_spec p)" rule: credential_headers.cases)
      (auto split: option.splits)
  have none: "filter (\<lambda>(m, _). m = n) ?hs = []" if "n \<in> set ?cred" for n
    using that by (auto simp: build_outbound_headers_def Let_def filter_empty_conv)
  have one: "length (filter (\<lambda>(m, _). m = n) (ob_headers out)) = 1" if "n \<in> set ?cred" for n
    using that none [OF that] length_filter_key [OF cred(2)] by (simp add: ins(2) cred(1))
  have "n \<in> set ?cred \<or> (n, v) \<in> set (pq_headers rq) \<and> n \<notin> set STRIP_LIST \<and> \<not> starts_with ''x-forwarded-'' n
      \<and> n \<notin> set (connection_named px (pq_headers rq)) \<and> n \<notin> set (owned_headers (pl_spec p))"
    if "(n, v) \<in> set (ob_headers out)" for n v
    using that by (auto simp: ins(2) cred(1) build_outbound_headers_def Let_def rev_image_eqI)
  with one Used(2) spec show ?thesis by blast
qed simp

theorem outbound_headers_clean_witness:
  "length (filter (\<lambda>(m, _). m = ''authorization'') (ob_headers ex_outbound)) = 1"
proof -
  have a: "fst (projr (proxy_admit ex_env ex_app ex_header 20 ex_proxy_db)) = ex_client_row"
    by code_simp
  have s: "\<forall>s \<in> set (db_secrets ex_proxy_db). spec_of_secret s = Inr Spec_Bearer"
    by code_simp
  from outbound_headers_clean [OF ex_handled_ok] obtain gid client g secret spec where
    h: "proxy_admit ex_env ex_app ex_header gid ex_proxy_db = Inr (client, g, secret)" "spec_of_secret secret = Inr spec"
      "\<forall>n \<in> set (credential_headers ex_proxy_env spec). length (filter (\<lambda>(m, _). m = n) (ob_headers ex_outbound)) = 1"
    by blast
  have "get_secret_by_name (gr_secret_name g) ex_proxy_db = Some secret"
    using revalidate_grant_Inr [OF proxy_admit_Inr(4) [OF h(1)]] by (auto simp: still_permitted_def)
  then have "secret \<in> set (db_secrets ex_proxy_db)"
    by (auto simp: get_secret_by_name_def dest: find_Some_mem)
  with s h(2,3) show ?thesis by auto
qed

lemma cap_chunks_prefix:
  assumes "cap_chunks cap seen cs = (out, trunc)"
  shows "\<exists>rest. cs = out @ rest \<and> (\<not> trunc \<longrightarrow> rest = []) \<and> (seen \<le> cap \<longrightarrow> seen + sum_list (map length out) \<le> cap)"
  using assms
  by (induction cap seen cs arbitrary: out rule: cap_chunks.induct) (fastforce simp: Let_def split: if_splits prod.splits)+

text \<open>C24: the response carries nothing of the transport and nothing forged.  A proxied answer
  has the status of the upstream response; it has no \<open>x-keychute-error\<close> header, no hop-by-hop header, no header
  named by the upstream's \<open>connection\<close> header, and exactly one \<open>cache-control\<close> header, \<open>no-store\<close>; its
  other headers are the upstream's.  The body is an initial part of the upstream's chunks, within the cap, and all
  of them unless the stream is cut with an error.\<close>

theorem proxied_response_filtered:
  assumes "handle env px app call header rq d0 d streams = (Inr resp, out, d', streams')"
  shows "\<exists>sent code hs chunks rest. out = Some sent \<and> px_upstream px sent = Up_Response code hs chunks
    \<and> px_status resp = code \<and> (''x-keychute-error'' \<notin> fst ` set (px_response_headers resp))
    \<and> (\<forall>(n, v) \<in> set (px_response_headers resp).
        (n, v) = (''cache-control'', ''no-store'') \<or> n \<noteq> ''cache-control'' \<and> (n, v) \<in> set hs
          \<and> n \<notin> set RESPONSE_STRIP \<and> n \<notin> set (connection_named px hs))
    \<and> length (filter (\<lambda>(n, _). n = ''cache-control'') (px_response_headers resp)) = 1
    \<and> chunks = px_chunks resp @ rest \<and> (px_truncated resp \<or> rest = [])
    \<and> sum_list (map length (px_chunks resp)) \<le> lim_proxy_max_body_bytes (app_limits app)"
  using assms
proof (cases rule: handle_cases)
  case (Used gid client g secret p g1 d1 streams1)
  from Used(6) show ?thesis
  proof (cases rule: proxy_forward_cases)
    case (Answered sent code hs chunks)
    let ?cap = "lim_proxy_max_body_bytes (app_limits app)"
    obtain got trunc where c: "cap_chunks ?cap 0 chunks = (got, trunc)" by fastforce
    from cap_chunks_prefix [OF c] obtain rest where rest: "chunks = got @ rest" "\<not> trunc \<longrightarrow> rest = []"
        "sum_list (map length got) \<le> ?cap"
      by auto
    have resp: "resp = \<lparr>px_status = code,
        px_response_headers = header_insert ''cache-control'' ''no-store'' (build_response_headers px hs),
        px_chunks = got, px_truncated = trunc\<rparr>"
      using Answered(4) c by (simp add: respond_def)
    have one: "length (filter (\<lambda>(n, _). n = ''cache-control'') (px_response_headers resp)) = 1"
      by (simp add: resp filter_header_insert filter_False split_beta)
    have kept: "\<forall>(n, v) \<in> set (px_response_headers resp).
        (n, v) = (''cache-control'', ''no-store'') \<or> n \<noteq> ''cache-control'' \<and> (n, v) \<in> set hs
          \<and> n \<notin> set RESPONSE_STRIP \<and> n \<notin> set (connection_named px hs)"
      by (auto simp: resp header_insert_def build_response_headers_def Let_def)
    moreover have "''x-keychute-error'' \<in> set RESPONSE_STRIP"
      by (simp add: RESPONSE_STRIP_def KEYCHUTE_ERROR_HEADER_def)
    ultimately have "''x-keychute-error'' \<notin> fst ` set (px_response_headers resp)"
      by fastforce
    moreover have "px_status resp = code" "chunks = px_chunks resp @ rest" "px_truncated resp \<or> rest = []"
      "sum_list (map length (px_chunks resp)) \<le> ?cap"
      using rest by (auto simp: resp)
    ultimately show ?thesis
      using Answered(2,3) one kept by blast
  qed simp
qed simp

theorem proxied_response_filtered_witness:
  "''x-keychute-error'' \<notin> fst ` set (px_response_headers ex_response)
   \<and> px_status ex_response = 200 \<and> sum_list (map length (px_chunks ex_response)) \<le> 1000"
  using proxied_response_filtered [OF ex_handled_ok] by (auto simp: ex_proxy_env_def ex_app_def ex_limits_def)

section \<open>The path that reaches the upstream\<close>

text \<open>
  What \<open>Url::set_path\<close> documents for the paths built here: every byte is kept or percent-encoded, and
  slash, percent sign and the unreserved characters are kept.
\<close>

definition url_path_encodes :: "proxy_env \<Rightarrow> bool" where
  "url_path_encodes px \<longleftrightarrow>
     (\<forall>x s p q u. canonical_path s \<and> p \<in> {escape_percent s, wire_path s} \<and> px_url px x p q = Some u \<longrightarrow>
        (\<exists>keep. keep slash \<and> keep (CHR ''%'') \<and> (\<forall>c. is_unreserved c \<longrightarrow> keep c)
              \<and> su_path u = concat (map (\<lambda>c. if keep c then [c] else percent_escape c) p)))"

lemma percent_escape_percent: "percent_escape (CHR ''%'') = ''%25''"
  by code_simp

lemma unreserved_25: "is_unreserved (CHR ''2'')" "is_unreserved (CHR ''5'')"
  by code_simp+

lemma encode_escape_percent:
  assumes "keep (CHR ''%'')" "\<forall>c. is_unreserved c \<longrightarrow> keep c"
  shows "concat (map (\<lambda>c. if keep c then [c] else percent_escape c) (escape_percent s))
    = concat (map (\<lambda>c. if keep c \<and> c \<noteq> CHR ''%'' then [c] else percent_escape c) s)"
  using assms unreserved_25 by (induction s) (auto simp: percent_escape_percent)

lemma encode_kept:
  assumes "\<forall>c \<in> set s. keep c"
  shows "concat (map (\<lambda>c. if keep c then [c] else percent_escape c) s) = s"
  using assms by (induction s) auto

lemma outbound_url_decodes:
  assumes "url_path_encodes px" and "canonical_path s" and "outbound_url px x s q sig = Some u"
  shows "canonicalize (su_path u) = Inr s"
proof -
  let ?p = "if sig then wire_path s else escape_percent s"
  obtain keep where k: "keep slash" "keep (CHR ''%'')" "\<forall>c. is_unreserved c \<longrightarrow> keep c"
    "su_path u = concat (map (\<lambda>c. if keep c then [c] else percent_escape c) ?p)"
  proof -
    have "?p \<in> {escape_percent s, wire_path s}" "px_url px x ?p q = Some u"
      using assms(3) by (simp_all add: outbound_url_def)
    with assms(1,2) that show thesis
      unfolding url_path_encodes_def by blast
  qed
  show ?thesis
  proof (cases sig)
    case True
    have "\<forall>c \<in> set (wire_path s). keep c"
      using wire_path_chars [of _ s] k(1-3) by auto
    then show ?thesis
      using k(4) True wire_path_decodes [OF assms(2)] by (simp add: encode_kept)
  next
    case False
    have "canonicalize (concat (map (\<lambda>c. if keep c \<and> c \<noteq> CHR ''%'' then [c] else percent_escape c) s)) = Inr s"
      by (rule canonicalize_encode [OF _ assms(2)]) (use k(1) in auto)
    with k(4) False show ?thesis
      by (simp add: encode_escape_percent [OF k(2,3)])
  qed
qed

text \<open>C21: the path that was judged is the path that is sent.  With the documented percent-encoding of
  the URL library, canonicalizing the path of the request that goes upstream gives back exactly the
  canonical path of the call, which the constraints of the grant admit for its method and origin.\<close>

theorem sent_path_is_judged_path:
  assumes "handle env px app call header rq d0 d streams = (r, Some out, d', streams')" and "url_path_encodes px"
  shows "\<exists>gid client g secret c x suffix path. proxy_admit env app header gid d0 = Inr (client, g, secret)
    \<and> gr_constraints g = Parsed c \<and> constraints_admit c (x, ob_method out, path)
    \<and> proxy_suffix (pq_path rq) = Some suffix \<and> canonicalize suffix = Inr path
    \<and> canonicalize (su_path (ob_url out)) = Inr path"
  using assms(1)
proof (cases rule: handle_cases)
  case (Used gid client g secret p g1 d1 streams1)
  obtain c where c: "gr_constraints g = Parsed c" "check_call c rq = Inr (pl_method p, pl_path p, pl_origin p)"
    "outbound_url px (origin_to_display (pl_origin p)) (pl_path p) (pq_query rq) (is_sigv4 (pl_spec p)) = Some (pl_url p)"
    by (rule proxy_plan_of_Inr [OF Used(4)])
  obtain suffix where suf: "proxy_suffix (pq_path rq) = Some suffix" "canonicalize suffix = Inr (pl_path p)"
    "constraints_admit c (pl_origin p, pl_method p, pl_path p)"
    by (rule check_call_Inr [OF c(2)])
  have out: "build_outbound env px app p (pq_headers rq) = Inr out"
    using Used(6) by (cases rule: proxy_forward_cases) auto
  have "canonicalize (su_path (pl_url p)) = Inr (pl_path p)"
    by (rule outbound_url_decodes [OF assms(2) canonicalize_canonical [OF suf(2)] c(3)])
  with build_outbound_target [OF out] Used(2) c(1) suf show ?thesis by metis
qed simp

lemma ex_url_encodes: "url_path_encodes ex_proxy_env"
  unfolding url_path_encodes_def
  by (auto simp: ex_proxy_env_def ex_url_def encode_kept intro!: exI [of _ "\<lambda>_. True"])

theorem sent_path_is_judged_path_witness:
  "canonicalize (su_path (ob_url ex_outbound)) = Inr ''/v1/items/A''"
proof -
  have "proxy_suffix (pq_path ex_proxy_request) = Some ''/v1/items/%41''" "canonicalize ''/v1/items/%41'' = Inr ''/v1/items/A''"
    by code_simp+
  with sent_path_is_judged_path [OF ex_handled_ok ex_url_encodes] show ?thesis by auto
qed

section \<open>Stored templates\<close>

lemma valid_utf8_no_control:
  assumes "valid_utf8 s" and "\<not> has_control s"
  shows "\<not> list_ex crlf_or_nul s"
proof
  assume "list_ex crlf_or_nul s"
  then obtain c where c: "c \<in> set s" "byte c < 32"
    by (auto simp: list_ex_iff crlf_or_nul_def byte_def)
  obtain cps where cps: "from_utf8 s = Some cps"
    using assms(1) by (auto simp: valid_utf8_def)
  have "byte c \<in> set cps"
    using utf8_cps_ascii_mem [of "map byte s" cps "byte c"] c cps by (auto simp: from_utf8_def)
  with c(2) assms(2) cps show False
    by (auto simp: has_control_def list_ex_iff cp_is_control_def)
qed

lemma scope_parse_again: "parse_scope sc = Inr (region, service) \<Longrightarrow> parse_scope (region @ CHR ''/'' # service) = Inr (region, service)"
proof -
  assume p: "parse_scope sc = Inr (region, service)"
  then have "split_once slash sc = Some (region, service)"
    by (auto simp: parse_scope_def split: option.splits prod.splits if_splits)
  then have "sc = region @ slash # service"
    by (simp add: split_once_Some)
  with p show "parse_scope (region @ slash # service) = Inr (region, service)" by simp
qed

text \<open>a template the operator interface accepts can be used by the proxy.  When
  \<open>validate_injection\<close> accepts a template and the secret row carries the columns it returned, the proxy
  resolves the row to a placement and its check of the placement succeeds, provided that the HTTP library
  accepts every nonempty name of header-name characters.  So no accepted template makes every call of a grant fail.\<close>

theorem accepted_template_usable:
  assumes "validate_injection kind header scope = Inr (sec_injection_kind s, sec_injection_header s, sec_injection_username s)"
    and "\<forall>u. header = Some u \<longrightarrow> valid_utf8 u"
    and "\<And>n. n \<noteq> [] \<Longrightarrow> list_all is_header_name_char n \<Longrightarrow> px_header_name px n \<noteq> None"
  shows "\<exists>spec name. spec_of_secret s = Inr spec \<and> spec_validate px spec = Inr name"
proof -
  have "RESERVED = STRIP_LIST"
    by (simp add: RESERVED_def STRIP_LIST_def)
  note tmpl = assms(1) [unfolded validate_injection_def]
  consider "kind = ''bearer''" | "kind = ''header''" | "kind = ''basic'' \<or> kind = ''basic-password''" | "kind = ''aws-sigv4''"
    using tmpl by (auto split: if_splits)
  then show ?thesis
  proof cases
    case 1
    with tmpl show ?thesis
      by (auto simp: spec_of_secret_def split: if_splits)
  next
    case 2
    with tmpl obtain n where n: "header = Some n" "n \<noteq> []" "list_all is_header_name_char n"
        "to_ascii_lowercase n \<notin> set RESERVED" "\<not> starts_with ''x-forwarded-'' (to_ascii_lowercase n)"
        "sec_injection_kind s = ''header''" "sec_injection_header s = Some n"
      by (auto split: if_splits option.splits)
    with assms(3) [of n] \<open>RESERVED = STRIP_LIST\<close> show ?thesis
      by (auto simp: spec_of_secret_def)
  next
    case 3
    with tmpl obtain u where u: "header = Some u" "CHR '':'' \<notin> set u" "\<not> has_control u"
        "sec_injection_kind s = ''basic''" "sec_injection_username s = Some u"
      by (auto split: if_splits option.splits)
    with assms(2) valid_utf8_no_control [of u] show ?thesis
      by (auto simp: spec_of_secret_def)
  next
    case 4
    with tmpl obtain key sc where hs: "header = Some key" "scope = Some sc"
      by (cases header; cases scope) (auto split: sum.splits)
    with 4 tmpl have k: "validate_access_key_id key = Inr ()" "\<not> isl (parse_scope sc)"
        "sec_injection_kind s = ''aws-sigv4''" "sec_injection_username s = Some key" "sec_injection_header s = Some sc"
      by (auto split: sum.splits)
    then obtain region service where "parse_scope sc = Inr (region, service)"
      by (cases "parse_scope sc") auto
    with k scope_parse_again [of sc region service] show ?thesis
      by (auto simp: spec_of_secret_def)
  qed
qed

theorem accepted_template_usable_witness:
  "\<exists>spec name. spec_of_secret (ex_secret_row\<lparr>sec_injection_kind := ''header'', sec_injection_header := Some ''X-Token''\<rparr>) = Inr spec
     \<and> spec_validate ex_proxy_env spec = Inr name"
proof -
  let ?s = "ex_secret_row\<lparr>sec_injection_kind := ''header'', sec_injection_header := Some ''X-Token''\<rparr>"
  have v: "validate_injection ''header'' (Some ''X-Token'') None
      = Inr (sec_injection_kind ?s, sec_injection_header ?s, sec_injection_username ?s)"
    by code_simp
  have u: "valid_utf8 ''X-Token''"
    by code_simp
  show ?thesis
    by (rule accepted_template_usable [OF v]) (use u in \<open>auto simp: ex_proxy_env_def\<close>)
qed

end
