(* ===== verification/Api_Secrets.thy ===== *)
theory Api_Secrets
  imports Api_Grants Sigv4
begin

text \<open>The deposit of a secret by a client (\<open>server/src/api/secrets.rs\<close>).\<close>

definition MAX_NAME_BYTES :: nat where "MAX_NAME_BYTES = 128"
definition MAX_DESCRIPTION_BYTES :: nat where "MAX_DESCRIPTION_BYTES = 1024"
definition MAX_VALUE_BYTES :: nat where "MAX_VALUE_BYTES = 64 * 1024"
definition MAX_ENCODED_VALUE_BYTES :: nat where "MAX_ENCODED_VALUE_BYTES = 4 * MAX_VALUE_BYTES div 3 + 4096"
definition DEPOSIT_RATE_WINDOW_HOURS :: int where "DEPOSIT_RATE_WINDOW_HOURS = 1"

definition name_char :: "char \<Rightarrow> bool" where
  "name_char b \<longleftrightarrow> is_ascii_alphanumeric b \<or> b = CHR ''-'' \<or> b = CHR ''_'' \<or> b = CHR ''.''"

definition validate_name :: "string \<Rightarrow> api_failure + unit" where
  "validate_name name =
     (if name = [] then Inl (InvalidRequest ''name is required'')
      else if length name > MAX_NAME_BYTES then Inl (RequestTooLarge ''name too long'')
      else if \<not> (list_all name_char name \<and> \<not> starts_with ''.'' name)
        then Inl (InvalidRequest (''name must be ASCII letters, digits, '' @ quoted ''-'' @ '', '' @ quoted ''_''
               @ '' or '' @ quoted ''.''))
      else Inr ())"

text \<open>The bytes of the value field.\<close>

definition decode_value :: "api_env \<Rightarrow> secret_encoding \<Rightarrow> string \<Rightarrow> api_failure + bytes" where
  "decode_value env enc value =
     (if value = [] then Inl (InvalidRequest ''value is required'')
      else if length value > MAX_ENCODED_VALUE_BYTES then Inl (RequestTooLarge ''value too large'')
      else
        (case (case enc of Enc_Utf8 \<Rightarrow> Some value | Enc_Base64 \<Rightarrow> env_b64_decode env value) of
           None \<Rightarrow> Inl (InvalidRequest ''value is not valid base64'')
         | Some plaintext \<Rightarrow>
             if length plaintext > MAX_VALUE_BYTES then Inl (RequestTooLarge ''value too large'')
             else if plaintext = [] then Inl (InvalidRequest ''value is required'')
             else Inr plaintext))"

record store_call =
  scl_now :: time
  scl_random :: seal_random
  scl_secret_id :: uuid
  scl_version_id :: uuid

record store_secret_response =
  sr_secret_id :: uuid
  sr_name :: string
  sr_version :: int

text \<open>The row the deposit asks the store to create, or the failure of its validation.\<close>

definition deposit_params ::
  "api_env \<Rightarrow> app_state \<Rightarrow> store_call \<Rightarrow> client_row \<Rightarrow> store_secret_request \<Rightarrow> api_failure + store_secret_params" where
  "deposit_params env app call client req =
     (if \<not> cl_may_store_secrets client then Inl (PolicyDenied ''client is not permitted to store secrets'')
      else
     (case validate_name (trim (ss_name req)) of
        Inl e \<Rightarrow> Inl e
      | Inr _ \<Rightarrow>
     (if length (ss_description req) > MAX_DESCRIPTION_BYTES then Inl (RequestTooLarge ''description too long'')
      else
     (case decode_value env (ss_encoding req) (ss_value req) of
        Inl e \<Rightarrow> Inl e
      | Inr value \<Rightarrow>
     (case validate_injection (case ss_injection_kind req of None \<Rightarrow> ''bearer'' | Some k \<Rightarrow> k)
             (case ss_injection_header req of None \<Rightarrow> None | Some h \<Rightarrow> if h = [] then None else Some h) None of
        Inl e \<Rightarrow> Inl (InvalidRequest e)
      | Inr (kind, header, username) \<Rightarrow>
          Inr \<lparr>sp_secret_id = scl_secret_id call, sp_name = trim (ss_name req),
               sp_description = trim (ss_description req),
               sp_max_tier = tier_as_int (case ss_max_tier req of None \<Rightarrow> Tier_Brokered | Some t \<Rightarrow> t),
               sp_injection_kind = kind, sp_injection_header = header, sp_injection_username = username,
               sp_seal = seal_fn_of (keyset_seal (env_aead env) (env_uuid_str env) (scl_random call)
                           (app_keyset app) value (AadSecretVersion (scl_secret_id call) 1))\<rparr>)))))"

definition store_inner ::
  "api_env \<Rightarrow> app_state \<Rightarrow> store_call \<Rightarrow> client_row \<Rightarrow> store_secret_request \<Rightarrow> db
   \<Rightarrow> (api_failure + (nat \<times> store_secret_response)) \<times> db" where
  "store_inner env app call client req d =
     (case deposit_params env app call client req of
        Inl e \<Rightarrow> (Inl e, d)
      | Inr params \<Rightarrow>
          (case create_secret_from_client (scl_now call) (scl_version_id call) params (cl_name client)
                  \<lparr>dr_max_per_window = lim_max_deposits_per_hour_per_client (app_limits app),
                   dr_window_hours = DEPOSIT_RATE_WINDOW_HOURS\<rparr> d of
             Inl e \<Rightarrow> (Inl (Internal e), d)
           | Inr (Deposited i, d1) \<Rightarrow>
               (Inr (201, \<lparr>sr_secret_id = i, sr_name = sp_name params, sr_version = 1\<rparr>), d1)
           | Inr (NameTaken, d1) \<Rightarrow> (Inl SecretExists, d1)
           | Inr (RateLimited, d1) \<Rightarrow> (Inl TooManyDeposits, d1)))"

text \<open>\<open>POST /v1/secrets\<close>; the parse result is used only after the authentication succeeded.\<close>

definition store_secret ::
  "api_env \<Rightarrow> app_state \<Rightarrow> store_call \<Rightarrow> string option \<Rightarrow> bytes_rejection + bytes \<Rightarrow> db \<Rightarrow> db
   \<Rightarrow> (api_failure + (nat \<times> store_secret_response)) \<times> db" where
  "store_secret env app call header body d0 d =
     (case body_bytes body of
        Inl e \<Rightarrow> (Inl e, d)
      | Inr raw \<Rightarrow>
          (case authenticate_client env app header d0 of
             Inl e \<Rightarrow> (Inl e, d)
           | Inr client \<Rightarrow>
               (case env_parse_store env raw of
                  None \<Rightarrow> (Inl (InvalidRequest ''malformed request body''), d)
                | Some req \<Rightarrow> store_inner env app call client req d)))"

section \<open>What a deposit creates\<close>

lemma create_secret_from_client_cases:
  assumes "create_secret_from_client now fv s client rate d = Inr (dep, d')"
  obtains (Refused) "dep = NameTaken \<or> dep = RateLimited" "d' = d"
  | (Made) sl where "dep = Deposited (sp_secret_id s)" "sp_seal s = Some sl"
      "int (recent_deposits now client (dr_window_hours rate) d) < dr_max_per_window rate"
      "sp_name s \<notin> sec_name ` set (db_secrets d)"
      "db_secrets d' = db_secrets d @ [new_secret_row now s False]"
      "db_versions d' = db_versions d @ [new_version_row now fv (sp_secret_id s) 1 sl None]"
      "db_grants d' = db_grants d" "db_requests d' = db_requests d" "db_policies d' = db_policies d"
      "db_clients d' = db_clients d"
proof (cases "dep = NameTaken \<or> dep = RateLimited")
  case True
  with assms show thesis
    by (intro Refused) (auto simp: create_secret_from_client_def split: if_splits sum.splits option.splits)
next
  case False
  with assms obtain d1 sl d2 where
      lim: "\<not> dr_max_per_window rate \<le> int (recent_deposits now client (dr_window_hours rate) d)"
      and s: "insert_secret_row_if_free (new_secret_row now s False) d = Inr (Some d1)" "sp_seal s = Some sl"
      and v: "insert_version_row (new_version_row now fv (sp_secret_id s) 1 sl None) d1 = Inr d2"
      and d': "dep = Deposited (sp_secret_id s)" "\<exists>e. d' = insert_audit now e d2"
    by (auto simp: create_secret_from_client_def split: if_splits sum.splits option.splits)
  from d'(2) obtain e where e: "d' = insert_audit now e d2" by blast
  show thesis
    using lim s v d'(1)
    by (intro Made [of sl]) (auto simp: e insert_row_Inr insert_audit_def new_secret_row_def)
qed

lemma deposit_params_Inr:
  assumes "deposit_params env app call client req = Inr p"
  obtains plain where "cl_may_store_secrets client" "validate_name (trim (ss_name req)) = Inr ()"
    "decode_value env (ss_encoding req) (ss_value req) = Inr plain" "sp_name p = trim (ss_name req)"
    "sp_secret_id p = scl_secret_id call"
    "sp_max_tier p = tier_as_int (case ss_max_tier req of None \<Rightarrow> Tier_Brokered | Some t \<Rightarrow> t)"
    "sp_seal p = seal_fn_of (keyset_seal (env_aead env) (env_uuid_str env) (scl_random call)
       (app_keyset app) plain (AadSecretVersion (scl_secret_id call) 1))"
  using assms by (auto simp: deposit_params_def split: if_splits sum.splits)

text \<open>A stored secret and its first version, as a deposit must leave them.\<close>

definition fresh_deposit :: "api_env \<Rightarrow> app_state \<Rightarrow> store_secret_request \<Rightarrow> bytes \<Rightarrow> secret_row \<Rightarrow> secret_version_row \<Rightarrow> bool" where
  "fresh_deposit env app req plain s v \<longleftrightarrow>
     sec_name s = trim (ss_name req) \<and> validate_name (sec_name s) = Inr () \<and> \<not> sec_operator_vetted s
     \<and> sec_max_tier s = tier_as_int (case ss_max_tier req of None \<Rightarrow> Tier_Brokered | Some t \<Rightarrow> t)
     \<and> sec_current_version s = 1 \<and> ver_secret_id v = sec_id s \<and> ver_version v = 1
     \<and> open_secret_version env app v = Inr plain"

text \<open>a deposit creates one new, unvetted secret that opens to what was sent, and nothing else.
  When the deposit endpoint fails, the database is unchanged.  When it answers, the answer is a 201 and an
  authenticated client that may store secrets sent the body; no secret had the name, and the client
  was below its rate; the secret table and the version table each grew by one row; the secret bears the
  trimmed and valid name, the requested tier and no vetting mark, and its version decrypts
  to the decoded value; grants, requests and policies are untouched.\<close>

theorem deposit_creates_unvetted:
  assumes "store_secret env app call header body d0 d = (r, d')"
    and "aead_correct (env_aead env)" and "random_ok (scl_random call)"
  shows "case r of Inl _ \<Rightarrow> d' = d
    | Inr (code, resp) \<Rightarrow> code = 201 \<and> (\<exists>client raw req plain s v. authenticate_client env app header d0 = Inr client
        \<and> cl_may_store_secrets client \<and> body = Inr raw \<and> env_parse_store env raw = Some req
        \<and> decode_value env (ss_encoding req) (ss_value req) = Inr plain
        \<and> sec_name s \<notin> sec_name ` set (db_secrets d) \<and> fresh_deposit env app req plain s v
        \<and> int (recent_deposits (scl_now call) (cl_name client) 1 d) < lim_max_deposits_per_hour_per_client (app_limits app)
        \<and> db_secrets d' = db_secrets d @ [s] \<and> db_versions d' = db_versions d @ [v]
        \<and> db_grants d' = db_grants d \<and> db_requests d' = db_requests d \<and> db_policies d' = db_policies d
        \<and> resp = \<lparr>sr_secret_id = sec_id s, sr_name = sec_name s, sr_version = 1\<rparr>)"
proof (cases "\<exists>raw client req p. body = Inr raw \<and> authenticate_client env app header d0 = Inr client
    \<and> env_parse_store env raw = Some req \<and> deposit_params env app call client req = Inr p")
  case False
  with assms(1) show ?thesis
    by (auto simp: store_secret_def store_inner_def body_bytes_def split: sum.splits bytes_rejection.splits option.splits)
next
  case True
  then obtain raw client req p where pre: "body = Inr raw" "authenticate_client env app header d0 = Inr client"
    "env_parse_store env raw = Some req" "deposit_params env app call client req = Inr p"
    by blast
  let ?rate = "\<lparr>dr_max_per_window = lim_max_deposits_per_hour_per_client (app_limits app),
    dr_window_hours = DEPOSIT_RATE_WINDOW_HOURS\<rparr>"
  show ?thesis
  proof (cases "create_secret_from_client (scl_now call) (scl_version_id call) p (cl_name client) ?rate d")
    case (Inl e)
    with assms(1) pre show ?thesis
      by (auto simp: store_secret_def store_inner_def body_bytes_def)
  next
    case (Inr x)
    obtain dep d1 where dep: "create_secret_from_client (scl_now call) (scl_version_id call) p (cl_name client) ?rate d = Inr (dep, d1)"
      using Inr by (cases x) auto
    from dep show ?thesis
    proof (cases rule: create_secret_from_client_cases)
      case Refused
      with dep assms(1) pre show ?thesis
        by (auto simp: store_secret_def store_inner_def body_bytes_def)
    next
      case (Made sl)
      obtain plain where v: "cl_may_store_secrets client" "validate_name (trim (ss_name req)) = Inr ()"
        "decode_value env (ss_encoding req) (ss_value req) = Inr plain" "sp_name p = trim (ss_name req)"
        "sp_secret_id p = scl_secret_id call"
        "sp_max_tier p = tier_as_int (case ss_max_tier req of None \<Rightarrow> Tier_Brokered | Some t \<Rightarrow> t)"
        "sp_seal p = seal_fn_of (keyset_seal (env_aead env) (env_uuid_str env) (scl_random call)
           (app_keyset app) plain (AadSecretVersion (scl_secret_id call) 1))"
        by (rule deposit_params_Inr [OF pre(4)])
      let ?s = "new_secret_row (scl_now call) p False"
      let ?v = "new_version_row (scl_now call) (scl_version_id call) (sp_secret_id p) 1 sl None"
      have "keyset_seal (env_aead env) (env_uuid_str env) (scl_random call) (app_keyset app) plain
          (AadSecretVersion (scl_secret_id call) 1) = Inr sl"
        using v(7) Made(2) by (auto simp: seal_fn_of_def split: sum.splits)
      note opens = keyset_open_seal [OF assms(2,3) this]
      have fresh: "fresh_deposit env app req plain ?s ?v"
        using v opens by (simp add: fresh_deposit_def new_secret_row_def new_version_row_def open_secret_version_def)
      have r: "r = Inr (201, \<lparr>sr_secret_id = sec_id ?s, sr_name = sec_name ?s, sr_version = 1\<rparr>)" "d' = d1"
        using dep assms(1) pre Made(1)
        by (auto simp: store_secret_def store_inner_def body_bytes_def new_secret_row_def)
      have new: "sec_name ?s \<notin> sec_name ` set (db_secrets d)"
        using Made(4) by (simp add: new_secret_row_def)
      show ?thesis
        using pre v(1,3) Made(3,5-9) fresh new unfolding r
        by (auto simp: DEPOSIT_RATE_WINDOW_HOURS_def)
    qed
  qed
qed

section \<open>An example deposit\<close>

definition ex_deposit :: store_secret_request where
  "ex_deposit = \<lparr>ss_name = '' new-tok '', ss_value = ''pw2'', ss_encoding = Enc_Utf8, ss_description = [],
     ss_max_tier = None, ss_injection_kind = None, ss_injection_header = None\<rparr>"

definition ex_store_env :: api_env where
  "ex_store_env = ex_env\<lparr>env_parse_store := (\<lambda>b. if b = ''s'' then Some ex_deposit else None)\<rparr>"

definition ex_store_db :: db where
  "ex_store_db = ex_api_db\<lparr>db_clients := [ex_client_row\<lparr>cl_may_store_secrets := True\<rparr>]\<rparr>"

definition ex_store_call :: store_call where
  "ex_store_call = \<lparr>scl_now = 5, scl_random = ex_random, scl_secret_id = 8, scl_version_id = 9\<rparr>"

abbreviation ex_stored :: "(api_failure + (nat \<times> store_secret_response)) \<times> db" where
  "ex_stored \<equiv> store_secret ex_store_env ex_app ex_store_call ex_header (Inr ''s'') ex_store_db ex_store_db"

theorem deposit_creates_unvetted_witness:
  "\<exists>s v. db_secrets (snd ex_stored) = [ex_secret_row, s] \<and> sec_name s = ''new-tok'' \<and> \<not> sec_operator_vetted s
     \<and> open_secret_version ex_store_env ex_app v = Inr ''pw2''"
proof -
  have ok: "fst ex_stored = Inr (201, \<lparr>sr_secret_id = 8, sr_name = ''new-tok'', sr_version = 1\<rparr>)"
    by code_simp
  have st: "ex_stored = (fst ex_stored, snd ex_stored)"
    by simp
  have a: "aead_correct (env_aead ex_store_env)" "random_ok (scl_random ex_store_call)"
    by (simp_all add: ex_store_env_def ex_env_def ex_aead_correct ex_store_call_def ex_random_ok)
  have p: "env_parse_store ex_store_env ''s'' = Some ex_deposit"
    by (simp add: ex_store_env_def)
  have t: "trim (ss_name ex_deposit) = ''new-tok''" "decode_value ex_store_env (ss_encoding ex_deposit) (ss_value ex_deposit) = Inr ''pw2''"
    "db_secrets ex_store_db = [ex_secret_row]"
    by code_simp+
  from deposit_creates_unvetted [OF st a] p t show ?thesis
    unfolding ok by (auto simp: fresh_deposit_def)
qed

end
