(* ===== verification/System.thy ===== *)
theory System
  imports Notify Provision
begin

text \<open>
  The store as a concurrent system.  Every transaction of the store, with arbitrary arguments, is a
  step of the relation \<open>store_step\<close>; what API calls, operators, the sweeper and the startup
  reconciliation do to the database is a sequence of such steps.  The invariants below hold in every
  reachable database, whatever the interleaving.

  The step relation is indexed by the replay window of the configuration and by the database clock
  of the step.  Only the executions of \<open>reach\<close> assume that the clock does not run backwards.
\<close>

section \<open>Steps\<close>

definition use_kind :: "string \<Rightarrow> bool" where
  "use_kind k \<longleftrightarrow> k = RELEASE_ATTEMPT \<or> k = PROXY_ATTEMPT"

inductive store_step :: "int \<Rightarrow> time \<Rightarrow> db \<Rightarrow> db \<Rightarrow> bool" for w :: int and now :: time where
  S_insert: "insert_access_request now i req seal d = Inr (r, d') \<Longrightarrow> store_step w now d d'"
| S_create: "insert_access_request_with_id now i fg req cap res seal d = Inr (o1, d') \<Longrightarrow> store_step w now d d'"
| S_resolve: "resolve_approve now fg rid by_whom g d = Inr (o2, d') \<Longrightarrow> store_step w now d d'"
| S_approve: "approve_request now fv rid by_whom gid g store d = Inr (o3, d') \<Longrightarrow>
    (\<And>s. store = Some s \<Longrightarrow> sp_name s = gp_secret_name g) \<Longrightarrow> store_step w now d d'"
| S_deny: "resolve_deny now rid by_whom reason d = Inr (b, d') \<Longrightarrow> store_step w now d d'"
| S_expire: "expire_stale now d = (n, d') \<Longrightarrow> store_step w now d d'"
| S_purge_context: "purge_request_context now ret d = (n, d') \<Longrightarrow> store_step w now d d'"
| S_delivered: "store_step w now d (mark_push_delivered now rid d)"
| S_attempts: "increment_push_attempts rid d = Inr d' \<Longrightarrow> store_step w now d d'"
| S_claim: "claim_for_push now rid d = Inr (b, d') \<Longrightarrow> store_step w now d d'"
| S_claim_fyi: "claim_for_fyi_push rid d = Inr (b, d') \<Longrightarrow> store_step w now d d'"
| S_use: "begin_grant_use now gid key version kind w target d = Inr (u, d') \<Longrightarrow> use_kind kind \<Longrightarrow>
    store_step w now d d'"
| S_completed: "kind \<in> {RELEASE_COMPLETED, PROXY_COMPLETED, SECRET_REVEALED} \<Longrightarrow> ae_kind e = kind \<Longrightarrow>
    store_step w now d (insert_audit now e d)"
| S_revoke: "revoke_grant now gid actor d = (b, d') \<Longrightarrow> store_step w now d d'"
| S_purge: "store_step w now d (purge_passthrough gid d)"
| S_sweep: "sweep_purge_passthroughs now w d = (n, d') \<Longrightarrow> store_step w now d d'"
| S_unpin: "unpin_stale_grant_reads now w d = (n, d') \<Longrightarrow> store_step w now d d'"
| S_create_secret: "create_secret now i nm descr tier kind header d = Inr (s, d') \<Longrightarrow> store_step w now d d'"
| S_insert_version: "insert_secret_version now i sid sealer by_request d = Inr (v, d') \<Longrightarrow> store_step w now d d'"
| S_create_version: "create_secret_with_version now fv sp actor d = Inr (b, d') \<Longrightarrow> store_step w now d d'"
| S_deposit: "create_secret_from_client now fv sp client rate d = Inr (dep, d') \<Longrightarrow> store_step w now d d'"
| S_rotate: "rotate_secret_version now i sid nm actor sealer d = Inr (rv, d') \<Longrightarrow> store_step w now d d'"
| S_vet: "mark_secret_vetted now sid v actor d = Inr (b, d') \<Longrightarrow> store_step w now d d'"
| S_tags: "set_secret_tags sid tags d = Inr d' \<Longrightarrow> store_step w now d d'"
| S_settings: "update_secret_settings_audited collate now sid x actor d = Inr (us, d') \<Longrightarrow> store_step w now d d'"
| S_delete: "delete_secret_audited now sid v actor d = (del, d') \<Longrightarrow> store_step w now d d'"
| S_insert_policy: "insert_policy now i p d = Inr (pr, d') \<Longrightarrow> store_step w now d d'"
| S_delete_policy: "delete_policy i d = (b, d') \<Longrightarrow> store_step w now d d'"
| S_policy_created: "insert_policy_audited uuid_str now i p actor d = Inr (pid, d') \<Longrightarrow> store_step w now d d'"
| S_policy_deleted: "delete_policy_audited uuid_str now i actor d = (b, d') \<Longrightarrow> store_step w now d d'"
| S_policy_updated: "update_policy_audited uuid_str now i p actor d = Inr (up, d') \<Longrightarrow> store_step w now d d'"
| S_clients: "reconcile_clients cs d = Inr d' \<Longrightarrow> store_step w now d d'"
| S_provision: "reconcile_one_secret collate sealf unseal now fs fv ds d = Inr (ch, d') \<Longrightarrow> store_step w now d d'"
| S_policies: "reconcile_policies uuid_str now ids wanted d = Inr (pch, d') \<Longrightarrow> store_step w now d d'"

text \<open>Executions: a database clock that does not run backwards, from the empty database.\<close>

inductive run :: "int \<Rightarrow> time \<times> db \<Rightarrow> time \<times> db \<Rightarrow> bool" for w :: int where
  run_refl: "run w (t, d) (t, d)"
| run_step: "run w s (t, d) \<Longrightarrow> t \<le> t' \<Longrightarrow> store_step w t' d d' \<Longrightarrow> run w s (t', d')"

definition reach :: "int \<Rightarrow> time \<times> db \<Rightarrow> bool" where
  "reach w s \<longleftrightarrow> (\<exists>t0. run w (t0, empty_db) s)"

section \<open>Transactions that leave requests and grants alone\<close>

definition idents :: "db \<Rightarrow> (uuid \<times> string) set" where
  "idents d = (\<lambda>s. (sec_id s, sec_name s)) ` set (db_secrets d)"

definition keyed :: "db \<Rightarrow> bool" where
  "keyed d \<longleftrightarrow> distinct (map sec_id (db_secrets d)) \<and> distinct (map sec_name (db_secrets d))"

definition quiet_audit :: "db \<Rightarrow> db \<Rightarrow> bool" where
  "quiet_audit d d' \<longleftrightarrow>
     (\<exists>evs. db_audit d' = db_audit d @ evs \<and> (\<forall>x \<in> set evs. \<not> use_kind (ae_kind (snd x))))"

definition quiet :: "db \<Rightarrow> db \<Rightarrow> bool" where
  "quiet d d' \<longleftrightarrow>
     db_requests d' = db_requests d \<and> db_grants d' = db_grants d \<and> db_reads d' = db_reads d
     \<and> idents d \<subseteq> idents d' \<and> (keyed d \<longrightarrow> keyed d') \<and> quiet_audit d d'"

lemma use_kind_other [simp]:
  "\<not> use_kind REQUEST_CREATED" "\<not> use_kind REQUEST_APPROVED" "\<not> use_kind REQUEST_DENIED"
  "\<not> use_kind REQUEST_EXPIRED" "\<not> use_kind GRANT_REVOKED" "\<not> use_kind RELEASE_COMPLETED"
  "\<not> use_kind PROXY_COMPLETED" "\<not> use_kind SECRET_CREATED" "\<not> use_kind SECRET_ROTATED"
  "\<not> use_kind SECRET_UPDATED" "\<not> use_kind SECRET_DELETED" "\<not> use_kind SECRET_VETTED"
  "\<not> use_kind SECRET_REVEALED" "\<not> use_kind POLICY_CREATED" "\<not> use_kind POLICY_DELETED"
  "\<not> use_kind POLICY_UPDATED"
  by (simp_all add: use_kind_def kind_defs)

lemma quiet_audit_refl [simp]: "db_audit d' = db_audit d \<Longrightarrow> quiet_audit d d'"
  by (simp add: quiet_audit_def)

lemma quiet_audit_append [simp]:
  "db_audit d' = db_audit d @ [x] \<Longrightarrow> \<not> use_kind (ae_kind (snd x)) \<Longrightarrow> quiet_audit d d'"
  by (simp add: quiet_audit_def)

lemma quiet_audit_trans: "quiet_audit d d1 \<Longrightarrow> quiet_audit d1 d' \<Longrightarrow> quiet_audit d d'"
  unfolding quiet_audit_def by fastforce

lemma quiet_refl [simp]: "quiet d d"
  by (simp add: quiet_def)

lemma quiet_trans: "quiet d d1 \<Longrightarrow> quiet d1 d' \<Longrightarrow> quiet d d'"
  by (auto simp: quiet_def intro: quiet_audit_trans)

lemma quiet_tables:
  "db_requests d' = db_requests d \<Longrightarrow> db_grants d' = db_grants d \<Longrightarrow> db_reads d' = db_reads d \<Longrightarrow>
   db_secrets d' = db_secrets d \<Longrightarrow> quiet_audit d d' \<Longrightarrow> quiet d d'"
  by (simp add: quiet_def idents_def keyed_def)

lemma quiet_audit_insert [simp]: "\<not> use_kind (ae_kind e) \<Longrightarrow> quiet d (insert_audit now e d)"
  by (intro quiet_tables) simp_all

lemma quiet_then_audit [intro!]: "\<not> use_kind (ae_kind e) \<Longrightarrow> quiet d d1 \<Longrightarrow> quiet d (insert_audit now e d1)"
  by (rule quiet_trans [OF _ quiet_audit_insert])

lemma quiet_insert_secret:
  "insert_secret_row s d = Inr d' \<Longrightarrow> quiet d d'"
  by (auto simp: table_simps quiet_def idents_def keyed_def)

lemma quiet_insert_secret_if_free:
  "insert_secret_row_if_free s d = Inr (Some d') \<Longrightarrow> quiet d d'"
  by (auto simp: table_simps quiet_def idents_def keyed_def)

lemma quiet_insert_version: "insert_version_row v d = Inr d' \<Longrightarrow> quiet d d'"
  by (auto simp: table_simps intro: quiet_tables)

lemma quiet_insert_tags: "insert_tags sid ts d = Inr d' \<Longrightarrow> quiet d d'"
  by (auto dest!: insert_tags_Inr intro: quiet_tables)

lemma quiet_clear_tags [simp]: "quiet d (clear_tags sid d)"
  by (simp add: clear_tags_def quiet_tables)

lemma quiet_update_secrets:
  assumes "\<And>s. sec_id (f s) = sec_id s \<and> sec_name (f s) = sec_name s"
  shows "quiet d (d\<lparr>db_secrets := upd_where P f (db_secrets d)\<rparr>)"
proof -
  have "map (\<lambda>s. (sec_id s, sec_name s)) (upd_where P f (db_secrets d)) =
      map (\<lambda>s. (sec_id s, sec_name s)) (db_secrets d)"
    using assms by (intro map_upd_same) simp
  from arg_cong [OF this, of set] have "idents (d\<lparr>db_secrets := upd_where P f (db_secrets d)\<rparr>) = idents d"
    by (simp add: idents_def)
  moreover have "keyed d \<longrightarrow> keyed (d\<lparr>db_secrets := upd_where P f (db_secrets d)\<rparr>)"
    using assms by (simp add: keyed_def map_upd_same)
  ultimately show ?thesis
    by (simp add: quiet_def)
qed

lemma quiet_bump:
  assumes "bump_current_version f sid d = Inr (Some (v, d'))"
    and "\<And>s. sec_id (f s) = sec_id s \<and> sec_name (f s) = sec_name s"
  shows "quiet d d'"
  using assms by (auto simp: bump_current_version_def intro!: quiet_update_secrets split: option.splits if_splits)

lemmas quiet_parts = quiet_insert_secret quiet_insert_secret_if_free quiet_insert_version quiet_insert_tags

lemma quiet_policies [simp, intro!]: "quiet d (d\<lparr>db_policies := ps\<rparr>)"
  by (rule quiet_tables) simp_all

lemma quiet_insert_policy: "insert_policy_row r d = Inr d' \<Longrightarrow> quiet d d'"
  by (auto simp: insert_policy_row_def split: if_splits)


lemma quiet_create_secret: "create_secret now i nm descr tier kind header d = Inr (s, d') \<Longrightarrow> quiet d d'"
  by (auto simp: create_secret_def Let_def split: sum.splits dest: quiet_parts)

lemma quiet_insert_secret_version:
  "insert_secret_version now i sid sealer by_request d = Inr (v, d') \<Longrightarrow> quiet d d'"
  by (auto simp: insert_secret_version_def Let_def bump_version_def split: sum.splits option.splits prod.splits
      dest!: quiet_bump quiet_insert_version intro: quiet_trans)

lemma quiet_rotate: "rotate_secret_version now i sid nm actor sealer d = Inr (rv, d') \<Longrightarrow> quiet d d'"
  by (auto simp: rotate_secret_version_def Let_def bump_version_def vet_and_bump_def
      split: sum.splits option.splits prod.splits
      dest!: quiet_bump quiet_insert_version intro: quiet_trans)

lemma quiet_create_version: "create_secret_with_version now fv sp actor d = Inr (b, d') \<Longrightarrow> quiet d d'"
  by (auto simp: create_secret_with_version_def split: sum.splits option.splits
      dest!: quiet_parts intro: quiet_trans)

lemma quiet_deposit: "create_secret_from_client now fv sp client rate d = Inr (dep, d') \<Longrightarrow> quiet d d'"
  by (auto simp: create_secret_from_client_def split: sum.splits option.splits if_splits
      dest!: quiet_parts intro: quiet_trans)

lemma quiet_vet: "mark_secret_vetted now sid v actor d = Inr (b, d') \<Longrightarrow> quiet d d'"
  by (auto simp: mark_secret_vetted_def Let_def set_vetted_def split: option.splits if_splits
      intro!: quiet_update_secrets)

lemma quiet_set_tags: "set_secret_tags sid tags d = Inr d' \<Longrightarrow> quiet d d'"
  unfolding set_secret_tags_def by (rule quiet_trans [OF quiet_clear_tags quiet_insert_tags])

lemma quiet_settings:
  assumes "update_secret_settings_audited collate now sid x actor d = Inr (us, d')"
  shows "quiet d d'"
proof (cases "us = Secret_Updated")
  case True
  let ?d1 = "d\<lparr>db_secrets := upd_where (\<lambda>s. sec_id s = sid) (set_settings now x) (db_secrets d)\<rparr>"
  from assms True obtain d2 e where d2: "insert_tags sid (sx_tags x) (clear_tags sid ?d1) = Inr d2"
      "d' = insert_audit now e d2" "ae_kind e = SECRET_UPDATED"
    by (fastforce simp: update_secret_settings_audited_def Let_def split: option.splits if_splits sum.splits)
  have "quiet d ?d1"
    by (rule quiet_update_secrets) (simp add: set_settings_def)
  then have "quiet d (clear_tags sid ?d1)"
    by (rule quiet_trans) simp
  then have "quiet d d2"
    by (rule quiet_trans) (rule quiet_insert_tags [OF d2(1)])
  then show ?thesis
    by (auto simp: d2)
next
  case False
  with assms show ?thesis
    by (auto simp: update_secret_settings_audited_def Let_def split: option.splits if_splits sum.splits)
qed

lemma quiet_policy_ops:
  "insert_policy now i p d = Inr (pr, d') \<Longrightarrow> quiet d d'"
  "delete_policy i d = (b, d') \<Longrightarrow> quiet d d'"
  "insert_policy_audited us now i p actor d = Inr (pid, d') \<Longrightarrow> quiet d d'"
  "delete_policy_audited us now i actor d = (b, d') \<Longrightarrow> quiet d d'"
  "update_policy_audited us now i p actor d = Inr (up, d') \<Longrightarrow> quiet d d'"
  by (auto simp: insert_policy_def delete_policy_def insert_policy_audited_def delete_policy_audited_def
      update_policy_audited_def policy_created_event_def policy_deleted_event_def Let_def
      split: sum.splits option.splits if_splits dest!: quiet_insert_policy)

lemma quiet_clients: "reconcile_clients cs d = Inr d' \<Longrightarrow> quiet d d'"
  by (auto simp: reconcile_clients_def Let_def split: sum.splits intro: quiet_tables)


lemma quiet_insert_version2: "insert_version sealf now fv sid v val d = Inr d' \<Longrightarrow> quiet d d'"
  by (auto simp: insert_version_def split: option.splits dest: quiet_insert_version)

lemma quiet_replace_tags: "replace_tags sid tags d = Inr d' \<Longrightarrow> quiet d d'"
  unfolding replace_tags_def by (rule quiet_trans [OF quiet_clear_tags quiet_insert_tags])

lemma quiet_provision_create:
  assumes "provision_create sealf now fs fv x d = Inr (ch, d')"
  shows "quiet d d'"
proof -
  from assms obtain row d1 d2 d3 e where "insert_secret_row row d = Inr d1"
      "insert_version sealf now fv fs 1 (ds_value x) d1 = Inr d2" "replace_tags fs (ds_tags x) d2 = Inr d3"
      "d' = insert_audit now e d3" "ae_kind e = SECRET_CREATED"
    by (fastforce simp: provision_create_def Let_def split: sum.splits)
  then show ?thesis
    by (auto dest!: quiet_insert_secret quiet_insert_version2 quiet_replace_tags dest: quiet_trans)
qed

lemma quiet_provision_metadata:
  assumes "provision_metadata now tags x row d = Inr d'"
  shows "quiet d d'"
proof -
  let ?d1 = "d\<lparr>db_secrets := upd_where (\<lambda>s. sec_id s = sec_id row) (adopt_row now x) (db_secrets d)\<rparr>"
  from assms obtain d2 e where d2: "replace_tags (sec_id row) tags ?d1 = Inr d2"
      and d': "d' = insert_audit now e d2" "ae_kind e = SECRET_UPDATED"
    by (fastforce simp: provision_metadata_def split: sum.splits if_splits)
  from d2 have "quiet ?d1 d2"
    by (rule quiet_replace_tags)
  moreover have "quiet d ?d1"
    by (rule quiet_update_secrets) (simp add: adopt_row_def)
  ultimately show ?thesis
    unfolding d' using d'(2) by (auto intro: quiet_trans)
qed

lemma quiet_provision_rotate:
  assumes "provision_rotate sealf now fv x row d = Inr d'"
  shows "quiet d d'"
proof -
  from assms obtain v d1 d2 e where d1: "bump_current_version (bump_version now) (sec_id row) d = Inr (Some (v, d1))"
      and d2: "insert_version sealf now fv (sec_id row) v (ds_value x) d1 = Inr d2"
      and d': "d' = insert_audit now e d2" "ae_kind e = SECRET_ROTATED"
    by (fastforce simp: provision_rotate_def split: sum.splits option.splits)
  have "quiet d d1"
    by (rule quiet_bump [OF d1]) (simp add: bump_version_def)
  with quiet_insert_version2 [OF d2] show ?thesis
    unfolding d' using d'(2) by (auto intro: quiet_trans)
qed

lemma quiet_provision:
  assumes "reconcile_one_secret collate sealf unseal now fs fv x d = Inr (ch, d')"
  shows "quiet d d'"
proof (cases "get_secret_by_name (ds_name x) d")
  case None
  with assms show ?thesis
    by (auto simp: reconcile_one_secret_def intro: quiet_provision_create)
next
  case (Some row)
  let ?tags = "remdups_adj (sort_strings (ds_tags x))"
  from assms Some obtain md d1 same where
      d1: "(if md then provision_metadata now ?tags x row d else Inr d) = Inr d1"
      and d2: "(if same then Inr d1 else provision_rotate sealf now fv x row d1) = Inr d'"
    by (auto simp: reconcile_one_secret_def Let_def split: sum.splits)
  have "quiet d d1"
    using d1 by (auto split: if_splits dest: quiet_provision_metadata)
  moreover have "quiet d1 d'"
    using d2 by (auto split: if_splits dest: quiet_provision_rotate)
  ultimately show ?thesis
    by (rule quiet_trans)
qed

lemma quiet_reconcile_existing:
  "reconcile_existing us now rs wanted d = (wanted', n, d') \<Longrightarrow> quiet d d'"
proof (induction rs arbitrary: wanted wanted' d n d')
  case (Cons r rs)
  show ?case
  proof (cases "position (\<lambda>p. policy_key p = policy_key (row_policy r)) wanted")
    case (Some i)
    with Cons.prems show ?thesis by (auto intro: Cons.IH)
  next
    case None
    let ?d1 = "insert_audit now (policy_deleted_event us r CONFIG_ACTOR)
                 (d\<lparr>db_policies := del_where (\<lambda>q. pol_id q = pol_id r) (db_policies d)\<rparr>)"
    obtain w m d2 where rec: "reconcile_existing us now rs wanted ?d1 = (w, m, d2)"
      by (metis prod_cases3)
    have "quiet d ?d1"
      by (intro quiet_then_audit) (auto simp: policy_deleted_event_def)
    moreover have "d2 = d'"
      using Cons.prems None rec by (simp add: Let_def)
    ultimately show ?thesis
      using Cons.IH [OF rec] by (blast intro: quiet_trans)
  qed
qed simp

lemma quiet_insert_managed: "insert_managed us now ids ps d = Inr (n, d') \<Longrightarrow> quiet d d'"
proof (induction us now ids ps d arbitrary: n rule: insert_managed.induct)
  case (3 us now i ids p ps d)
  from "3.prems" obtain d1 m where d1: "insert_policy_row (new_policy_row now i p CONFIG_ACTOR True) d = Inr d1"
      and rec: "insert_managed us now ids ps (insert_audit now (policy_created_event us i p CONFIG_ACTOR) d1) = Inr (m, d')"
    by (auto split: sum.splits)
  have "quiet d (insert_audit now (policy_created_event us i p CONFIG_ACTOR) d1)"
    using quiet_insert_policy [OF d1] by (intro quiet_then_audit) (auto simp: policy_created_event_def)
  then show ?case
    using "3.IH" [OF d1 rec] by (rule quiet_trans)
qed simp_all

lemma quiet_reconcile_policies: "reconcile_policies us now ids ps d = Inr (pch, d') \<Longrightarrow> quiet d d'"
  by (auto simp: reconcile_policies_def split: prod.splits sum.splits
      dest!: quiet_reconcile_existing quiet_insert_managed intro: quiet_trans)

lemmas quiet_ops = quiet_create_secret quiet_insert_secret_version quiet_rotate quiet_create_version
  quiet_deposit quiet_vet quiet_set_tags quiet_settings quiet_policy_ops quiet_clients quiet_provision
  quiet_reconcile_policies

end
