(* ===== verification/Ledger.thy ===== *)
theory Ledger
  imports System
begin

text \<open>
  The abstract life cycle of requests and grants.  \<open>ledger_step\<close> is the specification: eleven kinds
  of change that the tables of requests, grants and replay state may undergo, each with what it
  promises.  \<open>store_step_ledger\<close> shows that every transaction of the store is one of them, and the
  invariants of the system are proved once, over the specification.
\<close>

section \<open>The specification\<close>

text \<open>The columns of a request that its life cycle is about.\<close>

definition req_core :: "access_request_row \<Rightarrow>
    uuid \<times> (string \<times> string) \<times> string \<times> (string \<times> bytes) \<times> string option \<times> string option" where
  "req_core r = (ar_id r, (ar_idem_client r, ar_idem_key r), ar_state r, (ar_client_name r, ar_idem_mac r),
     ar_deny_reason r, ar_resolved_by r)"

definition req_key :: "access_request_row \<Rightarrow> string \<times> string" where
  "req_key r = (ar_idem_client r, ar_idem_key r)"

definition read_key :: "grant_read_row \<Rightarrow> uuid \<times> string" where
  "read_key r = (rd_grant_id r, rd_idem_key r)"

definition fresh_request :: "access_request_row \<Rightarrow> db \<Rightarrow> bool" where
  "fresh_request r d \<longleftrightarrow>
     ar_id r \<notin> ar_id ` set (db_requests d) \<and> req_key r \<notin> req_key ` set (db_requests d)"

definition keeps_key :: "(access_request_row \<Rightarrow> access_request_row) \<Rightarrow> bool" where
  "keeps_key f \<longleftrightarrow> (\<forall>r. ar_id (f r) = ar_id r \<and> req_key (f r) = req_key r \<and> ar_client_name (f r) = ar_client_name r
     \<and> ar_idem_mac (f r) = ar_idem_mac r)"

definition minted :: "time \<Rightarrow> uuid \<Rightarrow> grant_row \<Rightarrow> db \<Rightarrow> db \<Rightarrow> bool" where
  "minted now rid g d d' \<longleftrightarrow>
     db_grants d' = db_grants d @ [g] \<and> gr_request_id g = rid \<and> gr_use_count g = 0 \<and> \<not> gr_revoked g
     \<and> gr_id g \<notin> gr_id ` set (db_grants d) \<and> rid \<notin> gr_request_id ` set (db_grants d)
     \<and> (gr_passthrough_ephemeral g \<or> (\<exists>sid. (sid, gr_secret_name g) \<in> idents d'))
     \<and> db_reads d' = db_reads d \<and> idents d \<subseteq> idents d' \<and> quiet_audit d d'"

inductive ledger_step :: "int \<Rightarrow> time \<Rightarrow> db \<Rightarrow> db \<Rightarrow> bool" for w :: int and now :: time where
  L_frame: "map req_core (db_requests d') = map req_core (db_requests d) \<Longrightarrow> db_grants d' = db_grants d \<Longrightarrow>
    db_reads d' = db_reads d \<Longrightarrow> idents d \<subseteq> idents d' \<Longrightarrow> quiet_audit d d' \<Longrightarrow> ledger_step w now d d'"
| L_open: "db_requests d' = db_requests d @ [r] \<Longrightarrow> fresh_request r d \<Longrightarrow>
    ar_state r \<in> {''pending'', ''denied''} \<Longrightarrow> db_grants d' = db_grants d \<Longrightarrow> db_reads d' = db_reads d \<Longrightarrow>
    idents d \<subseteq> idents d' \<Longrightarrow> quiet_audit d d' \<Longrightarrow> ledger_step w now d d'"
| L_close: "db_requests d' = upd_where P f (db_requests d) \<Longrightarrow> (\<And>r. P r \<Longrightarrow> ar_state r = ''pending'') \<Longrightarrow>
    keeps_key f \<Longrightarrow> (\<And>r. ar_state (f r) \<in> {''denied'', ''expired''}) \<Longrightarrow> db_grants d' = db_grants d \<Longrightarrow>
    db_reads d' = db_reads d \<Longrightarrow> idents d \<subseteq> idents d' \<Longrightarrow> quiet_audit d d' \<Longrightarrow> ledger_step w now d d'"
| L_mint_new: "db_requests d' = db_requests d @ [r] \<Longrightarrow> fresh_request r d \<Longrightarrow> ar_state r = ''approved'' \<Longrightarrow>
    minted now (ar_id r) g d d' \<Longrightarrow> ledger_step w now d d'"
| L_mint: "r \<in> set (db_requests d) \<Longrightarrow> ar_state r = ''pending'' \<Longrightarrow>
    db_requests d' = upd_where (\<lambda>q. ar_id q = ar_id r) f (db_requests d) \<Longrightarrow>
    keeps_key f \<Longrightarrow> (\<And>r. ar_state (f r) = ''approved'') \<Longrightarrow>
    minted now (ar_id r) g d d' \<Longrightarrow> ledger_step w now d d'"
| L_use: "get_grant gid d = Some g \<Longrightarrow> live_grant now g \<Longrightarrow> uses_left g \<Longrightarrow>
    (\<And>k. key = Some k \<Longrightarrow> find_read gid k d = None) \<Longrightarrow>
    db_grants d' = upd_where (\<lambda>q. gr_id q = gid) bump_use (db_grants d) \<Longrightarrow>
    db_reads d' = db_reads d @ (case key of None \<Rightarrow> [] | Some k \<Rightarrow>
       [\<lparr>rd_grant_id = gid, rd_idem_key = k, rd_secret_version_id = version,
         rd_passthrough = p, rd_first_read_at = now\<rparr>]) \<Longrightarrow>
    db_audit d' = db_audit d @ [(now, use_event kind (bump_use g) version target None)] \<Longrightarrow>
    use_kind kind \<Longrightarrow> db_requests d' = db_requests d \<Longrightarrow> idents d' = idents d \<Longrightarrow> ledger_step w now d d'"
| L_replay: "get_grant gid d = Some g \<Longrightarrow>
    d' = insert_audit now (use_event kind g version target (Some replay_detail)) d \<Longrightarrow> ledger_step w now d d'"
| L_revoke: "db_grants d' = upd_where P set_revoked (db_grants d) \<Longrightarrow> db_requests d' = db_requests d \<Longrightarrow>
    db_reads d' = db_reads d \<Longrightarrow> idents d' \<subseteq> idents d \<Longrightarrow>
    (\<And>sid nm g. (sid, nm) \<in> idents d - idents d' \<Longrightarrow> backed_by now nm g \<Longrightarrow> P g) \<Longrightarrow>
    quiet_audit d d' \<Longrightarrow> ledger_step w now d d'"
| L_purge: "db_grants d' = upd_where P clear_passthrough (db_grants d) \<Longrightarrow> db_requests d' = db_requests d \<Longrightarrow>
    db_reads d' = db_reads d \<Longrightarrow> idents d' = idents d \<Longrightarrow> quiet_audit d d' \<Longrightarrow> ledger_step w now d d'"
| L_unpin: "db_reads d' = upd_where P unpin (db_reads d) \<Longrightarrow>
    (\<And>r. P r \<Longrightarrow> rd_first_read_at r < now - interval_secs w) \<Longrightarrow> db_grants d' = db_grants d \<Longrightarrow>
    db_requests d' = db_requests d \<Longrightarrow> idents d' = idents d \<Longrightarrow> quiet_audit d d' \<Longrightarrow> ledger_step w now d d'"

section \<open>The invariant\<close>

definition is_use :: "uuid \<Rightarrow> audit_event \<Rightarrow> bool" where
  "is_use gid e \<longleftrightarrow> use_kind (ae_kind e) \<and> ae_grant_id e = Some gid \<and> ae_detail e \<noteq> Some replay_detail"

definition uses_logged :: "uuid \<Rightarrow> db \<Rightarrow> nat" where
  "uses_logged gid d = length (filter (\<lambda>(t, e). is_use gid e) (db_audit d))"

definition valid_states :: "string set" where
  "valid_states = {''pending'', ''approved'', ''denied'', ''expired''}"

definition approved_ids :: "db \<Rightarrow> uuid set" where
  "approved_ids d = ar_id ` {r \<in> set (db_requests d). ar_state r = ''approved''}"

definition within_cap :: "grant_row \<Rightarrow> bool" where
  "within_cap g \<longleftrightarrow> 0 \<le> gr_use_count g \<and>
     (case gr_max_uses g of None \<Rightarrow> True | Some m \<Rightarrow> gr_use_count g \<le> max 0 m)"

definition requests_inv :: "db \<Rightarrow> bool" where
  "requests_inv d \<longleftrightarrow> distinct (map ar_id (db_requests d)) \<and> distinct (map req_key (db_requests d))
     \<and> ar_state ` set (db_requests d) \<subseteq> valid_states"

definition grants_inv :: "db \<Rightarrow> bool" where
  "grants_inv d \<longleftrightarrow> distinct (map gr_id (db_grants d)) \<and> distinct (map gr_request_id (db_grants d))
     \<and> gr_request_id ` set (db_grants d) = approved_ids d"

definition reads_inv :: "db \<Rightarrow> bool" where
  "reads_inv d \<longleftrightarrow> distinct (map read_key (db_reads d))
     \<and> rd_grant_id ` set (db_reads d) \<subseteq> gr_id ` set (db_grants d)"

definition uses_inv :: "db \<Rightarrow> bool" where
  "uses_inv d \<longleftrightarrow>
     (\<forall>g \<in> set (db_grants d). within_cap g \<and> gr_use_count g = int (uses_logged (gr_id g) d))
     \<and> (\<forall>(t, e) \<in> set (db_audit d). \<forall>gid. is_use gid e \<longrightarrow> gid \<in> gr_id ` set (db_grants d))"

definition ledger_inv :: "db \<Rightarrow> bool" where
  "ledger_inv d \<longleftrightarrow> requests_inv d \<and> grants_inv d \<and> reads_inv d \<and> uses_inv d"

section \<open>Every transaction is a step of the specification\<close>

lemma quiet_ledger: "quiet d d' \<Longrightarrow> ledger_step w now d d'"
  by (rule L_frame) (auto simp: quiet_def)

lemma fresh_new_request:
  "insert_request_row_if_free r d = Inr (Some d') \<Longrightarrow> fresh_request r d \<and> d' = d\<lparr>db_requests := db_requests d @ [r]\<rparr>"
  by (auto simp: insert_request_row_Inr fresh_request_def req_key_def)

lemma idents_same [simp]: "idents (d\<lparr>db_requests := x\<rparr>) = idents d" "idents (d\<lparr>db_grants := y\<rparr>) = idents d"
  "idents (d\<lparr>db_reads := z\<rparr>) = idents d" "idents (insert_audit now e d) = idents d"
  "idents (insert_audits now es d) = idents d"
  by (simp_all add: idents_def)

lemma same_secret_row_ident: "same_secret_row g d \<Longrightarrow> \<exists>sid. (sid, gp_secret_name g) \<in> idents d"
  by (force simp: same_secret_row_def secret_incarnation_exists_def idents_def list_ex_iff split: option.splits)

lemma keeps_key_updates [simp]:
  "keeps_key (set_approved now b)" "keeps_key (set_denied now x b)" "keeps_key (set_expired now)"
  by (simp_all add: keeps_key_def req_key_def)

lemma map_core_touch:
  assumes "\<And>r. req_core (f r) = req_core r"
  shows "ledger_step w now d (d\<lparr>db_requests := upd_where P f (db_requests d)\<rparr>)"
  by (rule L_frame) (use assms in \<open>simp_all add: map_upd_same\<close>)

lemma minted_new:
  assumes "gid \<notin> gr_id ` set (db_grants d)" "rid \<notin> gr_request_id ` set (db_grants d)"
    and "db_grants d' = db_grants d @ [new_grant_row now gid rid g]" "db_reads d' = db_reads d"
    and "idents d \<subseteq> idents d'" "quiet_audit d d'"
    and "gp_passthrough g = None \<Longrightarrow> \<exists>sid. (sid, gp_secret_name g) \<in> idents d'"
  shows "minted now rid (new_grant_row now gid rid g) d d'"
  using assms by (auto simp: minted_def)

lemma ledger_insert:
  "insert_access_request now i req seal d = Inr (r, d') \<Longrightarrow> ledger_step w now d d'"
  by (erule insert_access_request_cases)
    (auto simp: quiet_ledger dest!: fresh_new_request intro!: L_open)

lemma quiet_audit_two [simp]:
  "db_audit d' = db_audit d @ [x, y] \<Longrightarrow> \<not> use_kind (ae_kind (snd x)) \<Longrightarrow> \<not> use_kind (ae_kind (snd y)) \<Longrightarrow>
   quiet_audit d d'"
  by (simp add: quiet_audit_def)

lemma approved_event_kind [simp]: "ae_kind (approved_event rid gid g b) = REQUEST_APPROVED"
  by (simp add: approved_event_def)

lemma ledger_create:
  assumes "insert_access_request_with_id now i fg req cap res seal d = Inr (out, d')"
  shows "ledger_step w now d d'"
  using assms
proof (cases rule: insert_access_request_with_id_cases)
  case Same
  then show ?thesis by (simp add: quiet_ledger)
next
  case (Pend ctx d1 e)
  then show ?thesis by (auto dest!: fresh_new_request intro!: L_open)
next
  case (Den ctx d1 reason by_whom e e')
  then show ?thesis
    by (intro L_open [where r = "set_denied now reason by_whom (new_request_row now i req ctx)"])
      (auto dest!: fresh_new_request simp: fresh_request_def req_key_def)
next
  case (App ctx d1 by_whom g n e e')
  let ?r = "(set_approved now by_whom (new_request_row now i req ctx))\<lparr>ar_notify_only := n\<rparr>"
  show ?thesis
  proof (rule L_mint_new [where r = ?r and g = "new_grant_row now fg i g"])
    show "fresh_request ?r d"
      using fresh_new_request [OF App(2)] by (simp add: fresh_request_def req_key_def)
    have "minted now i (new_grant_row now fg i g) d d'"
      by (rule minted_new) (use App same_secret_row_ident in auto)
    then show "minted now (ar_id ?r) (new_grant_row now fg i g) d d'"
      by simp
  qed (use App in simp_all)
qed

lemma ledger_resolve:
  assumes ids: "distinct (map ar_id (db_requests d))"
    and "resolve_approve now fg rid by_whom g d = Inr (out, d')"
  shows "ledger_step w now d d'"
  using assms
proof (cases rule: resolve_approve_cases)
  case Same
  then show ?thesis by (simp add: quiet_ledger)
next
  case (App r)
  show ?thesis
  proof (rule L_mint [where r = r and f = "set_approved now by_whom" and g = "new_grant_row now fg rid g"])
    have "minted now rid (new_grant_row now fg rid g) d d'"
      by (rule minted_new) (use App same_secret_row_ident in auto)
    then show "minted now (ar_id r) (new_grant_row now fg rid g) d d'"
      using App by simp
  qed (use App in simp_all)
qed

lemma ledger_approve:
  assumes ids: "distinct (map ar_id (db_requests d))"
    and "approve_request now fv rid by_whom gid g store d = Inr (out, d')"
    and nm: "\<And>s. store = Some s \<Longrightarrow> sp_name s = gp_secret_name g"
  shows "ledger_step w now d d'"
  using assms(1,2)
proof (cases rule: approve_request_cases)
  case Same
  then show ?thesis by (simp add: quiet_ledger)
next
  case (App r d1 e)
  have d1: "db_grants d1 = db_grants d" "db_reads d1 = db_reads d" "idents d \<subseteq> idents d1" "quiet_audit d d1"
    "gp_passthrough g = None \<Longrightarrow> \<exists>sid. (sid, gp_secret_name g) \<in> idents d1"
  proof -
    show "db_grants d1 = db_grants d" "db_reads d1 = db_reads d" "idents d \<subseteq> idents d1" "quiet_audit d d1"
      using App(12) by (auto split: option.splits elim!: approve_store_Inr simp: idents_def)
    assume "gp_passthrough g = None"
    then show "\<exists>sid. (sid, gp_secret_name g) \<in> idents d1"
      using App(7,12) nm same_secret_row_ident
      by (auto split: option.splits elim!: approve_store_Inr simp: idents_def new_secret_row_def)
  qed
  show ?thesis
  proof (rule L_mint [where r = r and f = "set_approved now by_whom" and g = "new_grant_row now gid rid g"])
    have "quiet_audit d d'"
      by (rule quiet_audit_trans [OF d1(4)]) (use App in simp)
    then have "minted now rid (new_grant_row now gid rid g) d d'"
      by (intro minted_new) (use App d1 in auto)
    then show "minted now (ar_id r) (new_grant_row now gid rid g) d d'"
      using App by simp
  qed (use App in simp_all)
qed

lemma ledger_deny:
  assumes ids: "distinct (map ar_id (db_requests d))"
    and "resolve_deny now rid by_whom reason d = Inr (out, d')"
  shows "ledger_step w now d d'"
  using assms
proof (cases rule: resolve_deny_cases)
  case Same
  then show ?thesis by (simp add: quiet_ledger)
next
  case (Den r e)
  then have "upd_where (\<lambda>q. ar_id q = rid) (set_denied now reason by_whom) (db_requests d) =
      upd_where (\<lambda>q. q = r) (set_denied now reason by_whom) (db_requests d)"
    unfolding upd_where_def by (intro map_cong refl if_cong) (auto dest: distinct_map_same [OF ids])
  with Den show ?thesis
    by (intro L_close [where P = "\<lambda>q. q = r" and f = "set_denied now reason by_whom"]) auto
qed

lemma ledger_expire: "expire_stale now d = (n, d') \<Longrightarrow> ledger_step w now d d'"
  by (rule L_close [where P = "\<lambda>r. ar_state r = ''pending'' \<and> ar_expires_at r < now" and f = "set_expired now"])
    (auto simp: expire_stale_def Let_def quiet_audit_def expired_event_def)

lemma ledger_touch:
  "purge_request_context now ret d = (n, d') \<Longrightarrow> ledger_step w now d d'"
  "ledger_step w now d (mark_push_delivered now rid d)"
  "increment_push_attempts rid d = Inr d' \<Longrightarrow> ledger_step w now d d'"
  by (auto simp: purge_request_context_def mark_push_delivered_def increment_push_attempts_def Let_def
      req_core_def clear_context_def bump_push_attempts_def intro!: map_core_touch split: if_splits)

lemma ledger_claim: "claim_where hit d = Inr (b, d') \<Longrightarrow> ledger_step w now d d'"
  by (erule claim_where_cases)
    (auto simp: quiet_ledger req_core_def bump_push_attempts_def intro!: map_core_touch)

lemma ledger_use:
  assumes ids: "distinct (map gr_id (db_grants d))" and k: "use_kind kind"
    and "begin_grant_use now gid key version kind w target d = Inr (u, d')"
  shows "ledger_step w now d d'"
  using ids assms(3)
proof (cases rule: begin_grant_use_cases)
  case Nothing
  then show ?thesis by (simp add: quiet_ledger)
next
  case (Again g k q)
  then show ?thesis by (intro L_replay)
next
  case (First g)
  then show ?thesis
    by (intro L_use [OF First(1,2,3) _ First(7,8,9) k]) (auto simp: idents_def)
qed

lemma ledger_revoke: "revoke_grant now gid actor d = (b, d') \<Longrightarrow> ledger_step w now d d'"
  by (auto simp: revoke_grant_def Let_def quiet_ledger revoked_event_def split: option.splits
      intro!: L_revoke [where P = "\<lambda>g. gr_id g = gid \<and> \<not> gr_revoked g"])

lemma ledger_purge:
  "ledger_step w now d (purge_passthrough gid d)"
  "sweep_purge_passthroughs now w' d = (n, d') \<Longrightarrow> ledger_step w now d d'"
  by (auto simp: purge_passthrough_def sweep_purge_passthroughs_def intro!: L_purge)

lemma ledger_unpin: "unpin_stale_grant_reads now w d = (n, d') \<Longrightarrow> ledger_step w now d d'"
  by (auto simp: unpin_stale_grant_reads_def Let_def intro!: L_unpin)

lemma delete_secret_cases:
  assumes "keyed d" and "delete_secret_audited now sid v actor d = (del, d')"
  obtains (Same) "d' = d" "del = Stale"
  | (Del) s es where "s \<in> set (db_secrets d)" "sec_id s = sid" "sec_current_version s = v"
      "del = Secret_Deleted (length (filter (backed_by now (sec_name s)) (db_grants d)))"
      "\<forall>e \<in> set es. ae_kind e \<in> {GRANT_REVOKED, SECRET_DELETED}"
      "d' = insert_audits now es ((delete_secret_cascade sid d)\<lparr>db_grants :=
              upd_where (backed_by now (sec_name s)) set_revoked (db_grants d)\<rparr>)"
proof (cases "find (\<lambda>s. sec_id s = sid) (db_secrets d)")
  case None
  with assms show thesis by (intro Same) (auto simp: delete_secret_audited_def)
next
  case (Some s)
  note s = find_Some_mem [OF Some]
  show thesis
  proof (cases "sec_current_version s = v")
    case False
    with assms Some show thesis by (intro Same) (auto simp: delete_secret_audited_def Let_def)
  next
    case True
    let ?rev = "map (\<lambda>g. revoked_event g actor (Some (JObject [(''reason'', JString ''secret-deleted'')])))
        (filter (backed_by now (sec_name s)) (db_grants d))"
    define e where "e = audit_default\<lparr>ae_kind := SECRET_DELETED,
         ae_secret_name := Some (sec_name s), ae_actor := Some actor,
         ae_detail := Some (JObject [(''current_version'', JNumber (dec_int v)),
           (''versions_deleted'', JNumber (dec (length (filter (\<lambda>v. ver_secret_id v = sid) (db_versions d))))),
           (''grants_revoked'', JNumber (dec (length (filter (backed_by now (sec_name s)) (db_grants d)))))])\<rparr>"
    show thesis
    proof (rule Del [of s "?rev @ [e]"])
      show "\<forall>x \<in> set (?rev @ [e]). ae_kind x \<in> {GRANT_REVOKED, SECRET_DELETED}"
        by (auto simp: revoked_event_def e_def)
      show "d' = insert_audits now (?rev @ [e]) ((delete_secret_cascade sid d)\<lparr>db_grants :=
              upd_where (backed_by now (sec_name s)) set_revoked (db_grants d)\<rparr>)"
        using assms Some True
        by (auto simp: delete_secret_audited_def Let_def insert_audits_def delete_secret_cascade_def e_def)
      show "del = Secret_Deleted (length (filter (backed_by now (sec_name s)) (db_grants d)))"
        using assms Some True by (auto simp: delete_secret_audited_def Let_def delete_secret_cascade_def)
    qed (use s True in simp_all)
  qed
qed

lemma ledger_delete:
  assumes k: "keyed d" and "delete_secret_audited now sid v actor d = (del, d')"
  shows "ledger_step w now d d'"
  using assms
proof (cases rule: delete_secret_cases)
  case Same
  then show ?thesis by (simp add: quiet_ledger)
next
  case (Del s es)
  show ?thesis
  proof (rule L_revoke [where P = "backed_by now (sec_name s)"])
    fix sid' nm g
    assume "(sid', nm) \<in> idents d - idents d'" and b: "backed_by now nm g"
    then obtain q where q: "q \<in> set (db_secrets d)" "sec_id q = sid" "sec_name q = nm"
      by (auto simp: Del idents_def delete_secret_cascade_def)
    then have "q = s"
      using k Del(1,2) distinct_map_same [of sec_id "db_secrets d" q s] by (simp add: keyed_def)
    with b q show "backed_by now (sec_name s) g" by simp
  qed (use Del in \<open>auto simp: delete_secret_cascade_def idents_def quiet_audit_def\<close>)
qed

lemma store_step_ledger:
  assumes "store_step w now d d'" and "requests_inv d" "grants_inv d" "keyed d"
  shows "ledger_step w now d d'"
  using assms
  by (cases rule: store_step.cases)
    (auto simp: requests_inv_def grants_inv_def claim_for_push_def claim_for_fyi_push_def
      intro: ledger_insert ledger_create ledger_resolve ledger_approve ledger_deny ledger_expire
        ledger_touch ledger_claim ledger_use ledger_revoke ledger_purge ledger_unpin ledger_delete
        quiet_ledger quiet_ops)

lemma keyed_same: "db_secrets d' = db_secrets d \<Longrightarrow> keyed d \<Longrightarrow> keyed d'"
  by (simp add: keyed_def)

lemma keyed_approve_store: "approve_store now rid fv by_whom s d = Inr (Some d') \<Longrightarrow> keyed d \<Longrightarrow> keyed d'"
  by (erule approve_store_Inr) (auto simp: keyed_def new_secret_row_def)

lemma keyed_delete:
  assumes "keyed d" "delete_secret_audited now sid v actor d = (del, d')"
  shows "keyed d'"
  using assms
  by (cases rule: delete_secret_cases)
    (use assms(1) in \<open>auto simp: keyed_def delete_secret_cascade_def distinct_map_del_where\<close>)

lemma store_step_keyed:
  assumes "store_step w now d d'" and "requests_inv d" "grants_inv d" "keyed d"
  shows "keyed d'"
  using assms
proof (cases rule: store_step.cases)
  case (S_approve fv rid by_whom gid g store o3)
  have ids: "distinct (map ar_id (db_requests d))"
    using assms by (simp add: requests_inv_def)
  from ids S_approve(1) show ?thesis
  proof (cases rule: approve_request_cases)
    case (App r d1 e)
    then have "keyed d1"
      using assms by (auto split: option.splits intro: keyed_approve_store)
    with App show ?thesis by (auto intro: keyed_same)
  qed (use assms in simp)
next
  case (S_create i fg req cap res seal o1)
  then show ?thesis
    by (cases rule: insert_access_request_with_id_cases)
      (use assms in \<open>auto dest!: fresh_new_request intro: keyed_same\<close>)
next
  case (S_insert i req seal r)
  then show ?thesis
    by (cases rule: insert_access_request_cases)
      (use assms in \<open>auto dest!: fresh_new_request intro: keyed_same\<close>)
next
  case (S_resolve fg rid by_whom g o2)
  have ids: "distinct (map ar_id (db_requests d))"
    using assms by (simp add: requests_inv_def)
  from ids S_resolve show ?thesis
    by (cases rule: resolve_approve_cases) (use assms in \<open>auto intro: keyed_same\<close>)
next
  case (S_deny rid by_whom reason b)
  have ids: "distinct (map ar_id (db_requests d))"
    using assms by (simp add: requests_inv_def)
  from ids S_deny show ?thesis
    by (cases rule: resolve_deny_cases) (use assms in \<open>auto intro: keyed_same\<close>)
next
  case (S_use gid key version kind target u)
  have ids: "distinct (map gr_id (db_grants d))"
    using assms by (simp add: grants_inv_def)
  from ids S_use(1) show ?thesis
    by (cases rule: begin_grant_use_cases) (use assms in \<open>auto intro: keyed_same\<close>)
next
  case (S_claim rid b)
  then show ?thesis
    unfolding claim_for_push_def by (rule claim_where_cases) (use assms in \<open>auto intro: keyed_same\<close>)
next
  case (S_claim_fyi rid b)
  then show ?thesis
    unfolding claim_for_fyi_push_def by (rule claim_where_cases) (use assms in \<open>auto intro: keyed_same\<close>)
next
  case (S_delete sid v actor del)
  with assms show ?thesis by (auto intro: keyed_delete)
qed (auto simp: keyed_def expire_stale_def purge_request_context_def mark_push_delivered_def
      increment_push_attempts_def revoke_grant_def purge_passthrough_def sweep_purge_passthroughs_def
      unpin_stale_grant_reads_def Let_def split: if_splits option.splits
      dest: quiet_ops [THEN quiet_def [THEN iffD1]])

section \<open>The invariant is kept\<close>

definition id_states :: "db \<Rightarrow> (uuid \<times> string) set" where
  "id_states d = (\<lambda>r. (ar_id r, ar_state r)) ` set (db_requests d)"

lemma map_factor: "map g xs = map g ys \<Longrightarrow> (\<And>x. h x = k (g x)) \<Longrightarrow> map h xs = map h ys"
  by (metis (no_types, lifting) comp_apply ext map_map)

lemma core_eq:
  assumes "map req_core (db_requests d') = map req_core (db_requests d)"
  shows "map ar_id (db_requests d') = map ar_id (db_requests d)"
    "map req_key (db_requests d') = map req_key (db_requests d)" "id_states d' = id_states d"
proof -
  show "map ar_id (db_requests d') = map ar_id (db_requests d)"
    by (rule map_factor [OF assms, of _ fst]) (simp add: req_core_def)
  show "map req_key (db_requests d') = map req_key (db_requests d)"
    by (rule map_factor [OF assms, of _ "fst \<circ> snd"]) (simp add: req_core_def req_key_def)
  have "map (\<lambda>r. (ar_id r, ar_state r)) (db_requests d') = map (\<lambda>r. (ar_id r, ar_state r)) (db_requests d)"
    by (rule map_factor [OF assms, of _ "\<lambda>c. (fst c, fst (snd (snd c)))"]) (simp add: req_core_def)
  from arg_cong [OF this, of set] show "id_states d' = id_states d"
    by (simp add: id_states_def)
qed

lemma approved_ids_states: "approved_ids d = {i. (i, ''approved'') \<in> id_states d}"
  by (force simp: approved_ids_def id_states_def)

lemma requests_inv_states:
  "requests_inv d \<longleftrightarrow> distinct (map ar_id (db_requests d)) \<and> distinct (map req_key (db_requests d))
     \<and> snd ` id_states d \<subseteq> valid_states"
  by (simp add: requests_inv_def id_states_def image_image)

lemma keeps_key_upd:
  assumes "keeps_key f"
  shows "map ar_id (upd_where P f rs) = map ar_id rs" "map req_key (upd_where P f rs) = map req_key rs"
  using assms by (simp_all add: keeps_key_def map_upd_same)

lemma ledger_requests_inv:
  assumes "ledger_step w now d d'" and "requests_inv d"
  shows "requests_inv d'"
  using assms(1)
proof cases
  case L_frame
  from core_eq [OF L_frame(1)] assms(2) show ?thesis
    by (simp add: requests_inv_states)
next
  case (L_open r)
  with assms(2) show ?thesis
    by (auto simp: requests_inv_def fresh_request_def valid_states_def)
next
  case (L_close P f)
  with assms(2) show ?thesis
    by (fastforce simp: requests_inv_def keeps_key_upd valid_states_def set_upd_where)
next
  case (L_mint_new r g)
  with assms(2) show ?thesis
    by (auto simp: requests_inv_def fresh_request_def valid_states_def)
next
  case (L_mint r f g)
  with assms(2) show ?thesis
    by (fastforce simp: requests_inv_def keeps_key_upd valid_states_def set_upd_where)
qed (use assms(2) in \<open>auto simp: requests_inv_def\<close>)

lemma approved_close:
  assumes "db_requests d' = upd_where P f (db_requests d)" "\<And>r. P r \<Longrightarrow> ar_state r = ''pending''"
    "\<And>r. ar_state (f r) \<in> {''denied'', ''expired''}"
  shows "approved_ids d' = approved_ids d"
proof -
  have "ar_state (f r) \<noteq> ''approved''" "P r \<Longrightarrow> ar_state r \<noteq> ''approved''" for r
    using assms(2) [of r] assms(3) [of r] by auto
  then have "{r \<in> set (db_requests d'). ar_state r = ''approved''} = {r \<in> set (db_requests d). ar_state r = ''approved''}"
    unfolding assms(1) by (auto simp: set_upd_where split: if_splits)
  then show ?thesis
    by (simp add: approved_ids_def)
qed

lemma approved_mint:
  assumes "r \<in> set (db_requests d)" "keeps_key f" "\<And>r. ar_state (f r) = ''approved''"
    "db_requests d' = upd_where (\<lambda>q. ar_id q = ar_id r) f (db_requests d)"
  shows "approved_ids d' = insert (ar_id r) (approved_ids d)"
proof -
  have "id_states d' = (\<lambda>q. (ar_id q, if ar_id q = ar_id r then ''approved'' else ar_state q)) ` set (db_requests d)"
    unfolding id_states_def assms(4) upd_where_def set_map image_image
    using assms(2,3) by (intro image_cong refl) (simp add: keeps_key_def)
  then have "(i, ''approved'') \<in> id_states d' \<longleftrightarrow> i = ar_id r \<or> (i, ''approved'') \<in> id_states d" for i
    using assms(1) by (auto simp: id_states_def image_iff)
  then show ?thesis
    by (auto simp: approved_ids_states)
qed

lemma minted_grants:
  assumes "minted now rid g d d'" "grants_inv d" "approved_ids d' = insert rid (approved_ids d)"
  shows "grants_inv d'"
  using assms by (auto simp: minted_def grants_inv_def)

lemma grants_inv_upd:
  assumes "grants_inv d" "db_grants d' = upd_where P f (db_grants d)" "db_requests d' = db_requests d"
    "\<And>g. gr_id (f g) = gr_id g \<and> gr_request_id (f g) = gr_request_id g"
  shows "grants_inv d'"
proof -
  have "map gr_request_id (db_grants d') = map gr_request_id (db_grants d)" "map gr_id (db_grants d') = map gr_id (db_grants d)"
    using assms(2,4) by (simp_all add: map_upd_same)
  moreover from this(1) have "gr_request_id ` set (db_grants d') = gr_request_id ` set (db_grants d)"
    by (metis list.set_map)
  ultimately show ?thesis
    using assms(1,3) by (simp add: grants_inv_def approved_ids_def)
qed

lemma ledger_grants_inv:
  assumes "ledger_step w now d d'" and inv: "requests_inv d" "grants_inv d"
  shows "grants_inv d'"
  using assms(1)
proof cases
  case L_frame
  from core_eq(3) [OF L_frame(1)] inv L_frame(2) show ?thesis
    by (simp add: grants_inv_def approved_ids_states)
next
  case (L_open r)
  then have "approved_ids d' = approved_ids d"
    by (auto simp: approved_ids_def)
  with L_open inv show ?thesis by (simp add: grants_inv_def)
next
  case (L_close P f)
  then have "approved_ids d' = approved_ids d"
    by (intro approved_close)
  with L_close inv show ?thesis by (simp add: grants_inv_def)
next
  case (L_mint_new r g)
  then have "approved_ids d' = insert (ar_id r) (approved_ids d)"
    by (auto simp: approved_ids_def)
  with L_mint_new inv show ?thesis by (blast intro: minted_grants)
next
  case (L_mint r f g)
  show ?thesis
    by (rule minted_grants [OF L_mint(6) inv(2) approved_mint]) (use L_mint in auto)
next
  case (L_use gid g key version p kind target)
  show ?thesis
    by (rule grants_inv_upd [OF inv(2) L_use(5,9)]) simp
next
  case (L_revoke P)
  show ?thesis
    by (rule grants_inv_upd [OF inv(2) L_revoke(1,2)]) simp
next
  case (L_purge P)
  show ?thesis
    by (rule grants_inv_upd [OF inv(2) L_purge(1,2)]) simp
qed (use inv in \<open>auto simp: grants_inv_def approved_ids_def\<close>)

lemma gr_id_image_upd:
  assumes "db_grants d' = upd_where P f (db_grants d)" "\<And>g. gr_id (f g) = gr_id g"
  shows "gr_id ` set (db_grants d') = gr_id ` set (db_grants d)"
  using map_upd_same [of gr_id f P "db_grants d"] assms by (metis list.set_map)

lemma ledger_reads_inv:
  assumes "ledger_step w now d d'" and inv: "reads_inv d"
  shows "reads_inv d'"
  using assms(1)
proof cases
  case (L_use gid g key version p kind target)
  have ids: "gr_id ` set (db_grants d') = gr_id ` set (db_grants d)"
    by (rule gr_id_image_upd [OF L_use(5)]) simp
  have gid: "gid \<in> gr_id ` set (db_grants d)"
    using L_use(1) by (auto simp: get_grant_def dest: find_Some_mem)
  show ?thesis
  proof (cases key)
    case None
    with L_use(6) inv ids show ?thesis by (simp add: reads_inv_def)
  next
    case (Some k)
    have "(gid, k) \<notin> read_key ` set (db_reads d)"
      using L_use(4) [OF Some] by (auto simp: find_read_def find_None_iff read_key_def)
    moreover have "map read_key (db_reads d') = map read_key (db_reads d) @ [(gid, k)]"
      "rd_grant_id ` set (db_reads d') = insert gid (rd_grant_id ` set (db_reads d))"
      using L_use(6) Some by (simp_all add: read_key_def)
    ultimately show ?thesis
      using inv ids gid by (auto simp: reads_inv_def)
  qed
next
  case (L_unpin P)
  have "map read_key (db_reads d') = map read_key (db_reads d)" "map rd_grant_id (db_reads d') = map rd_grant_id (db_reads d)"
    using L_unpin by (simp_all add: map_upd_same read_key_def unpin_def)
  moreover from this(2) have "rd_grant_id ` set (db_reads d') = rd_grant_id ` set (db_reads d)"
    by (metis list.set_map)
  ultimately show ?thesis
    using inv L_unpin by (simp add: reads_inv_def)
next
  case (L_revoke P)
  have "gr_id ` set (db_grants d') = gr_id ` set (db_grants d)"
    by (rule gr_id_image_upd [OF L_revoke(1)]) simp
  with L_revoke inv show ?thesis by (simp add: reads_inv_def)
next
  case (L_purge P)
  have "gr_id ` set (db_grants d') = gr_id ` set (db_grants d)"
    by (rule gr_id_image_upd [OF L_purge(1)]) simp
  with L_purge inv show ?thesis by (simp add: reads_inv_def)
qed (use inv in \<open>auto simp: reads_inv_def minted_def\<close>)


lemma uses_logged_quiet:
  assumes "quiet_audit d d'"
  shows "uses_logged gid d' = uses_logged gid d"
proof -
  obtain evs where e: "db_audit d' = db_audit d @ evs" "\<forall>x \<in> set evs. \<not> use_kind (ae_kind (snd x))"
    using assms by (auto simp: quiet_audit_def)
  have "filter (\<lambda>(t, e). is_use gid e) evs = []"
    using e(2) by (auto simp: filter_empty_conv is_use_def)
  then show ?thesis
    using e(1) by (simp add: uses_logged_def)
qed

lemma audit_uses_quiet:
  assumes "quiet_audit d d'" "\<forall>(t, e) \<in> set (db_audit d). \<forall>gid. is_use gid e \<longrightarrow> gid \<in> G" "G \<subseteq> G'"
  shows "\<forall>(t, e) \<in> set (db_audit d'). \<forall>gid. is_use gid e \<longrightarrow> gid \<in> G'"
  using assms by (fastforce simp: quiet_audit_def is_use_def)

lemma uses_logged_fresh:
  assumes "uses_inv d" "gid \<notin> gr_id ` set (db_grants d)"
  shows "uses_logged gid d = 0"
  using assms by (auto simp: uses_inv_def uses_logged_def filter_empty_conv)

lemma ball_upd: "(\<forall>x \<in> set (upd_where P f rs). Q x) \<longleftrightarrow> (\<forall>r \<in> set rs. Q (if P r then f r else r))"
  by (auto simp: upd_where_def)

lemma uses_inv_quiet:
  assumes "uses_inv d" "quiet_audit d d'" "db_grants d' = upd_where P f (db_grants d)"
    "\<And>g. gr_id (f g) = gr_id g \<and> gr_use_count (f g) = gr_use_count g \<and> gr_max_uses (f g) = gr_max_uses g"
  shows "uses_inv d'"
  unfolding uses_inv_def
proof (intro conjI)
  have "within_cap (f g) = within_cap g" for g
    unfolding within_cap_def using assms(4) [of g] by (simp only:)
  then show "\<forall>g \<in> set (db_grants d'). within_cap g \<and> gr_use_count g = int (uses_logged (gr_id g) d')"
    unfolding assms(3) ball_upd using assms(1,4) uses_logged_quiet [OF assms(2)]
    by (simp add: uses_inv_def)
  have "gr_id ` set (db_grants d') = gr_id ` set (db_grants d)"
    by (rule gr_id_image_upd [OF assms(3)]) (simp add: assms(4))
  then show "\<forall>(t, e) \<in> set (db_audit d'). \<forall>gid. is_use gid e \<longrightarrow> gid \<in> gr_id ` set (db_grants d')"
    using assms(1)
    by (intro audit_uses_quiet [OF assms(2), of "gr_id ` set (db_grants d)"]) (auto simp: uses_inv_def)
qed

lemma upd_id: "upd_where P (\<lambda>x. x) rs = rs"
  by (induction rs) auto

lemma uses_inv_same:
  assumes "uses_inv d" "quiet_audit d d'" "db_grants d' = db_grants d"
  shows "uses_inv d'"
  by (rule uses_inv_quiet [OF assms(1,2), of "\<lambda>_. True" "\<lambda>g. g"]) (simp_all add: upd_id assms(3))

lemma uses_inv_minted:
  assumes "uses_inv d" "minted now rid g d d'"
  shows "uses_inv d'"
  unfolding uses_inv_def
proof (intro conjI)
  have q: "quiet_audit d d'" and g: "db_grants d' = db_grants d @ [g]"
    using assms(2) by (auto simp: minted_def)
  have "uses_logged (gr_id g) d = 0"
    using assms by (intro uses_logged_fresh) (auto simp: minted_def)
  then show "\<forall>g \<in> set (db_grants d'). within_cap g \<and> gr_use_count g = int (uses_logged (gr_id g) d')"
    using assms g uses_logged_quiet [OF q]
    by (auto simp: uses_inv_def minted_def within_cap_def split: option.splits)
  show "\<forall>(t, e) \<in> set (db_audit d'). \<forall>gid. is_use gid e \<longrightarrow> gid \<in> gr_id ` set (db_grants d')"
    using assms(1) g
    by (intro audit_uses_quiet [OF q, of "gr_id ` set (db_grants d)"]) (auto simp: uses_inv_def)
qed

lemma is_use_event [simp]:
  "is_use gid (use_event kind g v tg None) \<longleftrightarrow> use_kind kind \<and> gid = gr_id g"
  "\<not> is_use gid (use_event kind g v tg (Some replay_detail))"
  by (auto simp: is_use_def use_event_def)

lemma ledger_uses_inv:
  assumes "ledger_step w now d d'" and ids: "distinct (map gr_id (db_grants d))" and inv: "uses_inv d"
  shows "uses_inv d'"
  using assms(1)
proof cases
  case (L_use gid g key version p kind target)
  have g: "g \<in> set (db_grants d)" "gr_id g = gid"
    using L_use(1) by (auto simp: get_grant_def dest: find_Some_mem)
  have logged: "uses_logged i d' = uses_logged i d + (if i = gid then 1 else 0)" for i
    using L_use(7,8) g(2) by (simp add: uses_logged_def)
  have cap: "within_cap (bump_use q)" if "q \<in> set (db_grants d)" "gr_id q = gid" for q
  proof -
    have "q = g"
      using distinct_map_same [OF ids that(1) g(1)] that g by simp
    moreover have "within_cap g"
      using inv g by (simp add: uses_inv_def)
    ultimately show ?thesis
      using L_use(3) by (auto simp: within_cap_def uses_left_def split: option.splits)
  qed
  have ids': "gr_id ` set (db_grants d') = gr_id ` set (db_grants d)"
    by (rule gr_id_image_upd [OF L_use(5)]) simp
  show ?thesis
    unfolding uses_inv_def
  proof (intro conjI)
    show "\<forall>g \<in> set (db_grants d'). within_cap g \<and> gr_use_count g = int (uses_logged (gr_id g) d')"
      unfolding L_use(5) ball_upd using inv cap by (auto simp: uses_inv_def logged)
    show "\<forall>(t, e) \<in> set (db_audit d'). \<forall>gid. is_use gid e \<longrightarrow> gid \<in> gr_id ` set (db_grants d')"
      using inv g unfolding L_use(7) ids' by (auto simp: uses_inv_def)
  qed
next
  case (L_replay gid g kind version target)
  have "uses_logged i d' = uses_logged i d" for i
    by (simp add: L_replay uses_logged_def)
  then show ?thesis
    using inv by (auto simp: uses_inv_def L_replay)
qed (use inv in \<open>auto intro: uses_inv_same uses_inv_minted uses_inv_quiet\<close>)

lemma ledger_inv_step:
  assumes "store_step w now d d'" "ledger_inv d" "keyed d"
  shows "ledger_inv d'"
proof -
  have l: "ledger_step w now d d'"
    using assms by (intro store_step_ledger) (auto simp: ledger_inv_def)
  from assms(2) show ?thesis
    unfolding ledger_inv_def
    using ledger_requests_inv [OF l] ledger_grants_inv [OF l] ledger_reads_inv [OF l] ledger_uses_inv [OF l]
    by (auto simp: grants_inv_def)
qed

lemma ledger_inv_empty: "ledger_inv empty_db" "keyed empty_db"
  by (simp_all add: ledger_inv_def requests_inv_def grants_inv_def reads_inv_def uses_inv_def
      approved_ids_def empty_db_def keyed_def)

lemma run_inv:
  assumes "run w s s'" "ledger_inv (snd s)" "keyed (snd s)"
  shows "ledger_inv (snd s') \<and> keyed (snd s')"
  using assms
proof (induction rule: run.induct)
  case (run_step s t d t' d')
  then show ?case
    using ledger_inv_step store_step_keyed by (auto simp: ledger_inv_def)
qed auto

lemma reach_inv: "reach w (t, d) \<Longrightarrow> ledger_inv d \<and> keyed d"
  using run_inv ledger_inv_empty by (fastforce simp: reach_def)

section \<open>How rows evolve\<close>

text \<open>A table whose rows only ever evolve along a preorder: no step deletes a row, and what a step
  does to a row is bounded by \<open>le\<close>.  The closure over executions is proved once.\<close>

locale evolving_table =
  fixes tab :: "db \<Rightarrow> 'r list" and le :: "int \<Rightarrow> time \<Rightarrow> 'r \<Rightarrow> 'r \<Rightarrow> bool"
  assumes le_refl: "le w t r r"
    and le_trans: "le w t r r' \<Longrightarrow> t \<le> t' \<Longrightarrow> le w t' r' r'' \<Longrightarrow> le w t' r r''"
    and step: "ledger_step w t d d' \<Longrightarrow> ledger_inv d \<Longrightarrow> r \<in> set (tab d) \<Longrightarrow> \<exists>r' \<in> set (tab d'). le w t r r'"
begin

lemma run_evolves:
  assumes "run w s s'" "ledger_inv (snd s)" "keyed (snd s)" "r \<in> set (tab (snd s))"
  shows "\<exists>r' \<in> set (tab (snd s')). le w (fst s') r r'"
  using assms
proof (induction rule: run.induct)
  case (run_refl t d)
  then show ?case using le_refl by auto
next
  case (run_step s t d t' d')
  then obtain r' where r': "r' \<in> set (tab d)" "le w t r r'"
    by auto
  have inv: "ledger_inv d" "keyed d"
    using run_inv [OF run_step.hyps(1)] run_step.prems by auto
  then have "ledger_step w t' d d'"
    using run_step.hyps by (intro store_step_ledger) (auto simp: ledger_inv_def)
  from step [OF this inv(1) r'(1)] obtain r'' where "r'' \<in> set (tab d')" "le w t' r' r''" ..
  with le_trans [OF r'(2) \<open>t \<le> t'\<close>] show ?case
    by auto
qed

end

definition req_le :: "int \<Rightarrow> time \<Rightarrow> access_request_row \<Rightarrow> access_request_row \<Rightarrow> bool" where
  "req_le w t r r' \<longleftrightarrow> ar_id r' = ar_id r \<and> req_key r' = req_key r \<and> ar_client_name r' = ar_client_name r
     \<and> ar_idem_mac r' = ar_idem_mac r
     \<and> (ar_state r \<noteq> ''pending'' \<longrightarrow> ar_state r' = ar_state r \<and> ar_deny_reason r' = ar_deny_reason r
          \<and> ar_resolved_by r' = ar_resolved_by r)"

definition grant_le :: "int \<Rightarrow> time \<Rightarrow> grant_row \<Rightarrow> grant_row \<Rightarrow> bool" where
  "grant_le w t g g' \<longleftrightarrow> gr_id g' = gr_id g \<and> gr_request_id g' = gr_request_id g
     \<and> gr_client_name g' = gr_client_name g \<and> gr_secret_name g' = gr_secret_name g
     \<and> gr_mechanism g' = gr_mechanism g \<and> gr_constraints g' = gr_constraints g
     \<and> gr_not_after g' = gr_not_after g \<and> gr_max_uses g' = gr_max_uses g
     \<and> gr_passthrough_ephemeral g' = gr_passthrough_ephemeral g
     \<and> gr_use_count g \<le> gr_use_count g' \<and> (gr_revoked g \<longrightarrow> gr_revoked g')
     \<and> (gr_passthrough_ciphertext g' = gr_passthrough_ciphertext g \<or> gr_passthrough_ciphertext g' = None)"

definition read_le :: "int \<Rightarrow> time \<Rightarrow> grant_read_row \<Rightarrow> grant_read_row \<Rightarrow> bool" where
  "read_le w t r r' \<longleftrightarrow> read_key r' = read_key r \<and> rd_first_read_at r' = rd_first_read_at r
     \<and> rd_passthrough r' = rd_passthrough r
     \<and> (rd_secret_version_id r' = rd_secret_version_id r
        \<or> rd_secret_version_id r' = None \<and> rd_first_read_at r < t - interval_secs w)"

lemma mem_upd: "r \<in> set rs \<Longrightarrow> (if P r then f r else r) \<in> set (upd_where P f rs)"
  by (auto simp: set_upd_where)

lemma mem_map_eq: "map h rs' = map h rs \<Longrightarrow> r \<in> set rs \<Longrightarrow> \<exists>r' \<in> set rs'. h r' = h r"
  by (metis (no_types, lifting) image_iff list.set_map)

lemma req_step:
  assumes "ledger_step w t d d'" "ledger_inv d" "r \<in> set (db_requests d)"
  shows "\<exists>r' \<in> set (db_requests d'). req_le w t r r'"
  using assms(1)
proof cases
  case L_frame
  from mem_map_eq [OF L_frame(1) assms(3)] show ?thesis
    by (auto simp: req_le_def req_core_def req_key_def)
next
  case (L_close P f)
  have "req_le w t r (if P r then f r else r)"
    using L_close(2) [of r] L_close(3) by (auto simp: req_le_def keeps_key_def)
  then show ?thesis
    unfolding L_close(1) using mem_upd [OF assms(3), of P f] by (rule bexI)
next
  case (L_mint q f g)
  have "q = r" if "ar_id r = ar_id q"
    using distinct_map_same [of ar_id "db_requests d" q r] L_mint(1) assms(2,3) that
    by (simp add: ledger_inv_def requests_inv_def)
  then have "req_le w t r (if ar_id r = ar_id q then f r else r)"
    using L_mint(2,4) by (auto simp: req_le_def keeps_key_def)
  then show ?thesis
    unfolding L_mint(3) using mem_upd [OF assms(3), of "\<lambda>x. ar_id x = ar_id q" f] by (rule bexI)
qed (use assms(3) in \<open>auto simp: req_le_def\<close>)

lemma grant_updates_le [simp]:
  "grant_le w t g g" "grant_le w t g (bump_use g)" "grant_le w t g (set_revoked g)" "grant_le w t g (clear_passthrough g)"
  by (simp_all add: grant_le_def bump_use_def set_revoked_def clear_passthrough_def)

lemma grant_step:
  assumes "ledger_step w t d d'" "g \<in> set (db_grants d)"
  shows "\<exists>g' \<in> set (db_grants d'). grant_le w t g g'"
proof -
  have upd: "\<exists>g' \<in> set (upd_where P f (db_grants d)). grant_le w t g g'"
    if "\<And>q. grant_le w t q (f q)" for P f
    using mem_upd [OF assms(2), of P f] that [of g] by (metis grant_updates_le(1))
  from assms(1) show ?thesis
    by cases (use assms(2) in \<open>auto simp: minted_def upd intro!: bexI [of _ g]\<close>)
qed

lemma read_step:
  assumes "ledger_step w t d d'" "r \<in> set (db_reads d)"
  shows "\<exists>r' \<in> set (db_reads d'). read_le w t r r'"
  using assms(1)
proof cases
  case (L_unpin P)
  have "read_le w t r (if P r then unpin r else r)"
    using L_unpin(2) [of r] by (auto simp: read_le_def unpin_def read_key_def)
  then show ?thesis
    unfolding L_unpin(1) using mem_upd [OF assms(2), of P unpin] by (rule bexI)
qed (use assms(2) in \<open>auto simp: minted_def read_le_def\<close>)

interpretation requests_evolve: evolving_table db_requests req_le
proof
  show "req_le w t r r'' " if "req_le w t' r r'" "t' \<le> t" "req_le w t r' r''" for w t t' r r' r''
    using that by (auto simp: req_le_def)
  show "req_le w t r r" for w t r
    by (simp add: req_le_def)
qed (rule req_step)

interpretation grants_evolve: evolving_table db_grants grant_le
proof
  show "grant_le w t r r'' " if "grant_le w t' r r'" "t' \<le> t" "grant_le w t r' r''" for w t t' r r' r''
    using that by (auto simp: grant_le_def)
qed (auto intro: grant_step)

interpretation reads_evolve: evolving_table db_reads read_le
proof
  show "read_le w t r r'' " if "read_le w t' r r'" "t' \<le> t" "read_le w t r' r''" for w t t' r r' r''
    using that by (auto simp: read_le_def)
  show "read_le w t r r" for w t r
    by (simp add: read_le_def)
qed (rule read_step)

lemma ledger_audit_prefix: "ledger_step w t d d' \<Longrightarrow> \<exists>evs. db_audit d' = db_audit d @ evs"
  by (cases rule: ledger_step.cases) (auto simp: quiet_audit_def minted_def)

lemma run_ledger:
  assumes "run w s s'" "ledger_inv (snd s)" "keyed (snd s)" "P (fst s) (snd s)"
    and "\<And>t d t' d'. P t d \<Longrightarrow> t \<le> t' \<Longrightarrow> ledger_inv d \<Longrightarrow> keyed d \<Longrightarrow> ledger_inv d' \<Longrightarrow> keyed d' \<Longrightarrow>
           ledger_step w t' d d' \<Longrightarrow> P t' d'"
  shows "P (fst s') (snd s')"
  using assms(1,2,3,4)
proof (induction rule: run.induct)
  case (run_step s t d t' d')
  have inv: "ledger_inv d" "keyed d"
    using run_inv [OF run_step.hyps(1)] run_step.prems by auto
  moreover from this have "ledger_inv d'" "keyed d'"
    using ledger_inv_step store_step_keyed run_step.hyps by (auto simp: ledger_inv_def)
  moreover have "ledger_step w t' d d'"
    using run_step.hyps inv by (intro store_step_ledger) (auto simp: ledger_inv_def)
  ultimately show ?case
    using run_step assms(5) by auto
qed simp

lemma run_audit_prefix:
  assumes "run w (t, d) (t', d')" "ledger_inv d" "keyed d"
  shows "\<exists>evs. db_audit d' = db_audit d @ evs"
  using run_ledger [OF assms(1), of "\<lambda>_ x. \<exists>evs. db_audit x = db_audit d @ evs"] assms(2,3)
  by (fastforce dest: ledger_audit_prefix)

section \<open>Grants and the secrets behind them\<close>

lemma ledger_idents:
  assumes "ledger_step w t d d'" "(sid, nm) \<in> idents d" "(sid, nm) \<notin> idents d'"
    "g \<in> set (db_grants d)" "backed_by t nm g"
  shows "\<exists>g' \<in> set (db_grants d'). gr_id g' = gr_id g \<and> gr_revoked g'"
  using assms(1)
proof cases
  case (L_revoke P)
  have "P g"
    using L_revoke(5) [of sid nm g] assms by blast
  then show ?thesis
    unfolding L_revoke(1) using mem_upd [OF assms(4), of P set_revoked] by (intro bexI [of _ "set_revoked g"]) simp_all
qed (use assms(2,3) in \<open>auto simp: minted_def\<close>)

lemma same_grant:
  "ledger_inv d \<Longrightarrow> g \<in> set (db_grants d) \<Longrightarrow> g' \<in> set (db_grants d) \<Longrightarrow> gr_id g = gr_id g' \<Longrightarrow> g = g'"
  by (auto simp: ledger_inv_def grants_inv_def dest: distinct_map_same)

lemma ledger_backing:
  assumes st: "ledger_step w t d d'" and inv: "ledger_inv d'"
    and g: "g \<in> set (db_grants d)" "\<not> gr_passthrough_ephemeral g" "(sid, gr_secret_name g) \<in> idents d"
    and g': "g' \<in> set (db_grants d')" "gr_id g' = gr_id g" "live_grant t g'"
  shows "(sid, gr_secret_name g) \<in> idents d'"
proof (rule ccontr)
  assume no: "(sid, gr_secret_name g) \<notin> idents d'"
  obtain q where q: "q \<in> set (db_grants d')" "grant_le w t g q"
    using grant_step [OF st g(1)] by auto
  then have "q = g'"
    using same_grant [OF inv q(1) g'(1)] g'(2) by (simp add: grant_le_def)
  with q g' have "backed_by t (gr_secret_name g) g"
    using g by (auto simp: backed_by_def live_grant_def grant_le_def)
  from ledger_idents [OF st g(3) no g(1) this] obtain x
    where x: "x \<in> set (db_grants d')" "gr_id x = gr_id g" "gr_revoked x" by blast
  have "x = g'"
    by (rule same_grant [OF inv x(1) g'(1)]) (simp add: x g')
  with x g' show False by (simp add: live_grant_def)
qed

lemma ledger_new_grant:
  assumes "ledger_step w t d d'" "g' \<in> set (db_grants d')" "gr_id g' \<notin> gr_id ` set (db_grants d)"
    "\<not> gr_passthrough_ephemeral g'"
  shows "\<exists>sid. (sid, gr_secret_name g') \<in> idents d'"
proof -
  have old: "gr_id ` set (db_grants d') \<noteq> gr_id ` set (db_grants d)"
    using assms(2,3) by blast
  from assms(1) show ?thesis
  proof cases
    case (L_use gid g key version p kind target)
    with old show ?thesis using gr_id_image_upd [OF L_use(5)] by simp
  next
    case (L_revoke P)
    with old show ?thesis using gr_id_image_upd [OF L_revoke(1)] by simp
  next
    case (L_purge P)
    with old show ?thesis using gr_id_image_upd [OF L_purge(1)] by simp
  qed (use assms in \<open>auto simp: minted_def\<close>)
qed

text \<open>A live grant without a payload of its own still has the secret it had before.\<close>

lemma run_incarnation:
  assumes run: "run w (t, d) (t', d')" and inv: "ledger_inv d" "keyed d"
    and g: "g \<in> set (db_grants d)" "\<not> gr_passthrough_ephemeral g" "(sid, gr_secret_name g) \<in> idents d"
    and g': "g' \<in> set (db_grants d')" "gr_id g' = gr_id g" "live_grant t' g'"
  shows "(sid, gr_secret_name g) \<in> idents d'"
proof -
  define P where "P t d \<longleftrightarrow> (\<exists>q \<in> set (db_grants d). gr_id q = gr_id g \<and> gr_secret_name q = gr_secret_name g
      \<and> \<not> gr_passthrough_ephemeral q \<and> (live_grant t q \<longrightarrow> (sid, gr_secret_name g) \<in> idents d))" for t d
  have "P t' d'"
  proof (rule run_ledger [OF run, of P, simplified, OF inv])
    show "P t d"
      using g by (auto simp: P_def)
  next
    fix t d t' d'
    assume "P t d" "t \<le> t'" and inv: "ledger_inv d'" and st: "ledger_step w t' d d'"
    then obtain q where q: "q \<in> set (db_grants d)" "gr_id q = gr_id g" "gr_secret_name q = gr_secret_name g"
        "\<not> gr_passthrough_ephemeral q" "live_grant t q \<longrightarrow> (sid, gr_secret_name g) \<in> idents d"
      by (auto simp: P_def)
    obtain q' where q': "q' \<in> set (db_grants d')" "grant_le w t' q q'"
      using grant_step [OF st q(1)] by auto
    have "(sid, gr_secret_name g) \<in> idents d'" if "live_grant t' q'"
    proof -
      have "live_grant t q"
        using that q'(2) \<open>t \<le> t'\<close> by (auto simp: live_grant_def grant_le_def)
      then show ?thesis
        using ledger_backing [OF st inv q(1) q(4), of sid q'] q q' that by (simp add: grant_le_def)
    qed
    with q q' show "P t' d'"
      by (auto simp: P_def grant_le_def intro!: bexI [of _ q'])
  qed
  then obtain q where q: "q \<in> set (db_grants d')" "gr_id q = gr_id g"
      "live_grant t' q \<longrightarrow> (sid, gr_secret_name g) \<in> idents d'"
    by (auto simp: P_def)
  have "ledger_inv d'"
    using run_inv [OF run] inv by simp
  then have "q = g'"
    using q g' by (intro same_grant) simp_all
  with q g'(3) show ?thesis by simp
qed

definition backed_inv :: "time \<Rightarrow> db \<Rightarrow> bool" where
  "backed_inv t d \<longleftrightarrow> (\<forall>g \<in> set (db_grants d). live_grant t g \<longrightarrow> \<not> gr_passthrough_ephemeral g \<longrightarrow>
      (\<exists>sid. (sid, gr_secret_name g) \<in> idents d))"

lemma ledger_backed_inv:
  assumes "backed_inv t d" "t \<le> t'" "ledger_inv d'" "ledger_step w t' d d'"
  shows "backed_inv t' d'"
  unfolding backed_inv_def
proof (intro ballI impI)
  fix g'
  assume g': "g' \<in> set (db_grants d')" "live_grant t' g'" "\<not> gr_passthrough_ephemeral g'"
  show "\<exists>sid. (sid, gr_secret_name g') \<in> idents d'"
  proof (cases "gr_id g' \<in> gr_id ` set (db_grants d)")
    case True
    then obtain g where g: "g \<in> set (db_grants d)" "gr_id g' = gr_id g" by auto
    obtain q where q: "q \<in> set (db_grants d')" "grant_le w t' g q"
      using grant_step [OF assms(4) g(1)] by auto
    have "q = g'"
      using same_grant [OF assms(3) q(1) g'(1)] q(2) g(2) by (simp add: grant_le_def)
    with q(2) g' assms(2) have old: "live_grant t g" "\<not> gr_passthrough_ephemeral g"
        "gr_secret_name g = gr_secret_name g'"
      by (auto simp: grant_le_def live_grant_def)
    with assms(1) g obtain sid where "(sid, gr_secret_name g) \<in> idents d"
      by (auto simp: backed_inv_def)
    from ledger_backing [OF assms(4,3) g(1) old(2) this g'(1) g(2) g'(2)] show ?thesis
      using old(3) by auto
  next
    case False
    from ledger_new_grant [OF assms(4) g'(1) False g'(3)] show ?thesis .
  qed
qed

lemma reach_backed:
  assumes "reach w (t, d)"
  shows "backed_inv t d"
proof -
  obtain t0 where run: "run w (t0, empty_db) (t, d)"
    using assms by (auto simp: reach_def)
  show ?thesis
  proof (rule run_ledger [OF run, of backed_inv, simplified, OF ledger_inv_empty])
    show "backed_inv t0 empty_db"
      by (simp add: backed_inv_def empty_db_def)
  qed (rule ledger_backed_inv)
qed

end
