(* ===== verification/Api_System.thy ===== *)
theory Api_System
  imports Proxy Api_Secrets Ledger
begin

text \<open>
  The endpoints over the store: what the handlers of \<open>server/src/api\<close>, the proxy and the sweeper do
  to the database is a sequence of the transactions of \<open>System\<close>, so everything proved of executions
  holds between and after them.  The second part relates two calls of the same client: retries of
  a request and of a read.
\<close>

section \<open>Endpoints are sequences of transactions\<close>

text \<open>Transactions of one moment of the database clock.\<close>

definition transacts :: "int \<Rightarrow> time \<Rightarrow> db \<Rightarrow> db \<Rightarrow> bool" where
  "transacts w now d d' \<longleftrightarrow> run w (now, d) (now, d')"

lemma transacts_refl [simp]: "transacts w now d d"
  by (simp add: transacts_def run_refl)

lemma transacts_step: "transacts w now d d1 \<Longrightarrow> store_step w now d1 d' \<Longrightarrow> transacts w now d d'"
  by (auto simp: transacts_def intro: run_step)

lemma transacts_one: "store_step w now d d' \<Longrightarrow> transacts w now d d'"
  by (rule transacts_step [OF transacts_refl])

lemma run_trans: "run w s2 s3 \<Longrightarrow> run w s1 s2 \<Longrightarrow> run w s1 s3"
  by (induction rule: run.induct) (auto intro: run_step)

lemma transacts_trans: "transacts w now d d1 \<Longrightarrow> transacts w now d1 d' \<Longrightarrow> transacts w now d d'"
  by (auto simp: transacts_def intro: run_trans)

lemma transacts_completed:
  "transacts w now d d1 \<Longrightarrow> ae_kind e \<in> {RELEASE_COMPLETED, PROXY_COMPLETED} \<Longrightarrow> transacts w now d (insert_audit now e d1)"
  by (rule transacts_step, assumption, rule S_completed [of "ae_kind e"]) auto

lemma create_push_transacts:
  assumes "create_push clock now real sent dcs row d = Inr d'"
  shows "transacts w now d d'"
  using assms
  by (auto simp: create_push_def create_fyi_push_def create_approval_push_def
      split: if_splits decision.splits sum.splits prod.splits
      intro: transacts_one transacts_step S_claim S_claim_fyi S_delivered)

lemma create_transacts:
  assumes "create env app call header body d0 d = (r, d')"
  shows "transacts w (ccl_now call) d d'"
  using assms
  by (auto simp: create_def Let_def
      split: sum.splits option.splits prod.splits insert_outcome.splits
      intro: transacts_one transacts_trans S_create create_push_transacts)

lemma read_transacts:
  assumes "read env app call header raw body d0 d = (r, d')"
  shows "transacts (lim_replay_window_seconds (app_limits app)) (rcl_now call) d d'"
proof -
  have u: "use_kind RELEASE_ATTEMPT"
    by (simp add: use_kind_def)
  have "ae_kind (release_completed g vid) \<in> {RELEASE_COMPLETED, PROXY_COMPLETED}" for g vid
    by (simp add: release_completed_def)
  note completed = transacts_completed [OF _ this]
  show ?thesis
    using assms u
    by (auto simp: read_def split: sum.splits option.splits prod.splits if_splits
        intro: transacts_one S_use completed)
qed

lemma handle_transacts:
  assumes "handle env px app call header rq d0 d streams = (r, out, d', streams')"
  shows "transacts (lim_replay_window_seconds (app_limits app)) (pcl_now call) d d'"
  using assms
proof (cases rule: handle_cases)
  case (Used gid client g secret p g1 d1 streams1)
  have u: "use_kind PROXY_ATTEMPT"
    by (simp add: use_kind_def)
  have d1: "transacts (lim_replay_window_seconds (app_limits app)) (pcl_now call) d d1"
    by (rule transacts_one, rule S_use [OF Used(5) u])
  from Used(6) show ?thesis
  proof (cases rule: proxy_forward_cases)
    case (Answered o' code hs chunks)
    have "ae_kind (proxy_completed g p code) \<in> {RELEASE_COMPLETED, PROXY_COMPLETED}"
      by (simp add: proxy_completed_def)
    with Answered(6) d1 transacts_completed show ?thesis by blast
  qed (use d1 in simp)
qed simp

lemma store_secret_transacts:
  assumes "store_secret env app call header body d0 d = (r, d')"
  shows "transacts w (scl_now call) d d'"
  using assms
  by (auto simp: store_secret_def store_inner_def
      split: sum.splits option.splits prod.splits deposit_outcome.splits intro: transacts_one S_deposit)

lemma push_rows_transacts: "transacts w now d (push_rows clock now sends budget rs d)"
proof (induction clock now sends budget rs d rule: push_rows.induct)
  case (3 clock now sends budget r rs d)
  have one: "transacts w now d d1" if "push_one clock now b r d = Inr (x, d1)" for b x d1
    using that by (auto simp: push_one_def split: if_splits option.splits sum.splits prod.splits bool.splits
        intro: transacts_one transacts_step S_claim S_delivered)
  have fyi: "transacts w now d d1" if "push_one_fyi now b r d = Inr (x, d1)" for b x d1
    using that by (auto simp: push_one_fyi_def split: if_splits option.splits sum.splits prod.splits bool.splits
        intro: transacts_one transacts_step S_claim_fyi S_delivered)
  let ?res = "if ar_notify_only r then push_one_fyi now (sends (ar_id r)) r d else push_one clock now (sends (ar_id r)) r d"
  show ?case
  proof (cases ?res)
    case (Inl e)
    with "3.IH"(1) [OF Inl] show ?thesis by simp
  next
    case (Inr x)
    obtain a d1 where x: "x = (a, d1)" by fastforce
    have "transacts w now d d1"
      using Inr one fyi by (auto simp: x split: if_splits)
    then show ?thesis
      using "3.IH"(2) [OF Inr x [symmetric]] Inr by (simp add: x transacts_trans)
  qed
qed simp_all

lemma sweep_transacts: "transacts w now d (sweep_once clock now w is_real sends budget d)"
proof -
  have e: "transacts w now d (expire_phase now d)" for d
    by (auto simp: expire_phase_def intro!: transacts_one S_expire [of _ _ "fst (expire_stale now d)"])
  have a: "transacts w now d (snd (sweep_purge_passthroughs now w d))"
    "transacts w now d (snd (purge_request_context now ret d))"
    "transacts w now d (snd (unpin_stale_grant_reads now w d))" for d ret
    by (rule transacts_one, rule S_sweep [OF prod.collapse [symmetric]],
        rule transacts_one, rule S_purge_context [OF prod.collapse [symmetric]],
        rule transacts_one, rule S_unpin [OF prod.collapse [symmetric]])
  have p: "transacts w now d (purge_phase now w d)" for d
    unfolding purge_phase_def by (rule transacts_trans [OF transacts_trans [OF a(1) a(2)] a(3)])
  have q: "transacts w now d (purge_phase now w (expire_phase now d))"
    by (rule transacts_trans [OF e p])
  show ?thesis
    unfolding sweep_once_def push_phase_def
    using q transacts_trans [OF q push_rows_transacts] by simp
qed

section \<open>Reachable databases\<close>

text \<open>The clock may advance while no transaction changes anything.\<close>

lemma idle_step: "store_step w now d d"
  by (rule S_deposit [of now _ _ _ "\<lparr>dr_max_per_window = 0, dr_window_hours = 1\<rparr>" d RateLimited])
    (simp add: create_secret_from_client_def)

lemma run_wait: "t \<le> t' \<Longrightarrow> run w (t, d) (t', d)"
  by (rule run_step [OF run_refl _ idle_step])

lemma run_transacts: "t \<le> now \<Longrightarrow> transacts w now d d' \<Longrightarrow> run w (t, d) (now, d')"
  using run_trans [OF _ run_wait] by (simp add: transacts_def)

lemma reach_run: "reach w s \<Longrightarrow> run w s s' \<Longrightarrow> reach w s'"
  by (auto simp: reach_def intro: run_trans)

lemmas endpoint_transacts = create_transacts read_transacts handle_transacts store_secret_transacts sweep_transacts

section \<open>Retries of a request\<close>

text \<open>The row a 201 leaves behind.\<close>

lemma created_row:
  assumes "create env app call header body d0 d = (Inr (201, st), d')"
  obtains raw client req row d1 where "body = Inr raw" "authenticate_client env app header d0 = Inr client"
    "env_parse_create env raw = Some req" "store_step w (ccl_now call) d d1" "transacts w (ccl_now call) d1 d'"
    "row \<in> set (db_requests d1)" "ar_id row = st_request_id st"
    "req_key row = (cl_name client, cr_idempotency_key req)" "ar_idem_mac row = request_mac env app (cl_name client) req"
    "cr_idempotency_key req \<noteq> []" "length (cr_idempotency_key req) \<le> MAX_IDEM_KEY_BYTES"
  using assms
proof (cases rule: create_Inr)
  case (New raw client req new_row res cap ev ctx row gid d1)
  have "store_step w (ccl_now call) d d1"
    by (rule S_create [OF New(6)])
  moreover have "nr_idem_client new_row = cl_name client" "nr_idem_key new_row = cr_idempotency_key req"
    "nr_idem_mac new_row = request_mac env app (cl_name client) req"
    using New(5) by (auto elim!: create_decide_Inr)
  moreover have "row \<in> set (db_requests d1) \<and> ar_idem_client row = nr_idem_client new_row
      \<and> ar_idem_key row = nr_idem_key new_row \<and> ar_idem_mac row = nr_idem_mac new_row"
    using New(6) by (cases rule: insert_access_request_with_id_cases)
      (auto simp: insert_row_Inr insert_audit_def new_request_row_def set_denied_def set_approved_def)
  moreover have "ar_id row = st_request_id st"
    using New(8) by (auto simp: created_response_def split: decision.splits option.splits)
  moreover have "validate_idempotency_key req = Inr ()"
    using assms New(1-3) by (auto simp: create_def body_bytes_def split: sum.splits)
  ultimately show thesis
    using that [of raw client req d1 row] New(1-3) create_push_transacts [OF New(7)]
    by (auto simp: req_key_def validate_idempotency_key_def split: if_splits)
qed simp

lemma state_known: "ledger_inv d \<Longrightarrow> r \<in> set (db_requests d) \<Longrightarrow> \<exists>s. state_from_str_opt (ar_state r) = Some s"
proof -
  assume "ledger_inv d" "r \<in> set (db_requests d)"
  then have "ar_state r \<in> valid_states"
    by (auto simp: ledger_inv_def requests_inv_def)
  then show ?thesis
    by (auto simp: valid_states_def state_from_str_opt_def)
qed

lemma row_of_key:
  assumes "ledger_inv d" "keyed d" "r \<in> set (db_requests d)" "run w (t, d) (t', d')"
  obtains r' where "r' \<in> set (db_requests d')" "req_le w t' r r'" "ledger_inv d'"
    "get_request_by_idem (ar_idem_client r) (ar_idem_key r) d' = Some r'"
proof -
  obtain r' where r': "r' \<in> set (db_requests d')" "req_le w t' r r'"
    using requests_evolve.run_evolves [OF assms(4), of r] assms(1-3) by auto
  have inv: "ledger_inv d'"
    using run_inv [OF assms(4)] assms(1,2) by simp
  have "find (\<lambda>q. req_key q = req_key r') (db_requests d') = Some r'"
    by (rule find_key_unique) (use inv r'(1) in \<open>simp_all add: ledger_inv_def requests_inv_def\<close>)
  moreover have "req_key r' = (ar_idem_client r, ar_idem_key r)"
    using r'(2) by (simp add: req_le_def req_key_def)
  ultimately have "get_request_by_idem (ar_idem_client r) (ar_idem_key r) d' = Some r'"
    by (simp add: get_request_by_idem_def req_key_def)
  with that r' inv show thesis by blast
qed

text \<open>C20: a retried request is answered with the first one's row, whatever happened in between.
  After a 201, any later call of the same client with the same idempotency key, at any later reachable
  database, changes nothing.  If its payload has the same MAC it is answered 200 with the id of the
  first request; otherwise it is refused as a reuse of the key.\<close>

theorem create_idempotent:
  assumes "reach w (t, d)" "t \<le> ccl_now call"
    and first: "create env app call header (Inr raw) d0 d = (Inr (201, st), d1)"
    and "authenticate_client env app header d0 = Inr client" "env_parse_create env raw = Some req"
    and later: "run w (ccl_now call, d1) (t', d2)"
    and again: "authenticate_client env app header' d2 = Inr client'" "cl_name client' = cl_name client"
      "env_parse_create env raw' = Some req'" "cr_idempotency_key req' = cr_idempotency_key req"
  shows "\<exists>st'. st_request_id st' = st_request_id st
    \<and> create env app call' header' (Inr raw') d2 d3 =
        (if request_mac env app (cl_name client) req' = request_mac env app (cl_name client) req
         then Inr (200, st') else Inl IdempotencyKeyReuse, d3)"
  using first
proof (rule created_row [of _ _ _ _ _ _ _ _ _ w])
  fix raw0 client0 req0 row dm
  assume row: "Inr raw = Inr raw0" "authenticate_client env app header d0 = Inr client0" "env_parse_create env raw0 = Some req0"
    "store_step w (ccl_now call) d dm" "transacts w (ccl_now call) dm d1" "row \<in> set (db_requests dm)"
    "ar_id row = st_request_id st" "req_key row = (cl_name client0, cr_idempotency_key req0)"
    "ar_idem_mac row = request_mac env app (cl_name client0) req0"
    "cr_idempotency_key req0 \<noteq> []" "length (cr_idempotency_key req0) \<le> MAX_IDEM_KEY_BYTES"
  have same: "client0 = client" "req0 = req"
    using row(1-3) assms(4,5) by auto
  have "run w (t, d) (ccl_now call, dm)"
    by (rule run_transacts [OF assms(2) transacts_one [OF row(4)]])
  then have inv: "ledger_inv dm" "keyed dm"
    using reach_inv [OF reach_run [OF assms(1)]] by auto
  have "run w (ccl_now call, dm) (t', d2)"
    using run_trans [OF later] row(5) by (simp add: transacts_def)
  from row_of_key [OF inv row(6) this] obtain r' where r': "r' \<in> set (db_requests d2)" "req_le w t' row r'"
      "ledger_inv d2" "get_request_by_idem (cl_name client) (cr_idempotency_key req) d2 = Some r'"
    using row(8) by (auto simp: req_key_def same)
  obtain s where s: "state_from_str_opt (ar_state r') = Some s"
    using state_known [OF r'(3,1)] by blast
  have mac: "ar_idem_mac r' = request_mac env app (cl_name client) req" "ar_id r' = st_request_id st"
    using r'(2) row(7,9) by (auto simp: req_le_def same)
  have key: "validate_idempotency_key req' = Inr ()"
    using row(10,11) again(4) by (simp add: validate_idempotency_key_def same)
  obtain st' where st': "status_from_row r' d2 = Inr st'" "st_request_id st' = st_request_id st"
    using s mac(2) by (simp add: status_from_row_def Let_def)
  have "create env app call' header' (Inr raw') d2 d3 = (retry_response (request_mac env app (cl_name client) req') r' d2, d3)"
    using again key r'(4) by (simp add: create_def body_bytes_def Let_def)
  with st' mac(1) show ?thesis
    by (auto simp: retry_response_def ct_eq_def)
qed

section \<open>Replays of a read\<close>

text \<open>The version a read row stands for.\<close>

definition read_row_version :: "grant_read_row \<Rightarrow> uuid option" where
  "read_row_version q = (if rd_passthrough q then Some (rd_grant_id q) else rd_secret_version_id q)"

lemma use_payload_replay:
  assumes "use_payload env app source vid0 (Replay g (rd_secret_version_id q) (rd_passthrough q)) d = Inr (pt, vid, g')"
    and "gr_id g = rd_grant_id q"
  shows "read_row_version q = Some vid"
  using assms
  by (auto simp: use_payload_def read_row_version_def map_sum_eq_Inr split: if_splits option.splits)

lemma read_leaves_row:
  assumes reach: "reach w (t0, d0)" and run: "run w (t0, d0) (t, d)"
    and read: "read env app call header raw (Inr bs) d0 d = (Inr resp, d1)"
    and gid: "path_id env raw = Inr gid" and key: "env_parse_read env bs = Some key"
  obtains q where "q \<in> set (db_reads d1)" "read_key q = (gid, key)" "read_row_version q = Some (rr_secret_version_id resp)"
  using read
proof (cases rule: read_Inr)
  case (1 bs' client gid' key' g0 m secret source vid0 outcome dm plaintext vid gu)
  have same: "gid' = gid" "key' = key"
    using 1(1,3,4) gid key by auto
  have vid: "rr_secret_version_id resp = vid" and frame: "db_reads d1 = db_reads dm"
    by (auto simp: 1(14,15) read_response_def insert_audit_def)
  have inv: "ledger_inv d0" "keyed d0" "ledger_inv d"
    using reach_inv [OF reach] reach_inv [OF reach_run [OF reach run]] by auto
  then have ids: "distinct (map gr_id (db_grants d))"
    by (simp add: ledger_inv_def grants_inv_def)
  from ids 1(12) show thesis
  proof (cases rule: begin_grant_use_cases)
    case Nothing
    with 1(13) show thesis by (auto simp: use_payload_def)
  next
    case (Again g k q)
    have q: "q \<in> set (db_reads d)" "read_key q = (gid, key)"
      using Again(3,4) by (auto simp: find_read_def read_key_def same dest: find_Some_mem)
    have "read_row_version q = Some vid"
      using use_payload_replay [of env app source vid0 g q dm plaintext vid gu] 1(13) Again(6) get_grant_id [OF Again(1)] q(2)
      by (simp add: same read_key_def)
    with q that [of q] show thesis
      by (simp add: frame vid Again(7) insert_audit_def)
  next
    case (First g)
    have g0: "g0 \<in> set (db_grants d0)" "gr_id g0 = gid"
      using owned_grant_Inr [OF 1(7)] by (auto simp: get_grant_def same dest: find_Some_mem)
    obtain g' where g': "g' \<in> set (db_grants d)" "grant_le w t g0 g'"
      using grants_evolve.run_evolves [OF run, of g0] inv g0 by auto
    have "g \<in> set (db_grants d)" "gr_id g = gid"
      using First(1) by (auto simp: get_grant_def same dest: find_Some_mem)
    with g' g0 have "g' = g"
      using same_grant [OF inv(3)] by (simp add: grant_le_def)
    with g' have le: "grant_le w t g0 g" by simp
    let ?q = "\<lparr>rd_grant_id = gid, rd_idem_key = key, rd_secret_version_id = Some vid0,
      rd_passthrough = (gr_passthrough_ciphertext g \<noteq> None), rd_first_read_at = rcl_now call\<rparr>"
    have "?q \<in> set (db_reads d1)"
      using First(8) by (simp add: frame same)
    moreover have "read_row_version ?q = Some vid"
      using 1(11,13) First(6) le g0(2)
      by (auto simp: read_row_version_def payload_source_def use_payload_def open_passthrough_def grant_le_def map_sum_eq_Inr
          split: if_splits option.splits)
    ultimately show thesis
      using that [of ?q] by (simp add: vid read_key_def)
  qed
qed

text \<open>a retried read returns the same version and costs nothing.  After a successful read, a later
  successful read of the same grant under the same key, whatever happened in between (rotations of
  the secret included), names the same version, and no use of any grant is spent on it.\<close>

theorem read_retry_same_version:
  assumes reach: "reach w (t0, d0)" "run w (t0, d0) (t, d)" "t \<le> rcl_now call" "w = lim_replay_window_seconds (app_limits app)"
    and first: "read env app call header raw (Inr bs) d0 d = (Inr resp, d1)" "path_id env raw = Inr gid" "env_parse_read env bs = Some key"
    and later: "run w (rcl_now call, d1) (t', d2)" "t' \<le> rcl_now call'"
    and again: "read env app call' header' raw' (Inr bs') d0' d2 = (Inr resp', d3)" "path_id env raw' = Inr gid" "env_parse_read env bs' = Some key"
  shows "rr_secret_version_id resp' = rr_secret_version_id resp \<and> db_grants d3 = db_grants d2"
proof -
  obtain q where q: "q \<in> set (db_reads d1)" "read_key q = (gid, key)" "read_row_version q = Some (rr_secret_version_id resp)"
    by (rule read_leaves_row [OF reach(1,2) first])
  have "run w (t, d) (rcl_now call, d1)"
    using run_transacts [OF reach(3)] read_transacts [OF first(1)] reach(4) by simp
  then have r1: "reach w (rcl_now call, d1)"
    by (rule reach_run [OF reach_run [OF reach(1,2)]])
  have inv1: "ledger_inv d1" "keyed d1" and inv2: "ledger_inv d2"
    using reach_inv [OF r1] reach_inv [OF reach_run [OF r1 later(1)]] by auto
  obtain q' where q': "q' \<in> set (db_reads d2)" "read_le w t' q q'"
    using reads_evolve.run_evolves [OF later(1), of q] inv1 q(1) by auto
  have found: "find_read gid key d2 = Some q'"
    using find_key_unique [of read_key "db_reads d2" q'] inv2 q'(1,2) q(2)
    by (simp add: ledger_inv_def reads_inv_def find_read_key read_le_def read_key_def)
  from again(1) show ?thesis
  proof (cases rule: read_Inr)
    case (1 bs'' client gid' key' g0 m secret source vid0 outcome dm plaintext vid gu)
    have same: "gid' = gid" "key' = key"
      using 1(1,3,4) again by auto
    have vid: "rr_secret_version_id resp' = vid" and frame: "db_grants d3 = db_grants dm"
      by (auto simp: 1(14,15) read_response_def insert_audit_def)
    have "distinct (map gr_id (db_grants d2))"
      using inv2 by (simp add: ledger_inv_def grants_inv_def)
    from this 1(12) show ?thesis
    proof (cases rule: begin_grant_use_cases)
      case Nothing
      with 1(13) show ?thesis by (auto simp: use_payload_def)
    next
      case (Again g k p)
      have p: "p = q'"
        using Again(3,4) found same by simp
      have "rd_secret_version_id q' = rd_secret_version_id q"
        using q'(2) Again(5) later(2) by (auto simp: read_le_def p in_window_def reach(4))
      then have "read_row_version q' = read_row_version q"
        using q'(2) by (simp add: read_row_version_def read_le_def read_key_def)
      moreover have "read_row_version q' = Some vid"
        using use_payload_replay [of env app source vid0 g q' dm plaintext vid gu] 1(13) Again(6) get_grant_id [OF Again(1)]
          q(2) q'(2) by (simp add: same p read_key_def read_le_def)
      ultimately show ?thesis
        using q(3) Again(7) by (simp add: vid frame insert_audit_def)
    next
      case (First g)
      with found same show ?thesis by simp
    qed
  qed
qed

section \<open>A session\<close>

text \<open>One client, one stored secret and two policies; the client asks for a brokered grant and for a
  release, both granted by policy.\<close>

definition ex_client_config :: client_config where
  "ex_client_config = \<lparr>cc_name = ''fa'', cc_max_tier = Tier_TrustedClient, cc_mechanisms = [Mech_Brokered, Mech_Autofill],
     cc_auth = \<lparr>ca_api_token_sha256 = Some ''abc'', ca_service_account = None\<rparr>, cc_may_store_secrets = False\<rparr>"

definition ex_secret_params :: store_secret_params where
  "ex_secret_params = \<lparr>sp_secret_id = 7, sp_name = ''tok'', sp_description = [], sp_max_tier = 1,
     sp_injection_kind = ''bearer'', sp_injection_header = None, sp_injection_username = None, sp_seal = Some ex_sealed\<rparr>"

definition ex_fill_policy :: new_policy where
  "ex_fill_policy = \<lparr>np_client_name = Some ''fa'', np_secret_name = None, np_secret_tag = None,
     np_mechanism = ''autofill'', np_outcome = ''auto-approve'', np_priority = 0, np_origins = Parsed [],
     np_methods = [], np_path_prefixes = [], np_max_ttl_seconds = None, np_max_uses = None,
     np_not_after = None, np_created_by = ''op''\<rparr>"

definition ex_fill :: create_access_request where
  "ex_fill = \<lparr>cr_idempotency_key = ''job-2'', cr_secret_name = ''tok'', cr_mechanism = Mech_Autofill,
     cr_constraints = \<lparr>c_origins = [], c_methods = [], c_path_prefixes = [], c_ttl_seconds = 600, c_max_uses = Some 1\<rparr>,
     cr_context = \<lparr>cx_reason = [], cx_structured = None\<rparr>\<rparr>"

definition ex_session_env :: api_env where
  "ex_session_env = ex_env\<lparr>env_parse_create := (\<lambda>b. if b = ''fill'' then Some ex_fill
     else if b = ''fill2'' then Some (ex_fill\<lparr>cr_secret_name := ''other''\<rparr>) else None)\<rparr>"

definition ex_s1 :: db where
  "ex_s1 = projr (reconcile_clients [(5, ex_client_config)] empty_db)"

definition ex_s2 :: db where
  "ex_s2 = snd (projr (create_secret_with_version 1 30 ex_secret_params ''op'' ex_s1))"

definition ex_s3 :: db where
  "ex_s3 = snd (projr (insert_policy 2 8 ex_fill_policy ex_s2))"

abbreviation ex_first :: "(api_failure + (nat \<times> access_request_status)) \<times> db" where
  "ex_first \<equiv> create ex_session_env ex_app ex_call ex_header (Inr ''fill'') ex_s3 ex_s3"

text \<open>The values of the states.\<close>

definition ex_fill_row :: access_request_row where
  "ex_fill_row = \<lparr>ar_id = 10, ar_client_name = ''fa'', ar_secret_name = ''tok'', ar_mechanism = ''autofill'',
     ar_constraints = Parsed (cr_constraints ex_fill), ar_context_ciphertext = None, ar_context_nonce = None,
     ar_context_wrapped_dek = None, ar_context_kek_id = None, ar_state = ''approved'', ar_policy_not_after = None,
     ar_deny_reason = None, ar_resolved_by = Some ''policy:auto'', ar_created_at = 1000001,
     ar_resolved_at = Some 1000001, ar_expires_at = 901000000, ar_push_delivered_at = None, ar_push_attempts = 0,
     ar_notify_only = False, ar_idem_client = ''fa'', ar_idem_key = ''job-2'',
     ar_idem_mac = request_mac ex_session_env ex_app ''fa'' ex_fill\<rparr>"

lemma ex_s1_eval [code]: "ex_s1 = empty_db\<lparr>db_clients := [ex_client_row]\<rparr>"
  by code_simp

lemma ex_s2_eval [code]:
  "ex_s2 = empty_db\<lparr>db_clients := [ex_client_row],
     db_secrets := [ex_secret_row\<lparr>sec_id := 7, sec_created_at := 1, sec_updated_at := 1\<rparr>],
     db_versions := [ex_version_row\<lparr>ver_created_at := 1\<rparr>],
     db_audit := [(1, audit_default\<lparr>ae_kind := SECRET_CREATED, ae_secret_name := Some ''tok'', ae_actor := Some ''op''\<rparr>)]\<rparr>"
  by code_simp

lemma ex_s3_eval [code]:
  "ex_s3 = empty_db\<lparr>db_clients := [ex_client_row],
     db_secrets := [ex_secret_row\<lparr>sec_id := 7, sec_created_at := 1, sec_updated_at := 1\<rparr>],
     db_versions := [ex_version_row\<lparr>ver_created_at := 1\<rparr>],
     db_policies := [new_policy_row 2 8 ex_fill_policy ''op'' False],
     db_audit := [(1, audit_default\<lparr>ae_kind := SECRET_CREATED, ae_secret_name := Some ''tok'', ae_actor := Some ''op''\<rparr>)]\<rparr>"
  by code_simp

definition ex_first_status :: access_request_status where
  "ex_first_status = \<lparr>st_request_id = 10, st_state = Approved, st_grant_id = Some 20, st_deny_reason = None,
     st_expires_at = 901000000, st_granted_secret_name = Some ''tok'', st_auto_approved = True\<rparr>"

definition ex_fill_grant :: grant_row where
  "ex_fill_grant = \<lparr>gr_id = 20, gr_request_id = 10, gr_client_name = ''fa'', gr_secret_name = ''tok'',
     gr_mechanism = ''autofill'', gr_constraints = Parsed (cr_constraints ex_fill), gr_not_after = 601000000,
     gr_max_uses = Some 1, gr_use_count = 0, gr_revoked = False, gr_passthrough_ciphertext = None,
     gr_passthrough_nonce = None, gr_passthrough_wrapped_dek = None, gr_passthrough_ephemeral = False,
     gr_created_at = 1000001\<rparr>"

definition ex_s4 :: db where
  "ex_s4 = ex_s3\<lparr>db_requests := [ex_fill_row], db_grants := [ex_fill_grant],
     db_audit := db_audit ex_s3 @
       [(1000001, audit_default\<lparr>ae_kind := REQUEST_CREATED, ae_request_id := Some 10, ae_client_name := Some ''fa'',
           ae_secret_name := Some ''tok'', ae_detail := Some (JObject [(''mechanism'', JString ''autofill'')])\<rparr>),
        (1000001, audit_default\<lparr>ae_kind := REQUEST_APPROVED, ae_request_id := Some 10, ae_grant_id := Some 20,
           ae_client_name := Some ''fa'', ae_secret_name := Some ''tok'', ae_actor := Some ''policy:auto''\<rparr>)]\<rparr>"

lemma ex_first_ok: "ex_first = (Inr (201, ex_first_status), ex_s4)"
  by code_simp

definition ex_late_call :: read_call where
  "ex_late_call = \<lparr>rcl_check_now = 1000002, rcl_now = 1000003, rcl_audited = True\<rparr>"

definition ex_release :: "(api_failure + read_grant_response) \<times> db" where
  "ex_release = read ex_session_env ex_app ex_late_call ex_header (Some ''20'') (Inr ''k1'') ex_s4 ex_s4"

definition ex_s5 :: db where "ex_s5 = snd ex_release"


lemma ex_release_ok: "ex_release = (Inr ex_read_response, ex_s5)"
proof -
  have "fst ex_release = Inr ex_read_response"
    by code_simp
  then show ?thesis
    by (simp add: prod_eq_iff ex_s5_def)
qed

lemma ex_s3_reach: "reach 60 (2, ex_s3)"
proof -
  have 1: "store_step 60 0 empty_db ex_s1"
  proof (rule S_clients)
    have "\<not> isl (reconcile_clients [(5, ex_client_config)] empty_db)"
      by code_simp
    then show "reconcile_clients [(5, ex_client_config)] empty_db = Inr ex_s1"
      by (simp add: ex_s1_def)
  qed
  have pr: "\<not> isl x \<Longrightarrow> x = Inr (fst (projr x), snd (projr x))" for x :: "store_error + ('a \<times> db)"
    by (cases x) auto
  have 2: "store_step 60 1 ex_s1 ex_s2"
    unfolding ex_s2_def by (rule S_create_version, rule pr) code_simp
  have 3: "store_step 60 2 ex_s2 ex_s3"
    unfolding ex_s3_def by (rule S_insert_policy, rule pr) code_simp
  have "run 60 (0, empty_db) (2, ex_s3)"
    by (rule run_step [OF run_step [OF run_step [OF run_refl _ 1] _ 2] _ 3]) simp_all
  then show ?thesis
    by (auto simp: reach_def)
qed

lemma ex_s4_run: "run 60 (2, ex_s3) (ccl_now ex_call, ex_s4)"
  by (rule run_transacts) (simp add: ex_call_def, rule create_transacts [OF ex_first_ok])

lemma ex_call_clock: "2 \<le> ccl_now ex_call" "ccl_now ex_call \<le> rcl_now ex_late_call"
  "60 = lim_replay_window_seconds (app_limits ex_app)"
  by (simp_all add: ex_call_def ex_late_call_def ex_app_def ex_limits_def)

theorem create_idempotent_witness:
  "\<exists>st'. st_request_id st' = 10
     \<and> create ex_session_env ex_app ex_call ex_header (Inr ''fill'') ex_s4 ex_s4 = (Inr (200, st'), ex_s4)
     \<and> create ex_session_env ex_app ex_call ex_header (Inr ''fill2'') ex_s4 ex_s4 = (Inl IdempotencyKeyReuse, ex_s4)"
proof -
  have a: "authenticate_client ex_session_env ex_app ex_header ex_s3 = Inr ex_client_row"
    "authenticate_client ex_session_env ex_app ex_header ex_s4 = Inr ex_client_row"
    and mac: "request_mac ex_session_env ex_app (cl_name ex_client_row) (ex_fill\<lparr>cr_secret_name := ''other''\<rparr>)
       \<noteq> request_mac ex_session_env ex_app (cl_name ex_client_row) ex_fill"
    by code_simp+
  have p: "env_parse_create ex_session_env ''fill'' = Some ex_fill"
    "env_parse_create ex_session_env ''fill2'' = Some (ex_fill\<lparr>cr_secret_name := ''other''\<rparr>)"
    "cr_idempotency_key (ex_fill\<lparr>cr_secret_name := ''other''\<rparr>) = cr_idempotency_key ex_fill"
    "st_request_id ex_first_status = 10"
    by (simp_all add: ex_session_env_def ex_first_status_def)
  note first = create_idempotent [OF ex_s3_reach ex_call_clock(1) ex_first_ok a(1) p(1) run_refl a(2) refl]
  show ?thesis
    using first [OF p(1) refl, of ex_call ex_s4] first [OF p(2,3), of ex_call ex_s4] mac p(4) by auto
qed

theorem read_retry_same_version_witness:
  "\<exists>resp d'. read ex_session_env ex_app (ex_late_call\<lparr>rcl_now := 1000009\<rparr>) ex_header (Some ''20'') (Inr ''k1'') ex_s5 ex_s5 = (Inr resp, d')
     \<and> rr_secret_version_id resp = 30"
proof -
  let ?again = "read ex_session_env ex_app (ex_late_call\<lparr>rcl_now := 1000009\<rparr>) ex_header (Some ''20'') (Inr ''k1'') ex_s5 ex_s5"
  have "\<not> isl (fst ?again)"
    by code_simp
  then have again: "?again = (Inr (projr (fst ?again)), snd ?again)"
    by (simp add: prod_eq_iff)
  have p: "path_id ex_session_env (Some ''20'') = Inr 20" "env_parse_read ex_session_env ''k1'' = Some ''k1''"
    "rr_secret_version_id ex_read_response = 30"
    by code_simp+
  have late: "rcl_now ex_late_call \<le> rcl_now (ex_late_call\<lparr>rcl_now := 1000009\<rparr>)"
    by (simp add: ex_late_call_def)
  have s4: "reach 60 (ccl_now ex_call, ex_s4)"
    by (rule reach_run [OF ex_s3_reach ex_s4_run])
  from read_retry_same_version [OF s4 run_refl ex_call_clock(2,3) ex_release_ok [unfolded ex_release_def] p(1,2)
      run_refl late again p(1,2)] p(3) again
  show ?thesis by auto
qed

text \<open>whatever the endpoints, the proxy and the sweeper do keeps the database reachable.  From a
  reachable database, and with a clock that does not run backwards, the database after any of these calls is
  reachable by the transactions of the store; so the invariants of executions hold after every call,
  with any answer and any interleaving.\<close>

theorem endpoints_preserve_reach:
  assumes "reach w (t, d)" "w = lim_replay_window_seconds (app_limits app)"
  shows "(t \<le> ccl_now c \<longrightarrow> reach w (ccl_now c, snd (create env app c header body d0 d)))
    \<and> (t \<le> rcl_now rc \<longrightarrow> reach w (rcl_now rc, snd (read env app rc header raw body d0 d)))
    \<and> (t \<le> pcl_now p \<longrightarrow> reach w (pcl_now p, fst (snd (snd (handle env px app p header rq d0 d streams)))))
    \<and> (t \<le> scl_now s \<longrightarrow> reach w (scl_now s, snd (store_secret env app s header body d0 d)))
    \<and> (t \<le> now \<longrightarrow> reach w (now, sweep_once clock now w is_real sends budget d))"
proof -
  have step: "reach w (now, d')" if "t \<le> now" "transacts w now d d'" for now d'
    by (rule reach_run [OF assms(1) run_transacts [OF that]])
  show ?thesis
    using step create_transacts [OF prod.collapse [symmetric]] read_transacts [OF prod.collapse [symmetric]]
      store_secret_transacts [OF prod.collapse [symmetric]] sweep_transacts
      handle_transacts [of env px app p header rq d0 d streams, OF prod_eqI [OF _ prod_eqI [OF _ prod_eqI]]]
    unfolding assms(2) by simp
qed

theorem endpoints_preserve_reach_witness:
  "reach 60 (ccl_now ex_call, snd ex_first) \<and> reach 60 (5, sweep_once 5 5 60 True (\<lambda>_. True) 9 ex_s3)"
  using endpoints_preserve_reach [OF ex_s3_reach ex_call_clock(3)] ex_call_clock(1) by simp

text \<open>nothing leaves the service without an approval on record.  In a reachable database, whenever the
  read endpoint answers with a secret or the proxy sends a request, the grant named in the path belongs to the
  authenticated client, and exactly one request row bears the id of the grant's request; that row is approved.\<close>

theorem releases_trace_to_approval:
  assumes "reach w (t, d0)"
    and "(\<exists>resp d'. read env app rc header raw body d0 d = (Inr resp, d')) \<and> path_id env raw = Inr gid
      \<or> (\<exists>r out d' s'. handle env px app pc header rq d0 d streams = (r, Some out, d', s'))
        \<and> grant_id_from_path env (pq_path rq) = Inr gid"
  shows "\<exists>client g row. authenticate_client env app header d0 = Inr client \<and> cl_enabled client
    \<and> get_grant gid d0 = Some g \<and> gr_client_name g = cl_name client
    \<and> row \<in> set (db_requests d0) \<and> ar_id row = gr_request_id g \<and> ar_state row = ''approved''
    \<and> (\<forall>row' \<in> set (db_requests d0). ar_id row' = gr_request_id g \<longrightarrow> row' = row)"
proof -
  have "\<exists>client g. authenticate_client env app header d0 = Inr client \<and> owned_grant (cl_name client) gid d0 = Inr g"
    using assms(2)
  proof (elim disjE conjE exE)
    fix resp d'
    assume "read env app rc header raw body d0 d = (Inr resp, d')" "path_id env raw = Inr gid"
    then show ?thesis by (cases rule: read_Inr) auto
  next
    fix r out d' s'
    assume "handle env px app pc header rq d0 d streams = (r, Some out, d', s')" "grant_id_from_path env (pq_path rq) = Inr gid"
    then show ?thesis by (cases rule: handle_cases) (auto dest: proxy_admit_Inr)
  qed
  then obtain client g where c: "authenticate_client env app header d0 = Inr client" "owned_grant (cl_name client) gid d0 = Inr g"
    by blast
  note g = owned_grant_Inr [OF c(2)]
  have "cl_enabled client"
    using c(1) by (rule authenticate_client_Inr)
  have inv: "ledger_inv d0"
    using reach_inv [OF assms(1)] by simp
  have "g \<in> set (db_grants d0)"
    using g(1) by (auto simp: get_grant_def dest: find_Some_mem)
  then have "gr_request_id g \<in> approved_ids d0"
    using inv by (auto simp: ledger_inv_def grants_inv_def)
  then obtain row where row: "row \<in> set (db_requests d0)" "ar_id row = gr_request_id g" "ar_state row = ''approved''"
    by (auto simp: approved_ids_def)
  moreover have "row' = row" if "row' \<in> set (db_requests d0)" "ar_id row' = gr_request_id g" for row'
    using distinct_map_same [of ar_id "db_requests d0" row' row] inv row that
    by (simp add: ledger_inv_def requests_inv_def)
  ultimately show ?thesis
    using c(1) g \<open>cl_enabled client\<close> by blast
qed

theorem releases_trace_to_approval_witness:
  "\<exists>row \<in> set (db_requests ex_s4). ar_state row = ''approved''"
proof -
  have s4: "reach 60 (ccl_now ex_call, ex_s4)"
    by (rule reach_run [OF ex_s3_reach ex_s4_run])
  have p: "path_id ex_session_env (Some ''20'') = Inr 20"
    by code_simp
  show ?thesis
    using releases_trace_to_approval [OF s4 disjI1] ex_release_ok [unfolded ex_release_def] p by blast
qed

text \<open>C25: who a token speaks for.  An authenticated client is an enabled row of the client table, and the
  header carried a bearer token that belongs to it: its stored hash is the hash of the token, or no client has
  that hash and TokenReview authenticated the token for the client's subject and an audience
  of the client, which no other enabled client shares.\<close>

theorem authentication_sound:
  assumes "authenticate_client env app header d = Inr c"
  shows "c \<in> set (db_clients d) \<and> cl_enabled c
    \<and> (\<exists>token. bearer_token header = Some token \<and> token_of_client env app token d c)"
  using assms by (rule authenticate_client_Inr) blast

theorem authentication_sound_witness:
  "\<exists>token. bearer_token ex_header = Some token \<and> token_of_client ex_session_env ex_app token ex_s3 ex_client_row"
proof -
  have "authenticate_client ex_session_env ex_app ex_header ex_s3 = Inr ex_client_row"
    by code_simp
  from authentication_sound [OF this] show ?thesis by blast
qed

end
