(* ===== verification/Ui.thy ===== *)
theory Ui
  imports Human_Auth Csrf Ui_Forms Api_System
begin

text \<open>
  The POST handlers of the operator interface (\<open>server/src/ui/mod.rs\<close>): every one authenticates the
  operator, checks the form token and the browser's metadata, and then runs at most one transaction of
  the store.

  The pages themselves are rendering; a page is the value it shows.  A handler reads the database
  several times before its transaction: each read has a database of its own.
\<close>

section \<open>Environment\<close>

record ui_env =
  ue_api :: api_env
  ue_csrf :: csrf_env
  ue_jwt :: jwt_env
  ue_date :: date_env
  ue_url_host :: "string \<Rightarrow> string option option"

record ui_state =
  us_app :: app_state
  us_config :: config

text \<open>What one request brings along: its headers, the clocks it reads, the key cache's call, the random
  bytes and the fresh ids it draws.\<close>

record post_call =
  uc_headers :: header_map
  uc_jwks :: jwks_call
  uc_unix :: int
  uc_utc :: time
  uc_db_now :: time
  uc_now :: time
  uc_grant_id :: uuid
  uc_secret_id :: uuid
  uc_version_id :: uuid
  uc_policy_id :: uuid
  uc_random :: seal_random

datatype ui_response =
    See_Other string
  | Request_page uuid string
  | Review_page uuid int "(string \<times> bool) option" "policy_row list" string
  | Delete_page uuid int "policy_row list" "grant_row list" "access_request_row list" string

abbreviation em_dash :: string where "em_dash \<equiv> [CHR 0xE2, CHR 0x80, CHR 0x94]"

definition R_APPROVE :: string where "R_APPROVE = ''/ui/requests/approve''"
definition R_DENY :: string where "R_DENY = ''/ui/requests/deny''"
definition R_REVOKE :: string where "R_REVOKE = ''/ui/grants/revoke''"
definition R_POLICY_CREATE :: string where "R_POLICY_CREATE = ''/ui/policies/create''"
definition R_POLICY_DELETE :: string where "R_POLICY_DELETE = ''/ui/policies/delete''"
definition R_POLICY_UPDATE :: string where "R_POLICY_UPDATE = ''/ui/policies/update''"
definition R_SECRET_SAVE :: string where "R_SECRET_SAVE = ''/ui/secrets/save''"
definition R_SECRET_UPDATE :: string where "R_SECRET_UPDATE = ''/ui/secrets/update''"
definition R_SECRET_ROTATE :: string where "R_SECRET_ROTATE = ''/ui/secrets/rotate''"
definition R_SECRET_REVEAL :: string where "R_SECRET_REVEAL = ''/ui/secrets/reveal''"
definition R_SECRET_VET :: string where "R_SECRET_VET = ''/ui/secrets/vet''"
definition R_SECRET_DELETE :: string where "R_SECRET_DELETE = ''/ui/secrets/delete''"
definition R_SECRET_DELETE_CONFIRM :: string where "R_SECRET_DELETE_CONFIRM = ''/ui/secrets/delete-confirm''"

section \<open>The guard of every POST\<close>

definition authorization_header :: "csrf_env \<Rightarrow> header_map \<Rightarrow> string option" where
  "authorization_header ce headers = Option.bind (map_of headers ''authorization'') (ce_header_text ce)"

definition operator_of ::
  "ui_env \<Rightarrow> ui_state \<Rightarrow> post_call \<Rightarrow> jwks_cache \<Rightarrow> (ui_error + operator) \<times> jwks_cache" where
  "operator_of ue us call cache =
     (case authenticate_human (env_sha256_hex (ue_api ue)) (ue_jwt ue) (uc_unix call) (uc_jwks call)
             (cfg_human_auth (us_config us)) (authorization_header (ue_csrf ue) (uc_headers call)) cache of
        (Inl code, c) \<Rightarrow>
          (Inl (Ui_Error code (Text (if code = FORBIDDEN then ''not authorized to operate Keychute''
                                     else ''authentication required''))), c)
      | (Inr op, c) \<Rightarrow> (Inr op, c))"

definition check_post ::
  "ui_env \<Rightarrow> ui_state \<Rightarrow> post_call \<Rightarrow> string \<Rightarrow> string \<Rightarrow> string \<Rightarrow> string \<Rightarrow> string \<Rightarrow> ui_error + unit" where
  "check_post ue us call route action_id subject form_state token =
     (if \<not> browser_metadata_ok (ue_csrf ue) (cfg_external_url (us_config us)) (cfg_tls (us_config us) \<noteq> None) (uc_headers call)
        then Inl (Ui_Error 403 (Text ''cross-origin request rejected''))
      else if \<not> verify_token (ue_csrf ue) (app_keyset (us_app us)) route action_id subject form_state token (uc_utc call)
        then Inl (Ui_Error 403 (Text ''invalid or expired form token; reload the page and retry''))
      else Inr ())"

definition post_guard ::
  "ui_env \<Rightarrow> ui_state \<Rightarrow> post_call \<Rightarrow> string \<Rightarrow> string \<Rightarrow> string \<Rightarrow> string \<Rightarrow> jwks_cache \<Rightarrow> (ui_error + operator) \<times> jwks_cache" where
  "post_guard ue us call route action_id form_state token cache =
     (case operator_of ue us call cache of
        (Inl e, c) \<Rightarrow> (Inl e, c)
      | (Inr op, c) \<Rightarrow>
          (case check_post ue us call route action_id (op_subject op) form_state token of
             Inl e \<Rightarrow> (Inl e, c)
           | Inr _ \<Rightarrow> (Inr op, c)))"

type_synonym ui_result = "(ui_error + ui_response) \<times> db"

text \<open>The common head of the handlers, and the rest under an operator.\<close>

definition guarded ::
  "ui_env \<Rightarrow> ui_state \<Rightarrow> post_call \<Rightarrow> string \<Rightarrow> string \<Rightarrow> string \<Rightarrow> string \<Rightarrow> (operator \<Rightarrow> db \<Rightarrow> ui_result)
   \<Rightarrow> jwks_cache \<Rightarrow> db \<Rightarrow> (ui_error + ui_response) \<times> jwks_cache \<times> db" where
  "guarded ue us call route action_id form_state token rest cache d =
     (case post_guard ue us call route action_id form_state token cache of
        (Inl e, c) \<Rightarrow> (Inl e, c, d)
      | (Inr op, c) \<Rightarrow> (case rest op d of (r, d') \<Rightarrow> (r, c, d')))"

section \<open>Approval\<close>

record approve_form =
  af_csrf_token :: string
  af_secret_present :: "string option"
  af_ttl_seconds :: "string option"
  af_max_uses :: "string option"
  af_secret_value :: "string option"
  af_substitute_secret :: "string option"
  af_store_secret :: "string option"
  af_store_max_tier :: "string option"
  af_injection_kind :: "string option"
  af_injection_header :: "string option"
  af_store_description :: "string option"

text \<open>The databases of the handler's reads, in the order of the reads.\<close>

record approve_reads =
  rd_request :: db
  rd_secret :: db
  rd_chosen :: db
  rd_client :: db
  rd_tags :: db
  rd_policies :: db

definition take_secret_value :: "approve_form \<Rightarrow> bytes option" where
  "take_secret_value form =
     (case af_secret_value form of None \<Rightarrow> None | Some raw \<Rightarrow> if raw = [] then None else Some raw)"

definition parse_constraints :: "access_request_row \<Rightarrow> ui_error + constraints" where
  "parse_constraints row =
     (case ar_constraints row of
        Parsed c \<Rightarrow> Inr c
      | Malformed j \<Rightarrow> Inl (ui_internal (Bail ''bad constraints jsonb'')))"

definition parse_mechanism :: "string \<Rightarrow> ui_error + mechanism" where
  "parse_mechanism s =
     (case mech_from_str_opt s of Some m \<Rightarrow> Inr m | None \<Rightarrow> Inl (ui_internal (Bail ''unknown mechanism on stored row'')))"

definition requested_uses :: "mechanism \<Rightarrow> constraints \<Rightarrow> int option" where
  "requested_uses m c = (if is_releasing m then Some 1 else map_option uint (c_max_uses c))"

definition narrowed_uses :: "string option \<Rightarrow> int option \<Rightarrow> ui_error + int option" where
  "narrowed_uses input base =
     (case input of
        None \<Rightarrow> Inr base
      | Some raw \<Rightarrow>
          map_sum id Some (parse_narrow_u64 (Some raw) (case base of Some b \<Rightarrow> b | None \<Rightarrow> 2 ^ 64 - 1) ''max_uses''))"

text \<open>The checks on the request row, and the narrowing.\<close>

definition approve_row ::
  "post_call \<Rightarrow> approve_form \<Rightarrow> access_request_row \<Rightarrow> ui_error + (mechanism \<times> constraints \<times> int \<times> int option)" where
  "approve_row call form row =
     (if ar_state row \<noteq> ''pending'' \<or> ar_expires_at row \<le> uc_db_now call
        then Inl (conflict ''request is no longer pending'')
      else if policy_cap_elapsed (ar_policy_not_after row) (uc_db_now call)
        then Inl (conflict ''the standing policy this request matched has expired: the request is no longer approvable and must be re-submitted'')
      else
     (case parse_mechanism (ar_mechanism row) of
        Inl e \<Rightarrow> Inl e
      | Inr m \<Rightarrow>
     (case parse_constraints row of
        Inl e \<Rightarrow> Inl e
      | Inr c \<Rightarrow>
     (case parse_narrow_u64 (non_empty (af_ttl_seconds form)) (uint (c_ttl_seconds c)) ''ttl_seconds'' of
        Inl e \<Rightarrow> Inl e
      | Inr ttl \<Rightarrow>
     (case narrowed_uses (non_empty (af_max_uses form)) (requested_uses m c) of
        Inl e \<Rightarrow> Inl e
      | Inr uses \<Rightarrow> Inr (m, c, ttl, uses))))))"

definition evaluate_substitution ::
  "ui_env \<Rightarrow> approve_reads \<Rightarrow> access_request_row \<Rightarrow> secret_row \<Rightarrow> mechanism \<Rightarrow> constraints \<Rightarrow> time \<Rightarrow> ui_error + evaluation" where
  "evaluate_substitution ue rds row chosen m c now =
     (case get_client_by_name (ar_client_name row) (rd_client rds) of
        None \<Rightarrow> Inl (bad_request ''the requesting client no longer exists'')
      | Some client \<Rightarrow>
          (let tags = get_tags_for_secret (env_collate (ue_api ue)) (sec_id chosen) (rd_tags rds);
               requested = \<lparr>rg_secret_name = sec_name chosen, rg_mechanism = m, rg_constraints = c\<rparr>
           in case policy_inputs client (Some chosen) tags requested (list_policies (rd_policies rds)) now of
                Inl _ \<Rightarrow> Inl (bad_request ''the policy table holds a rule that applies to that secret and cannot be read; fix it before releasing this secret'')
              | Inr (pclient, psecret, prows) \<Rightarrow>
                  (case evaluate (env_uuid_str (ue_api ue)) (env_max_utc (ue_api ue)) pclient psecret tags requested prows now of
                     None \<Rightarrow> Inl (ui_internal (Bail ''unreachable: deny rows filtered above''))
                   | Some ev \<Rightarrow> Inr ev)))"

text \<open>What is released: the name and the row the grant is issued against, the cap of the rule that
  governs a substituted secret, a secret to store, a payload of the grant's own.\<close>

record released =
  rl_name :: string
  rl_secret_id :: "uuid option"
  rl_cap :: "time option"
  rl_store :: "store_secret_params option"
  rl_passthrough :: "passthrough_payload option"

definition effective_constraints :: "constraints \<Rightarrow> int \<Rightarrow> int option \<Rightarrow> constraints" where
  "effective_constraints c ttl uses =
     c\<lparr>c_ttl_seconds := word_of_int ttl, c_max_uses := map_option (\<lambda>u. word_of_int (min u (2 ^ 32 - 1))) uses\<rparr>"

definition SECRET_STATE_CHANGED :: string where 
  "SECRET_STATE_CHANGED =
     ''This secret changed while you were reviewing: it was stored, removed, or rotated since the page loaded, so the form no longer meant what it said. Nothing was approved. Check the details below and decide again.''"
definition SUBSTITUTE_STATE_CHANGED :: string where 
  "SUBSTITUTE_STATE_CHANGED =
     ''The stored secret you picked changed while you were reviewing: it was removed, disabled, or rotated since the page loaded, so approving would have released a version nobody reviewed. Nothing was approved. Pick again.''"

definition approve_substitute ::
  "ui_env \<Rightarrow> post_call \<Rightarrow> approve_reads \<Rightarrow> approve_form \<Rightarrow> access_request_row \<Rightarrow> mechanism \<Rightarrow> constraints \<Rightarrow> int
   \<Rightarrow> int option \<Rightarrow> string \<Rightarrow> (ui_error + released) + ui_response" where
  "approve_substitute ue call rds form row m c ttl uses raw =
     (if take_secret_value form \<noteq> None \<or> non_empty (af_store_secret form) \<noteq> None
        then Inl (Inl (bad_request ''choose either a stored secret or a new value to store, not both''))
      else
     (case parse_substitute_option raw of
        None \<Rightarrow> Inl (Inl (bad_request ''malformed approval form; reload the page and retry''))
      | Some (picked_version, picked_name) \<Rightarrow>
     (case get_secret_by_name picked_name (rd_chosen rds) of
        None \<Rightarrow> Inr (Request_page (ar_id row) SUBSTITUTE_STATE_CHANGED)
      | Some chosen \<Rightarrow>
          if \<not> sec_enabled chosen \<or> sec_current_version chosen \<noteq> picked_version
            then Inr (Request_page (ar_id row) SUBSTITUTE_STATE_CHANGED)
          else Inl
            (if tier_as_int (mech_tier m) > sec_max_tier chosen
               then Inl (bad_request (''that secret'' @ [CHR 0x27] @ ''s max tier is below the tier being approved''))
             else
            (case evaluate_substitution ue rds row chosen m (effective_constraints c ttl uses) (uc_db_now call) of
               Inl e \<Rightarrow> Inl e
             | Inr ev \<Rightarrow>
                 (case ev_decision ev of
                    Dec_Deny reason \<Rightarrow>
                      Inl (bad_request (''standing policy refuses that secret for '' @ ar_client_name row @ '': '' @ reason))
                  | _ \<Rightarrow>
                      if policy_cap_elapsed (ev_policy_not_after ev) (uc_db_now call)
                        then Inl (bad_request ''the standing policy governing that secret has expired: any grant issued now would already be past its cap'')
                      else Inr \<lparr>rl_name = sec_name chosen, rl_secret_id = Some (sec_id chosen),
                                rl_cap = ev_policy_not_after ev, rl_store = None, rl_passthrough = None\<rparr>))))))"

definition approve_stored :: "access_request_row \<Rightarrow> mechanism \<Rightarrow> secret_row \<Rightarrow> ui_error + released" where
  "approve_stored row m s =
     (if \<not> sec_enabled s then Inl (bad_request ''secret is disabled'')
      else if tier_as_int (mech_tier m) > sec_max_tier s
        then Inl (bad_request (''requested mechanism exceeds the secret'' @ [CHR 0x27] @ ''s max tier''))
      else Inr \<lparr>rl_name = ar_secret_name row, rl_secret_id = Some (sec_id s), rl_cap = None, rl_store = None,
                rl_passthrough = None\<rparr>)"

definition passthrough_seal :: "api_env \<Rightarrow> seal_random \<Rightarrow> bytes \<Rightarrow> uuid \<Rightarrow> bytes \<Rightarrow> crypto_error + passthrough_payload" where
  "passthrough_seal env rnd kek grant_id value =
     map_sum id (\<lambda>s. \<lparr>pp_ciphertext = sl_ciphertext s, pp_nonce = sl_nonce s, pp_wrapped_dek = sl_wrapped_dek s\<rparr>)
       (ephemeral_seal (env_aead env) (env_uuid_str env) rnd kek value (AadGrantPassthrough grant_id))"

definition approve_value ::
  "ui_env \<Rightarrow> ui_state \<Rightarrow> post_call \<Rightarrow> approve_form \<Rightarrow> access_request_row \<Rightarrow> mechanism \<Rightarrow> ui_error + released" where
  "approve_value ue us call form row m =
     (case take_secret_value form of
        None \<Rightarrow> Inl (bad_request ''this secret is not stored: pick a stored secret to release instead, or enter the value'')
      | Some value \<Rightarrow>
          if non_empty (af_store_secret form) \<noteq> None then
            (case (case non_empty (af_store_max_tier form) of
                     None \<Rightarrow> Inr (mech_tier m)
                   | Some raw \<Rightarrow> (case tier_from_str raw of Some t \<Rightarrow> Inr t | None \<Rightarrow> Inl (bad_request ''invalid max_tier''))) of
               Inl e \<Rightarrow> Inl e
             | Inr max_tier \<Rightarrow>
                 if max_tier \<noteq> mech_tier m
                   then Inl (bad_request (''stored max_tier must equal the requested mechanism'' @ [CHR 0x27] @ ''s tier: an approval cannot store a secret at a broader tier than the access it grants''))
                 else
                   (case validate_injection (case non_empty (af_injection_kind form) of Some k \<Rightarrow> k | None \<Rightarrow> ''bearer'')
                           (non_empty (af_injection_header form)) None of
                      Inl msg \<Rightarrow> Inl (bad_request msg)
                    | Inr (kind, header, username) \<Rightarrow>
                        Inr \<lparr>rl_name = ar_secret_name row, rl_secret_id = Some (uc_secret_id call), rl_cap = None,
                             rl_store = Some \<lparr>sp_secret_id = uc_secret_id call, sp_name = ar_secret_name row,
                               sp_description = or_empty (non_empty (af_store_description form)),
                               sp_max_tier = tier_as_int max_tier, sp_injection_kind = kind,
                               sp_injection_header = header, sp_injection_username = username,
                               sp_seal = seal_fn_of (keyset_seal (env_aead (ue_api ue)) (env_uuid_str (ue_api ue))
                                           (uc_random call) (app_keyset (us_app us)) value
                                           (AadSecretVersion (uc_secret_id call) 1))\<rparr>,
                             rl_passthrough = None\<rparr>))
          else if m = Mech_Brokered
            then Inl (bad_request (''brokered grants need a stored secret (injection template): check '' @ [CHR 0x22] @ ''store this secret in Keychute'' @ [CHR 0x22]))
          else
            (case passthrough_seal (ue_api ue) (uc_random call) (app_ephemeral_kek (us_app us)) (uc_grant_id call) value of
               Inl _ \<Rightarrow> Inl (ui_internal Seal_error)
             | Inr p \<Rightarrow> Inr \<lparr>rl_name = ar_secret_name row, rl_secret_id = None, rl_cap = None, rl_store = None,
                            rl_passthrough = Some p\<rparr>))"

definition cap_at :: "time option \<Rightarrow> time \<Rightarrow> time" where
  "cap_at cap t = (case cap of Some c \<Rightarrow> min t c | None \<Rightarrow> t)"

definition approved_grant ::
  "post_call \<Rightarrow> access_request_row \<Rightarrow> int \<Rightarrow> int option \<Rightarrow> released \<Rightarrow> grant_params" where
  "approved_grant call row ttl uses rl =
     \<lparr>gp_client_name = ar_client_name row, gp_secret_name = rl_name rl, gp_secret_id = rl_secret_id rl,
      gp_mechanism = ar_mechanism row, gp_constraints = ar_constraints row,
      gp_not_after = cap_at (rl_cap rl) (cap_at (ar_policy_not_after row) (uc_db_now call + interval_secs ttl)),
      gp_max_uses = map_option (\<lambda>u. min u I32_MAX) uses, gp_passthrough = rl_passthrough rl\<rparr>"

definition approve_commit ::
  "post_call \<Rightarrow> uuid \<Rightarrow> access_request_row \<Rightarrow> int \<Rightarrow> int option \<Rightarrow> released \<Rightarrow> operator \<Rightarrow> db \<Rightarrow> ui_result" where
  "approve_commit call rid row ttl uses rl op d =
     (case approve_request (uc_now call) (uc_version_id call) rid (op_subject op) (uc_grant_id call)
             (approved_grant call row ttl uses rl) (rl_store rl) d of
        Inl e \<Rightarrow> (Inl (ui_internal e), d)
      | Inr (Approved_as _, d') \<Rightarrow> (Inr (See_Other ''/ui/requests''), d')
      | Inr (NotApprovable, d') \<Rightarrow> (Inl (conflict ''request was resolved or expired concurrently''), d')
      | Inr (SecretNameTaken, d') \<Rightarrow>
          (Inl (conflict (''a secret with that name was stored while you were reviewing. Nothing was approved '' @ em_dash @ '' reload the request and decide against the secret that is now stored.'')), d')
      | Inr (SecretGone, d') \<Rightarrow>
          (Inl (conflict (''that secret was deleted while you were reviewing. Nothing was approved '' @ em_dash @ '' reload the request and decide again.'')), d'))"

definition approve_rest ::
  "ui_env \<Rightarrow> ui_state \<Rightarrow> post_call \<Rightarrow> approve_reads \<Rightarrow> uuid \<Rightarrow> approve_form \<Rightarrow> operator \<Rightarrow> db \<Rightarrow> ui_result" where
  "approve_rest ue us call rds rid form op d =
     (case parse_secret_present (non_empty (af_secret_present form)) of
        None \<Rightarrow> (Inl (bad_request ''malformed approval form; reload the page and retry''), d)
      | Some _ \<Rightarrow>
     (case get_request rid (rd_request rds) of
        None \<Rightarrow> (Inl (Ui_Error 404 (Text ''no such request'')), d)
      | Some row \<Rightarrow>
     (case approve_row call form row of
        Inl e \<Rightarrow> (Inl e, d)
      | Inr (m, c, ttl, uses) \<Rightarrow>
     (let secret = get_secret_by_name (ar_secret_name row) (rd_secret rds);
          substitute = non_empty (af_substitute_secret form)
      in if or_empty (non_empty (af_secret_present form)) \<noteq> secret_state_marker secret
           then (Inr (Request_page rid SECRET_STATE_CHANGED), d)
         else if secret \<noteq> None \<and> (take_secret_value form \<noteq> None \<or> substitute \<noteq> None)
           then (Inl (bad_request ''malformed approval form; reload the page and retry''), d)
         else
     (case (case secret of
              Some s \<Rightarrow> Inl (approve_stored row m s)
            | None \<Rightarrow>
                (case substitute of
                   Some raw \<Rightarrow> approve_substitute ue call rds form row m c ttl uses raw
                 | None \<Rightarrow> Inl (approve_value ue us call form row m))) of
        Inr page \<Rightarrow> (Inr page, d)
      | Inl (Inl e) \<Rightarrow> (Inl e, d)
      | Inl (Inr rl) \<Rightarrow> approve_commit call rid row ttl uses rl op d)))))"

definition approve ::
  "ui_env \<Rightarrow> ui_state \<Rightarrow> post_call \<Rightarrow> approve_reads \<Rightarrow> uuid \<Rightarrow> approve_form \<Rightarrow> jwks_cache \<Rightarrow> db
   \<Rightarrow> (ui_error + ui_response) \<times> jwks_cache \<times> db" where
  "approve ue us call rds rid form =
     guarded ue us call R_APPROVE (env_uuid_str (ue_api ue) rid) (or_empty (non_empty (af_secret_present form)))
       (af_csrf_token form) (approve_rest ue us call rds rid form)"

section \<open>Denial and revocation\<close>

definition deny_rest :: "post_call \<Rightarrow> uuid \<Rightarrow> operator \<Rightarrow> db \<Rightarrow> ui_result" where
  "deny_rest call rid op d =
     (case resolve_deny (uc_now call) rid (op_subject op) ''denied by operator'' d of
        Inl e \<Rightarrow> (Inl (ui_internal e), d)
      | Inr (denied, d') \<Rightarrow>
          (if denied then Inr (See_Other ''/ui/requests'') else Inl (conflict ''request is no longer pending''), d'))"

definition deny where
  "deny ue us call rid token =
     guarded ue us call R_DENY (env_uuid_str (ue_api ue) rid) [] token (deny_rest call rid)"

definition revoke_rest :: "post_call \<Rightarrow> uuid \<Rightarrow> operator \<Rightarrow> db \<Rightarrow> ui_result" where
  "revoke_rest call gid op d =
     (case revoke_grant (uc_now call) gid (op_subject op) d of
        (revoked, d') \<Rightarrow>
          (if revoked then Inr (See_Other ''/ui/grants'') else Inl (conflict ''grant is no longer active''), d'))"

definition revoke where
  "revoke ue us call gid token =
     guarded ue us call R_REVOKE (env_uuid_str (ue_api ue) gid) [] token (revoke_rest call gid)"

section \<open>Policies\<close>

definition MANAGED_SECRET :: string where
  "MANAGED_SECRET =
     ''this secret is provisioned from Keychute'' @ [CHR 0x27] @ ''s config (GitOps): change or remove it there. An edit here would be reverted on the next restart.''"

definition MANAGED_POLICY :: string where
  "MANAGED_POLICY =
     ''this policy is provisioned from Keychute'' @ [CHR 0x27] @ ''s config (GitOps): change or remove it there. An edit here would be reverted on the next restart.''"

definition create_policy_rest :: "ui_env \<Rightarrow> post_call \<Rightarrow> policy_form \<Rightarrow> operator \<Rightarrow> db \<Rightarrow> ui_result" where
  "create_policy_rest ue call form op d =
     (case parse_policy_form (ue_url_host ue) (ue_date ue) form (op_subject op) of
        Inl e \<Rightarrow> (Inl e, d)
      | Inr p \<Rightarrow>
          (case insert_policy_audited (env_uuid_str (ue_api ue)) (uc_now call) (uc_policy_id call) p (op_subject op) d of
             Inl e \<Rightarrow> (Inl (ui_internal e), d)
           | Inr (_, d') \<Rightarrow> (Inr (See_Other ''/ui/policies''), d')))"

definition create_policy where
  "create_policy ue us call form =
     guarded ue us call R_POLICY_CREATE [] [] (pf_csrf_token form) (create_policy_rest ue call form)"

definition update_policy_rest :: "ui_env \<Rightarrow> post_call \<Rightarrow> uuid \<Rightarrow> policy_form \<Rightarrow> operator \<Rightarrow> db \<Rightarrow> ui_result" where
  "update_policy_rest ue call i form op d =
     (case parse_policy_form (ue_url_host ue) (ue_date ue) form (op_subject op) of
        Inl e \<Rightarrow> (Inl e, d)
      | Inr p \<Rightarrow>
          (case update_policy_audited (env_uuid_str (ue_api ue)) (uc_now call) i p (op_subject op) d of
             Inl e \<Rightarrow> (Inl (ui_internal e), d)
           | Inr (Policy_Updated, d') \<Rightarrow> (Inr (See_Other ''/ui/policies''), d')
           | Inr (Policy_Managed, d') \<Rightarrow> (Inl (conflict MANAGED_POLICY), d')
           | Inr (Policy_NotFound, d') \<Rightarrow> (Inl (conflict ''policy no longer exists''), d')))"

definition update_policy where
  "update_policy ue us call i form =
     guarded ue us call R_POLICY_UPDATE (env_uuid_str (ue_api ue) i) [] (pf_csrf_token form) (update_policy_rest ue call i form)"

text \<open>\<open>dr\<close> is the database of the read that looks for a managed row.\<close>

definition delete_policy_rest :: "ui_env \<Rightarrow> post_call \<Rightarrow> db \<Rightarrow> uuid \<Rightarrow> operator \<Rightarrow> db \<Rightarrow> ui_result" where
  "delete_policy_rest ue call dr i op d =
     (if list_ex (\<lambda>p. pol_id p = i \<and> pol_managed_by_config p) (list_policies dr)
        then (Inl (conflict MANAGED_POLICY), d)
      else
        (case delete_policy_audited (env_uuid_str (ue_api ue)) (uc_now call) i (op_subject op) d of
           (deleted, d') \<Rightarrow>
             (if deleted then Inr (See_Other ''/ui/policies'') else Inl (conflict ''policy no longer exists''), d')))"

definition ui_delete_policy where
  "ui_delete_policy ue us call dr i token =
     guarded ue us call R_POLICY_DELETE (env_uuid_str (ue_api ue) i) [] token (delete_policy_rest ue call dr i)"

section \<open>Secrets\<close>

text \<open>\<open>list_secrets(..).find(|s| s.id == id)\<close>; the id is the primary key, so the order does not matter.\<close>

definition secret_by_id :: "uuid \<Rightarrow> db \<Rightarrow> secret_row option" where
  "secret_by_id i d = find (\<lambda>s. sec_id s = i) (db_secrets d)"

definition reveal_text :: "api_env \<Rightarrow> bytes \<Rightarrow> string \<times> bool" where
  "reveal_text env plaintext =
     (if valid_utf8 plaintext then (plaintext, False) else (env_b64_encode env plaintext, True))"

text \<open>\<open>dr\<close> is the database of the page's reads, \<open>reveal\<close> the field of the form.\<close>

definition review_rest ::
  "ui_env \<Rightarrow> ui_state \<Rightarrow> post_call \<Rightarrow> db \<Rightarrow> uuid \<Rightarrow> string option \<Rightarrow> operator \<Rightarrow> db \<Rightarrow> ui_result" where
  "review_rest ue us call dr i reveal op d =
     (case secret_by_id i dr of
        None \<Rightarrow> (Inl (Ui_Error 404 (Text ''no such secret'')), d)
      | Some s \<Rightarrow>
          if sec_operator_vetted s then (Inl (conflict ''that secret is already marked reviewed''), d)
          else
     (case get_secret_version (sec_id s) (sec_current_version s) dr of
        None \<Rightarrow> (Inl (Ui_Error 404 (Text ''no stored version to review'')), d)
      | Some v \<Rightarrow>
          (let activated = policies_activated_by_vetting (list_policies dr) (sec_name s)
                             (get_tags_for_secret (env_collate (ue_api ue)) (sec_id s) dr) (uc_utc call);
               token = issue_token (ue_csrf ue) (app_keyset (us_app us)) R_SECRET_VET (env_uuid_str (ue_api ue) i)
                         (op_subject op) (dec_int (ver_version v)) (uc_utc call);
               page = (\<lambda>revealed. Review_page i (ver_version v) revealed activated token)
           in if reveal = Some ''1'' then
                (case keyset_open (env_aead (ue_api ue)) (env_uuid_str (ue_api ue)) (app_keyset (us_app us)) (ver_ciphertext v)
                        (ver_nonce v) (ver_wrapped_dek v) (ver_kek_id v) (AadSecretVersion (sec_id s) (ver_version v)) of
                   Inl _ \<Rightarrow>
                     (Inl (Ui_Error 500 (Text (''that secret'' @ [CHR 0x27] @ ''s stored value could not be decrypted''))), d)
                 | Inr plaintext \<Rightarrow>
                     (Inr (page (Some (reveal_text (ue_api ue) plaintext))),
                      insert_audit (uc_now call)
                        (audit_default\<lparr>ae_kind := SECRET_REVEALED, ae_secret_name := Some (sec_name s),
                           ae_secret_version_id := Some (ver_id v), ae_actor := Some (op_subject op)\<rparr>) d))
              else (Inr (page None), d))))"

definition review_secret where
  "review_secret ue us call dr i token reveal =
     guarded ue us call R_SECRET_REVEAL (env_uuid_str (ue_api ue) i) [] token (review_rest ue us call dr i reveal)"

definition mark_reviewed_rest :: "post_call \<Rightarrow> uuid \<Rightarrow> string \<Rightarrow> operator \<Rightarrow> db \<Rightarrow> ui_result" where
  "mark_reviewed_rest call i reviewed_version op d =
     (case parse_i32 reviewed_version of
        None \<Rightarrow> (Inl (bad_request ''invalid reviewed version''), d)
      | Some v \<Rightarrow>
          (case mark_secret_vetted (uc_now call) i v (op_subject op) d of
             Inl e \<Rightarrow> (Inl (ui_internal e), d)
           | Inr (vetted, d') \<Rightarrow>
               (if vetted then Inr (See_Other ''/ui/secrets'')
                else Inl (conflict (''that secret is already reviewed, no longer exists, or has been rotated since you looked at it '' @ em_dash @ '' open it again to review the current value'')), d')))"

definition mark_reviewed where
  "mark_reviewed ue us call i token reviewed_version =
     guarded ue us call R_SECRET_VET (env_uuid_str (ue_api ue) i) reviewed_version token (mark_reviewed_rest call i reviewed_version)"

definition delete_page_rest ::
  "ui_env \<Rightarrow> ui_state \<Rightarrow> post_call \<Rightarrow> db \<Rightarrow> uuid \<Rightarrow> operator \<Rightarrow> db \<Rightarrow> ui_result" where
  "delete_page_rest ue us call dr i op d =
     (case secret_by_id i dr of
        None \<Rightarrow> (Inl (Ui_Error 404 (Text ''no such secret'')), d)
      | Some s \<Rightarrow>
          if sec_managed_by_config s then (Inl (conflict MANAGED_SECRET), d)
          else
            (let selecting = policies_selecting_secret (list_policies dr) (sec_name s)
                               (get_tags_for_secret (env_collate (ue_api ue)) (sec_id s) dr);
                 grants = filter (\<lambda>g. gr_secret_name g = sec_name s \<and> \<not> gr_passthrough_ephemeral g)
                            (list_active_grants (uc_now call) (lim_replay_window_seconds (app_limits (us_app us))) dr);
                 pending = filter (\<lambda>r. ar_secret_name r = sec_name s) (list_pending dr);
                 token = issue_token (ue_csrf ue) (app_keyset (us_app us)) R_SECRET_DELETE_CONFIRM
                           (env_uuid_str (ue_api ue) i) (op_subject op) (dec_int (sec_current_version s)) (uc_utc call)
             in (Inr (Delete_page i (sec_current_version s) selecting grants pending token), d)))"

definition delete_secret_page where
  "delete_secret_page ue us call dr i token =
     guarded ue us call R_SECRET_DELETE (env_uuid_str (ue_api ue) i) [] token (delete_page_rest ue us call dr i)"

definition delete_secret_rest :: "post_call \<Rightarrow> db \<Rightarrow> uuid \<Rightarrow> string \<Rightarrow> operator \<Rightarrow> db \<Rightarrow> ui_result" where
  "delete_secret_rest call dr i current_version op d =
     (case parse_i32 current_version of
        None \<Rightarrow> (Inl (bad_request ''invalid version''), d)
      | Some v \<Rightarrow>
          if list_ex (\<lambda>s. sec_id s = i \<and> sec_managed_by_config s) (db_secrets dr)
            then (Inl (conflict MANAGED_SECRET), d)
          else
            (case delete_secret_audited (uc_now call) i v (op_subject op) d of
               (Stale, d') \<Rightarrow>
                 (Inl (conflict (''that secret no longer exists, or has been rotated since you opened the confirmation '' @ em_dash @ '' open it again to delete the current value'')), d')
             | (Secret_Deleted n, d') \<Rightarrow> (Inr (See_Other ''/ui/secrets''), d')))"

definition delete_secret where
  "delete_secret ue us call dr i token current_version =
     guarded ue us call R_SECRET_DELETE_CONFIRM (env_uuid_str (ue_api ue) i) current_version token
       (delete_secret_rest call dr i current_version)"

record secret_settings_form =
  sf_csrf_token :: string
  sf_description :: "string option"
  sf_max_tier :: string
  sf_injection_kind :: string
  sf_injection_header :: "string option"
  sf_injection_scope :: "string option"
  sf_tags :: "string option"
  sf_enabled :: "string option"

definition secret_settings_of :: "secret_settings_form \<Rightarrow> ui_error + secret_settings" where
  "secret_settings_of form =
     (case tier_from_str (trim (sf_max_tier form)) of
        None \<Rightarrow> Inl (bad_request ''invalid max_tier'')
      | Some max_tier \<Rightarrow>
     (case validate_injection (trim (sf_injection_kind form)) (non_empty (sf_injection_header form))
             (non_empty (sf_injection_scope form)) of
        Inl msg \<Rightarrow> Inl (bad_request msg)
      | Inr (kind, header, username) \<Rightarrow>
          map_sum id
            (\<lambda>tags. \<lparr>sx_description = trim (or_empty (sf_description form)), sx_max_tier = tier_as_int max_tier,
                     sx_injection_kind = kind, sx_injection_header = header, sx_injection_username = username,
                     sx_enabled = (sf_enabled form \<noteq> None), sx_tags = tags\<rparr>)
            (parse_tags_field (or_empty (sf_tags form)))))"

definition update_secret_rest ::
  "ui_env \<Rightarrow> post_call \<Rightarrow> uuid \<Rightarrow> secret_settings_form \<Rightarrow> operator \<Rightarrow> db \<Rightarrow> ui_result" where
  "update_secret_rest ue call i form op d =
     (case secret_settings_of form of
        Inl e \<Rightarrow> (Inl e, d)
      | Inr x \<Rightarrow>
          (case update_secret_settings_audited (env_collate (ue_api ue)) (uc_now call) i x (op_subject op) d of
             Inl e \<Rightarrow> (Inl (ui_internal e), d)
           | Inr (Secret_Updated, d') \<Rightarrow> (Inr (See_Other ''/ui/secrets''), d')
           | Inr (Secret_Managed, d') \<Rightarrow> (Inl (conflict MANAGED_SECRET), d')
           | Inr (Secret_NotFound, d') \<Rightarrow> (Inl (conflict ''that secret was deleted while you were editing it''), d')))"

definition update_secret where
  "update_secret ue us call i form =
     guarded ue us call R_SECRET_UPDATE (env_uuid_str (ue_api ue) i) [] (sf_csrf_token form) (update_secret_rest ue call i form)"

definition nonempty_value :: "string option \<Rightarrow> ui_error + bytes" where
  "nonempty_value v =
     (case v of
        None \<Rightarrow> Inl (bad_request ''secret value is required'')
      | Some raw \<Rightarrow> if raw = [] then Inl (bad_request ''secret value is required'') else Inr raw)"

definition version_seal :: "ui_env \<Rightarrow> ui_state \<Rightarrow> post_call \<Rightarrow> bytes \<Rightarrow> uuid \<Rightarrow> int \<Rightarrow> seal_fn" where
  "version_seal ue us call value sid version =
     seal_fn_of (keyset_seal (env_aead (ue_api ue)) (env_uuid_str (ue_api ue)) (uc_random call)
       (app_keyset (us_app us)) value (AadSecretVersion sid version))"

definition editable_secret :: "uuid \<Rightarrow> db \<Rightarrow> ui_error + secret_row" where
  "editable_secret i d =
     (case secret_by_id i d of
        None \<Rightarrow> Inl (Ui_Error 404 (Text ''no such secret''))
      | Some s \<Rightarrow> if sec_managed_by_config s then Inl (conflict MANAGED_SECRET) else Inr s)"

definition rotate_rest ::
  "ui_env \<Rightarrow> ui_state \<Rightarrow> post_call \<Rightarrow> db \<Rightarrow> uuid \<Rightarrow> string option \<Rightarrow> operator \<Rightarrow> db \<Rightarrow> ui_result" where
  "rotate_rest ue us call dr i secret_value op d =
     (case nonempty_value secret_value of
        Inl e \<Rightarrow> (Inl e, d)
      | Inr value \<Rightarrow>
     (case editable_secret i dr of
        Inl e \<Rightarrow> (Inl e, d)
      | Inr s \<Rightarrow>
     (case rotate_secret_version (uc_now call) (uc_version_id call) (sec_id s) (sec_name s) (op_subject op)
             (version_seal ue us call value (sec_id s)) d of
        Inl e \<Rightarrow> (Inl (ui_internal e), d)
      | Inr (None, d') \<Rightarrow> (Inl (conflict ''that secret was deleted while you were editing it; nothing was stored''), d')
      | Inr (Some _, d') \<Rightarrow> (Inr (See_Other ''/ui/secrets''), d'))))"

definition rotate_secret where
  "rotate_secret ue us call dr i token secret_value =
     guarded ue us call R_SECRET_ROTATE (env_uuid_str (ue_api ue) i) [] token (rotate_rest ue us call dr i secret_value)"

record secret_form =
  se_csrf_token :: string
  se_name :: string
  se_secret_value :: "string option"
  se_description :: "string option"
  se_max_tier :: "string option"
  se_injection_kind :: "string option"
  se_injection_header :: "string option"
  se_injection_scope :: "string option"

definition save_new ::
  "ui_env \<Rightarrow> ui_state \<Rightarrow> post_call \<Rightarrow> string \<Rightarrow> bytes \<Rightarrow> secret_form \<Rightarrow> operator \<Rightarrow> db \<Rightarrow> ui_result" where
  "save_new ue us call name value form op d =
     (case (case non_empty (se_max_tier form) of
              None \<Rightarrow> Inr Tier_Brokered
            | Some raw \<Rightarrow> (case tier_from_str raw of Some t \<Rightarrow> Inr t | None \<Rightarrow> Inl (bad_request ''invalid max_tier''))) of
        Inl e \<Rightarrow> (Inl e, d)
      | Inr max_tier \<Rightarrow>
     (case validate_injection (case non_empty (se_injection_kind form) of Some k \<Rightarrow> k | None \<Rightarrow> ''bearer'')
             (non_empty (se_injection_header form)) (non_empty (se_injection_scope form)) of
        Inl msg \<Rightarrow> (Inl (bad_request msg), d)
      | Inr (kind, header, username) \<Rightarrow>
     (case create_secret_with_version (uc_now call) (uc_version_id call)
             \<lparr>sp_secret_id = uc_secret_id call, sp_name = name,
              sp_description = or_empty (non_empty (se_description form)), sp_max_tier = tier_as_int max_tier,
              sp_injection_kind = kind, sp_injection_header = header, sp_injection_username = username,
              sp_seal = version_seal ue us call value (uc_secret_id call) 1\<rparr> (op_subject op) d of
        Inl e \<Rightarrow> (Inl (ui_internal e), d)
      | Inr (False, d') \<Rightarrow>
          (Inl (conflict ''a secret with that name was just created by someone else. Reload the page: submitting again would ROTATE it, not create it.''), d')
      | Inr (True, d') \<Rightarrow> (Inr (See_Other ''/ui/secrets''), d'))))"

definition save_rest ::
  "ui_env \<Rightarrow> ui_state \<Rightarrow> post_call \<Rightarrow> db \<Rightarrow> secret_form \<Rightarrow> operator \<Rightarrow> db \<Rightarrow> ui_result" where
  "save_rest ue us call dr form op d =
     (let name = trim (se_name form)
      in if name = [] then (Inl (bad_request ''secret name is required''), d)
         else
     (case nonempty_value (se_secret_value form) of
        Inl e \<Rightarrow> (Inl e, d)
      | Inr value \<Rightarrow>
     (case get_secret_by_name name dr of
        Some existing \<Rightarrow>
          if sec_managed_by_config existing then (Inl (conflict MANAGED_SECRET), d)
          else
            (case rotate_secret_version (uc_now call) (uc_version_id call) (sec_id existing) (sec_name existing)
                    (op_subject op) (version_seal ue us call value (sec_id existing)) d of
               Inl e \<Rightarrow> (Inl (ui_internal e), d)
             | Inr (None, d') \<Rightarrow>
                 (Inl (conflict ''that secret was deleted while you were editing it. Reload the page: submitting again would CREATE it, not rotate it.''), d')
             | Inr (Some _, d') \<Rightarrow> (Inr (See_Other ''/ui/secrets''), d'))
      | None \<Rightarrow> save_new ue us call name value form op d)))"

definition save_secret where
  "save_secret ue us call dr form =
     guarded ue us call R_SECRET_SAVE [] [] (se_csrf_token form) (save_rest ue us call dr form)"

section \<open>The router\<close>

text \<open>The POST routes, with what the extractors give the handlers.\<close>

datatype ui_post =
    P_approve approve_reads uuid approve_form
  | P_deny uuid string
  | P_revoke uuid string
  | P_create_policy policy_form
  | P_update_policy uuid policy_form
  | P_delete_policy db uuid string
  | P_save_secret db secret_form
  | P_update_secret uuid secret_settings_form
  | P_rotate_secret db uuid string "string option"
  | P_review_secret db uuid string "string option"
  | P_mark_reviewed uuid string string
  | P_delete_secret_page db uuid string
  | P_delete_secret db uuid string string

fun ui_router ::
  "ui_env \<Rightarrow> ui_state \<Rightarrow> post_call \<Rightarrow> ui_post \<Rightarrow> jwks_cache \<Rightarrow> db \<Rightarrow> (ui_error + ui_response) \<times> jwks_cache \<times> db" where
  "ui_router ue us call (P_approve rds i form) = approve ue us call rds i form"
| "ui_router ue us call (P_deny i token) = deny ue us call i token"
| "ui_router ue us call (P_revoke i token) = revoke ue us call i token"
| "ui_router ue us call (P_create_policy form) = create_policy ue us call form"
| "ui_router ue us call (P_update_policy i form) = update_policy ue us call i form"
| "ui_router ue us call (P_delete_policy dr i token) = ui_delete_policy ue us call dr i token"
| "ui_router ue us call (P_save_secret dr form) = save_secret ue us call dr form"
| "ui_router ue us call (P_update_secret i form) = update_secret ue us call i form"
| "ui_router ue us call (P_rotate_secret dr i token value) = rotate_secret ue us call dr i token value"
| "ui_router ue us call (P_review_secret dr i token reveal) = review_secret ue us call dr i token reveal"
| "ui_router ue us call (P_mark_reviewed i token v) = mark_reviewed ue us call i token v"
| "ui_router ue us call (P_delete_secret_page dr i token) = delete_secret_page ue us call dr i token"
| "ui_router ue us call (P_delete_secret dr i token v) = delete_secret ue us call dr i token v"

end
