(* ===== verification/Ui_System.thy ===== *)
theory Ui_System
  imports Ui
begin

text \<open>
  The operator interface over the store: what its handlers change is audited under the operator, every
  handler is a sequence of the store's transactions, nothing happens before the guard has passed, and an
  approval stays within what was requested and reviewed.
\<close>

section \<open>Attribution\<close>

definition audited_by :: "string \<Rightarrow> db \<Rightarrow> db \<Rightarrow> bool" where
  "audited_by actor d d' \<longleftrightarrow>
     d' = d \<or> (\<exists>evs. evs \<noteq> [] \<and> db_audit d' = db_audit d @ evs \<and> (\<forall>x \<in> set evs. ae_actor (snd x) = Some actor))"

named_theorems attribution

lemma audited_by_refl [simp]: "audited_by actor d d"
  by (simp add: audited_by_def)

lemma audited_by_insert:
  "db_audit d1 = db_audit d \<Longrightarrow> ae_actor e = Some actor \<Longrightarrow> audited_by actor d (insert_audit now e d1)"
  by (simp add: audited_by_def insert_audit_def)

lemma audited_by_more:
  "db_audit d1 = db_audit d @ evs \<Longrightarrow> \<forall>x \<in> set evs. ae_actor (snd x) = Some actor \<Longrightarrow> ae_actor e = Some actor \<Longrightarrow>
   audited_by actor d (insert_audit now e d1)"
  by (auto simp: audited_by_def insert_audit_def)

lemma resolve_deny_attribution [attribution]:
  "resolve_deny now rid actor reason d = Inr (b, d') \<Longrightarrow> audited_by actor d d'"
  by (auto simp: resolve_deny_def Let_def intro!: audited_by_insert split: option.splits)

lemma revoke_grant_attribution [attribution]:
  "revoke_grant now gid actor d = (b, d') \<Longrightarrow> audited_by actor d d'"
  by (auto simp: revoke_grant_def revoked_event_def Let_def intro!: audited_by_insert split: option.splits)

lemma insert_policy_attribution [attribution]:
  "insert_policy_audited uuid_str now i p actor d = Inr (pid, d') \<Longrightarrow> audited_by actor d d'"
  by (auto simp: insert_policy_audited_def insert_policy_row_def policy_created_event_def
      intro!: audited_by_insert split: sum.splits if_splits)

lemma delete_policy_attribution [attribution]:
  "delete_policy_audited uuid_str now i actor d = (b, d') \<Longrightarrow> audited_by actor d d'"
  by (auto simp: delete_policy_audited_def policy_deleted_event_def intro!: audited_by_insert split: option.splits)

lemma update_policy_attribution [attribution]:
  "update_policy_audited uuid_str now i p actor d = Inr (u, d') \<Longrightarrow> audited_by actor d d'"
  by (auto simp: update_policy_audited_def intro!: audited_by_insert split: option.splits if_splits)

lemma create_secret_attribution [attribution]:
  "create_secret_with_version now fv sp actor d = Inr (b, d') \<Longrightarrow> audited_by actor d d'"
  by (auto simp: create_secret_with_version_def table_simps intro!: audited_by_insert
      split: option.splits sum.splits)

lemma rotate_attribution [attribution]:
  "rotate_secret_version now fv sid nm actor sl d = Inr (v, d') \<Longrightarrow> audited_by actor d d'"
  by (auto simp: rotate_secret_version_def bump_current_version_def Let_def table_simps intro!: audited_by_insert
      split: option.splits sum.splits if_splits)

lemma settings_attribution [attribution]:
  "update_secret_settings_audited collate now sid x actor d = Inr (u, d') \<Longrightarrow> audited_by actor d d'"
  by (auto simp: update_secret_settings_audited_def clear_tags_def Let_def intro!: audited_by_insert
      split: option.splits sum.splits if_splits dest!: insert_tags_Inr)

lemma vetted_attribution [attribution]:
  "mark_secret_vetted now sid v actor d = Inr (b, d') \<Longrightarrow> audited_by actor d d'"
  by (auto simp: mark_secret_vetted_def Let_def intro!: audited_by_insert split: if_splits option.splits)

lemma delete_secret_attribution [attribution]:
  "delete_secret_audited now sid v actor d = (del, d') \<Longrightarrow> audited_by actor d d'"
  by (auto simp: delete_secret_audited_def delete_secret_cascade_def revoked_event_def Let_def
      intro!: audited_by_more split: option.splits if_splits)

lemma approve_store_attribution:
  assumes "approve_store now rid fv actor s d = Inr (Some d')"
  shows "\<exists>t e. db_audit d' = db_audit d @ [(t, e)] \<and> ae_actor e = Some actor"
  using assms by (auto simp: approve_store_def table_simps insert_audit_def split: option.splits sum.splits)

lemma approve_request_attribution [attribution]:
  assumes "approve_request now fv rid actor gid g store d = Inr (out, d')"
  shows "audited_by actor d d'"
  using assms
  by (auto simp: approve_request_def approved_event_def Let_def table_simps intro: audited_by_insert audited_by_more
      split: option.splits sum.splits if_splits dest!: approve_store_attribution)

section \<open>The handlers under the guard\<close>

text \<open>What the form token of a POST has to be issued for: its route, the row it acts on, and the state
  the form showed; with the token the form carries.\<close>

fun post_purpose :: "ui_env \<Rightarrow> ui_post \<Rightarrow> string \<times> string \<times> string \<times> string" where
  "post_purpose ue (P_approve rds i form) =
     (R_APPROVE, env_uuid_str (ue_api ue) i, or_empty (non_empty (af_secret_present form)), af_csrf_token form)"
| "post_purpose ue (P_deny i token) = (R_DENY, env_uuid_str (ue_api ue) i, [], token)"
| "post_purpose ue (P_revoke i token) = (R_REVOKE, env_uuid_str (ue_api ue) i, [], token)"
| "post_purpose ue (P_create_policy form) = (R_POLICY_CREATE, [], [], pf_csrf_token form)"
| "post_purpose ue (P_update_policy i form) = (R_POLICY_UPDATE, env_uuid_str (ue_api ue) i, [], pf_csrf_token form)"
| "post_purpose ue (P_delete_policy dr i token) = (R_POLICY_DELETE, env_uuid_str (ue_api ue) i, [], token)"
| "post_purpose ue (P_save_secret dr form) = (R_SECRET_SAVE, [], [], se_csrf_token form)"
| "post_purpose ue (P_update_secret i form) = (R_SECRET_UPDATE, env_uuid_str (ue_api ue) i, [], sf_csrf_token form)"
| "post_purpose ue (P_rotate_secret dr i token v) = (R_SECRET_ROTATE, env_uuid_str (ue_api ue) i, [], token)"
| "post_purpose ue (P_review_secret dr i token reveal) = (R_SECRET_REVEAL, env_uuid_str (ue_api ue) i, [], token)"
| "post_purpose ue (P_mark_reviewed i token v) = (R_SECRET_VET, env_uuid_str (ue_api ue) i, v, token)"
| "post_purpose ue (P_delete_secret_page dr i token) = (R_SECRET_DELETE, env_uuid_str (ue_api ue) i, [], token)"
| "post_purpose ue (P_delete_secret dr i token v) = (R_SECRET_DELETE_CONFIRM, env_uuid_str (ue_api ue) i, v, token)"

fun post_rest :: "ui_env \<Rightarrow> ui_state \<Rightarrow> post_call \<Rightarrow> ui_post \<Rightarrow> operator \<Rightarrow> db \<Rightarrow> ui_result" where
  "post_rest ue us call (P_approve rds i form) = approve_rest ue us call rds i form"
| "post_rest ue us call (P_deny i token) = deny_rest call i"
| "post_rest ue us call (P_revoke i token) = revoke_rest call i"
| "post_rest ue us call (P_create_policy form) = create_policy_rest ue call form"
| "post_rest ue us call (P_update_policy i form) = update_policy_rest ue call i form"
| "post_rest ue us call (P_delete_policy dr i token) = delete_policy_rest ue call dr i"
| "post_rest ue us call (P_save_secret dr form) = save_rest ue us call dr form"
| "post_rest ue us call (P_update_secret i form) = update_secret_rest ue call i form"
| "post_rest ue us call (P_rotate_secret dr i token v) = rotate_rest ue us call dr i v"
| "post_rest ue us call (P_review_secret dr i token reveal) = review_rest ue us call dr i reveal"
| "post_rest ue us call (P_mark_reviewed i token v) = mark_reviewed_rest call i v"
| "post_rest ue us call (P_delete_secret_page dr i token) = delete_page_rest ue us call dr i"
| "post_rest ue us call (P_delete_secret dr i token v) = delete_secret_rest call dr i v"

lemmas handler_defs = approve_def deny_def revoke_def create_policy_def update_policy_def ui_delete_policy_def
  save_secret_def update_secret_def rotate_secret_def review_secret_def mark_reviewed_def delete_secret_page_def
  delete_secret_def

lemma ui_router_guarded:
  "post_purpose ue p = (route, action_id, form_state, token) \<Longrightarrow>
   ui_router ue us call p = guarded ue us call route action_id form_state token (post_rest ue us call p)"
  by (cases p) (auto simp: handler_defs)

lemma guarded_cases:
  assumes "guarded ue us call route action_id form_state token rest cache d = (r, c, d')"
  obtains (Rejected) e where "r = Inl e" "d' = d"
  | (Passed) op where "operator_of ue us call cache = (Inr op, c)"
      "browser_metadata_ok (ue_csrf ue) (cfg_external_url (us_config us)) (cfg_tls (us_config us) \<noteq> None) (uc_headers call)"
      "verify_token (ue_csrf ue) (app_keyset (us_app us)) route action_id (op_subject op) form_state token (uc_utc call)"
      "rest op d = (r, d')"
  using assms that
  by (auto simp: guarded_def post_guard_def check_post_def split: prod.splits sum.splits if_splits)

text \<open>The two laws of a handler's rest: what it changes is audited under the operator, and it runs
  transactions of the store at the clock of the call.\<close>

locale ui_handler =
  fixes rest :: "operator \<Rightarrow> db \<Rightarrow> ui_result" and now :: time
  assumes attributed: "rest op d = (r, d') \<Longrightarrow> audited_by (op_subject op) d d'"
    and transacting: "rest op d = (r, d') \<Longrightarrow> transacts w now d d'"
begin

lemma guarded_effect:
  assumes "guarded ue us call route action_id form_state token rest cache d = (r, c, d')"
    and "(\<exists>page. r = Inr page) \<or> d' \<noteq> d"
  shows "\<exists>op. operator_of ue us call cache = (Inr op, c)
      \<and> browser_metadata_ok (ue_csrf ue) (cfg_external_url (us_config us)) (cfg_tls (us_config us) \<noteq> None) (uc_headers call)
      \<and> verify_token (ue_csrf ue) (app_keyset (us_app us)) route action_id (op_subject op) form_state token (uc_utc call)
      \<and> audited_by (op_subject op) d d'"
  using assms(1)
proof (cases rule: guarded_cases)
  case (Passed op)
  then show ?thesis using attributed by blast
qed (use assms in auto)

lemma guarded_transacts:
  assumes "guarded ue us call route action_id form_state token rest cache d = (r, c, d')"
  shows "transacts w now d d'"
  using assms by (cases rule: guarded_cases) (auto intro: transacting)

end

lemmas small_rest_defs = deny_rest_def revoke_rest_def create_policy_rest_def update_policy_rest_def
  delete_policy_rest_def update_secret_rest_def mark_reviewed_rest_def delete_page_rest_def delete_secret_rest_def

lemmas operator_steps = S_deny S_revoke S_policy_created S_policy_updated S_policy_deleted S_create_version S_rotate
  S_vet S_settings S_delete

lemma small_rest_attributed:
  "deny_rest call rid op d = (r, d') \<Longrightarrow> audited_by (op_subject op) d d'"
  "revoke_rest call rid op d = (r, d') \<Longrightarrow> audited_by (op_subject op) d d'"
  "create_policy_rest ue call pform op d = (r, d') \<Longrightarrow> audited_by (op_subject op) d d'"
  "update_policy_rest ue call i pform op d = (r, d') \<Longrightarrow> audited_by (op_subject op) d d'"
  "delete_policy_rest ue call dr i op d = (r, d') \<Longrightarrow> audited_by (op_subject op) d d'"
  "update_secret_rest ue call i sform op d = (r, d') \<Longrightarrow> audited_by (op_subject op) d d'"
  "mark_reviewed_rest call i v op d = (r, d') \<Longrightarrow> audited_by (op_subject op) d d'"
  "delete_page_rest ue us call dr i op d = (r, d') \<Longrightarrow> audited_by (op_subject op) d d'"
  "delete_secret_rest call dr i v op d = (r, d') \<Longrightarrow> audited_by (op_subject op) d d'"
  by (auto simp: small_rest_defs Let_def dest: attribution split: sum.splits prod.splits option.splits if_splits
      update_policy_outcome.splits update_secret_outcome.splits delete_secret_outcome.splits)

lemma small_rest_transacts:
  "deny_rest call rid op d = (r, d') \<Longrightarrow> transacts w (uc_now call) d d'"
  "revoke_rest call rid op d = (r, d') \<Longrightarrow> transacts w (uc_now call) d d'"
  "create_policy_rest ue call pform op d = (r, d') \<Longrightarrow> transacts w (uc_now call) d d'"
  "update_policy_rest ue call i pform op d = (r, d') \<Longrightarrow> transacts w (uc_now call) d d'"
  "delete_policy_rest ue call dr i op d = (r, d') \<Longrightarrow> transacts w (uc_now call) d d'"
  "update_secret_rest ue call i sform op d = (r, d') \<Longrightarrow> transacts w (uc_now call) d d'"
  "mark_reviewed_rest call i v op d = (r, d') \<Longrightarrow> transacts w (uc_now call) d d'"
  "delete_page_rest ue us call dr i op d = (r, d') \<Longrightarrow> transacts w (uc_now call) d d'"
  "delete_secret_rest call dr i v op d = (r, d') \<Longrightarrow> transacts w (uc_now call) d d'"
  by (auto simp: small_rest_defs Let_def intro: transacts_one operator_steps
      split: sum.splits prod.splits option.splits if_splits
      update_policy_outcome.splits update_secret_outcome.splits delete_secret_outcome.splits)

lemma review_rest_laws:
  "review_rest ue us call dr i reveal op d = (r, d') \<Longrightarrow> audited_by (op_subject op) d d' \<and> transacts w (uc_now call) d d'"
  by (auto simp: review_rest_def Let_def intro!: audited_by_insert transacts_one S_completed
      split: option.splits if_splits sum.splits)

lemma rotate_rest_laws:
  "rotate_rest ue us call dr i v op d = (r, d') \<Longrightarrow> audited_by (op_subject op) d d' \<and> transacts w (uc_now call) d d'"
  by (auto simp: rotate_rest_def dest: attribution intro: transacts_one S_rotate
      split: sum.splits option.splits prod.splits)

lemma save_rest_laws:
  assumes "save_rest ue us call dr form op d = (r, d')"
  shows "audited_by (op_subject op) d d' \<and> transacts w (uc_now call) d d'"
proof -
  have "audited_by (op_subject op) d d' \<and> transacts w (uc_now call) d d'"
    if "save_new ue us call n v form op d = (r, d')" for n v
    using that by (auto simp: save_new_def dest: attribution intro: transacts_one S_create_version
        split: sum.splits option.splits prod.splits bool.splits)
  then show ?thesis
    using assms by (auto simp: save_rest_def Let_def dest: attribution intro: transacts_one S_rotate
        split: if_splits sum.splits option.splits prod.splits)
qed

lemma approve_commit_attributed:
  "approve_commit call rid row ttl uses rl op d = (r, d') \<Longrightarrow> audited_by (op_subject op) d d'"
  by (auto simp: approve_commit_def dest: attribution split: sum.splits prod.splits approve_outcome.splits)

lemma approve_commit_transacts:
  assumes "approve_commit call rid row ttl uses rl op d = (r, d')"
    and "\<And>s. rl_store rl = Some s \<Longrightarrow> sp_name s = rl_name rl"
  shows "transacts w (uc_now call) d d'"
  using assms
  by (auto simp: approve_commit_def approved_grant_def intro!: transacts_one S_approve
      split: sum.splits prod.splits approve_outcome.splits)

text \<open>A handler's rest either stops, or commits the release of one secret.\<close>

lemma approve_rest_cases:
  assumes "approve_rest ue us call rds rid form op d = (r, d')"
  obtains (Stop) "d' = d" "\<forall>x. r \<noteq> Inr (See_Other x)"
  | (Stored) row m c ttl uses s rl where "get_request rid (rd_request rds) = Some row"
      "approve_row call form row = Inr (m, c, ttl, uses)"
      "get_secret_by_name (ar_secret_name row) (rd_secret rds) = Some s"
      "or_empty (non_empty (af_secret_present form)) = secret_state_marker (Some s)"
      "approve_stored row m s = Inr rl" "approve_commit call rid row ttl uses rl op d = (r, d')"
  | (Substituted) row m c ttl uses raw rl where "get_request rid (rd_request rds) = Some row"
      "approve_row call form row = Inr (m, c, ttl, uses)"
      "get_secret_by_name (ar_secret_name row) (rd_secret rds) = None"
      "or_empty (non_empty (af_secret_present form)) = secret_state_marker None"
      "non_empty (af_substitute_secret form) = Some raw"
      "approve_substitute ue call rds form row m c ttl uses raw = Inl (Inr rl)"
      "approve_commit call rid row ttl uses rl op d = (r, d')"
  | (Entered) row m c ttl uses rl where "get_request rid (rd_request rds) = Some row"
      "approve_row call form row = Inr (m, c, ttl, uses)"
      "get_secret_by_name (ar_secret_name row) (rd_secret rds) = None"
      "or_empty (non_empty (af_secret_present form)) = secret_state_marker None"
      "non_empty (af_substitute_secret form) = None"
      "approve_value ue us call form row m = Inr rl" "approve_commit call rid row ttl uses rl op d = (r, d')"
proof -
  have sub: "page \<noteq> See_Other x" if "approve_substitute ue call rds form row m c ttl uses raw = Inr page"
    for row m c ttl uses raw page x
    using that by (auto simp: approve_substitute_def split: if_splits option.splits)
  show thesis
    using assms sub Stop
    by (auto simp: approve_rest_def Let_def split: option.splits sum.splits prod.splits if_splits
        intro: Stored Substituted Entered)
qed

lemma approve_rest_attributed:
  assumes "approve_rest ue us call rds rid form op d = (r, d')"
  shows "audited_by (op_subject op) d d'"
  using assms by (cases rule: approve_rest_cases) (auto intro: approve_commit_attributed)

lemma release_names:
  "approve_stored row m s = Inr rl \<Longrightarrow> rl_store rl = Some sp \<Longrightarrow> sp_name sp = rl_name rl"
  "approve_substitute ue call rds form row m c ttl uses raw = Inl (Inr rl) \<Longrightarrow> rl_store rl = Some sp \<Longrightarrow> sp_name sp = rl_name rl"
  "approve_value ue us call form row m = Inr rl \<Longrightarrow> rl_store rl = Some sp \<Longrightarrow> sp_name sp = rl_name rl"
  by (auto simp: approve_stored_def approve_substitute_def approve_value_def
      split: if_splits option.splits sum.splits prod.splits decision.splits)

lemma approve_rest_transacts:
  assumes "approve_rest ue us call rds rid form op d = (r, d')"
  shows "transacts w (uc_now call) d d'"
  using assms
proof (cases rule: approve_rest_cases)
  case Stored
  then show ?thesis by (elim approve_commit_transacts release_names(1))
next
  case Substituted
  then show ?thesis by (elim approve_commit_transacts release_names(2))
next
  case Entered
  then show ?thesis by (elim approve_commit_transacts release_names(3))
qed simp

interpretation post: ui_handler "post_rest ue us call p" "uc_now call" for ue us call p
proof
  show "audited_by (op_subject op) d d'" if "post_rest ue us call p op d = (r, d')" for op d r d'
    using that
    by (cases p) (auto dest: small_rest_attributed rotate_rest_laws save_rest_laws review_rest_laws approve_rest_attributed)
  show "transacts w (uc_now call) d d'" if "post_rest ue us call p op d = (r, d')" for op d r d' w
    using that
    by (cases p) (auto dest: small_rest_transacts rotate_rest_laws save_rest_laws review_rest_laws approve_rest_transacts)
qed

lemma ui_router_transacts:
  "ui_router ue us call p cache d = (r, c, d') \<Longrightarrow> transacts w (uc_now call) d d'"
  using post.guarded_transacts by (cases "post_purpose ue p") (simp add: ui_router_guarded)

text \<open>C31: nothing happens in the operator interface without an operator.  When a POST is answered with a page or
  a redirect, or changes the database at all, then the caller was authenticated as an operator, the browser's
  metadata is that of a same-origin submission, the form carried a token that verifies for exactly this route, this
  row, this operator and the state the form showed, and every change is recorded in the audit log under the
  operator's subject.\<close>

theorem ui_posts_guarded:
  assumes "ui_router ue us call p cache d = (r, c, d')" "(\<exists>page. r = Inr page) \<or> d' \<noteq> d"
    and "post_purpose ue p = (route, action_id, form_state, token)"
  shows "\<exists>op. operator_of ue us call cache = (Inr op, c)
    \<and> browser_metadata_ok (ue_csrf ue) (cfg_external_url (us_config us)) (cfg_tls (us_config us) \<noteq> None) (uc_headers call)
    \<and> verify_token (ue_csrf ue) (app_keyset (us_app us)) route action_id (op_subject op) form_state token (uc_utc call)
    \<and> audited_by (op_subject op) d d'"
  using post.guarded_effect assms by (simp add: ui_router_guarded)

section \<open>What an approval grants\<close>

definition within :: "int option \<Rightarrow> int option \<Rightarrow> bool" where
  "within limit uses \<longleftrightarrow> (case limit of None \<Rightarrow> True | Some l \<Rightarrow> (\<exists>u. uses = Some u \<and> u \<le> l))"

text \<open>The three ways to answer a request.\<close>

definition as_reviewed ::
  "ui_env \<Rightarrow> post_call \<Rightarrow> approve_reads \<Rightarrow> approve_form \<Rightarrow> access_request_row \<Rightarrow> mechanism \<Rightarrow> constraints
   \<Rightarrow> grant_row \<Rightarrow> db \<Rightarrow> bool" where
  "as_reviewed ue call rds form row m eff g d' \<longleftrightarrow>
     (case get_secret_by_name (ar_secret_name row) (rd_secret rds) of
        Some s \<Rightarrow>
          or_empty (non_empty (af_secret_present form)) = secret_state_marker (Some s)
          \<and> gr_secret_name g = ar_secret_name row \<and> \<not> gr_passthrough_ephemeral g
          \<and> sec_enabled s \<and> tier_as_int (mech_tier m) \<le> sec_max_tier s
          \<and> secret_incarnation_exists (sec_id s) (gr_secret_name g) d'
      | None \<Rightarrow>
          (case non_empty (af_substitute_secret form) of
             Some raw \<Rightarrow>
               (\<exists>chosen ev. parse_substitute_option raw = Some (sec_current_version chosen, gr_secret_name g)
                  \<and> get_secret_by_name (gr_secret_name g) (rd_chosen rds) = Some chosen \<and> \<not> gr_passthrough_ephemeral g
                  \<and> sec_enabled chosen \<and> tier_as_int (mech_tier m) \<le> sec_max_tier chosen
                  \<and> evaluate_substitution ue rds row chosen m eff (uc_db_now call) = Inr ev
                  \<and> (\<forall>reason. ev_decision ev \<noteq> Dec_Deny reason)
                  \<and> (\<forall>cap. ev_policy_not_after ev = Some cap \<longrightarrow> gr_not_after g \<le> cap)
                  \<and> secret_incarnation_exists (sec_id chosen) (gr_secret_name g) d')
           | None \<Rightarrow>
               take_secret_value form \<noteq> None \<and> gr_secret_name g = ar_secret_name row
               \<and> (if gr_passthrough_ephemeral g then m \<noteq> Mech_Brokered \<and> non_empty (af_store_secret form) = None
                  else \<exists>s \<in> set (db_secrets d'). sec_name s = gr_secret_name g
                         \<and> sec_max_tier s = tier_as_int (mech_tier m) \<and> sec_current_version s = 1)))"

lemma parse_narrow_le: "parse_narrow_u64 input req what = Inr v \<Longrightarrow> v \<le> req"
  by (auto simp: parse_narrow_u64_def split: option.splits if_splits)

lemma narrowed_uses_within: "narrowed_uses input base = Inr uses \<Longrightarrow> within base uses"
  by (auto simp: narrowed_uses_def within_def map_sum_eq_Inr split: option.splits dest: parse_narrow_le)

lemma approve_row_Inr:
  assumes "approve_row call form row = Inr (m, c, ttl, uses)"
  shows "mech_from_str_opt (ar_mechanism row) = Some m" "ar_constraints row = Parsed c"
    "ttl \<le> uint (c_ttl_seconds c)" "within (requested_uses m c) uses"
  using assms
  by (auto simp: approve_row_def parse_mechanism_def parse_constraints_def
      split: if_splits sum.splits option.splits jsonb.splits dest: parse_narrow_le narrowed_uses_within)

lemma cap_at_le: "cap_at cap t \<le> t" "cap_at (Some c) t \<le> c"
  by (auto simp: cap_at_def split: option.splits)

lemma within_min: "within limit uses \<Longrightarrow> within limit (map_option (\<lambda>u. min u I32_MAX) uses)"
  by (auto simp: within_def split: option.splits)

text \<open>The committed grant.\<close>

lemma approve_commit_ok:
  assumes "distinct (map ar_id (db_requests d))"
    and "approve_commit call rid row ttl uses rl op d = (Inr page, d')"
  obtains d1 e where "page = See_Other ''/ui/requests''"
    "rl_passthrough rl = None \<longrightarrow> rl_store rl = None \<longrightarrow> same_secret_row (approved_grant call row ttl uses rl) d"
    "case rl_store rl of None \<Rightarrow> d1 = d
       | Some s \<Rightarrow> approve_store (uc_now call) rid (uc_version_id call) (op_subject op) s d = Inr (Some d1)"
    "db_secrets d' = db_secrets d1"
    "db_grants d' = db_grants d @ [new_grant_row (uc_now call) (uc_grant_id call) rid (approved_grant call row ttl uses rl)]"
proof -
  from assms(2) obtain gid where ok: "approve_request (uc_now call) (uc_version_id call) rid (op_subject op) (uc_grant_id call)
      (approved_grant call row ttl uses rl) (rl_store rl) d = Inr (Approved_as gid, d')" "page = See_Other ''/ui/requests''"
    by (auto simp: approve_commit_def split: sum.splits prod.splits approve_outcome.splits)
  from assms(1) ok(1) show thesis
  proof (cases rule: approve_request_cases)
    case (App r d1 e)
    then show thesis
      by (intro that [of d1] ok(2)) (simp_all add: approved_grant_def insert_audit_def)
  qed simp
qed

lemma approved_grant_bounds:
  assumes "approve_row call form row = Inr (m, c, ttl, uses)"
    and "g = new_grant_row now gid rid (approved_grant call row ttl uses rl)"
  shows "gr_not_after g \<le> uc_db_now call + interval_secs (uint (c_ttl_seconds c))"
    "ar_policy_not_after row = Some cap \<Longrightarrow> gr_not_after g \<le> cap" "rl_cap rl = Some cap \<Longrightarrow> gr_not_after g \<le> cap"
    "within (requested_uses m c) (gr_max_uses g)"
  using approve_row_Inr [OF assms(1)]
    cap_at_le(1) [of "rl_cap rl" "cap_at (ar_policy_not_after row) (uc_db_now call + interval_secs ttl)"]
    cap_at_le(1) [of "ar_policy_not_after row" "uc_db_now call + interval_secs ttl"]
    cap_at_le(2) [of cap "uc_db_now call + interval_secs ttl"]
    cap_at_le(2) [of cap "cap_at (ar_policy_not_after row) (uc_db_now call + interval_secs ttl)"]
  by (auto simp: assms(2) new_grant_row_def approved_grant_def interval_secs_def intro: within_min)

lemma approve_substitute_Inr:
  assumes "approve_substitute ue call rds form row m c ttl uses raw = Inl (Inr rl)"
  obtains chosen ev where "parse_substitute_option raw = Some (sec_current_version chosen, rl_name rl)"
    "get_secret_by_name (rl_name rl) (rd_chosen rds) = Some chosen" "sec_enabled chosen"
    "tier_as_int (mech_tier m) \<le> sec_max_tier chosen"
    "evaluate_substitution ue rds row chosen m (effective_constraints c ttl uses) (uc_db_now call) = Inr ev"
    "\<forall>reason. ev_decision ev \<noteq> Dec_Deny reason" "rl_cap rl = ev_policy_not_after ev"
    "rl_secret_id rl = Some (sec_id chosen)" "rl_store rl = None" "rl_passthrough rl = None"
proof -
  have nm: "sec_name s = n" if "get_secret_by_name n dx = Some s" for n dx s
    using that by (auto simp: get_secret_by_name_def dest: find_Some_mem)
  from assms obtain n chosen where n: "parse_substitute_option raw = Some (sec_current_version chosen, n)"
      "get_secret_by_name n (rd_chosen rds) = Some chosen"
    by (auto simp: approve_substitute_def split: if_splits option.splits)
  with nm [OF n(2)] assms show thesis
    by (auto simp: approve_substitute_def split: if_splits sum.splits decision.splits intro!: that)
qed

lemma store_named:
  assumes "approve_store now rid fv actor s d = Inr (Some d')"
  shows "\<exists>x \<in> set (db_secrets d'). sec_name x = sp_name s \<and> sec_max_tier x = sp_max_tier s \<and> sec_current_version x = 1"
  using assms by (rule approve_store_Inr) (simp add: insert_audit_def new_secret_row_def)

lemma approve_value_Inr:
  assumes "approve_value ue us call form row m = Inr rl"
  shows "take_secret_value form \<noteq> None \<and> rl_name rl = ar_secret_name row
    \<and> (if rl_passthrough rl \<noteq> None then m \<noteq> Mech_Brokered \<and> non_empty (af_store_secret form) = None
       else \<exists>s. rl_store rl = Some s \<and> sp_name s = rl_name rl \<and> sp_max_tier s = tier_as_int (mech_tier m))"
  using assms
  by (auto simp: approve_value_def split: if_splits option.splits sum.splits prod.splits)

text \<open>Each way of answering, committed.\<close>

abbreviation committed_grant :: "post_call \<Rightarrow> uuid \<Rightarrow> access_request_row \<Rightarrow> int \<Rightarrow> int option \<Rightarrow> released \<Rightarrow> grant_row" where
  "committed_grant call rid row ttl uses rl \<equiv>
     new_grant_row (uc_now call) (uc_grant_id call) rid (approved_grant call row ttl uses rl)"

lemmas grant_of_commit = new_grant_row_def approved_grant_def same_secret_row_def secret_incarnation_exists_def

lemma reviewed_stored:
  assumes "distinct (map ar_id (db_requests d))" "approve_commit call rid row ttl uses rl op d = (Inr page, d')"
    and "get_secret_by_name (ar_secret_name row) (rd_secret rds) = Some s"
      "or_empty (non_empty (af_secret_present form)) = secret_state_marker (Some s)" "approve_stored row m s = Inr rl"
  shows "as_reviewed ue call rds form row m eff (committed_grant call rid row ttl uses rl) d'"
proof -
  have rl: "rl_name rl = ar_secret_name row" "rl_secret_id rl = Some (sec_id s)" "rl_store rl = None" "rl_passthrough rl = None"
    "sec_enabled s" "tier_as_int (mech_tier m) \<le> sec_max_tier s"
    using assms(5) by (auto simp: approve_stored_def split: if_splits)
  from assms(1,2) show ?thesis
    by (rule approve_commit_ok) (use assms(3,4) rl in \<open>simp add: as_reviewed_def grant_of_commit\<close>)
qed

lemma reviewed_substituted:
  assumes "distinct (map ar_id (db_requests d))" "approve_commit call rid row ttl uses rl op d = (Inr page, d')"
    and row: "approve_row call form row = Inr (m, c, ttl, uses)"
    and "get_secret_by_name (ar_secret_name row) (rd_secret rds) = None"
      "non_empty (af_substitute_secret form) = Some raw"
      "approve_substitute ue call rds form row m c ttl uses raw = Inl (Inr rl)"
  shows "as_reviewed ue call rds form row m (effective_constraints c ttl uses) (committed_grant call rid row ttl uses rl) d'"
  using assms(1,2)
proof (rule approve_commit_ok)
  fix d1
  assume c: "rl_passthrough rl = None \<longrightarrow> rl_store rl = None \<longrightarrow> same_secret_row (approved_grant call row ttl uses rl) d"
    "case rl_store rl of None \<Rightarrow> d1 = d
       | Some s \<Rightarrow> approve_store (uc_now call) rid (uc_version_id call) (op_subject op) s d = Inr (Some d1)"
    "db_secrets d' = db_secrets d1"
  from assms(6) show ?thesis
    by (rule approve_substitute_Inr)
      (use c assms(4,5) approved_grant_bounds(3) [OF row refl, of rl] in \<open>auto simp: as_reviewed_def grant_of_commit\<close>)
qed

lemma reviewed_entered:
  assumes "distinct (map ar_id (db_requests d))" "approve_commit call rid row ttl uses rl op d = (Inr page, d')"
    and "get_secret_by_name (ar_secret_name row) (rd_secret rds) = None"
      "non_empty (af_substitute_secret form) = None" "approve_value ue us call form row m = Inr rl"
  shows "as_reviewed ue call rds form row m eff (committed_grant call rid row ttl uses rl) d'"
  using assms(1,2)
proof (rule approve_commit_ok)
  fix d1
  assume c: "case rl_store rl of None \<Rightarrow> d1 = d
      | Some s \<Rightarrow> approve_store (uc_now call) rid (uc_version_id call) (op_subject op) s d = Inr (Some d1)"
    "db_secrets d' = db_secrets d1"
  note v = approve_value_Inr [OF assms(5)]
  have "\<exists>s \<in> set (db_secrets d'). sec_name s = rl_name rl \<and> sec_max_tier s = tier_as_int (mech_tier m)
      \<and> sec_current_version s = 1" if "rl_passthrough rl = None"
    using that v c store_named by fastforce
  with assms(3,4) v show ?thesis
    by (simp add: as_reviewed_def new_grant_row_def approved_grant_def)
qed

lemma approve_rest_grants:
  assumes ids: "distinct (map ar_id (db_requests d))"
    and res: "approve_rest ue us call rds rid form op d = (Inr (See_Other x), d')"
  obtains row m c ttl uses rl where "get_request rid (rd_request rds) = Some row"
    "approve_row call form row = Inr (m, c, ttl, uses)"
    "db_grants d' = db_grants d @ [committed_grant call rid row ttl uses rl]"
    "as_reviewed ue call rds form row m (effective_constraints c ttl uses) (committed_grant call rid row ttl uses rl) d'"
proof -
  have g: "db_grants d' = db_grants d @ [committed_grant call rid row ttl uses rl]"
    if "approve_commit call rid row ttl uses rl op d = (Inr (See_Other x), d')" for row ttl uses rl
    using ids that by (rule approve_commit_ok)
  from res show thesis
  proof (cases rule: approve_rest_cases)
    case (Stored row m c ttl uses s rl)
    then show thesis
      by (intro that [OF Stored(1,2)] g) (auto intro: reviewed_stored [OF ids])
  next
    case (Substituted row m c ttl uses raw rl)
    then show thesis
      by (intro that [OF Substituted(1,2)] g) (auto intro: reviewed_substituted [OF ids])
  next
    case (Entered row m c ttl uses rl)
    then show thesis
      by (intro that [OF Entered(1,2)] g) (auto intro: reviewed_entered [OF ids])
  qed (use res in simp)
qed

text \<open>C32: an approval grants what was reviewed and no more than was asked.  In a reachable database, when the approve
  handler answers with its redirect, one grant has been added.  It is for the client, mechanism and
  constraints of the request; it expires no later than the time to live the request asked for and than the
  policy the request matched; its uses are at most those requested, one for a releasing mechanism.  What it releases is the
  stored secret of the reviewed version, enabled and of sufficient tier; or the enabled secret the
  operator picked at the version shown, that standing policy does not deny and whose policy cap it keeps; or a
  value the operator entered, kept for this grant only or stored at exactly the mechanism's tier.\<close>

theorem approval_within_request:
  assumes "reach w (t, d)" "approve ue us call rds rid form cache d = (Inr (See_Other x), c, d')"
  shows "\<exists>row m con ttl uses g. get_request rid (rd_request rds) = Some row
    \<and> mech_from_str_opt (ar_mechanism row) = Some m \<and> ar_constraints row = Parsed con
    \<and> db_grants d' = db_grants d @ [g] \<and> gr_request_id g = rid \<and> gr_client_name g = ar_client_name row
    \<and> gr_mechanism g = ar_mechanism row \<and> gr_constraints g = ar_constraints row
    \<and> gr_not_after g \<le> uc_db_now call + interval_secs (uint (c_ttl_seconds con))
    \<and> (\<forall>cap. ar_policy_not_after row = Some cap \<longrightarrow> gr_not_after g \<le> cap)
    \<and> within (if is_releasing m then Some 1 else map_option uint (c_max_uses con)) (gr_max_uses g)
    \<and> as_reviewed ue call rds form row m (effective_constraints con ttl uses) g d'"
proof -
  have ids: "distinct (map ar_id (db_requests d))"
    using reach_inv [OF assms(1)] by (simp add: ledger_inv_def requests_inv_def)
  from assms(2) obtain op where "approve_rest ue us call rds rid form op d = (Inr (See_Other x), d')"
    unfolding approve_def by (cases rule: guarded_cases) auto
  with ids show ?thesis
  proof (rule approve_rest_grants)
    fix row m con ttl uses rl
    let ?g = "committed_grant call rid row ttl uses rl"
    assume row: "get_request rid (rd_request rds) = Some row" "approve_row call form row = Inr (m, con, ttl, uses)"
      "db_grants d' = db_grants d @ [?g]"
      "as_reviewed ue call rds form row m (effective_constraints con ttl uses) ?g d'"
    note bounds = approved_grant_bounds [OF row(2) refl]
    have "gr_request_id ?g = rid \<and> gr_client_name ?g = ar_client_name row \<and> gr_mechanism ?g = ar_mechanism row
        \<and> gr_constraints ?g = ar_constraints row"
      by (simp add: new_grant_row_def approved_grant_def)
    with row approve_row_Inr [OF row(2)] bounds(1,2,4) show ?thesis
      unfolding requested_uses_def by blast
  qed
qed

section \<open>An example session\<close>

definition ex_ui_env :: ui_env where
  "ex_ui_env = \<lparr>ue_api = ex_session_env, ue_csrf = ex_csrf_env, ue_jwt = ex_jwt_env,
     ue_date = \<lparr>de_second = (\<lambda>_. 0), de_format_minute = (\<lambda>_. []), de_format_second = (\<lambda>_. []),
       de_parse_minute = (\<lambda>_. None), de_parse_second = (\<lambda>_. None)\<rparr>,
     ue_url_host = ex_url_host\<rparr>"

definition ex_ui_state :: ui_state where
  "ex_ui_state = \<lparr>us_app = ex_app, us_config = ex_config\<lparr>cfg_human_auth :=
     \<lparr>ha_mode = Mode_Static, ha_static = Some \<lparr>sh_token_sha256 = ''abc'', sh_subject = ''alice''\<rparr>, ha_oidc = None\<rparr>\<rparr>\<rparr>"

definition ex_post :: post_call where
  "ex_post = \<lparr>uc_headers = [(''authorization'', ''Bearer abc'')], uc_jwks = ex_jwks_call, uc_unix = 1, uc_utc = 1000000,
     uc_db_now = 1000000, uc_now = 1000001, uc_grant_id = 20, uc_secret_id = 40, uc_version_id = 41,
     uc_policy_id = 42, uc_random = ex_random\<rparr>"

definition ex_pending :: new_access_request where
  "ex_pending = \<lparr>nr_client_name = ''fa'', nr_secret_name = ''tok'', nr_mechanism = ''autofill'',
     nr_constraints = Parsed (cr_constraints ex_fill), nr_expires_at = 901000000, nr_policy_not_after = Some 301000000,
     nr_idem_client = ''fa'', nr_idem_key = ''r1'', nr_idem_mac = ''m''\<rparr>"

definition ex_waiting :: db where
  "ex_waiting = snd (projr (insert_access_request 3 10 ex_pending None ex_s3))"

definition ex_operator :: operator where "ex_operator = \<lparr>op_subject = ''alice''\<rparr>"

abbreviation ex_token :: "string \<Rightarrow> uuid \<Rightarrow> string \<Rightarrow> string" where
  "ex_token route i form_state \<equiv> issue_token ex_csrf_env ex_keyset route (ex_uuid_str i) ''alice'' form_state 0"

lemma ex_waiting_reach: "reach 60 (3, ex_waiting)"
proof -
  have pr: "\<not> isl x \<Longrightarrow> x = Inr (fst (projr x), snd (projr x))" for x :: "store_error + ('a \<times> db)"
    by (cases x) auto
  have "store_step 60 3 ex_s3 ex_waiting"
    unfolding ex_waiting_def by (rule S_insert, rule pr) code_simp
  from run_step [OF run_refl _ this, of 2] show ?thesis
    by (intro reach_run [OF ex_s3_reach]) simp
qed

lemma ex_operator_of: "operator_of ex_ui_env ex_ui_state ex_post Map.empty = (Inr ex_operator, Map.empty)"
proof -
  have "fst (operator_of ex_ui_env ex_ui_state ex_post Map.empty) = Inr ex_operator"
    by code_simp
  moreover have "snd (operator_of ex_ui_env ex_ui_state ex_post cache) = cache" for cache
    by (simp add: operator_of_def ex_ui_state_def authenticate_human_def split: prod.splits sum.splits option.splits)
  ultimately show ?thesis by (simp add: prod_eq_iff)
qed

lemma ex_guarded:
  "guarded ex_ui_env ex_ui_state ex_post route (ex_uuid_str i) form_state (ex_token route i form_state) rest Map.empty d =
     (case rest ex_operator d of (r, d') \<Rightarrow> (r, Map.empty, d'))"
proof -
  have "token_env_ok ex_csrf_env"
    by (simp add: token_env_ok_def ex_csrf_env_def)
  from verify_issued [OF this, of 0] have "verify_token ex_csrf_env ex_keyset route (ex_uuid_str i) ''alice'' form_state
      (ex_token route i form_state) 1000000"
    by (simp add: timestamp_def CSRF_TTL_SECONDS_def)
  moreover have "browser_metadata_ok ex_csrf_env (cfg_external_url (us_config ex_ui_state)) (cfg_tls (us_config ex_ui_state) \<noteq> None)
      (uc_headers ex_post)"
    by code_simp
  ultimately show ?thesis
    by (simp add: guarded_def post_guard_def check_post_def ex_operator_of)
      (simp add: ex_operator_def ex_ui_env_def ex_ui_state_def ex_app_def ex_post_def)
qed

definition ex_reads :: approve_reads where
  "ex_reads = \<lparr>rd_request = ex_waiting, rd_secret = ex_waiting, rd_chosen = ex_waiting, rd_client = ex_waiting,
     rd_tags = ex_waiting, rd_policies = ex_waiting\<rparr>"

definition ex_approval :: approve_form where
  "ex_approval = \<lparr>af_csrf_token = ex_token R_APPROVE 10 ''1:1'', af_secret_present = Some ''1:1'', af_ttl_seconds = Some ''60'',
     af_max_uses = None, af_secret_value = None, af_substitute_secret = None, af_store_secret = None,
     af_store_max_tier = None, af_injection_kind = None, af_injection_header = None, af_store_description = None\<rparr>"

definition ex_approved :: db where
  "ex_approved = snd (approve_rest ex_ui_env ex_ui_state ex_post ex_reads 10 ex_approval ex_operator ex_waiting)"

lemma ex_approve_ok:
  "approve ex_ui_env ex_ui_state ex_post ex_reads 10 ex_approval Map.empty ex_waiting =
     (Inr (See_Other ''/ui/requests''), Map.empty, ex_approved)"
proof -
  have "fst (approve_rest ex_ui_env ex_ui_state ex_post ex_reads 10 ex_approval ex_operator ex_waiting) =
      Inr (See_Other ''/ui/requests'')"
    by code_simp
  moreover have "or_empty (non_empty (af_secret_present ex_approval)) = ''1:1''"
    by code_simp
  moreover have "env_uuid_str (ue_api ex_ui_env) = ex_uuid_str" "af_csrf_token ex_approval = ex_token R_APPROVE 10 ''1:1''"
    by (simp_all add: ex_ui_env_def ex_session_env_def ex_env_def ex_approval_def)
  ultimately show ?thesis
    by (simp add: approve_def ex_guarded ex_approved_def case_prod_beta)
qed

theorem approval_within_request_witness:
  "\<exists>g. db_grants ex_approved = db_grants ex_waiting @ [g] \<and> gr_client_name g = ''fa''
     \<and> gr_not_after g \<le> 301000000 \<and> gr_max_uses g \<noteq> None"
proof -
  have row: "map_option (\<lambda>r. (ar_client_name r, ar_policy_not_after r, map_option is_releasing (mech_from_str_opt (ar_mechanism r))))
      (get_request 10 (rd_request ex_reads)) = Some (''fa'', Some 301000000, Some True)"
    by code_simp
  from approval_within_request [OF ex_waiting_reach ex_approve_ok] show ?thesis
    by (elim exE conjE) (use row in \<open>auto simp: within_def\<close>)
qed

theorem ui_posts_guarded_witness:
  "audited_by ''alice'' ex_waiting ex_approved \<and> ex_approved \<noteq> ex_waiting
   \<and> verify_token ex_csrf_env ex_keyset R_APPROVE (ex_uuid_str 10) ''alice'' ''1:1'' (ex_token R_APPROVE 10 ''1:1'') 1000000"
proof -
  have r: "ui_router ex_ui_env ex_ui_state ex_post (P_approve ex_reads 10 ex_approval) Map.empty ex_waiting =
      (Inr (See_Other ''/ui/requests''), Map.empty, ex_approved)"
    by (simp add: ex_approve_ok)
  have "or_empty (non_empty (af_secret_present ex_approval)) = ''1:1''"
    by code_simp
  then have p: "post_purpose ex_ui_env (P_approve ex_reads 10 ex_approval) =
      (R_APPROVE, ex_uuid_str 10, ''1:1'', ex_token R_APPROVE 10 ''1:1'')"
    by (simp add: ex_ui_env_def ex_session_env_def ex_env_def ex_approval_def)
  have "length (db_grants ex_approved) \<noteq> length (db_grants ex_waiting)"
    by code_simp
  then have "ex_approved \<noteq> ex_waiting"
    by auto
  moreover have c: "ue_csrf ex_ui_env = ex_csrf_env" "app_keyset (us_app ex_ui_state) = ex_keyset" "uc_utc ex_post = 1000000"
    "op_subject ex_operator = ''alice''"
    by (simp_all add: ex_operator_def ex_ui_env_def ex_ui_state_def ex_app_def ex_post_def)
  ultimately show ?thesis
    using ui_posts_guarded [OF r _ p] by (auto simp: ex_operator_of c)
qed

end
