(* ===== verification/Startup.thy ===== *)
theory Startup
  imports Api_System Config
begin

text \<open>
  The start of the server up to the point where it serves requests: the database part of \<open>AppState::init\<close>
  (\<open>server/src/state.rs\<close>) and \<open>reconcile_secrets\<close> (\<open>server/src/db/provision.rs\<close>) over the steps of
  \<open>Provision\<close>.  Starting is a sequence of the store's transactions, and a reconciled secret is settled: reconciling it
  again changes nothing, and reconciling or deleting others does not disturb it.
\<close>

section \<open>Reconciling everything\<close>

text \<open>The loop over the provisioned secrets, each in a transaction of its own: what came before an error stays
  committed.  Every secret comes with the ids drawn for its row and version.\<close>

fun reconcile_each ::
  "(string list \<Rightarrow> string list) \<Rightarrow> (uuid \<Rightarrow> int \<Rightarrow> bytes \<Rightarrow> seal_fn) \<Rightarrow> (secret_version_row \<Rightarrow> bytes option)
   \<Rightarrow> time \<Rightarrow> (uuid \<times> uuid \<times> desired_secret) list \<Rightarrow> db \<Rightarrow> (store_error + (string \<times> secret_change) list) \<times> db" where
  "reconcile_each collate seal unseal now [] d = (Inr [], d)"
| "reconcile_each collate seal unseal now ((fs, fv, x) # xs) d =
     (case reconcile_one_secret collate seal unseal now fs fv x d of
        Inl e \<Rightarrow> (Inl e, d)
      | Inr (change, d1) \<Rightarrow>
          (case reconcile_each collate seal unseal now xs d1 of
             (r, d2) \<Rightarrow> (map_sum id ((#) (ds_name x, change)) r, d2)))"

text \<open>The managed rows no longer listed, in the order of the table, and their deletion.\<close>

definition stale_secrets :: "string list \<Rightarrow> db \<Rightarrow> (uuid \<times> int) list" where
  "stale_secrets names d =
     map (\<lambda>s. (sec_id s, sec_current_version s))
       (filter (\<lambda>s. sec_managed_by_config s \<and> sec_name s \<notin> set names) (db_secrets d))"

fun delete_each :: "time \<Rightarrow> (uuid \<times> int) list \<Rightarrow> db \<Rightarrow> db" where
  "delete_each now [] d = d"
| "delete_each now ((i, v) # xs) d = delete_each now xs (snd (delete_secret_audited now i v CONFIG_ACTOR d))"

definition reconcile_secrets ::
  "(string list \<Rightarrow> string list) \<Rightarrow> (uuid \<Rightarrow> int \<Rightarrow> bytes \<Rightarrow> seal_fn) \<Rightarrow> (secret_version_row \<Rightarrow> bytes option)
   \<Rightarrow> time \<Rightarrow> (uuid \<times> uuid \<times> desired_secret) list \<Rightarrow> db \<Rightarrow> (store_error + (string \<times> secret_change) list) \<times> db" where
  "reconcile_secrets collate seal unseal now desired d =
     (case reconcile_each collate seal unseal now desired d of
        (Inl e, d1) \<Rightarrow> (Inl e, d1)
      | (Inr changes, d1) \<Rightarrow>
          (Inr changes, delete_each now (stale_secrets (map (\<lambda>(fs, fv, x). ds_name x) desired) d1) d1))"

fun to_new_policies :: "(string \<Rightarrow> string option option) \<Rightarrow> policy_config list \<Rightarrow> config_error + new_policy list" where
  "to_new_policies url_host [] = Inr []"
| "to_new_policies url_host (p # ps) =
     (case to_new_policy url_host p of
        Inl e \<Rightarrow> Inl e
      | Inr np \<Rightarrow> map_sum id ((#) np) (to_new_policies url_host ps))"

record startup_env =
  se_collate :: "string list \<Rightarrow> string list"
  se_uuid_str :: "uuid \<Rightarrow> string"
  se_read_file :: "string \<Rightarrow> bytes option"
  se_url_host :: "string \<Rightarrow> string option option"
  se_aead :: aead
  se_keyset :: keyset
  se_random :: "uuid \<Rightarrow> int \<Rightarrow> seal_random"

definition startup_seal :: "startup_env \<Rightarrow> uuid \<Rightarrow> int \<Rightarrow> bytes \<Rightarrow> seal_fn" where
  "startup_seal se sid v val =
     seal_fn_of (keyset_seal (se_aead se) (se_uuid_str se) (se_random se sid v) (se_keyset se) val (AadSecretVersion sid v))"

definition startup_unseal :: "startup_env \<Rightarrow> secret_version_row \<Rightarrow> bytes option" where
  "startup_unseal se r =
     (case keyset_open (se_aead se) (se_uuid_str se) (se_keyset se) (ver_ciphertext r) (ver_nonce r) (ver_wrapped_dek r)
             (ver_kek_id r) (AadSecretVersion (ver_secret_id r) (ver_version r)) of
        Inl _ \<Rightarrow> None
      | Inr plaintext \<Rightarrow> Some plaintext)"

text \<open>The clock of one start, and the ids it draws.\<close>

record startup_call =
  sc_now :: time
  sc_client_id :: "nat \<Rightarrow> uuid"
  sc_secret_id :: "nat \<Rightarrow> uuid"
  sc_version_id :: "nat \<Rightarrow> uuid"
  sc_policy_id :: "nat \<Rightarrow> uuid"

datatype startup_error = Startup_store store_error | Startup_config config_error

definition with_ids :: "(nat \<Rightarrow> 'i) \<Rightarrow> 'a list \<Rightarrow> ('i \<times> 'a) list" where
  "with_ids f xs = zip (map f [0..<length xs]) xs"

text \<open>The part of \<open>AppState::init\<close> that touches the database, after the keyset has been loaded and the
  migrations have run.\<close>

definition init ::
  "startup_env \<Rightarrow> startup_call \<Rightarrow> config \<Rightarrow> db
   \<Rightarrow> (startup_error + (string \<times> secret_change) list \<times> policy_changes) \<times> db" where
  "init se call cfg d =
     (case reconcile_clients (with_ids (sc_client_id call) (cfg_clients cfg)) d of
        Inl e \<Rightarrow> (Inl (Startup_store e), d)
      | Inr d1 \<Rightarrow>
     (case desired_secrets (se_read_file se) (cfg_secrets cfg) of
        Inl e \<Rightarrow> (Inl (Startup_config e), d1)
      | Inr desired \<Rightarrow>
     (case reconcile_secrets (se_collate se) (startup_seal se) (startup_unseal se) (sc_now call)
             (with_ids (sc_secret_id call) (with_ids (sc_version_id call) desired)) d1 of
        (Inl e, d2) \<Rightarrow> (Inl (Startup_store e), d2)
      | (Inr changes, d2) \<Rightarrow>
     (case to_new_policies (se_url_host se) (cfg_policies cfg) of
        Inl e \<Rightarrow> (Inl (Startup_config e), d2)
      | Inr policies \<Rightarrow>
     (case reconcile_policies (se_uuid_str se) (sc_now call) (map (sc_policy_id call) [0..<length policies]) policies d2 of
        Inl e \<Rightarrow> (Inl (Startup_store e), d2)
      | Inr (pch, d3) \<Rightarrow> (Inr (changes, pch), d3))))))"

section \<open>Startup is a sequence of transactions\<close>

lemma reconcile_each_transacts:
  "reconcile_each collate sealf unseal now xs d = (r, d') \<Longrightarrow> transacts w now d d'"
proof (induction xs arbitrary: d r)
  case (Cons x xs)
  obtain fs fv y where x: "x = (fs, fv, y)" by (cases x)
  show ?case
  proof (cases "reconcile_one_secret collate sealf unseal now fs fv y d")
    case (Inl e)
    with Cons.prems show ?thesis by (simp add: x)
  next
    case (Inr cd)
    obtain ch d1 where cd: "cd = (ch, d1)" by (cases cd)
    have "transacts w now d d1"
      by (rule transacts_one, rule S_provision [OF Inr [unfolded cd]])
    moreover obtain r2 where "reconcile_each collate sealf unseal now xs d1 = (r2, d')"
      using Cons.prems Inr by (auto simp: x cd split: prod.splits)
    ultimately show ?thesis
      using Cons.IH by (blast intro: transacts_trans)
  qed
qed simp

lemma delete_each_transacts: "transacts w now d (delete_each now xs d)"
proof (induction now xs d rule: delete_each.induct)
  case (2 now i v xs d)
  have "transacts w now d (snd (delete_secret_audited now i v CONFIG_ACTOR d))"
    by (rule transacts_one, rule S_delete [OF prod.collapse [symmetric]])
  with "2.IH" show ?case by (simp add: transacts_trans)
qed simp

lemma reconcile_secrets_transacts:
  "reconcile_secrets collate sealf unseal now desired d = (r, d') \<Longrightarrow> transacts w now d d'"
  by (auto simp: reconcile_secrets_def split: prod.splits sum.splits
      dest!: reconcile_each_transacts [of _ _ _ _ _ _ _ _ w] intro: transacts_trans delete_each_transacts)

lemma init_transacts: "init se call cfg d = (r, d') \<Longrightarrow> transacts w (sc_now call) d d'"
  by (auto simp: init_def split: sum.splits prod.splits
      dest!: reconcile_secrets_transacts [of _ _ _ _ _ _ _ _ w]
      intro: transacts_one S_clients transacts_trans transacts_step S_policies)

section \<open>Provisioned secrets settle\<close>

text \<open>The database holds the secret as configured: a start would leave it alone.\<close>

definition settled ::
  "(string list \<Rightarrow> string list) \<Rightarrow> (secret_version_row \<Rightarrow> bytes option) \<Rightarrow> desired_secret \<Rightarrow> db \<Rightarrow> bool" where
  "settled collate unseal x d \<longleftrightarrow>
     (\<exists>row v. get_secret_by_name (ds_name x) d = Some row
        \<and> \<not> metadata_differs (get_tags_for_secret collate (sec_id row) d) (remdups_adj (sort_strings (ds_tags x))) x row
        \<and> get_secret_version (sec_id row) (sec_current_version row) d = Some v \<and> unseal v = Some (ds_value x))"

lemma settled_unchanged:
  "settled collate unseal x d \<Longrightarrow>
   reconcile_one_secret collate sealf unseal now fs fv x d = Inr (Change_Unchanged, d)"
  by (auto simp: settled_def reconcile_one_secret_def Let_def)

text \<open>What a settled secret depends on: its row, its tags and the versions of its id.\<close>

lemma settled_frame:
  assumes "settled collate unseal x d"
    and "\<And>row. get_secret_by_name (ds_name x) d = Some row \<Longrightarrow> get_secret_by_name (ds_name x) d' = Some row
      \<and> filter (\<lambda>t. fst t = sec_id row) (db_tags d') = filter (\<lambda>t. fst t = sec_id row) (db_tags d)
      \<and> (\<forall>n v. get_secret_version (sec_id row) n d = Some v \<longrightarrow> get_secret_version (sec_id row) n d' = Some v)"
  shows "settled collate unseal x d'"
  using assms by (fastforce simp: settled_def get_tags_for_secret_def)

lemma settled_insert_audit [simp]: "settled collate unseal x (insert_audit now e d) = settled collate unseal x d"
  by (simp add: settled_def get_secret_by_name_def get_tags_for_secret_def get_secret_version_def insert_audit_def)

text \<open>The tags of one secret under the tag operations.\<close>

abbreviation tags_of :: "uuid \<Rightarrow> db \<Rightarrow> string list" where
  "tags_of sid d \<equiv> map snd (filter (\<lambda>t. fst t = sid) (db_tags d))"

lemma insert_tags_tags:
  assumes "insert_tags sid ts d = Inr d'"
  shows "set (tags_of sid d') = set (tags_of sid d) \<union> set ts
    \<and> (distinct (tags_of sid d) \<longrightarrow> distinct (tags_of sid d'))
    \<and> (\<forall>i. i \<noteq> sid \<longrightarrow> filter (\<lambda>t. fst t = i) (db_tags d') = filter (\<lambda>t. fst t = i) (db_tags d))
    \<and> d' = d\<lparr>db_tags := db_tags d'\<rparr>"
  using assms
proof (induction ts arbitrary: d)
  case (Cons t ts)
  from Cons.prems obtain d1 where d1: "insert_tag sid t d = Inr d1" "insert_tags sid ts d1 = Inr d'"
    by (auto split: sum.splits)
  have one: "set (tags_of sid d1) = insert t (set (tags_of sid d))" "distinct (tags_of sid d) \<longrightarrow> distinct (tags_of sid d1)"
    "\<forall>i. i \<noteq> sid \<longrightarrow> filter (\<lambda>t. fst t = i) (db_tags d1) = filter (\<lambda>t. fst t = i) (db_tags d)"
    "d1 = d\<lparr>db_tags := db_tags d1\<rparr>"
    using d1(1) by (auto simp: insert_tag_def list_ex_iff image_iff split: if_splits)
  note IH = Cons.IH [OF d1(2)]
  have "d' = d\<lparr>db_tags := db_tags d'\<rparr>"
    using IH one(4) by (cases d, cases d1, cases d') simp
  moreover have "set (tags_of sid d') = set (tags_of sid d) \<union> set (t # ts)"
    using IH one(1) by (elim conjE) (simp only: one(1), simp)
  ultimately show ?case
    using IH one(2,3) by (elim conjE) (intro conjI, blast, blast, metis, blast)
qed auto

lemma replace_tags_tags:
  assumes "replace_tags sid ts d = Inr d'"
  shows "set (tags_of sid d') = set ts" "distinct (tags_of sid d')"
    "i \<noteq> sid \<Longrightarrow> filter (\<lambda>t. fst t = i) (db_tags d') = filter (\<lambda>t. fst t = i) (db_tags d)"
    "d' = d\<lparr>db_tags := db_tags d'\<rparr>"
proof -
  have c: "tags_of sid (clear_tags sid d) = []"
    "i \<noteq> sid \<Longrightarrow> filter (\<lambda>t. fst t = i) (db_tags (clear_tags sid d)) = filter (\<lambda>t. fst t = i) (db_tags d)"
    by (auto simp: clear_tags_def del_where_def filter_empty_conv intro: filter_cong)
  note t = insert_tags_tags [OF assms [unfolded replace_tags_def]]
  show "set (tags_of sid d') = set ts" "distinct (tags_of sid d')"
    using t c(1) by auto
  show "i \<noteq> sid \<Longrightarrow> filter (\<lambda>t. fst t = i) (db_tags d') = filter (\<lambda>t. fst t = i) (db_tags d)"
    using t c(2) by simp
  show "d' = d\<lparr>db_tags := db_tags d'\<rparr>"
    using t by (auto simp: clear_tags_def)
qed

text \<open>The byte order is total and antisymmetric, so a sorted list without repetitions is determined by its
  elements.\<close>

lemma insert_sorted_props:
  "set (insert_sorted x xs) = insert x (set xs) \<and> (sorted_wrt bytes_le xs \<longrightarrow> sorted_wrt bytes_le (insert_sorted x xs))"
  using bytes_le_total by (induction xs) (auto intro: bytes_le_trans)

lemma sort_strings_props: "set (sort_strings xs) = set xs" "sorted_wrt bytes_le (sort_strings xs)"
  by (induction xs) (simp_all add: sort_strings_def insert_sorted_props)

lemma insert_sorted_distinct: "distinct (x # xs) \<Longrightarrow> distinct (insert_sorted x xs)"
  by (induction xs) (auto simp: insert_sorted_props)

lemma sort_strings_distinct: "distinct xs \<Longrightarrow> distinct (sort_strings xs)"
proof (induction xs)
  case (Cons x xs)
  then have "distinct (x # sort_strings xs)"
    by (simp add: sort_strings_props)
  then show ?case
    using insert_sorted_distinct by (simp add: sort_strings_def)
qed (simp add: sort_strings_def)

lemma sorted_bytes_remdups: "sorted_wrt bytes_le xs \<Longrightarrow> sorted_wrt bytes_le (remdups_adj xs) \<and> distinct (remdups_adj xs)"
proof (induction xs rule: remdups_adj.induct)
  case (3 x y xs)
  then show ?case
  proof (cases "x = y")
    case False
    have "x \<notin> set (y # xs)"
      using "3.prems" False bytes_le_antisym by fastforce
    with "3" False show ?thesis by auto
  qed simp
qed simp_all

lemma sorted_bytes_unique:
  "sorted_wrt bytes_le xs \<Longrightarrow> sorted_wrt bytes_le ys \<Longrightarrow> distinct xs \<Longrightarrow> distinct ys \<Longrightarrow> set xs = set ys \<Longrightarrow> xs = ys"
proof (induction xs arbitrary: ys)
  case (Cons x xs)
  then obtain y zs where ys: "ys = y # zs"
    by (cases ys) auto
  have "bytes_le x y" "bytes_le y x"
    using Cons.prems by (auto simp: ys)
  then have "x = y"
    by (rule bytes_le_antisym)
  with Cons.prems have "set xs = set zs"
    by (auto simp: ys)
  with Cons \<open>x = y\<close> show ?case
    by (simp add: ys)
qed simp

lemma sorted_tags:
  assumes "set ts = set us" "distinct ts"
  shows "sort_strings ts = remdups_adj (sort_strings us)"
  using assms sorted_bytes_remdups [OF sort_strings_props(2), of us]
  by (intro sorted_bytes_unique) (auto simp: sort_strings_props sort_strings_distinct)

text \<open>What sealing and opening, and the collation, have to satisfy.\<close>

definition opens_sealed :: "(uuid \<Rightarrow> int \<Rightarrow> bytes \<Rightarrow> seal_fn) \<Rightarrow> (secret_version_row \<Rightarrow> bytes option) \<Rightarrow> bool" where
  "opens_sealed sealf unseal \<longleftrightarrow>
     (\<forall>now vid sid v val sl. sealf sid v val = Some sl \<longrightarrow> unseal (new_version_row now vid sid v sl None) = Some val)"

definition byte_collation :: "(string list \<Rightarrow> string list) \<Rightarrow> bool" where
  "byte_collation collate \<longleftrightarrow> (\<forall>ts. collate ts = sort_strings ts)"

lemma find_append: "find P (xs @ ys) = (case find P xs of Some x \<Rightarrow> Some x | None \<Rightarrow> find P ys)"
  by (induction xs) auto

lemma insert_version_found:
  assumes "insert_version sealf now fv sid v val d = Inr d'" "opens_sealed sealf unseal"
  obtains r where "get_secret_version sid v d' = Some r" "unseal r = Some val" "d' = d\<lparr>db_versions := db_versions d @ [r]\<rparr>"
    "ver_secret_id r = sid"
proof -
  from assms(1) obtain sl where sl: "sealf sid v val = Some sl"
    "insert_version_row (new_version_row now fv sid v sl None) d = Inr d'"
    by (auto simp: insert_version_def split: option.splits)
  let ?r = "new_version_row now fv sid v sl None"
  have d': "d' = d\<lparr>db_versions := db_versions d @ [?r]\<rparr>"
    "\<forall>r \<in> set (db_versions d). \<not> (ver_secret_id r = sid \<and> ver_version r = v)"
    using sl(2) by (auto simp: table_simps new_version_row_def)
  have "find (\<lambda>r. ver_secret_id r = sid \<and> ver_version r = v) (db_versions d) = None"
    using d'(2) by (auto simp: find_None_iff)
  then have "get_secret_version sid v d' = Some ?r"
    by (simp add: d'(1) get_secret_version_def find_append) (simp add: new_version_row_def)
  then show thesis
    using that d'(1) assms(2) sl(1) by (auto simp: opens_sealed_def new_version_row_def)
qed

lemma provision_create_settles:
  assumes "provision_create sealf now sid fv x d = Inr (ch, d')" "opens_sealed sealf unseal" "byte_collation collate"
    and "get_secret_by_name (ds_name x) d = None"
  shows "settled collate unseal x d'"
proof -
  from assms(1) obtain row d1 d2 d3 e where row: "row = \<lparr>sec_id = sid, sec_name = ds_name x, sec_description = ds_description x,
       sec_max_tier = ds_max_tier x, sec_injection_kind = ds_injection_kind x, sec_injection_header = ds_injection_header x,
       sec_injection_username = ds_injection_username x, sec_current_version = 1, sec_enabled = True,
       sec_operator_vetted = True, sec_managed_by_config = True, sec_created_at = now, sec_updated_at = now\<rparr>"
     and d: "insert_secret_row row d = Inr d1" "insert_version sealf now fv sid 1 (ds_value x) d1 = Inr d2"
      "replace_tags sid (ds_tags x) d2 = Inr d3" "d' = insert_audit now e d3"
    by (auto simp: provision_create_def Let_def split: sum.splits)
  have d1: "d1 = d\<lparr>db_secrets := db_secrets d @ [row]\<rparr>"
    using d(1) by (simp add: table_simps)
  from d(2) assms(2) obtain r where r: "get_secret_version sid 1 d2 = Some r" "unseal r = Some (ds_value x)"
      "d2 = d1\<lparr>db_versions := db_versions d1 @ [r]\<rparr>"
    by (rule insert_version_found)
  note t = replace_tags_tags [OF d(3)]
  have "get_secret_by_name (ds_name x) d3 = Some row"
    using assms(4) by (subst t(4)) (simp add: get_secret_by_name_def r(3) d1 find_append row)
  moreover have "get_secret_version sid 1 d3 = Some r"
    using r(1) by (subst t(4)) (simp add: get_secret_version_def)
  moreover have "get_tags_for_secret collate sid d3 = remdups_adj (sort_strings (ds_tags x))"
    using assms(3) sorted_tags [OF t(1,2)] by (simp add: get_tags_for_secret_def byte_collation_def)
  ultimately have "settled collate unseal x d3"
    using r(2) by (simp add: settled_def) (simp add: row metadata_differs_def)
  then show ?thesis
    by (simp add: d(4))
qed

interpretation adopt_name: row_update sec_name "adopt_row now x" for now x
  by unfold_locales (simp add: adopt_row_def)

interpretation bump_name: row_update sec_name "bump_version now" for now
  by unfold_locales (simp add: bump_version_def)

lemma provision_metadata_settles:
  assumes "provision_metadata now wanted x row d = Inr d'" "byte_collation collate"
    and "get_secret_by_name (ds_name x) d = Some row" "wanted = remdups_adj (sort_strings (ds_tags x))"
  shows "get_secret_by_name (ds_name x) d' = Some (adopt_row now x row)"
    "\<not> metadata_differs (get_tags_for_secret collate (sec_id row) d') wanted x (adopt_row now x row)"
proof -
  let ?d1 = "d\<lparr>db_secrets := upd_where (\<lambda>s. sec_id s = sec_id row) (adopt_row now x) (db_secrets d)\<rparr>"
  from assms(1) obtain d2 e where d2: "replace_tags (sec_id row) wanted ?d1 = Inr d2" "d' = insert_audit now e d2"
    by (auto simp: provision_metadata_def split: sum.splits if_splits)
  note t = replace_tags_tags [OF d2(1)]
  show "get_secret_by_name (ds_name x) d' = Some (adopt_row now x row)"
    using assms(3) by (simp add: d2(2) get_secret_by_name_def, subst t(4)) simp
  have "get_tags_for_secret collate (sec_id row) d' = wanted"
    using assms(2) sorted_tags [OF _ t(2), of "ds_tags x"] t(1)
    by (simp add: d2(2) get_tags_for_secret_def byte_collation_def assms(4) sort_strings_props)
  then show "\<not> metadata_differs (get_tags_for_secret collate (sec_id row) d') wanted x (adopt_row now x row)"
    by (simp add: metadata_differs_def adopt_row_def)
qed

lemma keyed_find:
  assumes "keyed d" "get_secret_by_name n d = Some row"
  shows "find (\<lambda>s. sec_id s = sec_id row) (db_secrets d) = Some row" "sec_name row = n"
    "get_secret_by_name m d = Some row' \<Longrightarrow> m \<noteq> n \<Longrightarrow> sec_id row' \<noteq> sec_id row"
proof -
  have mem: "row \<in> set (db_secrets d) \<and> sec_name row = n" if "get_secret_by_name n d = Some row" for n row
    using that by (auto simp: get_secret_by_name_def dest: find_Some_mem)
  show "find (\<lambda>s. sec_id s = sec_id row) (db_secrets d) = Some row" "sec_name row = n"
    using mem [OF assms(2)] assms(1) by (auto simp: keyed_def intro: find_key_unique)
  show "get_secret_by_name m d = Some row' \<Longrightarrow> m \<noteq> n \<Longrightarrow> sec_id row' \<noteq> sec_id row"
    using mem [of m row'] mem [OF assms(2)] assms(1) distinct_map_same [of sec_id "db_secrets d" row' row]
    by (auto simp: keyed_def)
qed

lemma provision_rotate_settles:
  assumes "provision_rotate sealf now fv x row d = Inr d'" "opens_sealed sealf unseal" "keyed d"
    and "get_secret_by_name (ds_name x) d = Some row1" "sec_id row1 = sec_id row"
    and "\<not> metadata_differs (get_tags_for_secret collate (sec_id row1) d) (remdups_adj (sort_strings (ds_tags x))) x row1"
  shows "settled collate unseal x d'"
proof -
  note row1 = keyed_find(1) [OF assms(3,4)]
  from assms(1) row1 obtain d2 e where
      d2: "insert_version sealf now fv (sec_id row1) (sec_current_version row1 + 1) (ds_value x)
        (d\<lparr>db_secrets := upd_where (\<lambda>s. sec_id s = sec_id row1) (bump_version now) (db_secrets d)\<rparr>) = Inr d2"
        "d' = insert_audit now e d2"
    by (auto simp: provision_rotate_def bump_current_version_def assms(5) split: sum.splits option.splits if_splits)
  from d2(1) assms(2) obtain r where r: "get_secret_version (sec_id row1) (sec_current_version row1 + 1) d2 = Some r"
      "unseal r = Some (ds_value x)"
      "d2 = d\<lparr>db_secrets := upd_where (\<lambda>s. sec_id s = sec_id row1) (bump_version now) (db_secrets d),
         db_versions := db_versions d @ [r]\<rparr>"
    by (rule insert_version_found) simp
  have "get_secret_by_name (ds_name x) d2 = Some (bump_version now row1)"
    using assms(4) by (simp add: r(3) get_secret_by_name_def)
  moreover have "get_tags_for_secret collate (sec_id row1) d2 = get_tags_for_secret collate (sec_id row1) d"
    by (simp add: r(3) get_tags_for_secret_def)
  ultimately have "settled collate unseal x d2"
    using r(1,2) assms(6) by (simp add: settled_def) (simp add: bump_version_def metadata_differs_def)
  then show ?thesis by (simp add: d2(2))
qed

lemma reconcile_one_existing:
  assumes "reconcile_one_secret collate sealf unseal now fs fv x d = Inr (ch, d')"
    and "get_secret_by_name (ds_name x) d = Some row"
  obtains md d1 where "md = metadata_differs (get_tags_for_secret collate (sec_id row) d) (remdups_adj (sort_strings (ds_tags x))) x row"
    "(if md then provision_metadata now (remdups_adj (sort_strings (ds_tags x))) x row d else Inr d) = Inr d1"
    "(\<exists>v. get_secret_version (sec_id row) (sec_current_version row) d1 = Some v \<and> unseal v = Some (ds_value x)) \<and> d' = d1
     \<or> provision_rotate sealf now fv x row d1 = Inr d'"
  using assms by (auto simp: reconcile_one_secret_def Let_def split: sum.splits option.splits if_splits intro: that)

lemma reconcile_one_settles:
  assumes "reconcile_one_secret collate sealf unseal now fs fv x d = Inr (ch, d')"
    and "opens_sealed sealf unseal" "byte_collation collate" "keyed d"
  shows "settled collate unseal x d'"
proof (cases "get_secret_by_name (ds_name x) d")
  case None
  with assms(1) have "provision_create sealf now fs fv x d = Inr (ch, d')"
    by (simp add: reconcile_one_secret_def)
  from provision_create_settles [OF this assms(2,3) None] show ?thesis .
next
  case (Some row)
  let ?w = "remdups_adj (sort_strings (ds_tags x))"
  from assms(1) Some show ?thesis
  proof (rule reconcile_one_existing)
    fix md d1
    assume md: "md = metadata_differs (get_tags_for_secret collate (sec_id row) d) ?w x row"
      "(if md then provision_metadata now ?w x row d else Inr d) = Inr d1"
      "(\<exists>v. get_secret_version (sec_id row) (sec_current_version row) d1 = Some v \<and> unseal v = Some (ds_value x)) \<and> d' = d1
       \<or> provision_rotate sealf now fv x row d1 = Inr d'"
    define row1 where "row1 = (if md then adopt_row now x row else row)"
    have id: "sec_id row1 = sec_id row" "sec_current_version row1 = sec_current_version row"
      by (simp_all add: row1_def adopt_row_def)
    have r1: "get_secret_by_name (ds_name x) d1 = Some row1 \<and>
        \<not> metadata_differs (get_tags_for_secret collate (sec_id row1) d1) ?w x row1"
      using md(1,2) Some provision_metadata_settles [OF _ assms(3) Some refl, of now d1]
      by (auto simp: row1_def adopt_row_def split: if_splits)
    have "quiet d d1"
      using md(2) by (auto split: if_splits dest: quiet_provision_metadata)
    then have "keyed d1"
      using assms(4) by (simp add: quiet_def)
    from md(3) show ?thesis
    proof
      assume "(\<exists>v. get_secret_version (sec_id row) (sec_current_version row) d1 = Some v \<and> unseal v = Some (ds_value x)) \<and> d' = d1"
      with r1 show ?thesis by (auto simp: settled_def id)
    next
      assume "provision_rotate sealf now fv x row d1 = Inr d'"
      then show ?thesis
        using assms(2) \<open>keyed d1\<close> conjunct1 [OF r1] id(1) conjunct2 [OF r1] by (rule provision_rotate_settles)
    qed
  qed
qed

text \<open>Reconciling one secret leaves what another one depends on.\<close>

definition secret_kept :: "uuid \<Rightarrow> db \<Rightarrow> db \<Rightarrow> bool" where
  "secret_kept i d d' \<longleftrightarrow>
     (\<forall>n row. get_secret_by_name n d = Some row \<longrightarrow> sec_id row = i \<longrightarrow> get_secret_by_name n d' = Some row)
     \<and> filter (\<lambda>t. fst t = i) (db_tags d') = filter (\<lambda>t. fst t = i) (db_tags d)
     \<and> (\<forall>n v. get_secret_version i n d = Some v \<longrightarrow> get_secret_version i n d' = Some v)"

lemma secret_kept_refl [simp]: "secret_kept i d d"
  by (simp add: secret_kept_def)

lemma secret_kept_trans: "secret_kept i d d1 \<Longrightarrow> secret_kept i d1 d' \<Longrightarrow> secret_kept i d d'"
  by (auto simp: secret_kept_def)

lemma settled_kept:
  assumes "settled collate unseal x d" "\<And>row. get_secret_by_name (ds_name x) d = Some row \<Longrightarrow> secret_kept (sec_id row) d d'"
  shows "settled collate unseal x d'"
  using assms by (intro settled_frame [OF assms(1)]) (auto simp: secret_kept_def)

lemma secret_kept_audit [simp]: "secret_kept i d (insert_audit now e d') = secret_kept i d d'"
  by (simp add: secret_kept_def get_secret_by_name_def get_secret_version_def)

lemma secret_kept_tags:
  assumes "replace_tags sid ts d = Inr d'" "i \<noteq> sid"
  shows "secret_kept i d d'"
proof -
  note t = replace_tags_tags(3,4) [OF assms(1)]
  have "db_secrets d' = db_secrets d" "db_versions d' = db_versions d"
    by (subst t(2), simp)+
  with t(1) [OF assms(2)] show ?thesis
    by (simp add: secret_kept_def get_secret_by_name_def get_secret_version_def)
qed

lemma secret_kept_version: "insert_version sealf now fv sid v val d = Inr d' \<Longrightarrow> secret_kept i d d'"
  by (auto simp: insert_version_def table_simps secret_kept_def get_secret_by_name_def get_secret_version_def find_append
      split: option.splits)

lemma secret_kept_insert: "insert_secret_row s d = Inr d' \<Longrightarrow> secret_kept i d d'"
  by (auto simp: table_simps secret_kept_def get_secret_by_name_def get_secret_version_def find_append)

lemma secret_kept_update:
  assumes "\<And>s. sec_name (f s) = sec_name s" "i \<noteq> sid"
  shows "secret_kept i d (d\<lparr>db_secrets := upd_where (\<lambda>s. sec_id s = sid) f (db_secrets d)\<rparr>)"
proof -
  have "find (\<lambda>s. sec_name s = n) (upd_where (\<lambda>s. sec_id s = sid) f rows) =
      map_option (\<lambda>s. if sec_id s = sid then f s else s) (find (\<lambda>s. sec_name s = n) rows)" for n rows
    by (induction rows) (auto simp: assms(1))
  then show ?thesis
    using assms(2) by (auto simp: secret_kept_def get_secret_by_name_def get_secret_version_def)
qed

lemma secret_kept_metadata:
  assumes "provision_metadata now wanted x row d = Inr d'" "i \<noteq> sec_id row"
  shows "secret_kept i d d'"
proof -
  let ?d1 = "d\<lparr>db_secrets := upd_where (\<lambda>s. sec_id s = sec_id row) (adopt_row now x) (db_secrets d)\<rparr>"
  from assms(1) obtain d2 e where d2: "replace_tags (sec_id row) wanted ?d1 = Inr d2" "d' = insert_audit now e d2"
    by (auto simp: provision_metadata_def split: sum.splits if_splits)
  have "secret_kept i d ?d1"
    by (rule secret_kept_update [OF _ assms(2)]) (simp add: adopt_row_def)
  then show ?thesis
    using secret_kept_tags [OF d2(1) assms(2)] by (simp add: d2(2)) (rule secret_kept_trans)
qed

lemma secret_kept_rotate:
  assumes "provision_rotate sealf now fv x row d = Inr d'" "i \<noteq> sec_id row"
  shows "secret_kept i d d'"
proof -
  let ?d1 = "d\<lparr>db_secrets := upd_where (\<lambda>s. sec_id s = sec_id row) (bump_version now) (db_secrets d)\<rparr>"
  from assms(1) obtain v d2 e where d2: "insert_version sealf now fv (sec_id row) v (ds_value x) ?d1 = Inr d2"
      "d' = insert_audit now e d2"
    by (auto simp: provision_rotate_def bump_current_version_def split: sum.splits option.splits if_splits)
  have "secret_kept i d ?d1"
    by (rule secret_kept_update [OF _ assms(2)]) (simp add: bump_version_def)
  then show ?thesis
    using secret_kept_version [OF d2(1)] by (simp add: d2(2)) (rule secret_kept_trans)
qed

lemma secret_kept_create:
  assumes "provision_create sealf now fs fv x d = Inr (ch, d')" "i \<in> sec_id ` set (db_secrets d)"
  shows "secret_kept i d d'"
proof -
  from assms(1) obtain row d1 d2 d3 e where d: "insert_secret_row row d = Inr d1" "sec_id row = fs"
      "insert_version sealf now fv fs 1 (ds_value x) d1 = Inr d2" "replace_tags fs (ds_tags x) d2 = Inr d3"
      "d' = insert_audit now e d3"
    by (fastforce simp: provision_create_def Let_def split: sum.splits)
  have "sec_id row \<notin> sec_id ` set (db_secrets d)"
    using d(1) by (simp add: table_simps)
  then have "i \<noteq> fs"
    using d(2) assms(2) by blast
  from secret_kept_insert [OF d(1), of i] secret_kept_version [OF d(3), of i] secret_kept_tags [OF d(4) this]
  show ?thesis by (simp add: d(5)) (blast intro: secret_kept_trans)
qed

lemma reconcile_one_keeps:
  assumes "reconcile_one_secret collate sealf unseal now fs fv x d = Inr (ch, d')" "keyed d"
    and "settled collate unseal y d" "ds_name y \<noteq> ds_name x"
  shows "settled collate unseal y d'"
  using assms(3)
proof (rule settled_kept)
  fix rowy
  assume y: "get_secret_by_name (ds_name y) d = Some rowy"
  then have iny: "sec_id rowy \<in> sec_id ` set (db_secrets d)"
    by (auto simp: get_secret_by_name_def dest: find_Some_mem)
  show "secret_kept (sec_id rowy) d d'"
  proof (cases "get_secret_by_name (ds_name x) d")
    case None
    with assms(1) iny show ?thesis
      by (auto simp: reconcile_one_secret_def intro: secret_kept_create)
  next
    case (Some row)
    have ne: "sec_id rowy \<noteq> sec_id row"
      using keyed_find(3) [OF assms(2) Some y] assms(4) by simp
    from assms(1) Some show ?thesis
    proof (rule reconcile_one_existing)
      fix md d1
      assume md: "(if md then provision_metadata now (remdups_adj (sort_strings (ds_tags x))) x row d else Inr d) = Inr d1"
        "(\<exists>v. get_secret_version (sec_id row) (sec_current_version row) d1 = Some v \<and> unseal v = Some (ds_value x)) \<and> d' = d1
         \<or> provision_rotate sealf now fv x row d1 = Inr d'"
      have "secret_kept (sec_id rowy) d d1"
        using md(1) ne by (auto split: if_splits intro: secret_kept_metadata)
      moreover have "secret_kept (sec_id rowy) d1 d'"
        using md(2) ne by (auto intro: secret_kept_rotate)
      ultimately show ?thesis by (rule secret_kept_trans)
    qed
  qed
qed

lemma reconcile_one_keyed: "reconcile_one_secret collate sealf unseal now fs fv x d = Inr (ch, d') \<Longrightarrow> keyed d \<Longrightarrow> keyed d'"
  using quiet_provision by (auto simp: quiet_def)

lemma reconcile_each_settles:
  assumes "reconcile_each collate sealf unseal now xs d = (Inr chs, d')" "keyed d"
    and laws: "opens_sealed sealf unseal" "byte_collation collate"
    and "distinct (map (\<lambda>(fs, fv, x). ds_name x) xs)"
  shows "keyed d' \<and> (\<forall>(fs, fv, x) \<in> set xs. settled collate unseal x d')
    \<and> (\<forall>y. settled collate unseal y d \<longrightarrow> ds_name y \<notin> (\<lambda>(fs, fv, x). ds_name x) ` set xs \<longrightarrow> settled collate unseal y d')"
  using assms(1,2,5)
proof (induction xs arbitrary: d chs)
  case (Cons z xs)
  obtain fs fv x where z: "z = (fs, fv, x)" by (cases z)
  from Cons.prems(1) obtain ch d1 chs' where s: "reconcile_one_secret collate sealf unseal now fs fv x d = Inr (ch, d1)"
      "reconcile_each collate sealf unseal now xs d1 = (Inr chs', d')"
    by (auto simp: z map_sum_eq_Inr split: sum.splits prod.splits)
  have k: "keyed d1" "settled collate unseal x d1"
    using reconcile_one_keyed [OF s(1) Cons.prems(2)] reconcile_one_settles [OF s(1) laws Cons.prems(2)] by auto
  have keep: "settled collate unseal y d1" if "settled collate unseal y d" "ds_name y \<noteq> ds_name x" for y
    using reconcile_one_keeps [OF s(1) Cons.prems(2) that] .
  from Cons.IH [OF s(2) k(1)] Cons.prems(3) k(2) keep show ?case
    by (simp add: z)
qed simp

lemma reconcile_each_again:
  assumes "\<And>fs fv x. (fs, fv, x) \<in> set xs \<Longrightarrow> settled collate unseal x d"
  shows "reconcile_each collate sealf unseal now xs d = (Inr (map (\<lambda>(fs, fv, x). (ds_name x, Change_Unchanged)) xs), d)"
  using assms
proof (induction xs)
  case (Cons z xs)
  obtain fs fv x where z: "z = (fs, fv, x)" by (cases z)
  have "settled collate unseal x d"
    using Cons.prems [of fs fv x] by (simp add: z)
  moreover have "reconcile_each collate sealf unseal now xs d = (Inr (map (\<lambda>(fs, fv, x). (ds_name x, Change_Unchanged)) xs), d)"
    by (rule Cons.IH) (use Cons.prems in auto)
  ultimately show ?case by (simp add: z settled_unchanged)
qed simp

subsection \<open>Deletion of what is no longer configured\<close>

lemma find_filter_same: "find P xs = Some x \<Longrightarrow> Q x \<Longrightarrow> find P (filter Q xs) = Some x"
  by (induction xs) (auto split: if_splits)

lemma delete_secret_tables:
  assumes "find (\<lambda>s. sec_id s = i) (db_secrets d) = Some s" "sec_current_version s = v"
  shows "db_secrets (snd (delete_secret_audited now i v actor d)) = filter (\<lambda>s. sec_id s \<noteq> i) (db_secrets d)"
  using assms by (simp add: delete_secret_audited_def delete_secret_cascade_def Let_def del_where_def)

lemma secret_kept_delete:
  assumes "i \<noteq> sid"
  shows "secret_kept i d (snd (delete_secret_audited now sid v actor d))"
proof (cases "\<exists>s. find (\<lambda>s. sec_id s = sid) (db_secrets d) = Some s \<and> sec_current_version s = v")
  case True
  have "get_secret_by_name n (delete_secret_cascade sid d) = Some row" if "get_secret_by_name n d = Some row" "sec_id row = i" for n row
    using that assms by (simp add: get_secret_by_name_def delete_secret_cascade_def del_where_def find_filter_same)
  moreover have "get_secret_version i n (delete_secret_cascade sid d) = Some v" if ver: "get_secret_version i n d = Some v" for n v
    using find_Some_mem [OF ver [unfolded get_secret_version_def]] ver assms
    by (simp add: get_secret_version_def delete_secret_cascade_def del_where_def find_filter_same)
  moreover have "filter (\<lambda>t. fst t = i) (db_tags (delete_secret_cascade sid d)) = filter (\<lambda>t. fst t = i) (db_tags d)"
    using assms by (auto simp: delete_secret_cascade_def del_where_def intro: filter_cong)
  ultimately have "secret_kept i d (delete_secret_cascade sid d)"
    by (simp add: secret_kept_def)
  with True show ?thesis
    by (auto simp: delete_secret_audited_def Let_def secret_kept_def get_secret_by_name_def get_secret_version_def)
next
  case False
  then show ?thesis
    by (auto simp: delete_secret_audited_def Let_def split: option.splits)
qed

lemma delete_each_tables:
  assumes "distinct (map fst xs)" "\<forall>(i, v) \<in> set xs. \<exists>s. find (\<lambda>s. sec_id s = i) (db_secrets d) = Some s \<and> sec_current_version s = v"
  shows "db_secrets (delete_each now xs d) = filter (\<lambda>s. sec_id s \<notin> fst ` set xs) (db_secrets d)"
  using assms
proof (induction xs arbitrary: d)
  case (Cons x xs)
  obtain i v where x: "x = (i, v)" by (cases x)
  let ?d1 = "snd (delete_secret_audited now i v CONFIG_ACTOR d)"
  have d1: "db_secrets ?d1 = filter (\<lambda>s. sec_id s \<noteq> i) (db_secrets d)"
    using Cons.prems(2) by (auto simp: x intro: delete_secret_tables)
  have "\<exists>s. find (\<lambda>s. sec_id s = j) (db_secrets ?d1) = Some s \<and> sec_current_version s = u" if ju: "(j, u) \<in> set xs" for j u
  proof -
    obtain s where s: "find (\<lambda>s. sec_id s = j) (db_secrets d) = Some s" "sec_current_version s = u"
      using Cons.prems(2) ju by auto
    have "j \<noteq> i"
      using Cons.prems(1) ju by (force simp: x)
    with s find_Some_mem [OF s(1)] show ?thesis
      by (auto simp: d1 intro: find_filter_same)
  qed
  then have "db_secrets (delete_each now xs ?d1) = filter (\<lambda>s. sec_id s \<notin> fst ` set xs) (db_secrets ?d1)"
    using Cons.prems(1) by (intro Cons.IH) auto
  then show ?case
    by (auto simp: x d1 intro: filter_cong)
qed simp

lemma delete_each_keeps:
  "i \<notin> fst ` set xs \<Longrightarrow> secret_kept i d (delete_each now xs d)"
proof (induction now xs d rule: delete_each.induct)
  case (2 now j v xs d)
  have "secret_kept i d (snd (delete_secret_audited now j v CONFIG_ACTOR d))"
    using "2.prems" by (intro secret_kept_delete) auto
  then show ?case
    using "2.IH" "2.prems" by (auto intro: secret_kept_trans)
qed simp

text \<open>After the reconciliation every configured secret is settled, and no other row is managed.\<close>

lemma reconcile_secrets_settles:
  assumes "reconcile_secrets collate sealf unseal now xs d = (Inr chs, d')" "keyed d"
    and "opens_sealed sealf unseal" "byte_collation collate" "distinct (map (\<lambda>(fs, fv, x). ds_name x) xs)"
  shows "\<forall>(fs, fv, x) \<in> set xs. settled collate unseal x d'"
    "\<forall>s \<in> set (db_secrets d'). sec_managed_by_config s \<longrightarrow> sec_name s \<in> (\<lambda>(fs, fv, x). ds_name x) ` set xs"
    "keyed d'"
proof -
  let ?names = "map (\<lambda>(fs, fv, x). ds_name x) xs"
  from assms(1) obtain d1 where d1: "reconcile_each collate sealf unseal now xs d = (Inr chs, d1)"
      "d' = delete_each now (stale_secrets ?names d1) d1"
    by (auto simp: reconcile_secrets_def split: prod.splits sum.splits)
  note s = reconcile_each_settles [OF d1(1) assms(2-5)]
  have st: "fst ` set (stale_secrets ?names d1) =
      sec_id ` {s \<in> set (db_secrets d1). sec_managed_by_config s \<and> sec_name s \<notin> set ?names}"
    by (auto simp: stale_secrets_def image_iff)
  have ids: "distinct (map sec_id (db_secrets d1))"
    using s by (simp add: keyed_def)
  have tab: "db_secrets d' = filter (\<lambda>s. sec_id s \<notin> fst ` set (stale_secrets ?names d1)) (db_secrets d1)"
    unfolding d1(2)
  proof (rule delete_each_tables)
    show "distinct (map fst (stale_secrets ?names d1))"
      using ids by (simp add: stale_secrets_def o_def distinct_map_filter)
    show "\<forall>(i, v) \<in> set (stale_secrets ?names d1). \<exists>s. find (\<lambda>s. sec_id s = i) (db_secrets d1) = Some s \<and> sec_current_version s = v"
      using ids find_key_unique [of sec_id "db_secrets d1"] by (fastforce simp: stale_secrets_def)
  qed
  then show "\<forall>s \<in> set (db_secrets d'). sec_managed_by_config s \<longrightarrow> sec_name s \<in> (\<lambda>(fs, fv, x). ds_name x) ` set xs"
    unfolding st by auto
  show "keyed d'"
    using s by (auto simp: tab keyed_def distinct_map_filter)
  have "settled collate unseal x d'" if x: "(fs, fv, x) \<in> set xs" for fs fv x
  proof (rule settled_kept)
    show "settled collate unseal x d1"
      using s x by auto
    fix row
    assume row: "get_secret_by_name (ds_name x) d1 = Some row"
    then have "row \<in> set (db_secrets d1)" "sec_name row = ds_name x"
      by (auto simp: get_secret_by_name_def dest: find_Some_mem)
    moreover have "ds_name x \<in> set ?names"
      using x by force
    ultimately have "sec_id row \<notin> fst ` set (stale_secrets ?names d1)"
      unfolding st using distinct_map_same [OF ids] by fastforce
    then show "secret_kept (sec_id row) d1 d'"
      unfolding d1(2) by (rule delete_each_keeps)
  qed
  then show "\<forall>(fs, fv, x) \<in> set xs. settled collate unseal x d'" by auto
qed

end
