(* ===== verification/Service.thy ===== *)
theory Service
  imports Ui_System Startup
begin

text \<open>
  The service as a whole: starts, calls of the client API, proxied calls, POSTs of the operator interface and sweeps, in
  any order, as one relation.  Every event is a sequence of store transactions, so the laws of executions hold of
  the service; and every grant in it was decided, by a standing policy or by an operator.
\<close>

section \<open>Events\<close>

text \<open>Whatever happens to the database is a start, a call of the client API, a proxied call, a POST of the operator
  interface, or a sweep.  An event carries the databases its reads saw.\<close>

datatype event =
    E_start startup_env startup_call config
  | E_create create_call "string option" "bytes_rejection + bytes" db
  | E_read read_call "string option" "string option" "bytes_rejection + bytes" db
  | E_proxy proxy_call "string option" proxy_request db counts
  | E_store store_call "string option" "bytes_rejection + bytes" db
  | E_post post_call ui_post jwks_cache
  | E_sweep time time bool "uuid \<Rightarrow> bool" nat

fun serve :: "ui_env \<Rightarrow> proxy_env \<Rightarrow> ui_state \<Rightarrow> event \<Rightarrow> db \<Rightarrow> db" where
  "serve ue px us (E_start se call cfg) d = snd (init se call cfg d)"
| "serve ue px us (E_create call header body dr) d = snd (create (ue_api ue) (us_app us) call header body dr d)"
| "serve ue px us (E_read call header raw body dr) d = snd (read (ue_api ue) (us_app us) call header raw body dr d)"
| "serve ue px us (E_proxy call header rq dr streams) d =
     fst (snd (snd (handle (ue_api ue) px (us_app us) call header rq dr d streams)))"
| "serve ue px us (E_store call header body dr) d = snd (store_secret (ue_api ue) (us_app us) call header body dr d)"
| "serve ue px us (E_post call p cache) d = snd (snd (ui_router ue us call p cache d))"
| "serve ue px us (E_sweep clock now is_real sends budget) d =
     sweep_once clock now (lim_replay_window_seconds (app_limits (us_app us))) is_real sends budget d"

fun event_now :: "event \<Rightarrow> time" where
  "event_now (E_start se call cfg) = sc_now call"
| "event_now (E_create call header body dr) = ccl_now call"
| "event_now (E_read call header raw body dr) = rcl_now call"
| "event_now (E_proxy call header rq dr streams) = pcl_now call"
| "event_now (E_store call header body dr) = scl_now call"
| "event_now (E_post call p cache) = uc_now call"
| "event_now (E_sweep clock now is_real sends budget) = now"

fun post_reads :: "ui_post \<Rightarrow> db list" where
  "post_reads (P_approve rds i form) =
     [rd_request rds, rd_secret rds, rd_chosen rds, rd_client rds, rd_tags rds, rd_policies rds]"
| "post_reads (P_delete_policy dr i token) = [dr]"
| "post_reads (P_save_secret dr form) = [dr]"
| "post_reads (P_rotate_secret dr i token v) = [dr]"
| "post_reads (P_review_secret dr i token reveal) = [dr]"
| "post_reads (P_delete_secret_page dr i token) = [dr]"
| "post_reads (P_delete_secret dr i token v) = [dr]"
| "post_reads p = []"

fun event_reads :: "event \<Rightarrow> db list" where
  "event_reads (E_create call header body dr) = [dr]"
| "event_reads (E_read call header raw body dr) = [dr]"
| "event_reads (E_proxy call header rq dr streams) = [dr]"
| "event_reads (E_store call header body dr) = [dr]"
| "event_reads (E_post call p cache) = post_reads p"
| "event_reads e = []"

text \<open>A history of the service from a database on: the events with the databases they found.  What an event reads,
  it reads from a database the service was in before.\<close>

inductive service :: "ui_env \<Rightarrow> proxy_env \<Rightarrow> ui_state \<Rightarrow> time \<Rightarrow> db \<Rightarrow> (event \<times> db) list \<Rightarrow> time \<Rightarrow> db \<Rightarrow> bool"
  for ue :: ui_env and px :: proxy_env and us :: ui_state and t0 :: time and d0 :: db where
  found: "service ue px us t0 d0 [] t0 d0"
| served: "service ue px us t0 d0 h t d \<Longrightarrow> t \<le> event_now e \<Longrightarrow> set (event_reads e) \<subseteq> insert d (snd ` set h) \<Longrightarrow>
    service ue px us t0 d0 (h @ [(e, d)]) (event_now e) (serve ue px us e d)"

abbreviation replay_window :: "ui_state \<Rightarrow> int" where
  "replay_window us \<equiv> lim_replay_window_seconds (app_limits (us_app us))"

section \<open>Every event is a sequence of transactions\<close>

lemma serve_transacts:
  "transacts (lim_replay_window_seconds (app_limits (us_app us))) (event_now e) d (serve ue px us e d)"
proof (cases e)
  case (E_proxy call header rq dr streams)
  show ?thesis
    using handle_transacts [of "ue_api ue" px "us_app us" call header rq dr d streams, OF prod_eqI [OF _ prod_eqI [OF _ prod_eqI]]]
    by (simp add: E_proxy)
next
  case (E_post call p cache)
  show ?thesis
    using ui_router_transacts [OF prod_eqI [OF _ prod_eqI], of ue us call p cache d] by (simp add: E_post)
next
  case (E_start se call cfg)
  then show ?thesis using init_transacts [OF prod.collapse [symmetric]] by simp
next
  case (E_create call header body dr)
  then show ?thesis using create_transacts [OF prod.collapse [symmetric]] by simp
next
  case (E_read call header raw body dr)
  then show ?thesis using read_transacts [OF prod.collapse [symmetric]] by simp
next
  case (E_store call header body dr)
  then show ?thesis using store_secret_transacts [OF prod.collapse [symmetric]] by simp
next
  case (E_sweep clock now is_real sends budget)
  then show ?thesis using sweep_transacts by simp
qed

lemma service_run:
  "service ue px us t0 d0 h t d \<Longrightarrow> run (replay_window us) (t0, d0) (t, d)"
proof (induction rule: service.induct)
  case (served h t d e)
  from run_trans [OF run_transacts [OF served.hyps(2) serve_transacts] served.IH] show ?case .
qed (rule run_refl)

lemma service_reach:
  "service ue px us t0 d0 h t d \<Longrightarrow> reach (replay_window us) (t0, d0) \<Longrightarrow> reach (replay_window us) (t, d)"
  by (rule reach_run [OF _ service_run])

text \<open>The databases of the history lie on the same execution.\<close>

lemma service_past:
  assumes "service ue px us t0 d0 h t d" "(e, de) \<in> set h"
  shows "\<exists>te. run (replay_window us) (t0, d0) (te, de) \<and> run (replay_window us) (te, de) (t, d)"
  using assms
proof (induction rule: service.induct)
  case (served h t d e')
  have last: "run (replay_window us) (t, d) (event_now e', serve ue px us e' d)"
    by (rule run_transacts [OF served.hyps(2) serve_transacts])
  show ?case
  proof (cases "(e, de) \<in> set h")
    case True
    from served.IH [OF this] last show ?thesis by (blast intro: run_trans)
  next
    case False
    with served.prems have "de = d" by simp
    with service_run [OF served.hyps(1)] last show ?thesis by blast
  qed
qed simp

section \<open>Where grants come from\<close>

definition grant_keys :: "db \<Rightarrow> (uuid \<times> uuid) set" where
  "grant_keys d = (\<lambda>g. (gr_id g, gr_request_id g)) ` set (db_grants d)"

lemma keys_same: "db_grants d' = db_grants d \<Longrightarrow> grant_keys d' = grant_keys d"
  by (simp add: grant_keys_def)

lemma keys_quiet: "quiet d d' \<Longrightarrow> grant_keys d' = grant_keys d"
  by (simp add: quiet_def grant_keys_def)

lemma keys_audit [simp]: "grant_keys (insert_audit now e d) = grant_keys d"
  by (simp add: grant_keys_def)

lemma keys_upd:
  "db_grants d' = upd_where P f (db_grants d) \<Longrightarrow> (\<And>g. gr_id (f g) = gr_id g \<and> gr_request_id (f g) = gr_request_id g) \<Longrightarrow>
   grant_keys d' = grant_keys d"
  by (simp add: grant_keys_def image_upd_where)

lemma keys_use:
  assumes "begin_grant_use now gid key version kind w target d = Inr (r, d')" "distinct (map gr_id (db_grants d))"
  shows "grant_keys d' = grant_keys d"
  using assms(2,1) by (cases rule: begin_grant_use_cases) (auto simp: grant_keys_def image_upd_where bump_use_def)

lemma keys_revoke: "revoke_grant now gid actor d = (b, d') \<Longrightarrow> grant_keys d' = grant_keys d"
  by (auto simp: revoke_grant_def Let_def set_revoked_def clear_passthrough_def
      split: option.splits intro!: keys_upd [where f = set_revoked])

lemma keys_delete: "grant_keys (snd (delete_secret_audited now sid v actor d)) = grant_keys d"
  by (auto simp: delete_secret_audited_def delete_secret_cascade_def Let_def set_revoked_def clear_passthrough_def
      split: option.splits intro!: keys_upd [where f = set_revoked])

lemma keys_deny: "resolve_deny now rid actor reason d = Inr (b, d') \<Longrightarrow> grant_keys d' = grant_keys d"
  by (auto simp: resolve_deny_def Let_def grant_keys_def split: option.splits)

lemma keys_claim: "claim_where hit d = Inr (b, d') \<Longrightarrow> grant_keys d' = grant_keys d"
  by (auto dest!: claim_where_frame simp: grant_keys_def)

lemma keys_delivered [simp]: "grant_keys (mark_push_delivered now rid d) = grant_keys d"
  by (simp add: mark_push_delivered_def grant_keys_def)

lemma keys_push_rows: "grant_keys (push_rows clock now sends budget rs d) = grant_keys d"
proof (induction clock now sends budget rs d rule: push_rows.induct)
  case (3 clock now sends budget r rs d)
  have one: "db_grants d1 = db_grants d" if "push_one clock now b r d = Inr (x, d1)" for b x d1
    using that by (auto simp: push_one_def claim_for_push_def mark_push_delivered_def
        split: if_splits option.splits sum.splits prod.splits bool.splits dest!: claim_where_frame)
  have fyi: "db_grants d1 = db_grants d" if "push_one_fyi now b r d = Inr (x, d1)" for b x d1
    using that by (auto simp: push_one_fyi_def claim_for_fyi_push_def mark_push_delivered_def
        split: if_splits option.splits sum.splits prod.splits bool.splits dest!: claim_where_frame)
  let ?res = "if ar_notify_only r then push_one_fyi now (sends (ar_id r)) r d else push_one clock now (sends (ar_id r)) r d"
  show ?case
  proof (cases ?res)
    case (Inl e)
    with "3.IH"(1) [OF Inl] show ?thesis by simp
  next
    case (Inr x)
    obtain a d1 where x: "x = (a, d1)" by fastforce
    have "db_grants d1 = db_grants d"
      using Inr one fyi by (auto simp: x split: if_splits)
    then have "grant_keys d1 = grant_keys d"
      by (rule keys_same)
    then show ?thesis
      using "3.IH"(2) [OF Inr x [symmetric]] Inr by (simp add: x)
  qed
qed simp_all

lemma keys_sweep: "grant_keys (sweep_once clock now w is_real sends budget d) = grant_keys d"
proof -
  have e: "grant_keys (expire_phase now d) = grant_keys d" for d
    by (simp add: expire_phase_def expire_stale_def Let_def grant_keys_def)
  have a: "grant_keys (snd (sweep_purge_passthroughs now w d)) = grant_keys d"
    "grant_keys (snd (purge_request_context now ret d)) = grant_keys d"
    "grant_keys (snd (unpin_stale_grant_reads now w d)) = grant_keys d" for d ret
    by (simp_all add: sweep_purge_passthroughs_def purge_request_context_def unpin_stale_grant_reads_def Let_def
        grant_keys_def image_upd_where clear_passthrough_def)
  show ?thesis
    by (simp add: sweep_once_def push_phase_def purge_phase_def a e keys_push_rows)
qed

lemma keys_start: "grant_keys (snd (init se call cfg d)) = grant_keys d"
proof -
  have each: "grant_keys d2 = grant_keys d1" if "reconcile_each collate sealf unseal now xs d1 = (r, d2)"
    for collate sealf unseal now xs d1 r d2
    using that
  proof (induction xs arbitrary: d1 r)
    case (Cons x xs)
    then show ?case
      by (cases x) (auto split: sum.splits prod.splits dest!: quiet_provision keys_quiet)
  qed simp
  have del: "grant_keys (delete_each now xs d1) = grant_keys d1" for now xs d1
    by (induction now xs d1 rule: delete_each.induct) (simp_all add: keys_delete)
  show ?thesis
    by (auto simp: init_def reconcile_secrets_def del split: sum.splits prod.splits
        dest!: each quiet_clients quiet_reconcile_policies keys_quiet)
qed

lemma keys_read:
  assumes "distinct (map gr_id (db_grants d))"
  shows "grant_keys (snd (read env app call header raw body d0 d)) = grant_keys d"
  by (auto simp: read_def split: sum.splits option.splits prod.splits if_splits dest!: keys_use [OF _ assms])

lemma keys_proxy:
  assumes "distinct (map gr_id (db_grants d))" "handle env px app call header rq d0 d streams = (r, out, d', streams')"
  shows "grant_keys d' = grant_keys d"
  using assms(2)
proof (cases rule: handle_cases)
  case (Used gid client g secret p g1 d1 streams1)
  have d1: "grant_keys d1 = grant_keys d"
    by (rule keys_use [OF Used(5) assms(1)])
  from Used(6) show ?thesis
  proof (cases rule: proxy_forward_cases)
    case (Answered o' code hs chunks)
    from Answered(6) d1 show ?thesis by (elim disjE) simp_all
  qed (use d1 in simp)
qed simp

lemma keys_store: "grant_keys (snd (store_secret env app call header body d0 d)) = grant_keys d"
  by (auto simp: store_secret_def store_inner_def split: sum.splits option.splits prod.splits deposit_outcome.splits
      dest!: quiet_deposit keys_quiet)

lemma keys_small_posts:
  "deny_rest call rid op d = (r, d') \<Longrightarrow> grant_keys d' = grant_keys d"
  "revoke_rest call rid op d = (r, d') \<Longrightarrow> grant_keys d' = grant_keys d"
  "create_policy_rest ue call pform op d = (r, d') \<Longrightarrow> grant_keys d' = grant_keys d"
  "update_policy_rest ue call i pform op d = (r, d') \<Longrightarrow> grant_keys d' = grant_keys d"
  "delete_policy_rest ue call dr i op d = (r, d') \<Longrightarrow> grant_keys d' = grant_keys d"
  "update_secret_rest ue call i sform op d = (r, d') \<Longrightarrow> grant_keys d' = grant_keys d"
  "mark_reviewed_rest call i v op d = (r, d') \<Longrightarrow> grant_keys d' = grant_keys d"
  "delete_page_rest ue us call dr i op d = (r, d') \<Longrightarrow> grant_keys d' = grant_keys d"
  by (auto simp: small_rest_defs Let_def dest!: keys_deny keys_revoke quiet_policy_ops quiet_settings quiet_vet dest: keys_quiet
      split: sum.splits prod.splits option.splits if_splits update_policy_outcome.splits update_secret_outcome.splits)

lemma keys_delete': "delete_secret_audited now sid v actor d = (del, d') \<Longrightarrow> grant_keys d' = grant_keys d"
  using keys_delete [of now sid v actor d] by simp

lemma keys_delete_post: "delete_secret_rest call dr i v op d = (r, d') \<Longrightarrow> grant_keys d' = grant_keys d"
  by (auto simp: delete_secret_rest_def dest!: keys_delete' split: option.splits if_splits prod.splits delete_secret_outcome.splits)

lemma keys_secret_posts:
  "rotate_rest ue us call dr i v op d = (r, d') \<Longrightarrow> grant_keys d' = grant_keys d"
  "review_rest ue us call dr i reveal op d = (r, d') \<Longrightarrow> grant_keys d' = grant_keys d"
  "save_rest ue us call dr form op d = (r, d') \<Longrightarrow> grant_keys d' = grant_keys d"
  by (auto simp: rotate_rest_def review_rest_def save_rest_def save_new_def Let_def
      dest!: quiet_rotate quiet_create_version keys_quiet split: sum.splits option.splits prod.splits if_splits bool.splits)

text \<open>A standing policy decided the request in place of an operator.\<close>

definition policy_decided :: "api_env \<Rightarrow> app_state \<Rightarrow> create_call \<Rightarrow> string option \<Rightarrow> bytes_rejection + bytes \<Rightarrow> db \<Rightarrow> bool" where
  "policy_decided env app call header body dr \<longleftrightarrow>
     (\<exists>client raw req c s r. body = Inr raw \<and> authenticate_client env app header dr = Inr client
        \<and> env_parse_create env raw = Some req \<and> validate_request env req = Inr c
        \<and> get_secret_by_name (cr_secret_name req) dr = Some s \<and> caps_permit client s (cr_mechanism req)
        \<and> rows_permit (list_policies dr) (cl_name client) (requested_of req c)
            (get_tags_for_secret (env_collate env) (sec_id s) dr) (ccl_eval_now call) r)"

lemma create_keys:
  assumes "create env app call header body dr d = (r, d')"
  shows "grant_keys d' = grant_keys d
    \<or> grant_keys d' = insert (ccl_grant_id call, ccl_request_id call) (grant_keys d) \<and> policy_decided env app call header body dr"
proof (cases "\<exists>raw client req. body = Inr raw \<and> authenticate_client env app header dr = Inr client
    \<and> env_parse_create env raw = Some req \<and> validate_idempotency_key req = Inr ()
    \<and> get_request_by_idem (cl_name client) (cr_idempotency_key req) dr = None")
  case False
  with assms have "d' = d"
    by (auto simp: create_def body_bytes_def Let_def split: sum.splits option.splits bytes_rejection.splits)
  then show ?thesis by simp
next
  case True
  then obtain raw client req where b: "body = Inr raw" "authenticate_client env app header dr = Inr client"
      "env_parse_create env raw = Some req" "validate_idempotency_key req = Inr ()"
      "get_request_by_idem (cl_name client) (cr_idempotency_key req) dr = None" by blast
  let ?s = "get_secret_by_name (cr_secret_name req) dr"
  let ?dec = "create_decide env (app_limits app) client ?s (secret_tags_of env ?s dr) (list_policies dr)
        (ccl_eval_now call) (request_mac env app (cl_name client) req) req"
  let ?ins = "\<lambda>new_row res cap ctx. insert_access_request_with_id (ccl_now call) (ccl_request_id call) (ccl_grant_id call)
         new_row cap res (context_seal env app call ctx) d"
  have "d' = d \<or> (\<exists>new_row res cap ev ctx out d1. ?dec = Inr (new_row, res, cap, ev) \<and> ?ins new_row res cap ctx = Inr (out, d1)
      \<and> db_grants d' = db_grants d1)"
    using assms b
    by (auto simp: create_def body_bytes_def Let_def split: sum.splits prod.splits insert_outcome.splits dest: create_push_frame)
  then show ?thesis
  proof (elim disjE exE conjE)
    fix new_row res cap ev ctx out d1
    assume dec: "?dec = Inr (new_row, res, cap, ev)" and ins: "?ins new_row res cap ctx = Inr (out, d1)"
      and gr: "db_grants d' = db_grants d1"
    from ins show ?thesis
    proof (cases rule: insert_access_request_with_id_cases)
      case (App ctx' d2 by_whom g n e e')
      have "policy_decided env app call header body dr"
        using dec
      proof (rule create_decide_Inr)
        fix c ps
        assume v: "validate_request env req = Inr c"
          "policy_rows (cl_name client) (requested_of req c) (secret_tags_of env ?s dr) (ccl_eval_now call) (list_policies dr) = Inr ps"
          "evaluate (env_uuid_str env) (env_max_utc env) (policy_client_of client) (map_option policy_secret_of ?s)
             (secret_tags_of env ?s dr) (requested_of req c) ps (ccl_eval_now call) = Some ev"
          and res: "\<And>r. ev_decision ev = Dec_Deny r \<Longrightarrow> res = Res_Denied r ''policy''"
            "ev_decision ev = Dec_RequireApproval \<Longrightarrow> res = Res_Pending"
            "ev_decision ev \<in> {Dec_AutoApprove, Dec_NotifyOnly} \<Longrightarrow>
               \<exists>s. ?s = Some s \<and> res = Res_Approved RESOLVED_BY_POLICY_AUTO
                 (auto_grant client s (cr_mechanism req) c ev (ccl_eval_now call)) (ev_decision ev = Dec_NotifyOnly)"
        have d: "ev_decision ev \<in> {Dec_AutoApprove, Dec_NotifyOnly}"
          using res(1,2) App(1) by (cases "ev_decision ev") auto
        from res(3) [OF this] obtain s where s: "?s = Some s" by blast
        have rows: "policy_rows (cl_name client) (requested_of req c) (get_tags_for_secret (env_collate env) (sec_id s) dr)
            (ccl_eval_now call) (list_policies dr) = Inr ps"
          using v(2) by (simp add: s)
        have "evaluate (env_uuid_str env) (env_max_utc env) (policy_client_of client) (Some (policy_secret_of s))
            (get_tags_for_secret (env_collate env) (sec_id s) dr) (requested_of req c) ps (ccl_eval_now call) = Some ev"
          using v(3) by (simp add: s)
        then show ?thesis
        proof (rule unattended_permitted [OF rows _ d])
          fix r
          assume "rows_permit (list_policies dr) (cl_name client) (requested_of req c)
              (get_tags_for_secret (env_collate env) (sec_id s) dr) (ccl_eval_now call) r"
            "caps_permit client s (rg_mechanism (requested_of req c))"
          with b(1-3) v(1) s show ?thesis by (auto simp: policy_decided_def)
        qed
      qed
      moreover have "grant_keys d' = insert (ccl_grant_id call, ccl_request_id call) (grant_keys d)"
        using gr App(8) by (simp add: grant_keys_def new_grant_row_def)
      ultimately show ?thesis by simp
    qed (use gr in \<open>auto simp: grant_keys_def table_simps\<close>)
  qed simp
qed

text \<open>An operator decided it: authenticated, from a page of this server, with a token minted for the approval of
  this request and for the state of the secret the form showed.\<close>

definition operator_decided :: "ui_env \<Rightarrow> ui_state \<Rightarrow> post_call \<Rightarrow> uuid \<Rightarrow> approve_form \<Rightarrow> jwks_cache \<Rightarrow> bool" where
  "operator_decided ue us call rid form cache \<longleftrightarrow>
     (\<exists>op c. operator_of ue us call cache = (Inr op, c)
        \<and> browser_metadata_ok (ue_csrf ue) (cfg_external_url (us_config us)) (cfg_tls (us_config us) \<noteq> None) (uc_headers call)
        \<and> verify_token (ue_csrf ue) (app_keyset (us_app us)) R_APPROVE (env_uuid_str (ue_api ue) rid) (op_subject op)
            (or_empty (non_empty (af_secret_present form))) (af_csrf_token form) (uc_utc call))"

lemma approve_keys:
  assumes "approve ue us call rds rid form cache d = (r, c, d')" "distinct (map ar_id (db_requests d))"
  shows "grant_keys d' = grant_keys d
    \<or> grant_keys d' = insert (uc_grant_id call, rid) (grant_keys d) \<and> operator_decided ue us call rid form cache"
  using assms(1) unfolding approve_def
proof (cases rule: guarded_cases)
  case (Passed op)
  have commit: "grant_keys d' = grant_keys d \<or> grant_keys d' = insert (uc_grant_id call, rid) (grant_keys d)"
    if "approve_commit call rid row ttl uses rl op d = (r, d')" for row ttl uses rl
  proof (cases "approve_request (uc_now call) (uc_version_id call) rid (op_subject op) (uc_grant_id call)
        (approved_grant call row ttl uses rl) (rl_store rl) d")
    case (Inl e)
    with that show ?thesis by (simp add: approve_commit_def)
  next
    case (Inr x)
    obtain out d1 where x: "x = (out, d1)" by fastforce
    have d1: "d1 = d'" using that Inr by (simp add: approve_commit_def x split: approve_outcome.splits)
    from assms(2) Inr [unfolded x] show ?thesis
      by (cases rule: approve_request_cases) (simp_all add: d1 grant_keys_def new_grant_row_def)
  qed
  have "grant_keys d' = grant_keys d \<or> grant_keys d' = insert (uc_grant_id call, rid) (grant_keys d)"
    using Passed(4) by (cases rule: approve_rest_cases) (auto dest: commit)
  with Passed(1-3) show ?thesis
    by (auto simp: operator_decided_def)
qed simp

lemma post_keys:
  assumes "ui_router ue us call p cache d = (r, c, d')" "\<And>rds i form. p \<noteq> P_approve rds i form"
  shows "grant_keys d' = grant_keys d"
proof -
  obtain route action_id form_state token where "post_purpose ue p = (route, action_id, form_state, token)"
    by (cases "post_purpose ue p")
  with assms(1) have "guarded ue us call route action_id form_state token (post_rest ue us call p) cache d = (r, c, d')"
    by (simp add: ui_router_guarded)
  then show ?thesis
  proof (cases rule: guarded_cases)
    case (Passed op)
    then show ?thesis
      using assms(2) by (cases p) (auto dest: keys_small_posts keys_delete_post keys_secret_posts)
  qed simp
qed

text \<open>The event decided that this grant is given for this request.\<close>

fun authorises :: "ui_env \<Rightarrow> ui_state \<Rightarrow> event \<Rightarrow> uuid \<Rightarrow> uuid \<Rightarrow> bool" where
  "authorises ue us (E_create call header body dr) gid rid \<longleftrightarrow>
     gid = ccl_grant_id call \<and> rid = ccl_request_id call \<and> policy_decided (ue_api ue) (us_app us) call header body dr"
| "authorises ue us (E_post call (P_approve rds i form) cache) gid rid \<longleftrightarrow>
     gid = uc_grant_id call \<and> rid = i \<and> operator_decided ue us call i form cache"
| "authorises ue us _ gid rid \<longleftrightarrow> False"

lemma serve_keys:
  assumes "ledger_inv d"
  shows "grant_keys (serve ue px us e d) \<subseteq> {(gid, rid). authorises ue us e gid rid} \<union> grant_keys d
    \<and> grant_keys d \<subseteq> grant_keys (serve ue px us e d)"
proof -
  have ids: "distinct (map ar_id (db_requests d))" "distinct (map gr_id (db_grants d))"
    using assms by (simp_all add: ledger_inv_def requests_inv_def grants_inv_def)
  show ?thesis
  proof (cases e)
    case (E_create call header body dr)
    then show ?thesis
      using create_keys [of "ue_api ue" "us_app us" call header body dr d, OF prod.collapse [symmetric]] by auto
  next
    case (E_proxy call header rq dr streams)
    obtain r out d' s where h: "handle (ue_api ue) px (us_app us) call header rq dr d streams = (r, out, d', s)"
      using prod_cases4 by blast
    from keys_proxy [OF ids(2) h] h show ?thesis by (simp add: E_proxy)
  next
    case (E_post call p cache)
    obtain r c d' where h: "ui_router ue us call p cache d = (r, c, d')"
      using prod_cases3 by blast
    show ?thesis
    proof (cases "\<exists>rds i form. p = P_approve rds i form")
      case True
      then obtain rds i form where p: "p = P_approve rds i form" by blast
      from approve_keys [OF _ ids(1), of ue us call rds i form cache r c d'] h show ?thesis
        by (auto simp: E_post p)
    next
      case False
      with post_keys [OF h] h show ?thesis by (simp add: E_post)
    qed
  qed (simp_all add: keys_start keys_read [OF ids(2)] keys_store keys_sweep)
qed

lemma service_keys:
  assumes "service ue px us t0 d0 h t d" "reach (replay_window us) (t0, d0)"
  shows "grant_keys d \<subseteq> {(gid, rid). \<exists>(e, de) \<in> set h. authorises ue us e gid rid} \<union> grant_keys d0
    \<and> (\<forall>de \<in> snd ` set h. grant_keys de \<subseteq> grant_keys d)"
  using assms(1)
proof (induction rule: service.induct)
  case (served h t d e)
  have "ledger_inv d"
    using reach_inv [OF service_reach [OF served.hyps(1) assms(2)]] by simp
  note step = serve_keys [OF this, of ue px us e]
  have "grant_keys de \<subseteq> grant_keys (serve ue px us e d)" if "de \<in> snd ` set (h @ [(e, d)])" for de
  proof (cases "de = d")
    case False
    with that served.IH have "grant_keys de \<subseteq> grant_keys d" by auto
    with step show ?thesis by (blast intro: subset_trans)
  qed (use step in blast)
  moreover have "grant_keys (serve ue px us e d) \<subseteq>
      {(gid, rid). \<exists>(e, de) \<in> set (h @ [(e, d)]). authorises ue us e gid rid} \<union> grant_keys d0"
    using served.IH step by auto
  ultimately show ?case by blast
qed simp

section \<open>The service as a whole\<close>

text \<open>C19: the service implements the store model.  Whatever mix of starts, API calls, proxied calls, operator
  actions and sweeps it serves, in which every event sees databases the service was in, the databases of the history
  lie on one execution of store transactions, in the order of the clock; so every invariant and every law of
  executions holds of the service.\<close>

theorem service_refines_store:
  assumes "service ue px us t0 d0 h t d" "reach (replay_window us) (t0, d0)"
  shows "reach (replay_window us) (t, d) \<and> run (replay_window us) (t0, d0) (t, d)
    \<and> (\<forall>(e, de) \<in> set h. \<exists>te. run (replay_window us) (t0, d0) (te, de) \<and> run (replay_window us) (te, de) (t, d))"
  using service_reach [OF assms] service_run [OF assms(1)] service_past [OF assms(1)] by blast

text \<open>The event makes a secret leave the service under this grant.\<close>

fun releases :: "ui_env \<Rightarrow> proxy_env \<Rightarrow> ui_state \<Rightarrow> event \<Rightarrow> db \<Rightarrow> uuid \<Rightarrow> bool" where
  "releases ue px us (E_read call header raw body dr) d gid \<longleftrightarrow>
     \<not> isl (fst (read (ue_api ue) (us_app us) call header raw body dr d)) \<and> path_id (ue_api ue) raw = Inr gid"
| "releases ue px us (E_proxy call header rq dr streams) d gid \<longleftrightarrow>
     fst (snd (handle (ue_api ue) px (us_app us) call header rq dr d streams)) \<noteq> None
     \<and> grant_id_from_path (ue_api ue) (pq_path rq) = Inr gid"
| "releases ue px us _ d gid \<longleftrightarrow> False"

lemma releases_owned:
  assumes "releases ue px us e d gid"
  obtains dr client header g where "event_reads e = [dr]" "authenticate_client (ue_api ue) (us_app us) header dr = Inr client"
    "owned_grant (cl_name client) gid dr = Inr g"
proof (cases e)
  case (E_read call header raw body dr)
  obtain r d' where r: "read (ue_api ue) (us_app us) call header raw body dr d = (r, d')"
    by fastforce
  with assms E_read obtain resp where "r = Inr resp" "path_id (ue_api ue) raw = Inr gid"
    by (cases r) auto
  with r have "read (ue_api ue) (us_app us) call header raw body dr d = (Inr resp, d')" "path_id (ue_api ue) raw = Inr gid"
    by simp_all
  then show thesis
    by (cases rule: read_Inr) (use E_read that in auto)
next
  case (E_proxy call header rq dr streams)
  then obtain r out d' s where "handle (ue_api ue) px (us_app us) call header rq dr d streams = (r, Some out, d', s)"
    and gid: "grant_id_from_path (ue_api ue) (pq_path rq) = Inr gid"
    using assms by (cases "handle (ue_api ue) px (us_app us) call header rq dr d streams") auto
  from this(1) show thesis
  proof (cases rule: handle_cases)
    case (Used gid' client g secret)
    with gid show thesis
      using that [of dr header client g] proxy_admit_Inr [of "ue_api ue" "us_app us" header gid dr client g secret] E_proxy by simp
  qed simp
qed (use assms in simp_all)

text \<open>C18: nothing leaves the service that nobody decided.  In a history that began without grants, when a read
  answers with a secret or the proxy sends a request, the grant was given by one event of this history: the
  creation of its request, decided by a standing policy (an authenticated client, a valid request, every hard
  cap and every applicable row permitting it); or the approval of its request by an authorized operator, sent from a page of
  this server with a form token minted for the approval of exactly this request in the state shown.\<close>

theorem releases_decided:
  assumes "service ue px us t0 d0 h t d" "reach (replay_window us) (t0, d0)" "db_grants d0 = []"
    and "set (event_reads e) \<subseteq> insert d (snd ` set h)" "releases ue px us e d gid"
  shows "\<exists>g \<in> set (db_grants d). gr_id g = gid \<and> (\<exists>(ea, da) \<in> set h. authorises ue us ea gid (gr_request_id g))"
proof -
  from releases_owned [OF assms(5)] obtain dr name g where r: "event_reads e = [dr]" "owned_grant name gid dr = Inr g"
    by metis
  note own = owned_grant_Inr [OF r(2)]
  have "g \<in> set (db_grants dr)"
    using own(1) by (auto simp: get_grant_def dest: find_Some_mem)
  then have "(gid, gr_request_id g) \<in> grant_keys dr"
    using own(3) by (auto simp: grant_keys_def)
  then have key: "(gid, gr_request_id g) \<in> grant_keys d"
    using service_keys [OF assms(1,2)] assms(4) r(1) by auto
  moreover have "grant_keys d0 = {}"
    using assms(3) by (simp add: grant_keys_def)
  ultimately have "\<exists>(ea, da) \<in> set h. authorises ue us ea gid (gr_request_id g)"
    using service_keys [OF assms(1,2)] by auto
  moreover obtain g' where "g' \<in> set (db_grants d)" "gr_id g' = gid" "gr_request_id g' = gr_request_id g"
    using key by (auto simp: grant_keys_def)
  ultimately show ?thesis by metis
qed

section \<open>An example history\<close>

text \<open>A request that policy decides, and the read of its grant.\<close>

definition ex_creation :: event where
  "ex_creation = E_create ex_call ex_header (Inr ''fill'') ex_s3"

definition ex_reading :: event where
  "ex_reading = E_read ex_late_call ex_header (Some ''20'') (Inr ''k1'') ex_s4"

lemma ex_parts: "ue_api ex_ui_env = ex_session_env" "us_app ex_ui_state = ex_app" "lim_replay_window_seconds (app_limits ex_app) = 60"
  by (simp_all add: ex_ui_env_def ex_ui_state_def ex_app_def ex_limits_def)

lemma ex_history: "service ex_ui_env px ex_ui_state 2 ex_s3 [(ex_creation, ex_s3)] (ccl_now ex_call) ex_s4"
proof -
  have "event_now ex_creation = ccl_now ex_call" "serve ex_ui_env px ex_ui_state ex_creation ex_s3 = ex_s4"
    "set (event_reads ex_creation) \<subseteq> insert ex_s3 (snd ` set [])"
    by (simp_all add: ex_creation_def ex_parts ex_first_ok)
  with served [OF found, of 2 ex_creation ex_s3 ex_ui_env px ex_ui_state] ex_call_clock(1) show ?thesis by simp
qed

lemma ex_s3_reach_window: "reach (replay_window ex_ui_state) (2, ex_s3)"
  by (simp only: ex_parts ex_s3_reach)

theorem service_refines_store_witness:
  "reach 60 (ccl_now ex_call, ex_s4) \<and> run 60 (2, ex_s3) (ccl_now ex_call, ex_s4)"
  using service_refines_store [OF ex_history ex_s3_reach_window] by (simp only: ex_parts)

theorem releases_decided_witness:
  "policy_decided ex_session_env ex_app ex_call ex_header (Inr ''fill'') ex_s3"
proof -
  have "db_grants ex_s3 = []" "path_id ex_session_env (Some ''20'') = Inr 20"
    by code_simp+
  moreover from this have "releases ex_ui_env undefined ex_ui_state ex_reading ex_s4 20"
    using ex_release_ok by (simp add: ex_reading_def ex_parts ex_release_def)
  moreover have "set (event_reads ex_reading) \<subseteq> insert ex_s4 (snd ` set [(ex_creation, ex_s3)])"
    by (simp add: ex_reading_def)
  ultimately show ?thesis
    using releases_decided [OF ex_history ex_s3_reach_window, of ex_reading undefined 20]
    by (auto simp: ex_creation_def ex_parts)
qed

end
