(* ===== verification/Startup_System.thy ===== *)
theory Startup_System
  imports Startup "HOL-Library.Multiset"
begin

text \<open>
  What a successful start leaves behind: clients, provisioned secrets and provisioned policies are those of the
  configuration, and a second start with the same configuration writes nothing.
\<close>

section \<open>Provisioned policies settle\<close>

lemma position_Some: "position P xs = Some i \<Longrightarrow> i < length xs \<and> P (xs ! i)"
  by (induction xs arbitrary: i) (auto split: if_splits)

lemma position_None: "position P xs = None \<longleftrightarrow> (\<forall>x \<in> set xs. \<not> P x)"
  by (induction xs) auto

lemma mset_swap_remove:
  assumes "i < length xs"
  shows "add_mset (xs ! i) (mset (swap_remove i xs)) = mset xs"
proof -
  obtain ys z where xs: "xs = ys @ [z]"
    using assms by (metis append_butlast_last_id length_0_conv less_nat_zero_code)
  show ?thesis
  proof (cases "i < length ys")
    case True
    then have "mset (ys[i := z]) = add_mset z (mset ys - {# ys ! i #})"
      by (rule mset_update)
    with True show ?thesis
      by (simp add: xs swap_remove_def nth_append list_update_append)
  next
    case False
    with assms have "i = length ys" by (simp add: xs)
    then show ?thesis by (simp add: xs swap_remove_def)
  qed
qed

abbreviation row_key :: "policy_row \<Rightarrow> new_policy" where
  "row_key r \<equiv> policy_key (row_policy r)"

lemma reconcile_existing_keeps:
  assumes "reconcile_existing us now rs wanted d = (w, n, d')"
    and "distinct (map pol_id (db_policies d))" "set rs \<subseteq> set (db_policies d)" "distinct rs"
  shows "\<exists>K. set K \<subseteq> set rs \<and> distinct K
    \<and> mset (map policy_key wanted) = mset (map policy_key w) + mset (map row_key K)
    \<and> db_policies d' = filter (\<lambda>q. q \<in> set rs \<longrightarrow> q \<in> set K) (db_policies d)"
  using assms
proof (induction rs arbitrary: wanted d n)
  case Nil
  then show ?case by (intro exI [of _ "[]"]) simp
next
  case (Cons r rs)
  show ?case
  proof (cases "position (\<lambda>p. policy_key p = row_key r) wanted")
    case (Some i)
    note i = position_Some [OF Some]
    have rec: "reconcile_existing us now rs (swap_remove i wanted) d = (w, n, d')"
      using Cons.prems(1) Some by simp
    obtain K where K: "set K \<subseteq> set rs" "distinct K"
        "mset (map policy_key (swap_remove i wanted)) = mset (map policy_key w) + mset (map row_key K)"
        "db_policies d' = filter (\<lambda>q. q \<in> set rs \<longrightarrow> q \<in> set K) (db_policies d)"
      using Cons.IH [OF rec] Cons.prems by auto
    have "mset (map policy_key wanted) = add_mset (row_key r) (mset (map policy_key (swap_remove i wanted)))"
      using i mset_swap_remove [of i wanted] by (metis image_mset_add_mset mset_map)
    moreover have "db_policies d' = filter (\<lambda>q. q \<in> set (r # rs) \<longrightarrow> q \<in> set (r # K)) (db_policies d)"
      using K(4) Cons.prems(4) by (auto intro: filter_cong)
    ultimately show ?thesis
      using K Cons.prems(4) by (intro exI [of _ "r # K"]) auto
  next
    case None
    let ?d1 = "insert_audit now (policy_deleted_event us r CONFIG_ACTOR)
                 (d\<lparr>db_policies := del_where (\<lambda>q. pol_id q = pol_id r) (db_policies d)\<rparr>)"
    have r: "r \<in> set (db_policies d)"
      using Cons.prems(3) by simp
    have same: "pol_id q = pol_id r \<longleftrightarrow> q = r" if "q \<in> set (db_policies d)" for q
      using distinct_map_same [OF Cons.prems(2) that r] by auto
    have d1: "db_policies ?d1 = filter (\<lambda>q. q \<noteq> r) (db_policies d)"
      using same by (auto simp: del_where_def intro: filter_cong)
    from Cons.prems(1) None obtain m where rec: "reconcile_existing us now rs wanted ?d1 = (w, m, d')"
      by (auto simp: Let_def split: prod.splits)
    have "distinct (map pol_id (db_policies ?d1))" "set rs \<subseteq> set (db_policies ?d1)" "distinct rs"
      using Cons.prems(2-4) unfolding d1 by (auto simp: distinct_map_filter)
    from Cons.IH [OF rec this] obtain K where K: "set K \<subseteq> set rs" "distinct K"
        "mset (map policy_key wanted) = mset (map policy_key w) + mset (map row_key K)"
        "db_policies d' = filter (\<lambda>q. q \<in> set rs \<longrightarrow> q \<in> set K) (filter (\<lambda>q. q \<noteq> r) (db_policies d))"
      unfolding d1 by blast
    have "db_policies d' = filter (\<lambda>q. q \<in> set (r # rs) \<longrightarrow> q \<in> set K) (db_policies d)"
      using K(1,4) Cons.prems(4) by (auto intro!: filter_cong)
    with K show ?thesis by (intro exI [of _ K]) auto
  qed
qed

lemma insert_managed_rows:
  "insert_managed us now ids ps d = Inr (n, d') \<Longrightarrow>
   \<exists>rows. db_policies d' = db_policies d @ rows \<and> map row_key rows = map policy_key ps \<and> (\<forall>r \<in> set rows. pol_managed_by_config r)"
proof (induction us now ids ps d arbitrary: n rule: insert_managed.induct)
  case (3 us now i ids p ps d)
  let ?r = "new_policy_row now i p CONFIG_ACTOR True"
  from "3.prems" obtain d1 m where d1: "insert_policy_row ?r d = Inr d1"
      and rec: "insert_managed us now ids ps (insert_audit now (policy_created_event us i p CONFIG_ACTOR) d1) = Inr (m, d')"
    by (auto split: sum.splits)
  from "3.IH" [OF d1 rec] obtain rows where rows: "db_policies d' = db_policies d1 @ rows"
      "map row_key rows = map policy_key ps" "\<forall>r \<in> set rows. pol_managed_by_config r"
    by auto
  have "db_policies d1 = db_policies d @ [?r]"
    using d1 by (auto simp: insert_policy_row_def split: if_splits)
  moreover have "row_key ?r = policy_key p" "pol_managed_by_config ?r"
    by (simp_all add: policy_key_def row_policy_def new_policy_row_def)
  ultimately show ?case
    using rows by (intro exI [of _ "?r # rows"]) auto
qed auto

definition policies_settled :: "new_policy list \<Rightarrow> db \<Rightarrow> bool" where
  "policies_settled ps d \<longleftrightarrow> mset (map row_key (filter pol_managed_by_config (db_policies d))) = mset (map policy_key ps)"

lemma reconcile_policies_settles:
  assumes "reconcile_policies us now ids ps d = Inr (pch, d')" "distinct (map pol_id (db_policies d))"
  shows "policies_settled ps d'"
proof -
  let ?rs = "filter pol_managed_by_config (db_policies d)"
  from assms(1) obtain w n d1 m where d1: "reconcile_existing us now ?rs ps d = (w, n, d1)"
      and d2: "insert_managed us now ids w d1 = Inr (m, d')"
    by (auto simp: reconcile_policies_def split: prod.splits sum.splits)
  have dist: "distinct (db_policies d)"
    using assms(2) by (simp add: distinct_map)
  from reconcile_existing_keeps [OF d1 assms(2)] dist obtain K where K: "set K \<subseteq> set ?rs" "distinct K"
      "mset (map policy_key ps) = mset (map policy_key w) + mset (map row_key K)"
      "db_policies d1 = filter (\<lambda>q. q \<in> set ?rs \<longrightarrow> q \<in> set K) (db_policies d)"
    by auto
  from insert_managed_rows [OF d2] obtain rows where rows: "db_policies d' = db_policies d1 @ rows"
      "map row_key rows = map policy_key w" "\<forall>r \<in> set rows. pol_managed_by_config r" by blast
  have "set (filter pol_managed_by_config (db_policies d1)) = set K" "distinct (filter pol_managed_by_config (db_policies d1))"
    using K(1) dist by (auto simp: K(4))
  then have "mset (filter pol_managed_by_config (db_policies d1)) = mset K"
    using K(2) by (metis set_eq_iff_mset_eq_distinct)
  then have "mset (map row_key (filter pol_managed_by_config (db_policies d1))) = mset (map row_key K)"
    by (metis mset_map)
  moreover have "filter pol_managed_by_config rows = rows"
    using rows(3) by simp
  ultimately show ?thesis
    using K(3) rows(1,2) by (simp add: policies_settled_def)
qed

lemma reconcile_existing_again:
  "mset (map row_key rs) = mset (map policy_key wanted) \<Longrightarrow> reconcile_existing us now rs wanted d = ([], 0, d)"
proof (induction rs arbitrary: wanted)
  case (Cons r rs)
  have "row_key r \<in># mset (map policy_key wanted)"
    using Cons.prems [symmetric] by simp
  then have "row_key r \<in> policy_key ` set wanted"
    by simp
  then have "position (\<lambda>p. policy_key p = row_key r) wanted \<noteq> None"
    unfolding position_None by force
  then obtain i where i: "position (\<lambda>p. policy_key p = row_key r) wanted = Some i" by blast
  have "mset (map policy_key wanted) = add_mset (row_key r) (mset (map policy_key (swap_remove i wanted)))"
    using position_Some [OF i] mset_swap_remove [of i wanted] by (metis image_mset_add_mset mset_map)
  with Cons.prems have "mset (map row_key rs) = mset (map policy_key (swap_remove i wanted))"
    by simp
  from Cons.IH [OF this] i show ?case by simp
qed simp

lemma reconcile_policies_again:
  "policies_settled ps d \<Longrightarrow> reconcile_policies us now ids ps d = Inr (\<lparr>pch_created = 0, pch_deleted = 0\<rparr>, d)"
  by (simp add: policies_settled_def reconcile_policies_def reconcile_existing_again)

section \<open>Clients settle\<close>

lemma clash_sym: "binding_clash a b \<longleftrightarrow> binding_clash b a"
  by (auto simp: binding_clash_def)

lemma clash_unbound: "unbound b \<Longrightarrow> \<not> binding_clash a b"
  by (auto simp: binding_clash_def unbound_def)

lemma clash_id:
  "binding_clash (configured_row i c) b \<longleftrightarrow> binding_clash (configured_row j c) b"
  "binding_clash a (r\<lparr>cl_id := i\<rparr>) \<longleftrightarrow> binding_clash a r" "binding_clash (r\<lparr>cl_id := i\<rparr>) b \<longleftrightarrow> binding_clash r b"
  by (auto simp: binding_clash_def configured_row_def)

definition clash_free :: "client_row list \<Rightarrow> bool" where
  "clash_free rows \<longleftrightarrow> (\<forall>a \<in> set rows. \<forall>b \<in> set rows. cl_name a \<noteq> cl_name b \<longrightarrow> \<not> binding_clash a b)"

lemma upsert_client_clash_free:
  assumes "upsert_client i c rows = Inr rows'" "clash_free rows"
  shows "clash_free rows'"
proof -
  have free: "\<not> binding_clash (configured_row j c) r" if "r \<in> set rows" "cl_name r \<noteq> cc_name c" for r j
    using assms(1) that clash_id(1) [of j c r i]
    by (auto simp: upsert_client_def Let_def list_ex_iff split: if_splits)
  have rows': "(\<exists>j. r = configured_row j c) \<or> r \<in> set rows \<and> cl_name r \<noteq> cc_name c" if "r \<in> set rows'" for r
    using assms(1) that
    by (auto simp: upsert_client_def Let_def upd_where_def list_ex_iff configured_row_def split: if_splits)
  have "\<not> binding_clash a b" if "a \<in> set rows'" "b \<in> set rows'" "cl_name a \<noteq> cl_name b" for a b
    using rows' [OF that(1)] rows' [OF that(2)] that(3) free assms(2) clash_sym
    by (auto simp: clash_free_def)
  then show ?thesis
    by (simp add: clash_free_def)
qed

lemma upsert_clients_clash_free: "upsert_clients cs rows = Inr rows' \<Longrightarrow> clash_free rows \<Longrightarrow> clash_free rows'"
  by (induction cs rows rule: upsert_clients.induct) (auto split: sum.splits intro: upsert_client_clash_free)

text \<open>The rows a successful reconciliation leaves behind.\<close>

definition clients_settled :: "client_config list \<Rightarrow> client_row list \<Rightarrow> bool" where
  "clients_settled cs rows \<longleftrightarrow>
     clash_free rows
     \<and> (\<forall>c \<in> set cs. \<exists>r \<in> set rows. cl_name r = cc_name c)
     \<and> (\<forall>c \<in> set cs. \<forall>r \<in> set rows. cl_name r = cc_name c \<longrightarrow> r = configured_row (cl_id r) c)
     \<and> (\<forall>r \<in> set rows. cl_name r \<notin> cc_name ` set cs \<longrightarrow> retire_client r = r)"

lemma with_ids_snd [simp]: "map snd (with_ids f xs) = xs" "snd ` set (with_ids f xs) = set xs" "length (with_ids f xs) = length xs"
proof -
  show m: "map snd (with_ids f xs) = xs"
    by (simp add: with_ids_def)
  show "snd ` set (with_ids f xs) = set xs"
    by (metis m list.set_map)
qed (simp add: with_ids_def)

lemma reconcile_clients_settles:
  assumes "reconcile_clients (with_ids f cs) d = Inr d'" "distinct (map cc_name cs)"
  shows "clients_settled cs (db_clients d') \<and> d' = d\<lparr>db_clients := db_clients d'\<rparr>"
proof -
  let ?ws = "with_ids f cs"
  let ?names = "(cc_name \<circ> snd) ` set ?ws"
  let ?r1 = "upd_where (\<lambda>r. cl_name r \<notin> ?names) retire_client (db_clients d)"
  let ?r2 = "upd_where (\<lambda>r. cl_name r \<in> ?names) release_binding ?r1"
  have names: "?names = cc_name ` set cs"
    by (simp only: image_comp [symmetric] with_ids_snd)
  obtain rows where rows: "upsert_clients ?ws ?r2 = Inr rows" "d' = d\<lparr>db_clients := rows\<rparr>"
    using assms(1) by (auto simp: reconcile_clients_def Let_def split: sum.splits)
  have "map (cc_name \<circ> snd) ?ws = map cc_name cs"
    by (metis map_map with_ids_snd(1))
  then have up: "(\<forall>(i, c) \<in> set ?ws. (\<exists>r \<in> set rows. cl_name r = cc_name c)
        \<and> (\<forall>r \<in> set rows. cl_name r = cc_name c \<longrightarrow> r = configured_row (cl_id r) c))
    \<and> (\<forall>r. cl_name r \<notin> ?names \<longrightarrow> (r \<in> set rows \<longleftrightarrow> r \<in> set ?r2))"
    using upsert_clients_Inr [OF rows(1)] assms(2) by simp
  have "clash_free ?r2"
    using released_rows clash_unbound unfolding clash_free_def by blast
  with rows(1) have "clash_free rows"
    by (rule upsert_clients_clash_free)
  moreover have "retire_client r = r" if r: "r \<in> set rows" "cl_name r \<notin> ?names" for r
  proof -
    have "r \<in> set ?r2"
      using up r by blast
    then obtain q where q: "q \<in> set ?r1" "r = (if cl_name q \<in> ?names then release_binding q else q)"
      unfolding set_upd_where [of r] by blast
    obtain p where p: "q = (if cl_name p \<notin> ?names then retire_client p else p)"
      using q(1) unfolding set_upd_where by blast
    have "cl_name q = cl_name p" "cl_name r = cl_name q"
      using q(2) p by simp_all
    then have "r = retire_client p"
      using r(2) q(2) p by simp
    then show ?thesis by (simp add: retire_client_def)
  qed
  moreover have "(\<exists>r \<in> set rows. cl_name r = cc_name c) \<and> (\<forall>r \<in> set rows. cl_name r = cc_name c \<longrightarrow> r = configured_row (cl_id r) c)"
    if "c \<in> set cs" for c
  proof -
    have "c \<in> snd ` set ?ws"
      using that by simp
    then obtain i where "(i, c) \<in> set ?ws"
      by (auto simp del: with_ids_snd)
    with up show ?thesis by blast
  qed
  ultimately show ?thesis
    unfolding clients_settled_def rows(2) names by simp
qed

lemma upsert_clients_again:
  assumes "clients_settled all rows" "distinct (map (cc_name \<circ> snd) ws)" "snd ` set ws \<subseteq> set all"
  shows "upsert_clients ws (upd_where (\<lambda>r. cl_name r \<in> (cc_name \<circ> snd) ` set ws) release_binding rows) = Inr rows"
  using assms(2,3)
proof (induction ws)
  case Nil
  then show ?case by (simp add: upd_where_def)
next
  case (Cons w ws)
  obtain i c where w: "w = (i, c)" by (cases w)
  let ?N = "(cc_name \<circ> snd) ` set ws"
  let ?cur = "upd_where (\<lambda>r. cl_name r \<in> insert (cc_name c) ?N) release_binding rows"
  let ?new = "configured_row i c"
  have c: "c \<in> set all" "cc_name c \<notin> ?N"
    using Cons.prems by (auto simp: w)
  obtain rc where rc: "rc \<in> set rows" "cl_name rc = cc_name c" "rc = configured_row (cl_id rc) c"
    using assms(1) c(1) unfolding clients_settled_def by blast
  have "\<not> binding_clash ?new q" if q: "q \<in> set ?cur" "cl_name q \<noteq> cc_name c" for q
  proof -
    obtain p where p: "p \<in> set rows" "q = (if cl_name p \<in> insert (cc_name c) ?N then release_binding p else p)"
      using q(1) unfolding set_upd_where by blast
    have "\<not> binding_clash rc p"
      using assms(1) rc(1,2) p q(2) unfolding clients_settled_def clash_free_def by (metis retired_fields(4))
    then have "\<not> binding_clash ?new p"
      using rc(3) clash_id(1) by metis
    then show ?thesis
      using p(2) clash_unbound by auto
  qed
  moreover have "release_binding rc \<in> set ?cur"
    using rc(1,2) unfolding set_upd_where by auto
  then have "\<exists>q \<in> set ?cur. cl_name q = cc_name c"
    by (rule bexI [rotated]) (simp add: rc(2))
  moreover have "upd_where (\<lambda>r. cl_name r = cc_name c) (\<lambda>r. ?new\<lparr>cl_id := cl_id r\<rparr>) ?cur =
      upd_where (\<lambda>r. cl_name r \<in> ?N) release_binding rows"
  proof -
    have "?new\<lparr>cl_id := cl_id r\<rparr> = r" if "r \<in> set rows" "cl_name r = cc_name c" for r
    proof -
      have "r = configured_row (cl_id r) c"
        using assms(1) c(1) that unfolding clients_settled_def by blast
      then show ?thesis by (metis configured_row_def client_row.update_convs(1))
    qed
    then show ?thesis
      using c(2) by (auto simp: upd_where_def)
  qed
  ultimately have "upsert_client i c ?cur = Inr (upd_where (\<lambda>r. cl_name r \<in> ?N) release_binding rows)"
    by (auto simp: upsert_client_def Let_def list_ex_iff)
  then show ?case
    using Cons by (simp add: w)
qed

lemma reconcile_clients_again:
  assumes "clients_settled cs (db_clients d)" "distinct (map cc_name cs)"
  shows "reconcile_clients (with_ids f cs) d = Inr d"
proof -
  let ?ws = "with_ids f cs"
  have names: "(cc_name \<circ> snd) ` set ?ws = cc_name ` set cs"
    by (simp only: image_comp [symmetric] with_ids_snd)
  have "upd_where (\<lambda>r. cl_name r \<notin> cc_name ` set cs) retire_client (db_clients d) = db_clients d"
    using assms(1) by (auto simp: upd_where_def clients_settled_def intro: map_idI)
  moreover have "distinct (map (cc_name \<circ> snd) ?ws)"
    using assms(2) by (metis map_map with_ids_snd(1))
  ultimately show ?thesis
    using upsert_clients_again [OF assms(1), of ?ws] names by (simp add: reconcile_clients_def Let_def)
qed

section \<open>Startup settles\<close>

lemma reconcile_one_frame:
  assumes "reconcile_one_secret collate sealf unseal now fs fv x d = Inr (ch, d')"
  shows "db_clients d' = db_clients d \<and> db_policies d' = db_policies d"
proof -
  have tags: "db_clients d2 = db_clients d1 \<and> db_policies d2 = db_policies d1" if "replace_tags i ts d1 = Inr d2" for i ts d1 d2
    by (subst (1 2) replace_tags_tags(4) [OF that]) simp
  have ver: "db_clients d2 = db_clients d1 \<and> db_policies d2 = db_policies d1"
    if "insert_version sealf now fv i v val d1 = Inr d2" for i v val d1 d2
    using that by (auto simp: insert_version_def table_simps split: option.splits)
  have rot: "db_clients d2 = db_clients d1 \<and> db_policies d2 = db_policies d1"
    if "provision_rotate sealf now fv x row d1 = Inr d2" for row d1 d2
    using that by (auto simp: provision_rotate_def bump_current_version_def dest!: ver split: sum.splits option.splits if_splits)
  have meta: "db_clients d2 = db_clients d1 \<and> db_policies d2 = db_policies d1"
    if "provision_metadata now ts x row d1 = Inr d2" for ts row d1 d2
    using that by (auto simp: provision_metadata_def dest!: tags split: sum.splits if_splits)
  show ?thesis
  proof (cases "get_secret_by_name (ds_name x) d")
    case None
    with assms show ?thesis
      by (auto simp: reconcile_one_secret_def provision_create_def Let_def table_simps dest!: ver tags split: sum.splits)
  next
    case (Some row)
    with assms show ?thesis
      by (rule reconcile_one_existing) (auto dest!: meta rot split: if_splits)
  qed
qed

lemma reconcile_secrets_frame:
  assumes "reconcile_secrets collate sealf unseal now xs d = (r, d')"
  shows "db_clients d' = db_clients d \<and> db_policies d' = db_policies d"
proof -
  have each: "db_clients d2 = db_clients d1 \<and> db_policies d2 = db_policies d1"
    if "reconcile_each collate sealf unseal now ys d1 = (r', d2)" for ys d1 r' d2
    using that
  proof (induction ys arbitrary: d1 r')
    case (Cons y ys)
    then show ?case
      by (cases y) (auto split: sum.splits prod.splits dest!: reconcile_one_frame)
  qed simp
  have "db_clients (delete_each now ys d1) = db_clients d1 \<and> db_policies (delete_each now ys d1) = db_policies d1" for ys d1
    by (induction now ys d1 rule: delete_each.induct)
      (auto simp: delete_secret_audited_def delete_secret_cascade_def Let_def split: option.splits)
  with assms each show ?thesis
    by (auto simp: reconcile_secrets_def split: prod.splits sum.splits)
qed

lemma reconcile_policies_frame:
  assumes "reconcile_policies us now ids ps d = Inr (pch, d')"
  shows "db_clients d' = db_clients d \<and> db_secrets d' = db_secrets d \<and> db_tags d' = db_tags d \<and> db_versions d' = db_versions d"
proof -
  let ?same = "\<lambda>d d'. db_clients d' = db_clients d \<and> db_secrets d' = db_secrets d \<and> db_tags d' = db_tags d \<and> db_versions d' = db_versions d"
  have ex: "?same d d'" if "reconcile_existing us now rs wanted d = (w, n, d')" for rs wanted d w n d'
    using that by (induction rs arbitrary: wanted d n) (auto simp: Let_def split: option.splits prod.splits)
  have ins: "?same d d'" if "insert_managed us now ids ps d = Inr (n, d')" for ids ps d n d'
    using that by (induction us now ids ps d arbitrary: n rule: insert_managed.induct)
      (auto simp: insert_policy_row_def split: sum.splits if_splits)
  show ?thesis
    using assms by (auto simp: reconcile_policies_def split: prod.splits sum.splits dest!: ex ins)
qed

lemma settled_tables:
  "db_secrets d' = db_secrets d \<Longrightarrow> db_tags d' = db_tags d \<Longrightarrow> db_versions d' = db_versions d \<Longrightarrow>
   settled collate unseal x d' = settled collate unseal x d"
  by (simp add: settled_def get_secret_by_name_def get_tags_for_secret_def get_secret_version_def)

text \<open>The database a configuration asks for.\<close>

definition as_configured :: "startup_env \<Rightarrow> config \<Rightarrow> desired_secret list \<Rightarrow> new_policy list \<Rightarrow> db \<Rightarrow> bool" where
  "as_configured se cfg desired policies d \<longleftrightarrow>
     clients_settled (cfg_clients cfg) (db_clients d)
     \<and> (\<forall>x \<in> set desired. settled (se_collate se) (startup_unseal se) x d)
     \<and> (\<forall>s \<in> set (db_secrets d). sec_managed_by_config s \<longrightarrow> sec_name s \<in> ds_name ` set desired)
     \<and> policies_settled policies d"

lemma map_third: "map (\<lambda>(i, j, x). h x) (with_ids f (with_ids g xs)) = map h xs"
proof -
  have "map (\<lambda>(i, j, x). h x) zs = map h (map snd (map snd zs))" for zs
    by (induction zs) auto
  from this [of "with_ids f (with_ids g xs)"] show ?thesis
    by (simp only: with_ids_snd(1))
qed

lemma with_ids_mem:
  "(fs, fv, x) \<in> set (with_ids f (with_ids g xs)) \<Longrightarrow> x \<in> set xs"
  "x \<in> set xs \<Longrightarrow> \<exists>fs fv. (fs, fv, x) \<in> set (with_ids f (with_ids g xs))"
proof -
  have third: "(\<lambda>(i, j, x). x) ` set (with_ids f (with_ids g xs)) = set xs"
    using arg_cong [OF map_third [of "\<lambda>x. x" f g xs], of set] by simp
  show "(fs, fv, x) \<in> set (with_ids f (with_ids g xs)) \<Longrightarrow> x \<in> set xs"
    unfolding third [symmetric] by force
  show "x \<in> set xs \<Longrightarrow> \<exists>fs fv. (fs, fv, x) \<in> set (with_ids f (with_ids g xs))"
    unfolding third [symmetric] by force
qed

lemma init_configures:
  assumes "init se call cfg d = (Inr res, d')" "keyed d" "distinct (map pol_id (db_policies d))"
    and "distinct (map cc_name (cfg_clients cfg))"
    and desired: "desired_secrets (se_read_file se) (cfg_secrets cfg) = Inr desired" "distinct (map ds_name desired)"
    and laws: "opens_sealed (startup_seal se) (startup_unseal se)" "byte_collation (se_collate se)"
  obtains policies where "to_new_policies (se_url_host se) (cfg_policies cfg) = Inr policies"
    "as_configured se cfg desired policies d'"
proof -
  let ?ws = "with_ids (sc_secret_id call) (with_ids (sc_version_id call) desired)"
  from assms(1) desired(1) obtain d1 changes d2 policies pch where
      c: "reconcile_clients (with_ids (sc_client_id call) (cfg_clients cfg)) d = Inr d1"
      and s: "reconcile_secrets (se_collate se) (startup_seal se) (startup_unseal se) (sc_now call) ?ws d1 = (Inr changes, d2)"
      and p: "to_new_policies (se_url_host se) (cfg_policies cfg) = Inr policies"
      and r: "reconcile_policies (se_uuid_str se) (sc_now call) (map (sc_policy_id call) [0..<length policies]) policies d2 = Inr (pch, d')"
    by (auto simp: init_def split: sum.splits prod.splits)
  note cl = reconcile_clients_settles [OF c assms(4)]
  have d1: "keyed d1" "db_policies d1 = db_policies d"
    using assms(2) by (subst conjunct2 [OF cl], simp add: keyed_def)+
  note st = reconcile_secrets_settles [OF s d1(1) laws]
  have dist: "distinct (map (\<lambda>(fs, fv, x). ds_name x) ?ws)"
    using desired(2) by (simp add: map_third)
  note fr = reconcile_secrets_frame [OF s] reconcile_policies_frame [OF r]
  have "policies_settled policies d'"
    by (rule reconcile_policies_settles [OF r]) (use fr(1) d1(2) assms(3) in simp)
  moreover have "settled (se_collate se) (startup_unseal se) x d'" if "x \<in> set desired" for x
  proof -
    from with_ids_mem(2) [OF that, of "sc_secret_id call" "sc_version_id call"] obtain fs fv where "(fs, fv, x) \<in> set ?ws" by blast
    with st(1) [OF dist] have "settled (se_collate se) (startup_unseal se) x d2" by auto
    with fr(2) show ?thesis using settled_tables [of d' d2] by simp
  qed
  moreover have "(\<lambda>(fs, fv, x). ds_name x) ` set ?ws = ds_name ` set desired"
    by (metis list.set_map map_third)
  ultimately have "as_configured se cfg desired policies d'"
    using st(2) [OF dist] cl fr by (simp add: as_configured_def)
  with p show thesis by (rule that)
qed

lemma init_again:
  assumes "as_configured se cfg desired policies d" "distinct (map cc_name (cfg_clients cfg))"
    and "desired_secrets (se_read_file se) (cfg_secrets cfg) = Inr desired"
    and "to_new_policies (se_url_host se) (cfg_policies cfg) = Inr policies"
  shows "init se call cfg d =
    (Inr (map (\<lambda>x. (ds_name x, Change_Unchanged)) desired, \<lparr>pch_created = 0, pch_deleted = 0\<rparr>), d)"
proof -
  let ?ws = "with_ids (sc_secret_id call) (with_ids (sc_version_id call) desired)"
  have "stale_secrets (map (\<lambda>(fs, fv, x). ds_name x) ?ws) d = []"
    using assms(1) by (auto simp: stale_secrets_def map_third as_configured_def filter_empty_conv)
  moreover have "reconcile_each (se_collate se) (startup_seal se) (startup_unseal se) (sc_now call) ?ws d =
      (Inr (map (\<lambda>(fs, fv, x). (ds_name x, Change_Unchanged)) ?ws), d)"
    using assms(1) by (intro reconcile_each_again) (auto simp: as_configured_def dest: with_ids_mem(1))
  ultimately have "reconcile_secrets (se_collate se) (startup_seal se) (startup_unseal se) (sc_now call) ?ws d =
      (Inr (map (\<lambda>x. (ds_name x, Change_Unchanged)) desired), d)"
    by (simp add: reconcile_secrets_def map_third)
  then show ?thesis
    using assms by (simp add: init_def reconcile_clients_again reconcile_policies_again as_configured_def)
qed

lemma startup_opens_sealed:
  assumes "aead_correct (se_aead se)" "\<And>sid v. random_ok (se_random se sid v)"
  shows "opens_sealed (startup_seal se) (startup_unseal se)"
  using keyset_open_seal [OF assms]
  by (auto simp: opens_sealed_def startup_seal_def startup_unseal_def seal_fn_of_def new_version_row_def split: sum.splits)

lemma validate_secrets_distinct:
  "validate_secrets seen cs = None \<Longrightarrow> distinct (map sc_name cs) \<and> sc_name ` set cs \<inter> seen = {}"
  by (induction seen cs rule: validate_secrets.induct) (auto split: if_splits)

lemma desired_secrets_Inr:
  assumes "desired_secrets read_file cs = Inr desired"
  shows "map ds_name desired = map sc_name cs"
    "\<And>c. c \<in> set cs \<Longrightarrow> \<exists>x \<in> set desired. \<exists>raw. ds_name x = sc_name c \<and> ds_tags x = sc_tags c \<and> ds_description x = sc_description c
       \<and> injection_resolve read_file (sc_injection c) = Inr (ds_injection_kind x, ds_injection_header x, ds_injection_username x)
       \<and> ds_max_tier x = tier_as_int (sc_max_tier c) \<and> read_file (sc_value_file c) = Some raw \<and> ds_value x = trim_one_newline raw"
  using assms
  by (induction cs arbitrary: desired) (auto simp: map_sum_eq_Inr split: sum.splits option.splits if_splits prod.splits)

lemma loaded_distinct:
  assumes "load url_host env_url parsed = Inr cfg"
  shows "distinct (map cc_name (cfg_clients cfg))" "distinct (map sc_name (cfg_secrets cfg))"
proof -
  have v: "validate url_host cfg = None"
    using assms by (auto simp: load_def Let_def split: option.splits)
  show "distinct (map cc_name (cfg_clients cfg))" "distinct (map sc_name (cfg_secrets cfg))"
    using validate_parts(4,7) [OF v] validate_secrets_distinct by blast+
qed

text \<open>The hypotheses on a start: a loaded configuration, a cipher that works, the byte order as collation, and the
  primary key of the policy table.\<close>

definition startup_ok :: "startup_env \<Rightarrow> config \<Rightarrow> db \<Rightarrow> bool" where
  "startup_ok se cfg d \<longleftrightarrow>
     (\<exists>env_url parsed. load (se_url_host se) env_url parsed = Inr cfg)
     \<and> aead_correct (se_aead se) \<and> (\<forall>sid v. random_ok (se_random se sid v)) \<and> byte_collation (se_collate se)
     \<and> distinct (map pol_id (db_policies d))"

lemma init_settles:
  assumes "startup_ok se cfg d" "reach w (t, d)" "init se call cfg d = (Inr res, d')"
  obtains desired policies where "desired_secrets (se_read_file se) (cfg_secrets cfg) = Inr desired"
    "to_new_policies (se_url_host se) (cfg_policies cfg) = Inr policies" "as_configured se cfg desired policies d'"
proof -
  from assms(1) have cfg: "distinct (map cc_name (cfg_clients cfg))" "distinct (map sc_name (cfg_secrets cfg))"
    and laws: "opens_sealed (startup_seal se) (startup_unseal se)" "byte_collation (se_collate se)"
      "distinct (map pol_id (db_policies d))"
    using loaded_distinct startup_opens_sealed unfolding startup_ok_def by blast+
  from assms(3) obtain desired where desired: "desired_secrets (se_read_file se) (cfg_secrets cfg) = Inr desired"
    by (auto simp: init_def split: sum.splits prod.splits)
  have "keyed d"
    using reach_inv [OF assms(2)] by simp
  moreover have "distinct (map ds_name desired)"
    using desired_secrets_Inr(1) [OF desired] cfg(2) by simp
  ultimately show thesis
    using init_configures [OF assms(3) _ laws(3) cfg(1) desired _ laws(1,2)] that [OF desired] by blast
qed

text \<open>C33: a start makes the database match the configuration.  When it succeeds on a reachable database, every
  configured secret has a managed row, enabled and vetted, with the configured description, tier and tags and with
  the injection kind, header and username its injection settings resolve to, whose current version opens to the
  content of the configured file; no other row is managed; the managed policy rows are the configured rules, each
  as often as it is configured; and the clients are as the configuration says.  \<open>startup_ok\<close> is what this rests on:
  the configuration was loaded, the cipher and its random numbers work, the ids of the policy table are distinct,
  and the database sorts text by its bytes, as the code that compares tag lists does.\<close>

theorem startup_matches_configuration:
  assumes "startup_ok se cfg d" "reach w (t, d)" "init se call cfg d = (Inr res, d')"
  shows "(\<forall>c \<in> set (cfg_secrets cfg). \<exists>row v raw. get_secret_by_name (sc_name c) d' = Some row
      \<and> sec_managed_by_config row \<and> sec_enabled row \<and> sec_operator_vetted row
      \<and> sec_description row = sc_description c \<and> sec_max_tier row = tier_as_int (sc_max_tier c)
      \<and> injection_resolve (se_read_file se) (sc_injection c) =
          Inr (sec_injection_kind row, sec_injection_header row, sec_injection_username row)
      \<and> set (get_tags_for_secret (se_collate se) (sec_id row) d') = set (sc_tags c)
      \<and> get_secret_version (sec_id row) (sec_current_version row) d' = Some v
      \<and> se_read_file se (sc_value_file c) = Some raw \<and> startup_unseal se v = Some (trim_one_newline raw))
    \<and> (\<forall>s \<in> set (db_secrets d'). sec_managed_by_config s \<longrightarrow> sec_name s \<in> sc_name ` set (cfg_secrets cfg))
    \<and> (\<exists>policies. to_new_policies (se_url_host se) (cfg_policies cfg) = Inr policies
        \<and> mset (map (policy_key \<circ> row_policy) (filter pol_managed_by_config (db_policies d'))) = mset (map policy_key policies))
    \<and> clients_settled (cfg_clients cfg) (db_clients d')"
  using assms
proof (rule init_settles)
  fix desired policies
  assume ds: "desired_secrets (se_read_file se) (cfg_secrets cfg) = Inr desired"
    "to_new_policies (se_url_host se) (cfg_policies cfg) = Inr policies" "as_configured se cfg desired policies d'"
  have "\<exists>row v raw. get_secret_by_name (sc_name c) d' = Some row
      \<and> sec_managed_by_config row \<and> sec_enabled row \<and> sec_operator_vetted row
      \<and> sec_description row = sc_description c \<and> sec_max_tier row = tier_as_int (sc_max_tier c)
      \<and> injection_resolve (se_read_file se) (sc_injection c) =
          Inr (sec_injection_kind row, sec_injection_header row, sec_injection_username row)
      \<and> set (get_tags_for_secret (se_collate se) (sec_id row) d') = set (sc_tags c)
      \<and> get_secret_version (sec_id row) (sec_current_version row) d' = Some v
      \<and> se_read_file se (sc_value_file c) = Some raw \<and> startup_unseal se v = Some (trim_one_newline raw)"
    if "c \<in> set (cfg_secrets cfg)" for c
  proof -
    from desired_secrets_Inr(2) [OF ds(1) that] obtain x raw where x: "x \<in> set desired" "ds_name x = sc_name c"
        "ds_tags x = sc_tags c" "ds_description x = sc_description c"
        "injection_resolve (se_read_file se) (sc_injection c) = Inr (ds_injection_kind x, ds_injection_header x, ds_injection_username x)"
        "ds_max_tier x = tier_as_int (sc_max_tier c)" "se_read_file se (sc_value_file c) = Some raw"
        "ds_value x = trim_one_newline raw" by blast
    have "settled (se_collate se) (startup_unseal se) x d'"
      using ds(3) x(1) by (simp add: as_configured_def)
    then show ?thesis
      using x by (fastforce simp: settled_def metadata_differs_def sort_strings_props)
  qed
  moreover have "sc_name ` set (cfg_secrets cfg) = ds_name ` set desired"
    using desired_secrets_Inr(1) [OF ds(1)] by (metis list.set_map)
  ultimately show ?thesis
    using ds(2,3) by (auto simp: as_configured_def policies_settled_def o_def)
qed

text \<open>C34: a restart that changes nothing writes nothing.  Once a start has succeeded, starting again with the same
  configuration and files, at any later time and with any ids, succeeds, reports every secret unchanged and
  no policy created or deleted, and leaves the database as it is, the audit log included.\<close>

theorem restart_changes_nothing:
  assumes "startup_ok se cfg d" "reach w (t, d)" "init se call cfg d = (Inr res, d')"
  shows "init se call' cfg d' =
    (Inr (map (\<lambda>c. (sc_name c, Change_Unchanged)) (cfg_secrets cfg), \<lparr>pch_created = 0, pch_deleted = 0\<rparr>), d')"
proof -
  have dist: "distinct (map cc_name (cfg_clients cfg))"
    using assms(1) loaded_distinct(1) unfolding startup_ok_def by blast
  from assms show ?thesis
  proof (rule init_settles)
    fix desired policies
    assume ds: "desired_secrets (se_read_file se) (cfg_secrets cfg) = Inr desired"
      "to_new_policies (se_url_host se) (cfg_policies cfg) = Inr policies" "as_configured se cfg desired policies d'"
    have "map (\<lambda>x. (ds_name x, Change_Unchanged)) desired = map (\<lambda>c. (sc_name c, Change_Unchanged)) (cfg_secrets cfg)"
      using arg_cong [OF desired_secrets_Inr(1) [OF ds(1)], of "map (\<lambda>n. (n, Change_Unchanged))"] by (simp add: o_def)
    then show ?thesis
      by (simp add: init_again [OF ds(3) dist ds(1,2)])
  qed
qed

section \<open>An example start\<close>

definition ex_start_env :: startup_env where
  "ex_start_env = \<lparr>se_collate = sort_strings, se_uuid_str = ex_uuid_str,
     se_read_file = (\<lambda>f. if f = ''/run/tok'' then Some (''pw'' @ [CHR 0x0A]) else None), se_url_host = ex_url_host,
     se_aead = ex_aead, se_keyset = ex_keyset, se_random = (\<lambda>sid v. ex_random)\<rparr>"

definition ex_start_secret :: secret_config where
  "ex_start_secret = \<lparr>sc_name = ''tok'', sc_description = [], sc_max_tier = Tier_Brokered, sc_tags = [''a'', ''B''],
     sc_injection = \<lparr>ij_kind = ''bearer'', ij_header = None, ij_username = None, ij_username_file = None,
       ij_region = None, ij_service = None\<rparr>, sc_value_file = ''/run/tok''\<rparr>"

definition ex_start_policy :: policy_config where
  "ex_start_policy = \<lparr>pc_client = Some ''fa'', pc_secret = Some ''tok'', pc_secret_tag = None, pc_mechanism = Mech_Autofill,
     pc_outcome = ''deny'', pc_priority = 0, pc_origins = [], pc_methods = [], pc_path_prefixes = [],
     pc_max_ttl_seconds = None, pc_max_uses = None, pc_not_after = None\<rparr>"

definition ex_start_config :: config where
  "ex_start_config = ex_config\<lparr>cfg_secrets := [ex_start_secret], cfg_policies := [ex_start_policy]\<rparr>"

definition ex_start_call :: startup_call where
  "ex_start_call = \<lparr>sc_now = 1, sc_client_id = (\<lambda>_. 6), sc_secret_id = (\<lambda>_. 7), sc_version_id = (\<lambda>_. 8), sc_policy_id = (\<lambda>_. 9)\<rparr>"

definition ex_started :: db where
  "ex_started = snd (init ex_start_env ex_start_call (normalize ex_start_config) empty_db)"

lemma ex_start_ok: "startup_ok ex_start_env (normalize ex_start_config) empty_db"
proof -
  have "\<not> isl (load ex_url_host None ex_start_config)"
    by code_simp
  then have "load ex_url_host None ex_start_config = Inr (normalize ex_start_config)"
    by (auto simp: load_def Let_def split: option.splits)
  moreover have "db_policies empty_db = []"
    by (simp add: empty_db_def)
  ultimately show ?thesis
    using ex_aead_correct ex_random_ok by (auto simp: startup_ok_def ex_start_env_def byte_collation_def)
qed

lemma ex_start: "\<exists>res. init ex_start_env ex_start_call (normalize ex_start_config) empty_db = (Inr res, ex_started)"
proof -
  let ?cfg = "normalize ex_start_config"
  let ?none = "normalize (ex_start_config\<lparr>cfg_policies := []\<rparr>)"
  have same: "cfg_clients ?none = cfg_clients ?cfg" "cfg_secrets ?none = cfg_secrets ?cfg" "cfg_policies ?cfg = [ex_start_policy]"
    by (simp_all add: normalize_def ex_start_config_def)
  have "\<not> isl (fst (init ex_start_env ex_start_call ?none empty_db))"
    by code_simp
  then obtain d1 desired chs d2 where
      d1: "reconcile_clients (with_ids (sc_client_id ex_start_call) (cfg_clients ?cfg)) empty_db = Inr d1"
      and ds: "desired_secrets (se_read_file ex_start_env) (cfg_secrets ?cfg) = Inr desired"
      and d2: "reconcile_secrets (se_collate ex_start_env) (startup_seal ex_start_env) (startup_unseal ex_start_env)
        (sc_now ex_start_call) (with_ids (sc_secret_id ex_start_call) (with_ids (sc_version_id ex_start_call) desired)) d1 = (Inr chs, d2)"
    by (auto simp: init_def same split: sum.splits prod.splits)
  have "db_policies d1 = []"
    using d1 by (auto simp: reconcile_clients_def Let_def empty_db_def split: sum.splits)
  then have p: "db_policies d2 = []"
    using reconcile_secrets_frame [OF d2] by simp
  have "\<not> isl (to_new_policies (se_url_host ex_start_env) (cfg_policies ?cfg))"
    by code_simp
  then obtain np where np: "to_new_policies (se_url_host ex_start_env) (cfg_policies ?cfg) = Inr [np]"
      "np_outcome np = ''deny''" "np_secret_tag np = None"
    by (auto simp: same ex_start_policy_def to_new_policy_def split: sum.splits if_splits)
  have "\<exists>pch d3. reconcile_policies (se_uuid_str ex_start_env) (sc_now ex_start_call) (map (sc_policy_id ex_start_call) [0..<length [np]]) [np] d2
      = Inr (pch, d3)"
    using p np(2,3) by (simp add: reconcile_policies_def insert_policy_row_def policy_check_def new_policy_row_def)
  with d1 ds d2 np(1) show ?thesis
    by (auto simp: ex_started_def init_def)
qed

lemma ex_start_secrets: "cfg_secrets (normalize ex_start_config) = [ex_start_secret]"
  by (simp add: normalize_def ex_start_config_def)

lemma ex_empty_reach: "reach 60 (0, empty_db)"
  by (auto simp: reach_def intro: run_refl)

theorem startup_matches_configuration_witness:
  "\<exists>row v. get_secret_by_name ''tok'' ex_started = Some row \<and> sec_managed_by_config row
     \<and> sec_injection_kind row = ''bearer'' \<and> sec_injection_header row = None
     \<and> get_secret_version (sec_id row) (sec_current_version row) ex_started = Some v \<and> startup_unseal ex_start_env v = Some ''pw''"
proof -
  obtain res where "init ex_start_env ex_start_call (normalize ex_start_config) empty_db = (Inr res, ex_started)"
    using ex_start by blast
  from startup_matches_configuration [OF ex_start_ok ex_empty_reach this]
  have "\<exists>row v raw. get_secret_by_name (sc_name ex_start_secret) ex_started = Some row \<and> sec_managed_by_config row
      \<and> injection_resolve (se_read_file ex_start_env) (sc_injection ex_start_secret) =
          Inr (sec_injection_kind row, sec_injection_header row, sec_injection_username row)
      \<and> get_secret_version (sec_id row) (sec_current_version row) ex_started = Some v
      \<and> se_read_file ex_start_env (sc_value_file ex_start_secret) = Some raw
      \<and> startup_unseal ex_start_env v = Some (trim_one_newline raw)"
    unfolding ex_start_secrets by (elim conjE) (drule bspec [of _ _ ex_start_secret], simp, blast)
  moreover have "injection_resolve (se_read_file ex_start_env) (sc_injection ex_start_secret) = Inr (''bearer'', None, None)"
    by code_simp
  moreover have "map_option trim_one_newline (se_read_file ex_start_env (sc_value_file ex_start_secret)) = Some ''pw''"
    by code_simp
  ultimately show ?thesis
    by (auto simp: ex_start_secret_def)
qed

theorem restart_changes_nothing_witness:
  "init ex_start_env (ex_start_call\<lparr>sc_now := 500, sc_secret_id := (\<lambda>_. 70)\<rparr>) (normalize ex_start_config) ex_started =
     (Inr ([(''tok'', Change_Unchanged)], \<lparr>pch_created = 0, pch_deleted = 0\<rparr>), ex_started)"
proof -
  obtain res where "init ex_start_env ex_start_call (normalize ex_start_config) empty_db = (Inr res, ex_started)"
    using ex_start by blast
  from restart_changes_nothing [OF ex_start_ok ex_empty_reach this] show ?thesis
    by (simp add: ex_start_secrets ex_start_secret_def)
qed

text \<open>When the collation does not list the tags of a provisioned secret in byte order, \<open>a\<close> before \<open>B\<close> as in
  most locales, every start rewrites the row and appends to the audit log, although nothing changed.\<close>

definition ex_locale_sort :: "string list \<Rightarrow> string list" where
  "ex_locale_sort ts = map snd (sort_key (byte \<circ> hd \<circ> fst) (map (\<lambda>t. (to_ascii_lowercase t, t)) ts))"

lemma restart_writes_under_other_collation:
  assumes "reconcile_one_secret collate sealf unseal now fs fv x d = Inr (ch, d')"
    and "get_secret_by_name (ds_name x) d = Some row"
    and "get_tags_for_secret collate (sec_id row) d \<noteq> remdups_adj (sort_strings (ds_tags x))"
  shows "length (db_audit d) < length (db_audit d')"
  using assms(1,2)
proof (rule reconcile_one_existing)
  fix md d1
  assume md: "md = metadata_differs (get_tags_for_secret collate (sec_id row) d) (remdups_adj (sort_strings (ds_tags x))) x row"
    "(if md then provision_metadata now (remdups_adj (sort_strings (ds_tags x))) x row d else Inr d) = Inr d1"
    "(\<exists>v. get_secret_version (sec_id row) (sec_current_version row) d1 = Some v \<and> unseal v = Some (ds_value x)) \<and> d' = d1
     \<or> provision_rotate sealf now fv x row d1 = Inr d'"
  have tags: "db_audit d3 = db_audit d2" if "replace_tags i ts d2 = Inr d3" for i ts d2 d3
    by (subst replace_tags_tags(4) [OF that]) simp
  have "length (db_audit d) < length (db_audit d1)"
    using md(1,2) assms(3) by (auto simp: metadata_differs_def provision_metadata_def dest!: tags split: sum.splits if_splits)
  moreover have "length (db_audit d1) \<le> length (db_audit d')"
    using md(3) by (auto simp: provision_rotate_def bump_current_version_def insert_version_def table_simps
        split: sum.splits option.splits if_splits)
  ultimately show ?thesis by simp
qed

lemma locale_order_is_not_byte_order:
  "ex_locale_sort [''a'', ''B''] \<noteq> remdups_adj (sort_strings [''a'', ''B''])"
  by code_simp

end
