(* ===== verification/Cli_Pipeline.thy ===== *)
theory Cli_Pipeline
  imports Utf8 Types "HOL-Library.AList"
begin

text \<open>
  The process capture of the command line client (\<open>cli/src/pipeline.rs\<close>): parsing the output of \<open>ps\<close>, the walk
  along the parents, and which command lines are captured for the operator's page.  The output of
  \<open>ps\<close> is a parameter.
\<close>

section \<open>The process table\<close>

record ps_row =
  ps_ppid :: "32 word"
  ps_pgid :: "32 word"
  ps_command :: string

text \<open>The table is a hash map; the list holds its entries in some order, each key once.\<close>

type_synonym ps_table = "(32 word \<times> ps_row) list"

text \<open>Strings are UTF-8; \<open>trim_start\<close>, \<open>trim_end\<close> and \<open>find(char::is_whitespace)\<close> work on characters.\<close>

definition trim_start :: "string \<Rightarrow> string" where
  "trim_start s = (case from_utf8 s of None \<Rightarrow> s | Some cps \<Rightarrow> utf8_string (dropWhile cp_is_whitespace cps))"

definition trim_end :: "string \<Rightarrow> string" where
  "trim_end s =
     (case from_utf8 s of None \<Rightarrow> s | Some cps \<Rightarrow> utf8_string (rev (dropWhile cp_is_whitespace (rev cps))))"

definition split_field :: "string \<Rightarrow> (string \<times> string) option" where
  "split_field s =
     (case from_utf8 (trim_start s) of
        None \<Rightarrow> None
      | Some cps \<Rightarrow>
          if list_ex cp_is_whitespace cps
          then Some (utf8_string (takeWhile (\<lambda>c. \<not> cp_is_whitespace c) cps),
                     trim_start (utf8_string (dropWhile (\<lambda>c. \<not> cp_is_whitespace c) cps)))
          else None)"

definition parse_u32 :: "string \<Rightarrow> 32 word option" where
  "parse_u32 s =
     (let d = (case s of c # r \<Rightarrow> if c = CHR ''+'' then r else s | [] \<Rightarrow> s)
      in if d \<noteq> [] \<and> list_all is_ascii_digit d \<and> digits_value d < 2 ^ 32
         then Some (of_nat (digits_value d)) else None)"

definition parse_ps_line :: "string \<Rightarrow> (32 word \<times> ps_row) option" where
  "parse_ps_line line =
     (case split_field line of
        None \<Rightarrow> None
      | Some (pid_s, rest) \<Rightarrow>
     (case split_field rest of
        None \<Rightarrow> None
      | Some (ppid_s, rest) \<Rightarrow>
     (case split_field rest of
        None \<Rightarrow> None
      | Some (pgid_s, command) \<Rightarrow>
     (case (parse_u32 pid_s, parse_u32 ppid_s, parse_u32 pgid_s) of
        (Some pid, Some ppid, Some pgid) \<Rightarrow>
          (let command = trim_end command
           in if command = [] then None
              else Some (pid, \<lparr>ps_ppid = ppid, ps_pgid = pgid, ps_command = command\<rparr>))
      | _ \<Rightarrow> None))))"

fun parse_ps_lines :: "string list \<Rightarrow> ps_table \<Rightarrow> ps_table" where
  "parse_ps_lines [] table = table"
| "parse_ps_lines (line # lines) table =
     parse_ps_lines lines
       (case parse_ps_line line of None \<Rightarrow> table | Some (pid, row) \<Rightarrow> AList.update pid row table)"

definition parse_ps :: "string \<Rightarrow> ps_table" where
  "parse_ps text = parse_ps_lines (str_lines text) []"

section \<open>The walk and the capture\<close>

fun walk_from :: "ps_table \<Rightarrow> 32 word set \<Rightarrow> 32 word \<Rightarrow> nat \<Rightarrow> (32 word \<times> string) list" where
  "walk_from table seen pid 0 = []"
| "walk_from table seen pid (Suc levels) =
     (if pid \<in> seen then []
      else (case map_of table pid of
              None \<Rightarrow> []
            | Some row \<Rightarrow>
                (pid, ps_command row) #
                (if ps_ppid row = 0 \<or> ps_ppid row = pid then []
                 else walk_from table (insert pid seen) (ps_ppid row) levels)))"

definition walk_pids :: "ps_table \<Rightarrow> 32 word \<Rightarrow> nat \<Rightarrow> (32 word \<times> string) list" where
  "walk_pids table start max_levels = walk_from table {} start max_levels"

definition walk :: "ps_table \<Rightarrow> 32 word \<Rightarrow> nat \<Rightarrow> string list" where
  "walk table start max_levels = map snd (walk_pids table start max_levels)"

definition SHELLS :: "string list" where
  "SHELLS = [''sh'', ''bash'', ''zsh'', ''ksh'', ''dash'', ''ash'', ''csh'', ''tcsh'', ''fish'']"

text \<open>\<open>split_whitespace().next()\<close> is the first nonempty piece; \<open>rsplit('/').next()\<close> the last.\<close>

definition looks_like_shell :: "string \<Rightarrow> bool" where
  "looks_like_shell command =
     (let first = (case filter (\<lambda>w. w \<noteq> []) (split_chars cp_is_whitespace command) of w # _ \<Rightarrow> w | [] \<Rightarrow> []);
          base = last (split_on (CHR ''/'') first)
      in dropWhile (\<lambda>c. c = CHR ''-'') base \<in> set SHELLS)"

record capture =
  cap_ancestors :: "string list"
  cap_siblings :: "string list"

text \<open>The siblings are collected in the order of the hash map and sorted as pairs; the process ids are
  distinct, so the order is that of the ids.\<close>

definition shell_of :: "ps_table \<Rightarrow> (32 word \<times> string) list \<Rightarrow> 32 word option" where
  "shell_of table chain =
     map_option fst (find (\<lambda>(pid, _). case map_of table pid of Some r \<Rightarrow> looks_like_shell (ps_command r) | None \<Rightarrow> False)
                       (drop 1 chain))"

definition analyze :: "ps_table \<Rightarrow> 32 word \<Rightarrow> nat \<Rightarrow> capture option" where
  "analyze table start max_levels =
     (let chain = walk_pids table start max_levels
      in if chain = [] then None
         else
           (let chain_pids = set (map fst chain);
                own_pgid = map_option ps_pgid (map_of table start);
                siblings = (case (shell_of table chain, own_pgid) of
                              (Some shell, Some pgid) \<Rightarrow>
                                map (\<lambda>(pid, row). (pid, ps_command row))
                                  (filter (\<lambda>(pid, row). ps_ppid row = shell \<and> ps_pgid row = pgid \<and> pid \<notin> chain_pids) table)
                            | _ \<Rightarrow> [])
            in Some \<lparr>cap_ancestors = map snd chain, cap_siblings = map snd (sort_key fst siblings)\<rparr>))"

text \<open>\<open>ps\<close> is the output of the command with its success, \<open>None\<close> when it could not be run; \<open>lossy\<close> is
  \<open>String::from_utf8_lossy\<close>.\<close>

definition pipeline_capture :: "(bytes \<Rightarrow> string) \<Rightarrow> (bool \<times> bytes) option \<Rightarrow> 32 word \<Rightarrow> capture option" where
  "pipeline_capture lossy ps own_pid =
     (case ps of
        None \<Rightarrow> None
      | Some (success, stdout) \<Rightarrow> if \<not> success then None else analyze (parse_ps (lossy stdout)) own_pid 5)"

section \<open>What is captured\<close>

lemma parse_ps_lines_distinct: "distinct (map fst table) \<Longrightarrow> distinct (map fst (parse_ps_lines lines table))"
  by (induction lines table rule: parse_ps_lines.induct) (auto split: option.splits simp: distinct_update)

lemma parse_ps_distinct: "distinct (map fst (parse_ps text))"
  by (simp add: parse_ps_def parse_ps_lines_distinct)

lemma walk_from_length: "length (walk_from table seen pid n) \<le> n"
  by (induction table seen pid n rule: walk_from.induct) (auto split: option.splits)

lemma walk_from_start:
  "walk_from table seen pid n \<noteq> [] \<Longrightarrow>
     \<exists>row. map_of table pid = Some row \<and> hd (walk_from table seen pid n) = (pid, ps_command row)"
  by (cases n) (auto split: option.splits if_splits)

lemma walk_from_commands:
  "(p, c) \<in> set (walk_from table seen pid n) \<Longrightarrow> \<exists>row. map_of table p = Some row \<and> c = ps_command row"
  by (induction table seen pid n rule: walk_from.induct) (auto split: option.splits if_splits)

lemma walk_from_fresh: "p \<in> fst ` set (walk_from table seen pid n) \<Longrightarrow> p \<notin> seen"
proof (induction table seen pid n rule: walk_from.induct)
  case (2 table seen pid levels)
  then show ?case by (cases "map_of table pid") (auto split: if_splits)
qed simp

lemma walk_from_distinct: "distinct (map fst (walk_from table seen pid n))"
proof (induction table seen pid n rule: walk_from.induct)
  case (2 table seen pid levels)
  then show ?case
    using walk_from_fresh [of pid table "insert pid seen"] by (auto split: option.splits)
qed simp

text \<open>Each process of the walk is the parent of the one before it.\<close>

lemma walk_from_parents:
  "Suc i < length (walk_from table seen pid n) \<Longrightarrow>
     \<exists>row. map_of table (fst (walk_from table seen pid n ! i)) = Some row \<and>
           fst (walk_from table seen pid n ! Suc i) = ps_ppid row"
proof (induction table seen pid n arbitrary: i rule: walk_from.induct)
  case (2 table seen pid levels)
  show ?case
  proof (cases "pid \<notin> seen \<and> (\<exists>row. map_of table pid = Some row)")
    case False
    with "2.prems" show ?thesis by (auto split: option.splits)
  next
    case True
    then obtain row where row: "pid \<notin> seen" "map_of table pid = Some row" by auto
    with "2.prems" have up: "\<not> (ps_ppid row = 0 \<or> ps_ppid row = pid)"
      by (cases "ps_ppid row = 0 \<or> ps_ppid row = pid") auto
    show ?thesis
    proof (cases i)
      case 0
      with row up "2.prems" have "walk_from table (insert pid seen) (ps_ppid row) levels \<noteq> []" by auto
      with 0 row up show ?thesis
        using walk_from_start [of table "insert pid seen" "ps_ppid row" levels]
        by (auto simp: nth_Cons' hd_conv_nth)
    next
      case (Suc j)
      with row up "2.prems" "2.IH" [OF row up, of j] show ?thesis by auto
    qed
  qed
qed simp


text \<open>The capture does not depend on the command line of any process outside the parent chain and outside
  the process group of the caller.\<close>

definition relabel :: "(32 word \<Rightarrow> ps_row \<Rightarrow> string) \<Rightarrow> ps_table \<Rightarrow> ps_table" where
  "relabel f table = map (\<lambda>(pid, row). (pid, row\<lparr>ps_command := f pid row\<rparr>)) table"

definition pipeline_member :: "ps_table \<Rightarrow> 32 word \<Rightarrow> nat \<Rightarrow> 32 word \<times> ps_row \<Rightarrow> bool" where
  "pipeline_member table start n entry \<longleftrightarrow>
     fst entry \<in> fst ` set (walk_pids table start n) \<or>
     (case map_of table start of Some own \<Rightarrow> ps_pgid (snd entry) = ps_pgid own | None \<Rightarrow> False)"

lemma map_of_relabel: "map_of (relabel f table) pid = map_option (\<lambda>row. row\<lparr>ps_command := f pid row\<rparr>) (map_of table pid)"
  by (induction table) (auto simp: relabel_def)

lemma walk_from_relabel:
  assumes "\<And>p row. p \<in> fst ` set (walk_from table seen pid n) \<Longrightarrow> map_of table p = Some row \<Longrightarrow> f p row = ps_command row"
  shows "walk_from (relabel f table) seen pid n = walk_from table seen pid n"
  using assms
proof (induction table seen pid n rule: walk_from.induct)
  case (2 table seen pid levels)
  show ?case
  proof (cases "map_of table pid")
    case (Some row)
    show ?thesis
    proof (cases "pid \<in> seen \<or> ps_ppid row = 0 \<or> ps_ppid row = pid")
      case True
      with Some "2.prems" [of pid row] show ?thesis by (auto simp: map_of_relabel)
    next
      case False
      with Some have "walk_from (relabel f table) (insert pid seen) (ps_ppid row) levels =
          walk_from table (insert pid seen) (ps_ppid row) levels"
        by (intro "2.IH") (auto intro!: "2.prems")
      with Some False "2.prems" [of pid row] show ?thesis by (auto simp: map_of_relabel)
    qed
  qed (simp add: map_of_relabel)
qed simp

lemma shell_of_relabel:
  assumes "\<And>p row. p \<in> fst ` set chain \<Longrightarrow> map_of table p = Some row \<Longrightarrow> f p row = ps_command row"
  shows "shell_of (relabel f table) chain = shell_of table chain"
  unfolding shell_of_def
proof (rule arg_cong [where f = "map_option fst"], rule find_cong)
  fix x
  assume "x \<in> set (drop 1 chain)"
  then have "fst x \<in> fst ` set chain" by (meson image_eqI in_set_dropD)
  with assms [of "fst x"] show "(case x of (pid, _) \<Rightarrow> case map_of (relabel f table) pid of
            None \<Rightarrow> False | Some r \<Rightarrow> looks_like_shell (ps_command r)) =
        (case x of (pid, _) \<Rightarrow> case map_of table pid of None \<Rightarrow> False | Some r \<Rightarrow> looks_like_shell (ps_command r))"
    by (cases x; cases "map_of table (fst x)") (auto simp: map_of_relabel)
qed simp

lemma shell_of_mem: "shell_of table chain = Some shell \<Longrightarrow> shell \<in> fst ` set (tl chain)"
  by (auto simp: shell_of_def drop_Suc find_Some_iff intro!: rev_image_eqI nth_mem)

lemma filter_relabel:
  "\<forall>(p, row) \<in> set table. P p row \<longrightarrow> f p row = ps_command row \<Longrightarrow>
   \<forall>p row c. P p (row\<lparr>ps_command := c\<rparr>) = P p row \<Longrightarrow>
   map (\<lambda>(p, row). (p, ps_command row)) (filter (\<lambda>(p, row). P p row) (relabel f table)) =
   map (\<lambda>(p, row). (p, ps_command row)) (filter (\<lambda>(p, row). P p row) table)"
  by (induction table) (auto simp: relabel_def)

text \<open>What a capture may show: the caller's own command, then the chain of its parents, and the
  command lines of children of one of these parents in the caller's process group.\<close>

definition sibling_of :: "ps_table \<Rightarrow> 32 word \<Rightarrow> (32 word \<times> string) list \<Rightarrow> string \<Rightarrow> bool" where
  "sibling_of table start chain c \<longleftrightarrow>
     (\<exists>p row own. map_of table p = Some row \<and> c = ps_command row \<and> map_of table start = Some own \<and>
        ps_pgid row = ps_pgid own \<and> ps_ppid row \<in> fst ` set (tl chain) \<and> p \<notin> fst ` set chain)"

definition shows_pipeline :: "ps_table \<Rightarrow> 32 word \<Rightarrow> capture \<Rightarrow> bool" where
  "shows_pipeline table start cap \<longleftrightarrow>
     (\<exists>chain. map snd chain = cap_ancestors cap \<and> chain \<noteq> [] \<and> fst (hd chain) = start \<and> distinct (map fst chain) \<and>
        (\<forall>(p, c) \<in> set chain. \<exists>row. map_of table p = Some row \<and> c = ps_command row) \<and>
        (\<forall>i. Suc i < length chain \<longrightarrow>
           (\<exists>row. map_of table (fst (chain ! i)) = Some row \<and> fst (chain ! Suc i) = ps_ppid row)) \<and>
        (\<forall>c \<in> set (cap_siblings cap). sibling_of table start chain c))"

lemma analyze_siblings:
  assumes "analyze table start n = Some cap" "distinct (map fst table)" "c \<in> set (cap_siblings cap)"
  shows "sibling_of table start (walk_pids table start n) c"
proof -
  obtain shell own p row where row: "shell_of table (walk_pids table start n) = Some shell"
      "map_of table start = Some own" "(p, row) \<in> set table" "c = ps_command row" "ps_ppid row = shell"
      "ps_pgid row = ps_pgid own" "p \<notin> fst ` set (walk_pids table start n)"
    using assms(1,3) by (auto simp: analyze_def Let_def split: if_splits option.splits)
  then show ?thesis
    using assms(2) map_of_is_SomeI [of table p row] shell_of_mem [OF row(1)]
    by (auto simp: sibling_of_def)
qed

lemma analyze_shows:
  assumes cap: "analyze table start n = Some cap" and keys: "distinct (map fst table)"
  shows "shows_pipeline table start cap"
  unfolding shows_pipeline_def
proof (intro exI [of _ "walk_pids table start n"] conjI)
  show "map snd (walk_pids table start n) = cap_ancestors cap" "walk_pids table start n \<noteq> []"
    using cap by (auto simp: analyze_def Let_def split: if_splits)
  then show "fst (hd (walk_pids table start n)) = start"
    using walk_from_start [of table "{}" start n] by (auto simp: walk_pids_def)
  show "distinct (map fst (walk_pids table start n))"
    "\<forall>(p, c) \<in> set (walk_pids table start n). \<exists>row. map_of table p = Some row \<and> c = ps_command row"
    "\<forall>i. Suc i < length (walk_pids table start n) \<longrightarrow>
       (\<exists>row. map_of table (fst (walk_pids table start n ! i)) = Some row \<and>
              fst (walk_pids table start n ! Suc i) = ps_ppid row)"
    using walk_from_distinct walk_from_commands walk_from_parents by (fastforce simp: walk_pids_def)+
  show "\<forall>c \<in> set (cap_siblings cap). sibling_of table start (walk_pids table start n) c"
    using analyze_siblings [OF cap keys] by blast
qed

lemma analyze_relabel:
  assumes same: "\<forall>(p, row) \<in> set table. pipeline_member table start n (p, row) \<longrightarrow> f p row = ps_command row"
  shows "analyze (relabel f table) start n = analyze table start n"
proof -
  let ?chain = "walk_pids table start n"
  have chain: "p \<in> fst ` set ?chain \<Longrightarrow> map_of table p = Some row \<Longrightarrow> f p row = ps_command row" for p row
    using same map_of_SomeD [of table p row] by (fastforce simp: pipeline_member_def)
  have walk: "walk_pids (relabel f table) start n = ?chain"
    using chain walk_from_relabel [of table "{}" start n f] by (simp add: walk_pids_def)
  have peers: "map (\<lambda>(p, row). (p, ps_command row))
        (filter (\<lambda>(p, row). ps_ppid row = shell \<and> ps_pgid row = ps_pgid own \<and> p \<notin> fst ` set ?chain) (relabel f table)) =
      map (\<lambda>(p, row). (p, ps_command row))
        (filter (\<lambda>(p, row). ps_ppid row = shell \<and> ps_pgid row = ps_pgid own \<and> p \<notin> fst ` set ?chain) table)"
    if "map_of table start = Some own" for shell own
    using same that by (intro filter_relabel) (auto simp: pipeline_member_def)
  show ?thesis
  proof (cases "map_of table start")
    case None
    then have "?chain = []" by (cases n) (simp_all add: walk_pids_def)
    then show ?thesis by (simp add: analyze_def walk)
  next
    case (Some own)
    then show ?thesis
      using peers [OF Some] shell_of_relabel [of ?chain table f, OF chain]
      by (simp add: analyze_def Let_def walk map_of_relabel split: option.splits)
  qed
qed

text \<open>C40: The capture that goes to the server and to the operator's page shows the caller's own command
  first, then its parents, at most as many as asked for, each the parent of the one before; every
  sibling is the command line of a child, in the caller's own process group, of one of those parents.
  Replacing the command line of any other process, such as a background job with a credential in its
  arguments, leaves the capture as it is.\<close>

theorem capture_own_pipeline_only:
  assumes "pipeline_capture lossy (Some (True, stdout)) own_pid = Some cap"
  defines "table \<equiv> parse_ps (lossy stdout)"
  shows "length (cap_ancestors cap) \<le> 5 \<and> shows_pipeline table own_pid cap \<and>
    (\<forall>f. (\<forall>(p, row) \<in> set table. pipeline_member table own_pid 5 (p, row) \<longrightarrow> f p row = ps_command row) \<longrightarrow>
         analyze (relabel f table) own_pid 5 = Some cap)"
proof -
  have cap: "analyze table own_pid 5 = Some cap"
    using assms by (simp add: pipeline_capture_def)
  have "map snd (walk_pids table own_pid 5) = cap_ancestors cap"
    using cap by (auto simp: analyze_def Let_def split: if_splits)
  then have "length (cap_ancestors cap) \<le> 5"
    using walk_from_length [of table "{}" own_pid 5] by (metis length_map walk_pids_def)
  moreover have "shows_pipeline table own_pid cap"
    using analyze_shows [OF cap] parse_ps_distinct by (simp add: table_def)
  ultimately show ?thesis
    using analyze_relabel [of table own_pid 5] cap by simp
qed

text \<open>A shell runs the client and its consumer in one pipeline, and a background job beside it.\<close>

definition ex_ps :: string where
  "ex_ps = join_with [carriage_return, line_feed] [''4 1 4 -sh'', '' 7 4 7 kc x'', ''8 4 7 ks'', ''9 4 9 db -p'', ''bad'']"

definition ex_table :: ps_table where
  "ex_table =
     [(4, \<lparr>ps_ppid = 1, ps_pgid = 4, ps_command = ''-sh''\<rparr>), (7, \<lparr>ps_ppid = 4, ps_pgid = 7, ps_command = ''kc x''\<rparr>),
      (8, \<lparr>ps_ppid = 4, ps_pgid = 7, ps_command = ''ks''\<rparr>), (9, \<lparr>ps_ppid = 4, ps_pgid = 9, ps_command = ''db -p''\<rparr>)]"

definition ex_hide :: "32 word \<Rightarrow> ps_row \<Rightarrow> string" where
  "ex_hide p row = (if p = 9 then ''hidden'' else ps_command row)"

definition ex_capture :: capture where
  "ex_capture = \<lparr>cap_ancestors = [''kc x'', ''-sh''], cap_siblings = [''ks'']\<rparr>"

lemma ex_ps_lines: "str_lines ex_ps = [''4 1 4 -sh'', '' 7 4 7 kc x'', ''8 4 7 ks'', ''9 4 9 db -p'', ''bad'']"
  unfolding ex_ps_def by (rule str_lines_join) simp

lemma ex_ps_parsed:
  "parse_ps_line ''4 1 4 -sh'' = Some (4, \<lparr>ps_ppid = 1, ps_pgid = 4, ps_command = ''-sh''\<rparr>)"
  "parse_ps_line '' 7 4 7 kc x'' = Some (7, \<lparr>ps_ppid = 4, ps_pgid = 7, ps_command = ''kc x''\<rparr>)"
  "parse_ps_line ''8 4 7 ks'' = Some (8, \<lparr>ps_ppid = 4, ps_pgid = 7, ps_command = ''ks''\<rparr>)"
  "parse_ps_line ''9 4 9 db -p'' = Some (9, \<lparr>ps_ppid = 4, ps_pgid = 9, ps_command = ''db -p''\<rparr>)"
  "parse_ps_line ''bad'' = None"
  by code_simp+

lemma ex_ps_table: "parse_ps ex_ps = ex_table"
  by (simp add: parse_ps_def ex_ps_lines ex_ps_parsed ex_table_def)

lemma ex_ps_captured: "pipeline_capture id (Some (True, ex_ps)) 7 = Some ex_capture"
  unfolding pipeline_capture_def id_apply option.case prod.case not_True_eq_False if_False ex_ps_table
  by code_simp

theorem capture_own_pipeline_only_witness:
  "pipeline_capture id (Some (True, ex_ps)) 7 = Some ex_capture \<and> shows_pipeline (parse_ps ex_ps) 7 ex_capture \<and>
   analyze (relabel ex_hide (parse_ps ex_ps)) 7 5 = Some ex_capture"
proof -
  have "\<forall>(p, row) \<in> set ex_table. pipeline_member ex_table 7 5 (p, row) \<longrightarrow> ex_hide p row = ps_command row"
    by code_simp
  then show ?thesis
    using capture_own_pipeline_only [OF ex_ps_captured] ex_ps_captured by (simp add: ex_ps_table)
qed

end
