(* ===== verification/Cli.thy ===== *)
theory Cli
  imports Cli_Pipeline Config
begin

text \<open>
  The command line client (\<open>cli/src/main.rs\<close>): its configuration, the creation of a request with retries, the
  wait for its resolution, the read with retries, and the commands \<open>request\<close>, \<open>store\<close> and \<open>status\<close>.

  A failure is its exit code; messages for standard error are left out.  Everything outside the process is a
  \<open>world\<close>: a state with a clock, a timer, the files and the network, which the client only uses through its four
  operations; the libraries it calls are the record \<open>cli_env\<close>.  The wait is a loop that need not end, so it
  is a partial function, and that it ends is a theorem.
\<close>

section \<open>Failures and configuration\<close>

text \<open>A failure is its exit code and whether it is the service's own refusal; the text for standard error
  is left out.\<close>

record failure =
  fl_code :: int
  fl_keychute_refusal :: bool

type_synonym 'a cli_result = "failure + 'a"

definition EXIT_OTHER :: int where "EXIT_OTHER = 1"
definition EXIT_CONFIG :: int where "EXIT_CONFIG = 2"
definition EXIT_DENIED :: int where "EXIT_DENIED = 3"
definition EXIT_TIMEOUT :: int where "EXIT_TIMEOUT = 4"
definition EXIT_PAYLOAD_LOST :: int where "EXIT_PAYLOAD_LOST = 5"

text \<open>A panic ends the process with this code.\<close>

definition EXIT_PANIC :: int where "EXIT_PANIC = 101"

definition fail :: "int \<Rightarrow> failure" where
  "fail code = \<lparr>fl_code = code, fl_keychute_refusal = False\<rparr>"

definition refused_by_keychute :: "failure \<Rightarrow> failure" where
  "refused_by_keychute f = f\<lparr>fl_keychute_refusal := True\<rparr>"

definition WAIT_POLL_SECONDS :: int where "WAIT_POLL_SECONDS = 60"
definition WAIT_HTTP_SLACK_SECONDS :: int where "WAIT_HTTP_SLACK_SECONDS = 15"
definition HTTP_TIMEOUT_SECONDS :: int where "HTTP_TIMEOUT_SECONDS = 30"
definition READ_ATTEMPTS :: nat where "READ_ATTEMPTS = 3"
definition CREATE_ATTEMPTS :: nat where "CREATE_ATTEMPTS = 3"
definition RETRY_BACKOFF_SECONDS :: int where "RETRY_BACKOFF_SECONDS = 1"
definition MAX_WAIT_NETWORK_ERRORS :: nat where "MAX_WAIT_NETWORK_ERRORS = 5"
definition MAX_SECRET_BYTES :: nat where "MAX_SECRET_BYTES = 64 * 1024"

text \<open>A URL as the \<open>url\<close> crate parses it.\<close>

record url_parts =
  ul_scheme :: string
  ul_username :: string
  ul_password :: "string option"
  ul_host_str :: "string option"
  ul_port :: "16 word option"
  ul_fragment :: "string option"

text \<open>A lenient view of the status object.\<close>

record status_response =
  sr_request_id :: uuid
  sr_state :: request_state
  sr_grant_id :: "uuid option"
  sr_deny_reason :: "string option"
  sr_granted_secret_name :: "string option"
  sr_auto_approved :: bool

text \<open>The libraries the client calls: the URL parser, \<open>serde_json\<close> on the bodies of replies
  (\<open>li_api_error\<close> gives the code of an error envelope), base64, and the tokens of the \<open>http\<close> crate.\<close>

record cli_env =
  li_parse_url :: "string \<Rightarrow> url_parts option"
  li_url_host :: "string \<Rightarrow> string option option"
  li_status :: "string \<Rightarrow> status_response option"
  li_api_error :: "string \<Rightarrow> string option"
  li_released :: "string \<Rightarrow> read_grant_response option"
  li_grant_info :: "string \<Rightarrow> grant_info option"
  li_stored :: "string \<Rightarrow> bool"
  li_json_vec :: "json \<Rightarrow> bytes option"
  li_b64_encode :: "bytes \<Rightarrow> string"
  li_b64_decode :: "string \<Rightarrow> bytes option"
  li_uuid_str :: "uuid \<Rightarrow> string"
  li_parse_uuid :: "string \<Rightarrow> uuid option"
  li_method_ok :: "bytes \<Rightarrow> bool"
  li_header_name_ok :: "bytes \<Rightarrow> bool"
  li_header_value_ok :: "string \<Rightarrow> bool"
  li_sha256_hex :: "bytes \<Rightarrow> string"
  li_status_text :: "nat \<Rightarrow> string"

record cli_config =
  cc_url :: string
  cc_external_url :: string
  cc_token :: "string option"
  cc_token_file :: "string option"
  cc_ca_bundle :: "string option"

definition validate_api_url :: "cli_env \<Rightarrow> string \<Rightarrow> bool \<Rightarrow> bool" where
  "validate_api_url ce url allow_insecure =
     (case li_parse_url ce url of
        None \<Rightarrow> False
      | Some parsed \<Rightarrow>
          if ul_scheme parsed = ''https'' then True
          else if ul_scheme parsed = ''http'' then
            (let loopback = (case ul_host_str parsed of
                   Some h \<Rightarrow>
                     (let bare = trim_end_matches (CHR '']'') (dropWhile (\<lambda>c. c = CHR ''['') h)
                      in eq_ignore_ascii_case bare ''localhost''
                         \<or> (case parse_ip bare of Some a \<Rightarrow> is_loopback a | None \<Rightarrow> False))
                 | None \<Rightarrow> False)
             in loopback \<or> allow_insecure)
          else False)"

definition non_blank :: "string option \<Rightarrow> string option" where
  "non_blank v = Option.bind v (\<lambda>s. if trim s = [] then None else Some s)"

definition non_nil :: "string option \<Rightarrow> string option" where
  "non_nil v = Option.bind v (\<lambda>s. if s = [] then None else Some s)"

definition cli_from_env :: "cli_env \<Rightarrow> (string \<rightharpoonup> string) \<Rightarrow> cli_config cli_result" where
  "cli_from_env ce var =
     (case non_blank (var ''KEYCHUTE_URL'') of
        None \<Rightarrow> Inl (fail EXIT_CONFIG)
      | Some raw \<Rightarrow>
          (let url = trim_end_matches (CHR ''/'') (trim raw);
               allow_insecure = (case var ''KEYCHUTE_INSECURE_HTTP'' of
                                   Some v \<Rightarrow> v = ''1'' \<or> eq_ignore_ascii_case v ''true''
                                 | None \<Rightarrow> False)
           in if \<not> validate_api_url ce url allow_insecure then Inl (fail EXIT_CONFIG)
              else
                (let external_url = (case non_blank (var ''KEYCHUTE_EXTERNAL_URL'') of
                                       Some s \<Rightarrow> trim_end_matches (CHR ''/'') (trim s)
                                     | None \<Rightarrow> url);
                     token = non_nil (var ''KEYCHUTE_TOKEN'');
                     token_file = non_nil (var ''KEYCHUTE_TOKEN_FILE'')
                 in if token = None \<and> token_file = None then Inl (fail EXIT_CONFIG)
                    else Inr \<lparr>cc_url = url, cc_external_url = external_url, cc_token = token,
                              cc_token_file = token_file, cc_ca_bundle = non_nil (var ''KEYCHUTE_CA_BUNDLE'')\<rparr>)))"

definition bearer :: "cli_config \<Rightarrow> (string \<Rightarrow> string option) \<Rightarrow> string cli_result" where
  "bearer cfg read_to_string =
     (case cc_token cfg of
        Some t \<Rightarrow> Inr t
      | None \<Rightarrow>
          (case cc_token_file cfg of
             None \<Rightarrow> Inl (fail EXIT_PANIC)
           | Some path \<Rightarrow>
               (case read_to_string path of
                  None \<Rightarrow> Inl (fail EXIT_CONFIG)
                | Some raw \<Rightarrow> if trim raw = [] then Inl (fail EXIT_CONFIG) else Inr (trim raw))))"

section \<open>Idempotency keys and the structured context\<close>

definition read_idempotency_key :: "string \<Rightarrow> string" where
  "read_idempotency_key request_key = ''cli-'' @ request_key"

definition MAX_REQUEST_IDEM_KEY_BYTES :: nat where "MAX_REQUEST_IDEM_KEY_BYTES = 124"

definition idempotency_key_ok :: "string \<Rightarrow> bool" where
  "idempotency_key_ok key \<longleftrightarrow> key \<noteq> [] \<and> length key \<le> MAX_REQUEST_IDEM_KEY_BYTES"

definition MAX_STRUCTURED_COMMAND_CHARS :: nat where "MAX_STRUCTURED_COMMAND_CHARS = 400"
definition CLI_MAX_STRUCTURED_BYTES :: nat where "CLI_MAX_STRUCTURED_BYTES = 16 * 1024"

text \<open>A \<open>serde_json::Map\<close> is a list of members in the order of their keys.\<close>

fun obj_insert :: "string \<Rightarrow> json \<Rightarrow> (string \<times> json) list \<Rightarrow> (string \<times> json) list" where
  "obj_insert k v [] = [(k, v)]"
| "obj_insert k v ((k', v') # m) =
     (if k = k' then (k, v) # m
      else if bytes_le k k' then (k, v) # (k', v') # m
      else (k', v') # obj_insert k v m)"

definition obj_remove :: "string \<Rightarrow> (string \<times> json) list \<Rightarrow> (string \<times> json) list" where
  "obj_remove k m = filter (\<lambda>(k', _). k' \<noteq> k) m"

definition json_len :: "cli_env \<Rightarrow> (string \<times> json) list \<Rightarrow> nat" where
  "json_len ce m = (case li_json_vec ce (JObject m) of Some v \<Rightarrow> length v | None \<Rightarrow> 0)"

text \<open>The mark of a clipped command is the character U+2026.\<close>

definition clip_command :: "string \<Rightarrow> string" where
  "clip_command cmd =
     (case from_utf8 cmd of
        None \<Rightarrow> cmd
      | Some cps \<Rightarrow>
          if length cps \<le> MAX_STRUCTURED_COMMAND_CHARS then cmd
          else utf8_string (take MAX_STRUCTURED_COMMAND_CHARS cps @ [8230]))"

fun shed_sections :: "cli_env \<Rightarrow> string list \<Rightarrow> (string \<times> json) list \<Rightarrow> (string \<times> json) list" where
  "shed_sections ce [] m = m"
| "shed_sections ce (section # sections) m =
     (if json_len ce m \<le> CLI_MAX_STRUCTURED_BYTES then m
      else shed_sections ce sections
             (if map_of m section \<noteq> None
              then obj_insert (section @ ''_omitted'') (JBool True) (obj_remove section m)
              else m))"

definition shed_structured_to_fit :: "cli_env \<Rightarrow> (string \<times> json) list \<Rightarrow> (string \<times> json) list" where
  "shed_structured_to_fit ce m = shed_sections ce [''pipeline_siblings'', ''pipeline''] m"

definition strings_value :: "string list \<Rightarrow> json" where
  "strings_value xs = JArray (map JString xs)"

text \<open>The capture and the environment variable \<open>KEYCHUTE_CONTEXT\<close>.\<close>

definition captured_context :: "cli_env \<Rightarrow> capture option \<Rightarrow> (string \<times> json) list" where
  "captured_context ce captured =
     (case captured of
        None \<Rightarrow> []
      | Some cap \<Rightarrow>
          (let m = obj_insert ''pipeline'' (strings_value (map clip_command (cap_ancestors cap))) [];
               m = (if cap_siblings cap = [] then m
                    else obj_insert ''pipeline_siblings'' (strings_value (map clip_command (cap_siblings cap))) m)
           in shed_structured_to_fit ce m))"

definition build_structured_context :: "cli_env \<Rightarrow> capture option \<Rightarrow> string option \<Rightarrow> json option" where
  "build_structured_context ce captured extra =
     (let m = captured_context ce captured;
          m = (case extra of Some x \<Rightarrow> obj_insert ''extra'' (JString x) m | None \<Rightarrow> m)
      in if m = [] then None else Some (JObject m))"

section \<open>Exchanges\<close>

datatype http_body = No_body | Json_body json | Bytes_body bytes

text \<open>\<open>hc_user_agent\<close> tells whether the client fills in its own \<open>User-Agent\<close> where the headers have none.\<close>

record http_call =
  hc_method :: string
  hc_url :: string
  hc_bearer :: string
  hc_timeout :: "int option"
  hc_user_agent :: bool
  hc_headers :: "(string \<times> string) list"
  hc_body :: http_body

text \<open>Nothing came back, or the head of a reply whose body could not be read, or all of it.\<close>

datatype http_reply =
    Send_failed
  | Unreadable nat "(string \<times> bytes) list"
  | Reply nat "(string \<times> bytes) list" string

abbreviation seconds :: "int \<Rightarrow> int" where "seconds n \<equiv> n * 10 ^ 9"

text \<open>Everything outside the process: the monotonic clock in nanoseconds (timeouts too), sleeping for seconds, the files, the
  network with the service behind it.  One exchange may change it all.\<close>

record 's world =
  wo_now :: "'s \<Rightarrow> int"
  wo_sleep :: "int \<Rightarrow> 's \<Rightarrow> 's"
  wo_read_file :: "'s \<Rightarrow> string \<Rightarrow> string option"
  wo_send :: "http_call \<Rightarrow> 's \<Rightarrow> http_reply \<times> 's"

definition is_success :: "nat \<Rightarrow> bool" where "is_success st \<longleftrightarrow> 200 \<le> st \<and> st < 300"
definition is_client_error :: "nat \<Rightarrow> bool" where "is_client_error st \<longleftrightarrow> 400 \<le> st \<and> st < 500"
definition is_server_error :: "nat \<Rightarrow> bool" where "is_server_error st \<longleftrightarrow> 500 \<le> st \<and> st < 600"

definition status_exit_code :: "nat \<Rightarrow> int" where
  "status_exit_code st = (if st = 401 then EXIT_CONFIG else if st = 403 then EXIT_DENIED else EXIT_OTHER)"

definition classify_gone :: "cli_env \<Rightarrow> string \<Rightarrow> failure" where
  "classify_gone ce body =
     (let code = li_api_error ce body
      in if code = Some ''payload-lost'' then fail EXIT_PAYLOAD_LOST
         else if code = Some ''grant-expired'' then fail EXIT_TIMEOUT
         else if code = Some ''grant-exhausted'' then fail EXIT_OTHER
         else fail EXIT_OTHER)"

text \<open>The loop over the attempts: an attempt is definitive (\<^term>\<open>Some\<close>) or transient.\<close>

fun retry :: "'s world \<Rightarrow> ('s \<Rightarrow> 'a cli_result option \<times> 's) \<Rightarrow> bool \<Rightarrow> nat \<Rightarrow> 's \<Rightarrow> 'a cli_result \<times> 's" where
  "retry w attempt first 0 s = (Inl (fail EXIT_OTHER), s)"
| "retry w attempt first (Suc n) s =
     (case attempt (if first then s else wo_sleep w RETRY_BACKOFF_SECONDS s) of
        (Some r, s1) \<Rightarrow> (r, s1)
      | (None, s1) \<Rightarrow> retry w attempt False n s1)"

definition create_post :: "cli_config \<Rightarrow> string \<Rightarrow> create_access_request \<Rightarrow> http_call" where
  "create_post cfg tok body =
     \<lparr>hc_method = ''POST'', hc_url = cc_url cfg @ ''/v1/access-requests'', hc_bearer = tok,
      hc_timeout = Some (seconds HTTP_TIMEOUT_SECONDS), hc_user_agent = True, hc_headers = [], hc_body = Json_body (create_to_value body)\<rparr>"

definition create_attempt ::
  "cli_env \<Rightarrow> 's world \<Rightarrow> cli_config \<Rightarrow> create_access_request \<Rightarrow> 's \<Rightarrow> status_response cli_result option \<times> 's" where
  "create_attempt ce w cfg body s =
     (case bearer cfg (wo_read_file w s) of
        Inl f \<Rightarrow> (Some (Inl f), s)
      | Inr tok \<Rightarrow>
          (case wo_send w (create_post cfg tok body) s of
             (Reply st _ text, s1) \<Rightarrow>
               (if is_client_error st then Some (Inl (fail (status_exit_code st)))
                else if \<not> is_success st then None
                else map_option Inr (li_status ce text), s1)
           | (_, s1) \<Rightarrow> (None, s1)))"

definition cli_create_access_request ::
  "cli_env \<Rightarrow> 's world \<Rightarrow> cli_config \<Rightarrow> create_access_request \<Rightarrow> 's \<Rightarrow> status_response cli_result \<times> 's" where
  "cli_create_access_request ce w cfg body = retry w (create_attempt ce w cfg body) True CREATE_ATTEMPTS"

section \<open>Waiting\<close>

definition wait_poll :: "int \<Rightarrow> int" where
  "wait_poll remaining = min WAIT_POLL_SECONDS (max (remaining div 10 ^ 9) 1)"

definition wait_get :: "cli_env \<Rightarrow> cli_config \<Rightarrow> string \<Rightarrow> uuid \<Rightarrow> int \<Rightarrow> http_call" where
  "wait_get ce cfg tok request_id poll =
     \<lparr>hc_method = ''GET'',
      hc_url = cc_url cfg @ ''/v1/access-requests/'' @ li_uuid_str ce request_id @ ''/wait?timeout_seconds='' @ dec_int poll,
      hc_bearer = tok, hc_timeout = Some (seconds (poll + WAIT_HTTP_SLACK_SECONDS)), hc_user_agent = True, hc_headers = [], hc_body = No_body\<rparr>"

text \<open>What one reply means: a transient fault, a definitive answer, or a request still pending.\<close>

datatype wait_step = Wait_transient | Wait_done "status_response cli_result" | Wait_pending

definition wait_outcome :: "cli_env \<Rightarrow> http_reply \<Rightarrow> wait_step" where
  "wait_outcome ce reply =
     (case reply of
        Reply st _ text \<Rightarrow>
          if \<not> is_success st then
            (if is_server_error st \<or> st = 429 then Wait_transient
             else Wait_done (Inl (fail (status_exit_code st))))
          else (case li_status ce text of
                  None \<Rightarrow> Wait_transient
                | Some r \<Rightarrow> if sr_state r \<noteq> Pending then Wait_done (Inr r) else Wait_pending)
      | _ \<Rightarrow> Wait_transient)"

partial_function (option) wait_for_resolution ::
  "cli_env \<Rightarrow> 's world \<Rightarrow> cli_config \<Rightarrow> uuid \<Rightarrow> int \<Rightarrow> nat \<Rightarrow> 's \<Rightarrow> (status_response cli_result \<times> 's) option" where
  "wait_for_resolution ce w cfg request_id deadline network_errors s =
     (let remaining = max 0 (deadline - wo_now w s)
      in if remaining = 0 then Some (Inl (fail EXIT_TIMEOUT), s)
         else
           (case bearer cfg (wo_read_file w s) of
              Inl f \<Rightarrow> Some (Inl f, s)
            | Inr tok \<Rightarrow>
                (case wo_send w (wait_get ce cfg tok request_id (wait_poll remaining)) s of
                   (reply, s1) \<Rightarrow>
                     (case wait_outcome ce reply of
                        Wait_done r \<Rightarrow> Some (r, s1)
                      | Wait_pending \<Rightarrow> wait_for_resolution ce w cfg request_id deadline 0 s1
                      | Wait_transient \<Rightarrow>
                          if network_errors + 1 \<ge> MAX_WAIT_NETWORK_ERRORS then Some (Inl (fail EXIT_OTHER), s1)
                          else wait_for_resolution ce w cfg request_id deadline (network_errors + 1) (wo_sleep w 2 s1)))))"

section \<open>Reading the grant\<close>

definition read_post :: "cli_env \<Rightarrow> cli_config \<Rightarrow> string \<Rightarrow> uuid \<Rightarrow> string \<Rightarrow> http_call" where
  "read_post ce cfg tok grant_id idem_key =
     \<lparr>hc_method = ''POST'', hc_url = cc_url cfg @ ''/v1/grants/'' @ li_uuid_str ce grant_id @ ''/read'', hc_bearer = tok,
      hc_timeout = Some (seconds HTTP_TIMEOUT_SECONDS), hc_user_agent = True, hc_headers = [],
      hc_body = Json_body (JObject [(''idempotency_key'', JString idem_key)])\<rparr>"

definition read_attempt ::
  "cli_env \<Rightarrow> 's world \<Rightarrow> cli_config \<Rightarrow> uuid \<Rightarrow> string \<Rightarrow> 's \<Rightarrow> read_grant_response cli_result option \<times> 's" where
  "read_attempt ce w cfg grant_id idem_key s =
     (case bearer cfg (wo_read_file w s) of
        Inl f \<Rightarrow> (Some (Inl f), s)
      | Inr tok \<Rightarrow>
          (case wo_send w (read_post ce cfg tok grant_id idem_key) s of
             (Reply st _ text, s1) \<Rightarrow>
               (if st = 410 then Some (Inl (classify_gone ce text))
                else if is_client_error st then Some (Inl (fail (status_exit_code st)))
                else if \<not> is_success st then None
                else map_option Inr (li_released ce text), s1)
           | (_, s1) \<Rightarrow> (None, s1)))"

definition read_grant ::
  "cli_env \<Rightarrow> 's world \<Rightarrow> cli_config \<Rightarrow> uuid \<Rightarrow> string \<Rightarrow> 's \<Rightarrow> read_grant_response cli_result \<times> 's" where
  "read_grant ce w cfg grant_id idem_key = retry w (read_attempt ce w cfg grant_id idem_key) True READ_ATTEMPTS"

text \<open>The bytes for standard output.\<close>

definition write_secret :: "cli_env \<Rightarrow> bool \<Rightarrow> read_grant_response \<Rightarrow> bool \<Rightarrow> bytes cli_result" where
  "write_secret ce is_terminal released force_newline =
     (case (case rr_encoding released of
              Enc_Utf8 \<Rightarrow> Some (rr_secret released)
            | Enc_Base64 \<Rightarrow> li_b64_decode ce (rr_secret released)) of
        None \<Rightarrow> Inl (fail EXIT_OTHER)
      | Some out \<Rightarrow> Inr (if force_newline \<or> is_terminal then out @ [line_feed] else out))"

section \<open>The commands\<close>

record request_args =
  ra_secret_name :: string
  ra_reason :: string
  ra_ttl :: "64 word"
  ra_mechanism :: string
  ra_timeout :: "64 word"
  ra_idempotency_key :: "string option"
  ra_newline :: bool

text \<open>\<open>Instant + Duration\<close> panics when the seconds do not fit the platform's \<open>i64\<close>.\<close>

definition instant_add :: "int \<Rightarrow> 64 word \<Rightarrow> int option" where
  "instant_add now secs = (if now div 10 ^ 9 + uint secs < 2 ^ 63 then Some (now + seconds (uint secs)) else None)"

definition request_body ::
  "request_args \<Rightarrow> mechanism \<Rightarrow> string \<Rightarrow> json option \<Rightarrow> create_access_request" where
  "request_body args m idem_key structured =
     \<lparr>cr_idempotency_key = idem_key, cr_secret_name = ra_secret_name args, cr_mechanism = m,
      cr_constraints = \<lparr>c_origins = [], c_methods = [], c_path_prefixes = [], c_ttl_seconds = ra_ttl args, c_max_uses = Some 1\<rparr>,
      cr_context = \<lparr>cx_reason = ra_reason args, cx_structured = structured\<rparr>\<rparr>"

text \<open>The grant of a request: created, waited for, and its state turned into a grant id or a failure.  \<^term>\<open>None\<close>
  only when the wait does not end.\<close>

definition resolve_status :: "status_response \<Rightarrow> uuid cli_result" where
  "resolve_status r =
     (case sr_state r of
        Approved \<Rightarrow> (case sr_grant_id r of Some g \<Rightarrow> Inr g | None \<Rightarrow> Inl (fail EXIT_OTHER))
      | Denied \<Rightarrow> Inl (fail EXIT_DENIED)
      | Expired \<Rightarrow> Inl (fail EXIT_TIMEOUT)
      | Pending \<Rightarrow> Inl (fail EXIT_TIMEOUT))"

definition obtain_grant ::
  "cli_env \<Rightarrow> 's world \<Rightarrow> cli_config \<Rightarrow> create_access_request \<Rightarrow> int \<Rightarrow> 's \<Rightarrow> (uuid cli_result \<times> 's) option" where
  "obtain_grant ce w cfg body deadline s =
     (case cli_create_access_request ce w cfg body s of
        (Inl f, s1) \<Rightarrow> Some (Inl f, s1)
      | (Inr r, s1) \<Rightarrow>
          if sr_state r = Pending then
            (case wait_for_resolution ce w cfg (sr_request_id r) deadline 0 s1 of
               None \<Rightarrow> None
             | Some (Inl f, s2) \<Rightarrow> Some (Inl f, s2)
             | Some (Inr r', s2) \<Rightarrow> Some (resolve_status r', s2))
          else Some (resolve_status r, s1))"

definition run_request ::
  "cli_env \<Rightarrow> 's world \<Rightarrow> cli_config \<Rightarrow> uuid \<Rightarrow> json option \<Rightarrow> bool \<Rightarrow> request_args \<Rightarrow> 's \<Rightarrow> (bytes cli_result \<times> 's) option" where
  "run_request ce w cfg fresh structured is_terminal args s =
     (case mech_from_str_opt (ra_mechanism args) of
        None \<Rightarrow> Some (Inl (fail EXIT_CONFIG), s)
      | Some m \<Rightarrow>
          if \<not> is_releasing m then Some (Inl (fail EXIT_CONFIG), s)
          else
     (let idem_key = (case ra_idempotency_key args of Some k \<Rightarrow> k | None \<Rightarrow> li_uuid_str ce fresh)
      in if \<not> idempotency_key_ok idem_key then Some (Inl (fail EXIT_CONFIG), s)
         else
     (case instant_add (wo_now w s) (ra_timeout args) of
        None \<Rightarrow> Some (Inl (fail EXIT_PANIC), s)
      | Some deadline \<Rightarrow>
     (case obtain_grant ce w cfg (request_body args m idem_key structured) deadline s of
        None \<Rightarrow> None
      | Some (Inl f, s1) \<Rightarrow> Some (Inl f, s1)
      | Some (Inr grant_id, s1) \<Rightarrow>
          (case read_grant ce w cfg grant_id (read_idempotency_key idem_key) s1 of
             (Inl f, s2) \<Rightarrow> Some (Inl f, s2)
           | (Inr released, s2) \<Rightarrow> Some (write_secret ce is_terminal released (ra_newline args), s2))))))"

text \<open>The input of \<open>store\<close>: it cannot be opened or read, it is a terminal, or it holds bytes.\<close>

datatype secret_source = Source_error | Source_terminal | Source_bytes bytes

definition READ_HEADROOM :: nat where "READ_HEADROOM = 3"

definition read_bounded_secret :: "bytes \<Rightarrow> bytes option" where
  "read_bounded_secret source =
     (let buf = take (MAX_SECRET_BYTES + READ_HEADROOM) source
      in if length buf > MAX_SECRET_BYTES + READ_HEADROOM - 1 then None else Some buf)"

definition strip_trailing_newline :: "bytes \<Rightarrow> bytes" where
  "strip_trailing_newline buf =
     (if buf = [] \<or> last buf \<noteq> line_feed then buf
      else (let b = butlast buf in if b \<noteq> [] \<and> last b = carriage_return then butlast b else b))"

definition read_secret_input :: "secret_source \<Rightarrow> bool \<Rightarrow> bytes cli_result" where
  "read_secret_input source raw =
     (case source of
        Source_bytes bs \<Rightarrow>
          (case read_bounded_secret bs of
             None \<Rightarrow> Inl (fail EXIT_CONFIG)
           | Some buf \<Rightarrow>
               (let out = (if raw then buf else strip_trailing_newline buf)
                in if length out > MAX_SECRET_BYTES then Inl (fail EXIT_CONFIG)
                   else if out = [] then Inl (fail EXIT_CONFIG)
                   else Inr out))
      | _ \<Rightarrow> Inl (fail EXIT_CONFIG))"

definition parse_tier :: "string \<Rightarrow> tier option" where
  "parse_tier s =
     (if s = ''brokered'' then Some Tier_Brokered
      else if s = ''trusted-client'' then Some Tier_TrustedClient
      else if s = ''cooperating-client'' then Some Tier_CooperatingClient
      else if s = ''direct'' then Some Tier_Direct
      else None)"

record store_args =
  sa_secret_name :: string
  sa_description :: string
  sa_max_tier :: string
  sa_injection_kind :: string
  sa_injection_header :: "string option"
  sa_raw :: bool

definition store_body :: "cli_env \<Rightarrow> store_args \<Rightarrow> tier \<Rightarrow> bytes \<Rightarrow> store_secret_request" where
  "store_body ce args tier val =
     (let (encoded, encoding) = (if valid_utf8 val then (val, Enc_Utf8) else (li_b64_encode ce val, Enc_Base64))
      in \<lparr>ss_name = sa_secret_name args, ss_value = encoded, ss_encoding = encoding, ss_description = sa_description args,
          ss_max_tier = Some tier, ss_injection_kind = Some (sa_injection_kind args),
          ss_injection_header = sa_injection_header args\<rparr>)"

text \<open>\<open>payload\<close> is \<open>serde_json::to_vec\<close> on the request.\<close>

definition run_store ::
  "cli_env \<Rightarrow> 's world \<Rightarrow> cli_config \<Rightarrow> (store_secret_request \<Rightarrow> bytes option) \<Rightarrow> secret_source \<Rightarrow> store_args \<Rightarrow> 's \<Rightarrow> unit cli_result \<times> 's" where
  "run_store ce w cfg payload source args s =
     (case parse_tier (sa_max_tier args) of
        None \<Rightarrow> (Inl (fail EXIT_CONFIG), s)
      | Some tier \<Rightarrow>
     (case read_secret_input source (sa_raw args) of
        Inl f \<Rightarrow> (Inl f, s)
      | Inr val \<Rightarrow>
     (case payload (store_body ce args tier val) of
        None \<Rightarrow> (Inl (fail EXIT_OTHER), s)
      | Some bytes \<Rightarrow>
     (case bearer cfg (wo_read_file w s) of
        Inl f \<Rightarrow> (Inl f, s)
      | Inr tok \<Rightarrow>
     (case wo_send w \<lparr>hc_method = ''POST'', hc_url = cc_url cfg @ ''/v1/secrets'', hc_bearer = tok,
                      hc_timeout = Some (seconds HTTP_TIMEOUT_SECONDS), hc_user_agent = True, hc_headers = [(''content-type'', ''application/json'')],
                      hc_body = Bytes_body bytes\<rparr> s of
        (Reply st _ text, s1) \<Rightarrow>
          (if \<not> is_success st then Inl (fail (status_exit_code st))
           else if li_stored ce text then Inr () else Inl (fail EXIT_OTHER), s1)
      | (_, s1) \<Rightarrow> (Inl (fail EXIT_OTHER), s1))))))"

text \<open>The text printed by \<open>status\<close>.\<close>

definition run_status :: "cli_env \<Rightarrow> 's world \<Rightarrow> cli_config \<Rightarrow> string \<Rightarrow> 's \<Rightarrow> string cli_result \<times> 's" where
  "run_status ce w cfg request_id s =
     (case li_parse_uuid ce request_id of
        None \<Rightarrow> (Inl (fail EXIT_CONFIG), s)
      | Some i \<Rightarrow>
     (case bearer cfg (wo_read_file w s) of
        Inl f \<Rightarrow> (Inl f, s)
      | Inr tok \<Rightarrow>
     (case wo_send w \<lparr>hc_method = ''GET'', hc_url = cc_url cfg @ ''/v1/access-requests/'' @ li_uuid_str ce i, hc_bearer = tok,
                      hc_timeout = Some (seconds HTTP_TIMEOUT_SECONDS), hc_user_agent = True, hc_headers = [], hc_body = No_body\<rparr> s of
        (Reply st _ text, s1) \<Rightarrow>
          (if \<not> is_success st then Inl (fail EXIT_OTHER) else Inr (trim_end text @ [line_feed]), s1)
      | (_, s1) \<Rightarrow> (Inl (fail EXIT_OTHER), s1))))"

section \<open>The wait ends\<close>

text \<open>What is relied on of the clock, the timer and the HTTP library: every exchange takes some time and at most
  its timeout, a sleep takes at least its length and at most \<open>slack\<close> more.\<close>

definition keeps_time :: "'s world \<Rightarrow> int \<Rightarrow> bool" where
  "keeps_time w slack \<longleftrightarrow>
     (\<forall>q s. wo_now w s < wo_now w (snd (wo_send w q s))) \<and>
     (\<forall>q s t. hc_timeout q = Some t \<longrightarrow> 0 < t \<longrightarrow> wo_now w (snd (wo_send w q s)) \<le> wo_now w s + t) \<and>
     (\<forall>n s. wo_now w s + seconds n \<le> wo_now w (wo_sleep w n s) \<and> wo_now w (wo_sleep w n s) \<le> wo_now w s + seconds n + slack)"

lemma wait_poll_bound: "0 < r \<Longrightarrow> seconds (wait_poll r + WAIT_HTTP_SLACK_SECONDS) \<le> r + seconds 16"
proof -
  assume "0 < r"
  define q where "q = r div 1000000000"
  have "r = q * 1000000000 + r mod 1000000000" "0 \<le> r mod 1000000000"
    by (simp_all add: q_def)
  then have "q * 1000000000 \<le> r" by linarith
  with \<open>0 < r\<close> show ?thesis
    by (simp add: wait_poll_def WAIT_POLL_SECONDS_def WAIT_HTTP_SLACK_SECONDS_def min_def max_def flip: q_def)
qed

lemma wait_exchange_time:
  assumes "keeps_time w slack" "wo_now w s < deadline"
    and "wo_send w (wait_get ce cfg tok i (wait_poll (deadline - wo_now w s))) s = (reply, s1)"
  shows "wo_now w s < wo_now w s1" "wo_now w s1 \<le> deadline + seconds 16"
proof -
  let ?q = "wait_get ce cfg tok i (wait_poll (deadline - wo_now w s))"
  have t: "hc_timeout ?q = Some (seconds (wait_poll (deadline - wo_now w s) + WAIT_HTTP_SLACK_SECONDS))"
    by (simp add: wait_get_def)
  have pos: "0 < seconds (wait_poll (deadline - wo_now w s) + WAIT_HTTP_SLACK_SECONDS)"
    by (simp add: wait_poll_def WAIT_POLL_SECONDS_def WAIT_HTTP_SLACK_SECONDS_def min_def max_def)
  show "wo_now w s < wo_now w s1"
    using assms(1,3) by (metis keeps_time_def snd_conv)
  have "wo_now w s1 \<le> wo_now w s + seconds (wait_poll (deadline - wo_now w s) + WAIT_HTTP_SLACK_SECONDS)"
    using assms(1,3) t pos by (metis keeps_time_def snd_conv)
  also have "\<dots> \<le> deadline + seconds 16"
    using wait_poll_bound [of "deadline - wo_now w s"] assms(2) by simp
  finally show "wo_now w s1 \<le> deadline + seconds 16" .
qed

lemma wait_sleep_time:
  assumes "keeps_time w slack" "n \<ge> 0"
  shows "wo_now w s \<le> wo_now w (wo_sleep w n s)" "wo_now w (wo_sleep w n s) \<le> wo_now w s + seconds n + slack"
proof -
  have "wo_now w s + seconds n \<le> wo_now w (wo_sleep w n s)"
    using assms(1) unfolding keeps_time_def by blast
  with assms(2) show "wo_now w s \<le> wo_now w (wo_sleep w n s)" by simp
  show "wo_now w (wo_sleep w n s) \<le> wo_now w s + seconds n + slack"
    using assms(1) unfolding keeps_time_def by blast
qed

lemma wait_outcome_done: "wait_outcome ce reply = Wait_done (Inr r) \<Longrightarrow> sr_state r \<noteq> Pending"
  by (auto simp: wait_outcome_def split: http_reply.splits if_splits option.splits)

text \<open>C37: The wait for an approval always ends: at the latest eighteen seconds after the deadline (one poll of at
  least a second, the slack of its timeout, one pause), whatever the service and the network answer; and what it
  reports as a resolution is not a pending request.\<close>

theorem wait_returns_in_time:
  assumes "keeps_time w slack" and "0 \<le> slack"
  shows "\<exists>r s'. wait_for_resolution ce w cfg i deadline network_errors s = Some (r, s') \<and>
     wo_now w s' \<le> max (wo_now w s) (deadline + seconds 18 + slack) \<and>
     (\<forall>st. r = Inr st \<longrightarrow> sr_state st \<noteq> Pending)"
proof (induction "nat (deadline - wo_now w s)" arbitrary: s network_errors rule: less_induct)
  case less
  show ?case
  proof (cases "wo_now w s < deadline")
    case False
    then show ?thesis by (subst wait_for_resolution.simps) simp
  next
    case live: True
    then have rem: "max 0 (deadline - wo_now w s) = deadline - wo_now w s" "deadline - wo_now w s \<noteq> 0" by auto
    show ?thesis
    proof (cases "bearer cfg (wo_read_file w s)")
      case (Inl f)
      then show ?thesis using rem by (subst wait_for_resolution.simps) simp
    next
      case (Inr tok)
      obtain reply s1 where sent: "wo_send w (wait_get ce cfg tok i (wait_poll (deadline - wo_now w s))) s = (reply, s1)"
        by fastforce
      note time = wait_exchange_time [OF assms(1) live sent]
      let ?s2 = "wo_sleep w 2 s1"
      have slept: "wo_now w s1 \<le> wo_now w ?s2" "wo_now w ?s2 \<le> deadline + seconds 18 + slack"
        using wait_sleep_time [OF assms(1), of 2 s1] time(2) by auto
      have again: "\<exists>r s'. wait_for_resolution ce w cfg i deadline n s3 = Some (r, s') \<and>
          wo_now w s' \<le> max (wo_now w s) (deadline + seconds 18 + slack) \<and> (\<forall>st. r = Inr st \<longrightarrow> sr_state st \<noteq> Pending)"
        if "wo_now w s1 \<le> wo_now w s3" "wo_now w s3 \<le> deadline + seconds 18 + slack" for s3 n
      proof -
        have "nat (deadline - wo_now w s3) < nat (deadline - wo_now w s)"
          using that(1) time(1) live by simp
        from less [OF this, of n] show ?thesis
          using that(2) by (auto simp: max_def split: if_splits)
      qed
      note step = wait_for_resolution.simps [of ce w cfg i deadline network_errors s]
      show ?thesis
      proof (cases "wait_outcome ce reply")
        case Wait_transient
        then show ?thesis
          using rem Inr sent again [OF slept] time(2) assms(2) by (simp add: step)
      next
        case (Wait_done r)
        then show ?thesis
          using rem Inr sent time(2) assms(2) wait_outcome_done [of ce reply] by (simp add: step)
      next
        case Wait_pending
        then show ?thesis
          using rem Inr sent again [of s1 0] time(2) assms(2) by (simp add: step)
      qed
    qed
  qed
qed

text \<open>A service that answers twice that the request is pending, each time at once, and then never again.\<close>

definition ex_cli_env :: cli_env where
  "ex_cli_env = \<lparr>li_parse_url = (\<lambda>_. Some \<lparr>ul_scheme = ''https'', ul_username = [], ul_password = None, ul_host_str = Some ''h'', ul_port = None, ul_fragment = None\<rparr>), li_url_host = (\<lambda>s. Some (Some (drop 8 s))),
     li_status = (\<lambda>t. if t = ''p'' then Some \<lparr>sr_request_id = 1, sr_state = Pending, sr_grant_id = None,
        sr_deny_reason = None, sr_granted_secret_name = None, sr_auto_approved = False\<rparr> else None),
     li_api_error = (\<lambda>_. None), li_released = (\<lambda>_. None), li_grant_info = (\<lambda>_. None), li_stored = (\<lambda>_. False),
     li_json_vec = (\<lambda>_. Some []), li_b64_encode = id, li_b64_decode = Some, li_uuid_str = (\<lambda>_. ''u''),
     li_parse_uuid = (\<lambda>_. Some 20), li_method_ok = (\<lambda>m. m \<noteq> [] \<and> list_all is_tchar m), li_header_name_ok = (\<lambda>_. True),
     li_header_value_ok = (\<lambda>_. True), li_sha256_hex = (\<lambda>_. replicate 64 (CHR ''0'')), li_status_text = (\<lambda>_. ''200 OK'')\<rparr>"

definition ex_world :: "(int \<times> nat) world" where
  "ex_world = \<lparr>wo_now = fst, wo_sleep = (\<lambda>n (t, k). (t + seconds n, k)), wo_read_file = (\<lambda>_ _. None),
     wo_send = (\<lambda>q (t, k). case k of
        Suc k' \<Rightarrow> (Reply 200 [] ''p'', (t + 1, k'))
      | 0 \<Rightarrow> (Send_failed, (t + 1, 0)))\<rparr>"

definition ex_cli_config :: cli_config where
  "ex_cli_config = \<lparr>cc_url = ''https://kc'', cc_external_url = ''https://kc'', cc_token = Some ''t'', cc_token_file = None,
     cc_ca_bundle = None\<rparr>"

lemma ex_world_keeps_time: "keeps_time ex_world 0"
  by (auto simp: keeps_time_def ex_world_def split: nat.splits)

theorem wait_returns_in_time_witness:
  "\<exists>r s'. wait_for_resolution ex_cli_env ex_world ex_cli_config 1 (seconds 10) 0 (0, 2) = Some (r, s') \<and>
     wo_now ex_world s' \<le> seconds 28 \<and> (\<forall>st. r = Inr st \<longrightarrow> sr_state st \<noteq> Pending)"
  using wait_returns_in_time [OF ex_world_keeps_time, of ex_cli_env ex_cli_config 1 "seconds 10" 0 "(0, 2)"]
  by (simp add: ex_world_def)

end
