(* ===== verification/Cli_Curl.thy ===== *)
theory Cli_Curl
  imports Cli Csrf Complex_Main
begin

text \<open>
  The command \<open>curl\<close> of the client (\<open>cli/src/curl.rs\<close>): the target of a URL, method and header fields, the constraints of
  the grant it asks for, the idempotency key bound to the call, the body, the check of a reused grant, and the call
  through the proxy.  Refusals of the pure parsers are \<^term>\<open>None\<close>; their messages are left out.
\<close>

section \<open>The target\<close>

record target =
  tg_origin :: origin
  tg_path :: string
  tg_query :: "string option"

definition target_display :: "target \<Rightarrow> string" where
  "target_display t =
     origin_to_display (tg_origin t) @ tg_path t @ (case tg_query t of Some q \<Rightarrow> ''?'' @ q | None \<Rightarrow> [])"

text \<open>The rest after the first occurrence of a pattern (\<open>str::find\<close>).\<close>

fun find_after :: "string \<Rightarrow> string \<Rightarrow> string option" where
  "find_after pat [] = (if pat = [] then Some [] else None)"
| "find_after pat (c # r) = (if starts_with pat (c # r) then Some (drop (length pat) (c # r)) else find_after pat r)"

definition raw_path_and_query :: "string \<Rightarrow> string \<times> string option" where
  "raw_path_and_query raw =
     (let after_scheme = (case find_after ''://'' raw of Some r \<Rightarrow> r | None \<Rightarrow> raw);
          rest = dropWhile (\<lambda>c. c \<noteq> CHR ''/'' \<and> c \<noteq> CHR ''?'' \<and> c \<noteq> CHR ''#'') after_scheme;
          until_hash = takeWhile (\<lambda>c. c \<noteq> CHR ''#'')
      in case split_once (CHR ''?'') rest of
           Some (p, q) \<Rightarrow> (if p = [] then ''/'' else p, Some (until_hash q))
         | None \<Rightarrow> (if until_hash rest = [] then ''/'' else until_hash rest, None))"

definition PATH_RESPELLED :: string where "PATH_RESPELLED = [CHR 0x22, CHR ''<'', CHR ''>'', CHR 0x60, CHR ''{'', CHR ''}'']"
definition QUERY_RESPELLED :: string where "QUERY_RESPELLED = [CHR 0x22, CHR 0x27, CHR ''<'', CHR ''>'']"

definition respelled :: "string \<Rightarrow> string \<Rightarrow> bool" where
  "respelled chars s \<longleftrightarrow> list_ex (\<lambda>c. byte c \<ge> 128 \<or> c \<in> set chars) s"

text \<open>A refusal is \<^term>\<open>None\<close>; its text is left out.\<close>

definition parse_target :: "cli_env \<Rightarrow> string \<Rightarrow> target option" where
  "parse_target ce raw =
     (case li_parse_url ce raw of
        None \<Rightarrow> None
      | Some url \<Rightarrow>
          if ul_scheme url \<noteq> ''https'' then None
          else if ul_username url \<noteq> [] \<or> ul_password url \<noteq> None then None
          else if list_ex (\<lambda>c. byte c < 32 \<or> byte c = 127) raw then None
          else if CHR '' '' \<in> set raw then None
          else if CHR 0x5C \<in> set raw then None
          else if ul_fragment url \<noteq> None then None
          else
            (case ul_host_str url of
               None \<Rightarrow> None
             | Some host \<Rightarrow>
                 (case origin_parse (li_url_host ce)
                         (case ul_port url of Some p \<Rightarrow> host @ '':'' @ dec (unat p) | None \<Rightarrow> host) of
                    Inl _ \<Rightarrow> None
                  | Inr x \<Rightarrow>
                      (let (path, query) = raw_path_and_query raw
                       in if respelled PATH_RESPELLED path then None
                          else if respelled QUERY_RESPELLED (case query of Some q \<Rightarrow> q | None \<Rightarrow> []) then None
                          else Some \<lparr>tg_origin = x, tg_path = path, tg_query = query\<rparr>))))"

section \<open>Method and headers\<close>

definition MAX_METHOD_BYTES :: nat where "MAX_METHOD_BYTES = 64"

definition normalize_method :: "cli_env \<Rightarrow> string \<Rightarrow> string option" where
  "normalize_method ce m =
     (let upper = to_ascii_uppercase (trim m)
      in if \<not> li_method_ok ce upper then None
         else if length upper > MAX_METHOD_BYTES then None
         else if upper = ''CONNECT'' then None
         else if upper = ''TRACE'' then None
         else Some upper)"

definition is_ows :: "char \<Rightarrow> bool" where "is_ows c \<longleftrightarrow> c = CHR '' '' \<or> c = CHR 0x09"

definition trim_ows :: "string \<Rightarrow> string" where
  "trim_ows s = rev (dropWhile is_ows (rev (dropWhile is_ows s)))"

text \<open>\<open>Some (Some h)\<close> sends the header, \<open>Some None\<close> is a removal, \<^term>\<open>None\<close> a refusal.\<close>

definition parse_header :: "cli_env \<Rightarrow> string \<Rightarrow> (string \<times> string) option option" where
  "parse_header ce line =
     (case (case split_once (CHR '':'') line of
              Some (name, v) \<Rightarrow> Some (name, Some v)
            | None \<Rightarrow>
                (let l = rev (dropWhile is_ows (rev line))
                 in if l \<noteq> [] \<and> last l = CHR '';'' then Some (butlast l, None) else None)) of
        None \<Rightarrow> None
      | Some (name, v) \<Rightarrow>
          (let name = trim_ows name
           in if name = [] \<or> \<not> li_header_name_ok ce name then None
              else (case v of
                      Some v \<Rightarrow>
                        (let v = dropWhile is_ows v
                         in if v = [] then Some None
                            else if \<not> li_header_value_ok ce v then None
                            else Some (Some (to_ascii_lowercase name, v)))
                    | None \<Rightarrow> if \<not> li_header_value_ok ce [] then None else Some (Some (to_ascii_lowercase name, [])))))"

definition unremovable_header :: "string \<Rightarrow> bool \<Rightarrow> bool" where
  "unremovable_header name has_body \<longleftrightarrow> name = ''host'' \<or> name = ''content-length'' \<and> has_body"

definition STRIPPED_HEADERS :: "string list" where
  "STRIPPED_HEADERS =
     [''host'', ''authorization'', ''proxy-authorization'', ''cookie'', ''set-cookie'', ''forwarded'', ''x-real-ip'',
      ''x-http-method-override'', ''x-method-override'', ''x-original-url'', ''x-rewrite-url'', ''x-original-method'',
      ''connection'', ''keep-alive'', ''proxy-connection'', ''te'', ''trailer'', ''transfer-encoding'', ''upgrade'',
      ''content-length'', ''expect'']"

definition is_stripped_header :: "string \<Rightarrow> bool" where
  "is_stripped_header name =
     (let n = to_ascii_lowercase name in n \<in> set STRIPPED_HEADERS \<or> starts_with ''x-forwarded-'' n)"

definition connection_nominated :: "(string \<times> string) list \<Rightarrow> string list" where
  "connection_nominated headers =
     filter (\<lambda>t. t \<noteq> [])
       (map (\<lambda>t. to_ascii_lowercase (trim t))
          (concat (map (\<lambda>(_, v). split_on (CHR '','') v) (filter (\<lambda>(n, _). n = ''connection'') headers))))"

section \<open>The constraints asked for\<close>

definition cli_canonical_path :: "string \<Rightarrow> string option" where
  "cli_canonical_path raw = (case canonicalize raw of Inr p \<Rightarrow> Some p | Inl _ \<Rightarrow> None)"

definition path_covered :: "string \<Rightarrow> string \<Rightarrow> bool" where
  "path_covered p path = prefix_matches p path"

text \<open>The method of the call, then the others, each once; \<^term>\<open>None\<close> when one is refused.\<close>

fun add_methods :: "cli_env \<Rightarrow> string list \<Rightarrow> string list \<Rightarrow> string list option" where
  "add_methods ce methods [] = Some methods"
| "add_methods ce methods (raw # ms) =
     (case normalize_method ce raw of
        None \<Rightarrow> None
      | Some m \<Rightarrow> add_methods ce (if m \<in> set methods then methods else methods @ [m]) ms)"

definition check_prefixes :: "target \<Rightarrow> string list \<Rightarrow> bool" where
  "check_prefixes t path_prefixes =
     (if \<not> list_all (starts_with ''/'') path_prefixes then False
      else if list_ex (\<lambda>p. cli_canonical_path p = None) path_prefixes then False
      else (case cli_canonical_path (tg_path t) of
              None \<Rightarrow> True
            | Some canonical_target \<Rightarrow>
                (let canonical_prefixes = List.map_filter cli_canonical_path path_prefixes
                 in canonical_prefixes = [] \<or> list_ex (\<lambda>p. path_covered p canonical_target) canonical_prefixes)))"

definition constraints_for ::
  "cli_env \<Rightarrow> target \<Rightarrow> string \<Rightarrow> string list \<Rightarrow> string list \<Rightarrow> 64 word \<Rightarrow> 32 word \<Rightarrow> constraints option" where
  "constraints_for ce t meth extra_methods path_prefixes ttl max_uses =
     (case add_methods ce [meth] extra_methods of
        None \<Rightarrow> None
      | Some methods \<Rightarrow>
          if path_prefixes \<noteq> [] \<and> \<not> check_prefixes t path_prefixes then None
          else Some \<lparr>c_origins = [tg_origin t], c_methods = methods,
                     c_path_prefixes = (if path_prefixes = [] then [tg_path t] else path_prefixes),
                     c_ttl_seconds = ttl, c_max_uses = (if max_uses > 0 then Some max_uses else None)\<rparr>)"

section \<open>Arguments\<close>

text \<open>\<open>ua_max_time\<close> is a float; \<^term>\<open>None\<close> when it is not finite.\<close>

record curl_args =
  ua_url :: string
  ua_secret :: "string option"
  ua_method :: "string option"
  ua_headers :: "string list"
  ua_data :: "string list"
  ua_data_raw :: "string list"
  ua_data_binary :: "string list"
  ua_output :: "string option"
  ua_include :: bool
  ua_fail :: bool
  ua_reason :: string
  ua_ttl :: "64 word"
  ua_max_uses :: "32 word"
  ua_timeout :: "64 word"
  ua_max_time :: "rat option"
  ua_idempotency_key :: "string option"
  ua_grant_id :: "string option"
  ua_path_prefixes :: "string list"
  ua_allow_methods :: "string list"

definition CLI_MAX_TTL_SECONDS :: "64 word" where "CLI_MAX_TTL_SECONDS = 30 * 24 * 3600"
definition MAX_SERVER_USES :: "32 word" where "MAX_SERVER_USES = 2147483647"
definition MAX_SECRET_NAME_BYTES :: nat where "MAX_SECRET_NAME_BYTES = 256"
definition CLI_MAX_REASON_BYTES :: nat where "CLI_MAX_REASON_BYTES = 4 * 1024"
definition CLI_MAX_CONSTRAINT_ENTRIES :: nat where "CLI_MAX_CONSTRAINT_ENTRIES = 32"
definition MAX_APPROVAL_WAIT_SECONDS :: "64 word" where "MAX_APPROVAL_WAIT_SECONDS = CLI_MAX_TTL_SECONDS"
definition CALL_BINDING_HEX_CHARS :: nat where "CALL_BINDING_HEX_CHARS = 32"
definition MAX_CURL_USER_KEY_BYTES :: nat where "MAX_CURL_USER_KEY_BYTES = 124 - (CALL_BINDING_HEX_CHARS + 1)"

datatype selector = Sel_Grant uuid | Sel_Secret string

definition credential_selector :: "cli_env \<Rightarrow> curl_args \<Rightarrow> selector cli_result" where
  "credential_selector ce args =
     (case ua_grant_id args of
        Some g \<Rightarrow> (case li_parse_uuid ce g of Some i \<Rightarrow> Inr (Sel_Grant i) | None \<Rightarrow> Inl (fail EXIT_CONFIG))
      | None \<Rightarrow> (case ua_secret args of Some n \<Rightarrow> Inr (Sel_Secret n) | None \<Rightarrow> Inl (fail EXIT_CONFIG)))"

text \<open>\<^term>\<open>True\<close> when the options are accepted; every refusal is a usage error.\<close>

definition validate_grant_options :: "cli_env \<Rightarrow> curl_args \<Rightarrow> target \<Rightarrow> string \<Rightarrow> bool" where
  "validate_grant_options ce args t meth =
     (if cli_canonical_path (tg_path t) = None then False
      else if \<not> (case ua_max_time args of
                     Some x \<Rightarrow> 0 \<le> x \<and> x \<le> of_int (uint MAX_APPROVAL_WAIT_SECONDS) | None \<Rightarrow> False) then False
      else if ua_grant_id args \<noteq> None then True
      else if (case ua_idempotency_key args of
                 Some k \<Rightarrow> k = [] \<or> length k > MAX_CURL_USER_KEY_BYTES | None \<Rightarrow> False) then False
      else if ua_ttl args < 1 \<or> ua_ttl args > CLI_MAX_TTL_SECONDS then False
      else if ua_max_uses args > MAX_SERVER_USES then False
      else if ua_timeout args > MAX_APPROVAL_WAIT_SECONDS then False
      else if (case ua_secret args of Some n \<Rightarrow> n = [] \<or> length n > MAX_SECRET_NAME_BYTES | None \<Rightarrow> False) then False
      else if length (ua_reason args) > CLI_MAX_REASON_BYTES then False
      else
        (case add_methods ce [meth] (ua_allow_methods args) of
           None \<Rightarrow> False
         | Some distinct_methods \<Rightarrow>
             if length distinct_methods > CLI_MAX_CONSTRAINT_ENTRIES then False
             else if length (ua_path_prefixes args) > CLI_MAX_CONSTRAINT_ENTRIES then False
             else ua_path_prefixes args = []
                  \<or> constraints_for ce t meth [] (ua_path_prefixes args) (ua_ttl args) (ua_max_uses args) \<noteq> None))"

text \<open>The context of the request; \<^term>\<open>None\<close> when the target alone is too long for it.\<close>

definition build_request_context :: "cli_env \<Rightarrow> json option \<Rightarrow> target \<Rightarrow> string \<Rightarrow> json option" where
  "build_request_context ce structured t meth =
     (case (case structured of Some j \<Rightarrow> j | None \<Rightarrow> JObject []) of
        JObject m \<Rightarrow>
          (let m = shed_structured_to_fit ce (obj_insert ''target'' (JString (meth @ '' '' @ target_display t)) m)
           in if json_len ce m > CLI_MAX_STRUCTURED_BYTES then None else Some (JObject m))
      | j \<Rightarrow> Some j)"

section \<open>The key bound to the call\<close>

text \<open>The preimage: fields with their length in front, absent and empty told apart.\<close>

definition be64 :: "nat \<Rightarrow> bytes" where "be64 n = to_be_bytes (of_nat n)"

definition framed :: "bytes \<Rightarrow> bytes" where "framed s = be64 (length s) @ s"

definition optional :: "bytes option \<Rightarrow> bytes" where
  "optional v = (case v of None \<Rightarrow> [CHR 0x00] | Some b \<Rightarrow> CHR 0x01 # framed b)"

definition header_fields :: "(string \<times> string) list \<Rightarrow> bytes" where
  "header_fields headers = concat (map (\<lambda>(n, v). framed n @ framed v) headers)"

definition flag_byte :: "bool \<Rightarrow> char" where "flag_byte b = (if b then CHR 0x01 else CHR 0x00)"

definition call_preimage :: "string \<Rightarrow> target \<Rightarrow> (string \<times> string) list \<Rightarrow> bytes option \<Rightarrow> bool \<Rightarrow> bytes" where
  "call_preimage meth t headers body suppress_user_agent =
     framed meth @ framed (origin_to_display (tg_origin t)) @ framed (tg_path t) @ optional (tg_query t) @
     be64 (length headers) @ header_fields headers @ optional body @ [flag_byte suppress_user_agent]"

definition call_bound_idempotency_key ::
  "cli_env \<Rightarrow> string \<Rightarrow> string \<Rightarrow> target \<Rightarrow> (string \<times> string) list \<Rightarrow> bytes option \<Rightarrow> bool \<Rightarrow> string" where
  "call_bound_idempotency_key ce user_key meth t headers body suppress_user_agent =
     user_key @ ''-'' @ take CALL_BINDING_HEX_CHARS (li_sha256_hex ce (call_preimage meth t headers body suppress_user_agent))"

section \<open>The body\<close>

definition DEFAULT_MAX_BODY_BYTES :: nat where "DEFAULT_MAX_BODY_BYTES = 10 * 1024 * 1024"

definition parse_usize :: "string \<Rightarrow> nat option" where
  "parse_usize s =
     (let d = (case s of c # r \<Rightarrow> if c = CHR ''+'' then r else s | [] \<Rightarrow> s)
      in if d \<noteq> [] \<and> list_all is_ascii_digit d \<and> digits_value d < 2 ^ 64 then Some (digits_value d) else None)"

definition parse_max_body :: "string option \<Rightarrow> nat cli_result" where
  "parse_max_body raw =
     (case raw of
        None \<Rightarrow> Inr DEFAULT_MAX_BODY_BYTES
      | Some raw \<Rightarrow>
          (case parse_usize (trim raw) of
             Some n \<Rightarrow> if n > 0 \<and> n < 2 ^ 64 - 1 then Inr n else Inl (fail EXIT_CONFIG)
           | None \<Rightarrow> Inl (fail EXIT_CONFIG)))"

text \<open>The pieces, whether an at sign reads a file, whether line ends are stripped.\<close>

definition body_pieces :: "curl_args \<Rightarrow> (string list \<times> bool \<times> bool) option" where
  "body_pieces args =
     (if ua_data_raw args \<noteq> [] then Some (ua_data_raw args, False, False)
      else if ua_data args \<noteq> [] then Some (ua_data args, True, True)
      else if ua_data_binary args \<noteq> [] then Some (ua_data_binary args, True, False)
      else None)"

definition body_is_supplied :: "curl_args \<Rightarrow> bool" where
  "body_is_supplied args \<longleftrightarrow> ua_data args \<noteq> [] \<or> ua_data_raw args \<noteq> [] \<or> ua_data_binary args \<noteq> []"

text \<open>\<open>files src\<close> is \<^term>\<open>None\<close> when the file cannot be opened, \<open>Some None\<close> when reading it fails.\<close>

fun open_pieces :: "(string \<Rightarrow> bytes option option) \<Rightarrow> bool \<Rightarrow> string list \<Rightarrow> bytes option option list cli_result" where
  "open_pieces files reads_at [] = Inr []"
| "open_pieces files reads_at (piece # ps) =
     (case (case strip_prefix ''@'' piece of
              Some src \<Rightarrow>
                if \<not> reads_at \<or> src = ''-'' then Inr None
                else (case files src of Some contents \<Rightarrow> Inr (Some contents) | None \<Rightarrow> Inl (fail EXIT_CONFIG))
            | None \<Rightarrow> Inr None) of
        Inl f \<Rightarrow> Inl f
      | Inr source \<Rightarrow> map_sum id ((#) source) (open_pieces files reads_at ps))"

definition open_body_sources :: "(string \<Rightarrow> bytes option option) \<Rightarrow> curl_args \<Rightarrow> bytes option option list cli_result" where
  "open_body_sources files args =
     (case body_pieces args of None \<Rightarrow> Inr [] | Some (pieces, reads_at, _) \<Rightarrow> open_pieces files reads_at pieces)"

definition read_bounded :: "bytes option \<Rightarrow> nat \<Rightarrow> bytes option" where
  "read_bounded source limit =
     (case source of
        None \<Rightarrow> None
      | Some contents \<Rightarrow>
          (let buf = take (min (limit + 1) (2 ^ 64 - 1)) contents
           in if length buf > limit then None else Some buf))"

definition strip_like_curl :: "bytes \<Rightarrow> bytes" where
  "strip_like_curl buf =
     concat (map (takeWhile (\<lambda>c. c \<noteq> carriage_return \<and> c \<noteq> CHR 0x00)) (split_on line_feed buf))"

text \<open>One piece after the other; standard input is read to its end by the first that names it.\<close>

fun assemble_body ::
  "bool \<Rightarrow> bool \<Rightarrow> nat \<Rightarrow> bool \<Rightarrow> (string \<times> bytes option option) list \<Rightarrow> bytes option \<Rightarrow> bytes \<Rightarrow> bytes cli_result" where
  "assemble_body reads_at strip_newlines limit first [] stdin out = Inr out"
| "assemble_body reads_at strip_newlines limit first ((piece, source) # ps) stdin out =
     (let out = (if first then out else out @ ''&'')
      in case strip_prefix ''@'' piece of
           Some src \<Rightarrow>
             if \<not> reads_at then assemble_body reads_at strip_newlines limit False ps stdin (out @ piece)
             else
               (case read_bounded (case source of Some contents \<Rightarrow> contents | None \<Rightarrow> stdin) (limit - length out) of
                  None \<Rightarrow> Inl (fail EXIT_CONFIG)
                | Some buf \<Rightarrow>
                    assemble_body reads_at strip_newlines limit False ps (if source = None then Some [] else stdin)
                      (out @ (if strip_newlines then strip_like_curl buf else buf)))
         | None \<Rightarrow> assemble_body reads_at strip_newlines limit False ps stdin (out @ piece))"

definition read_body_with :: "curl_args \<Rightarrow> nat \<Rightarrow> bytes option option list \<Rightarrow> bytes option \<Rightarrow> bytes option cli_result" where
  "read_body_with args limit sources stdin =
     (case body_pieces args of
        None \<Rightarrow> Inr None
      | Some (pieces, reads_at, strip_newlines) \<Rightarrow>
          (case assemble_body reads_at strip_newlines limit True (zip pieces sources) stdin [] of
             Inl f \<Rightarrow> Inl f
           | Inr out \<Rightarrow> if length out > limit then Inl (fail EXIT_CONFIG) else Inr (Some out)))"

section \<open>Replies\<close>

definition classify_proxy_error :: "cli_env \<Rightarrow> nat \<Rightarrow> string \<Rightarrow> failure" where
  "classify_proxy_error ce st body =
     (if st = 410 then refused_by_keychute (classify_gone ce body)
      else
        (let f = fail (if st = 401 then EXIT_CONFIG
                       else if st = 403 then EXIT_DENIED
                       else if st = 400 \<or> st = 405 \<or> st = 413 then EXIT_CONFIG
                       else EXIT_OTHER)
         in if st < 500 then refused_by_keychute f else f))"

definition fetch_grant ::
  "cli_env \<Rightarrow> 's world \<Rightarrow> cli_config \<Rightarrow> uuid \<Rightarrow> 's \<Rightarrow> grant_info cli_result \<times> 's" where
  "fetch_grant ce w cfg grant_id s =
     (case bearer cfg (wo_read_file w s) of
        Inl f \<Rightarrow> (Inl f, s)
      | Inr tok \<Rightarrow>
          (case wo_send w \<lparr>hc_method = ''GET'', hc_url = cc_url cfg @ ''/v1/grants/'' @ li_uuid_str ce grant_id, hc_bearer = tok,
                           hc_timeout = Some (seconds 30), hc_user_agent = True, hc_headers = [], hc_body = No_body\<rparr> s of
             (Reply st _ text, s1) \<Rightarrow>
               (if \<not> is_success st then Inl (fail (if st = 401 \<or> st = 403 \<or> st = 404 then EXIT_CONFIG else EXIT_OTHER))
                else (case li_grant_info ce text of Some i \<Rightarrow> Inr i | None \<Rightarrow> Inl (fail EXIT_OTHER)), s1)
           | (_, s1) \<Rightarrow> (Inl (fail EXIT_OTHER), s1)))"

text \<open>Whether a grant covers the call; \<open>local_now\<close> is the clock of this host.\<close>

definition grant_covers :: "grant_info \<Rightarrow> time \<Rightarrow> target \<Rightarrow> string \<Rightarrow> unit cli_result" where
  "grant_covers gi local_now t meth =
     (let c = gi_constraints gi;
          now = (case gi_server_time gi of Some x \<Rightarrow> x | None \<Rightarrow> local_now)
      in if gi_mechanism gi \<noteq> Mech_Brokered then Inl (fail EXIT_CONFIG)
         else if gi_revoked gi then Inl (fail EXIT_TIMEOUT)
         else if gi_not_after gi \<le> now then Inl (fail EXIT_TIMEOUT)
         else if (case gi_max_uses gi of Some mx \<Rightarrow> gi_use_count gi \<ge> mx | None \<Rightarrow> False) then Inl (fail EXIT_OTHER)
         else
           (case c_origins c of
              [approved] \<Rightarrow>
                if \<not> same_target approved (tg_origin t) then Inl (fail EXIT_CONFIG)
                else if c_methods c \<noteq> [] \<and> \<not> list_ex (\<lambda>m. eq_ignore_ascii_case m meth) (c_methods c)
                  then Inl (fail EXIT_CONFIG)
                else
                  (case cli_canonical_path (tg_path t) of
                     Some canonical \<Rightarrow>
                       if c_path_prefixes c \<noteq> [] \<and> \<not> list_ex (\<lambda>p. path_covered p canonical) (c_path_prefixes c)
                         then Inl (fail EXIT_CONFIG)
                       else Inr ()
                   | None \<Rightarrow> Inr ())
            | _ \<Rightarrow> Inl (fail EXIT_OTHER)))"

definition check_grant_covers ::
  "cli_env \<Rightarrow> 's world \<Rightarrow> cli_config \<Rightarrow> uuid \<Rightarrow> time \<Rightarrow> target \<Rightarrow> string \<Rightarrow> 's \<Rightarrow> unit cli_result \<times> 's" where
  "check_grant_covers ce w cfg grant_id local_now t meth s =
     (case fetch_grant ce w cfg grant_id s of
        (Inl f, s1) \<Rightarrow> (Inl f, s1)
      | (Inr gi, s1) \<Rightarrow> (grant_covers gi local_now t meth, s1))"

section \<open>The command\<close>

definition curl_request ::
  "cli_env \<Rightarrow> curl_args \<Rightarrow> target \<Rightarrow> string \<Rightarrow> string \<Rightarrow> json \<Rightarrow> (string \<times> string) list \<Rightarrow> bytes option \<Rightarrow> bool \<Rightarrow> string
   \<Rightarrow> create_access_request cli_result" where
  "curl_request ce args t meth secret_name structured headers body suppress_user_agent user_key =
     (if length user_key > MAX_CURL_USER_KEY_BYTES then Inl (fail EXIT_CONFIG)
      else
        (let idem_key = call_bound_idempotency_key ce user_key meth t headers body suppress_user_agent
         in if \<not> idempotency_key_ok idem_key then Inl (fail EXIT_CONFIG)
            else
              (case constraints_for ce t meth (ua_allow_methods args) (ua_path_prefixes args) (ua_ttl args) (ua_max_uses args) of
                 None \<Rightarrow> Inl (fail EXIT_CONFIG)
               | Some c \<Rightarrow>
                   Inr \<lparr>cr_idempotency_key = idem_key, cr_secret_name = secret_name, cr_mechanism = Mech_Brokered,
                        cr_constraints = c,
                        cr_context = \<lparr>cx_reason = ua_reason args, cx_structured = Some structured\<rparr>\<rparr>)))"

definition acquire_grant ::
  "cli_env \<Rightarrow> 's world \<Rightarrow> cli_config \<Rightarrow> uuid \<Rightarrow> curl_args \<Rightarrow> target \<Rightarrow> string \<Rightarrow> string \<Rightarrow> json \<Rightarrow> (string \<times> string) list
   \<Rightarrow> bytes option \<Rightarrow> bool \<Rightarrow> 's \<Rightarrow> (uuid cli_result \<times> 's) option" where
  "acquire_grant ce w cfg fresh args t meth secret_name structured headers body suppress_user_agent s =
     (case curl_request ce args t meth secret_name structured headers body suppress_user_agent
             (case ua_idempotency_key args of Some k \<Rightarrow> k | None \<Rightarrow> li_uuid_str ce fresh) of
        Inl f \<Rightarrow> Some (Inl f, s)
      | Inr req \<Rightarrow>
          (case instant_add (wo_now w s) (ua_timeout args) of
             None \<Rightarrow> Some (Inl (fail EXIT_PANIC), s)
           | Some deadline \<Rightarrow> obtain_grant ce w cfg req deadline s))"

definition proxy_post ::
  "cli_env \<Rightarrow> cli_config \<Rightarrow> string \<Rightarrow> curl_args \<Rightarrow> target \<Rightarrow> string \<Rightarrow> (string \<times> string) list \<Rightarrow> bytes option \<Rightarrow> bool \<Rightarrow> uuid \<Rightarrow> http_call" where
  "proxy_post ce cfg tok args t meth headers body suppress_user_agent grant_id =
     \<lparr>hc_method = meth,
      hc_url = cc_url cfg @ ''/v1/grants/'' @ li_uuid_str ce grant_id @ ''/proxy'' @ tg_path t
               @ (case tg_query t of Some q \<Rightarrow> ''?'' @ q | None \<Rightarrow> []),
      hc_bearer = tok,
      hc_timeout = (case ua_max_time args of Some x \<Rightarrow> if x > 0 then Some (round (x * 10 ^ 9)) else None | None \<Rightarrow> None),
      hc_user_agent = (\<not> suppress_user_agent), hc_headers = headers,
      hc_body = (case body of Some b \<Rightarrow> Bytes_body b | None \<Rightarrow> No_body)\<rparr>"

definition crlf_bytes :: bytes where "crlf_bytes = [carriage_return, line_feed]"

definition response_head :: "cli_env \<Rightarrow> nat \<Rightarrow> (string \<times> bytes) list \<Rightarrow> bytes" where
  "response_head ce st hs =
     ''HTTP/1.1 '' @ li_status_text ce st @ crlf_bytes @ concat (map (\<lambda>(n, v). n @ '': '' @ v @ crlf_bytes) hs) @ crlf_bytes"

text \<open>The outcome with the bytes that reach the output.  A body that breaks off is output as far as it came; here it
  counts as empty.\<close>

definition proxy_output ::
  "cli_env \<Rightarrow> curl_args \<Rightarrow> bool \<Rightarrow> nat \<Rightarrow> (string \<times> bytes) list \<Rightarrow> bytes option \<Rightarrow> unit cli_result \<times> bytes" where
  "proxy_output ce args is_terminal st hs body =
     (if list_ex (\<lambda>(n, _). n = ''x-keychute-error'') hs
        then (Inl (classify_proxy_error ce st (case body of Some b \<Rightarrow> b | None \<Rightarrow> [])), [])
      else
        (let head = (if ua_include args then response_head ce st hs else []);
             to_stdout = (ua_output args = None \<or> ua_output args = Some ''-'')
         in if ua_fail args \<and> st \<ge> 400 then (Inl (fail EXIT_OTHER), head)
            else (case body of
                    None \<Rightarrow> (Inl (fail EXIT_OTHER), head)
                  | Some b \<Rightarrow>
                      (Inr (), head @ b @ (if to_stdout \<and> is_terminal \<and> b \<noteq> [] \<and> last b \<noteq> line_feed then [line_feed] else [])))))"

definition cli_proxy_call ::
  "cli_env \<Rightarrow> 's world \<Rightarrow> cli_config \<Rightarrow> curl_args \<Rightarrow> bool \<Rightarrow> target \<Rightarrow> string \<Rightarrow> (string \<times> string) list \<Rightarrow> bytes option \<Rightarrow> bool \<Rightarrow> uuid
   \<Rightarrow> 's \<Rightarrow> (unit cli_result \<times> bytes) \<times> 's" where
  "cli_proxy_call ce w cfg args is_terminal t meth headers body suppress_user_agent grant_id s =
     (case bearer cfg (wo_read_file w s) of
        Inl f \<Rightarrow> ((Inl f, []), s)
      | Inr tok \<Rightarrow>
          (case wo_send w (proxy_post ce cfg tok args t meth headers body suppress_user_agent grant_id) s of
             (Send_failed, s1) \<Rightarrow> ((Inl (fail EXIT_OTHER), []), s1)
           | (Unreadable st hs, s1) \<Rightarrow> (proxy_output ce args is_terminal st hs None, s1)
           | (Reply st hs text, s1) \<Rightarrow> (proxy_output ce args is_terminal st hs (Some text), s1)))"

text \<open>The header lines: the fields to send, and whether the client's own \<open>User-Agent\<close> is to be left out.\<close>

fun parse_headers :: "cli_env \<Rightarrow> bool \<Rightarrow> string list \<Rightarrow> ((string \<times> string) list \<times> bool) option" where
  "parse_headers ce has_body [] = Some ([], False)"
| "parse_headers ce has_body (line # lines) =
     (case parse_header ce line of
        None \<Rightarrow> None
      | Some (Some h) \<Rightarrow> map_option (\<lambda>(hs, su). (h # hs, su)) (parse_headers ce has_body lines)
      | Some None \<Rightarrow>
          (let name = to_ascii_lowercase (trim (takeWhile (\<lambda>c. c \<noteq> CHR '':'') line))
           in if unremovable_header name has_body then None
              else map_option (\<lambda>(hs, su). (hs, su \<or> name = ''user-agent'')) (parse_headers ce has_body lines)))"

definition forwarded_headers :: "(string \<times> string) list \<Rightarrow> (string \<times> string) list" where
  "forwarded_headers parsed =
     filter (\<lambda>(n, _). \<not> is_stripped_header n \<and> n \<notin> set (connection_nominated parsed)) parsed"

definition call_method :: "cli_env \<Rightarrow> curl_args \<Rightarrow> string option" where
  "call_method ce args =
     (case ua_method args of
        Some m \<Rightarrow> normalize_method ce m
      | None \<Rightarrow> Some (if body_is_supplied args then ''POST'' else ''GET''))"

text \<open>What the command reads of the process and the file system: the body files, standard input, the environment,
  the capture, a fresh id, whether two paths are one file, whether an output file can be opened, the outcome of
  building a client without a default agent, the local clock, whether standard output is a terminal.\<close>

record curl_io =
  io_files :: "string \<Rightarrow> bytes option option"
  io_stdin :: "bytes option"
  io_max_body :: "string option"
  io_capture :: "capture option"
  io_extra :: "string option"
  io_fresh :: uuid
  io_same_file :: "string \<Rightarrow> string \<Rightarrow> bool"
  io_output_opens :: "string \<Rightarrow> bool"
  io_agent_free_client :: "unit cli_result"
  io_local_now :: time
  io_terminal :: bool

definition refuse_output_over_token_file :: "(string \<Rightarrow> string \<Rightarrow> bool) \<Rightarrow> cli_config \<Rightarrow> curl_args \<Rightarrow> bool" where
  "refuse_output_over_token_file same_file cfg args =
     (if cc_token cfg \<noteq> None then False
      else (case (ua_output args, cc_token_file cfg) of
              (Some out, Some token_file) \<Rightarrow> out \<noteq> ''-'' \<and> same_file out token_file
            | _ \<Rightarrow> False))"

definition open_output :: "(string \<Rightarrow> bool) \<Rightarrow> curl_args \<Rightarrow> bool" where
  "open_output opens args = (case ua_output args of Some path \<Rightarrow> path = ''-'' \<or> opens path | None \<Rightarrow> True)"

text \<open>All that is decided before the body is read: the selector, the method, the parsed headers.\<close>

definition curl_preflight ::
  "cli_env \<Rightarrow> curl_io \<Rightarrow> cli_config \<Rightarrow> curl_args \<Rightarrow> (string \<Rightarrow> string option)
   \<Rightarrow> (target \<times> selector \<times> string \<times> (string \<times> string) list \<times> bool) cli_result" where
  "curl_preflight ce io cfg args read_file =
     (case parse_target ce (ua_url args) of
        None \<Rightarrow> Inl (fail EXIT_CONFIG)
      | Some t \<Rightarrow>
     (case credential_selector ce args of
        Inl f \<Rightarrow> Inl f
      | Inr sel \<Rightarrow>
          if refuse_output_over_token_file (io_same_file io) cfg args then Inl (fail EXIT_CONFIG)
          else
     (case bearer cfg read_file of
        Inl f \<Rightarrow> Inl f
      | Inr _ \<Rightarrow>
     (case call_method ce args of
        None \<Rightarrow> Inl (fail EXIT_CONFIG)
      | Some meth \<Rightarrow>
     (case parse_headers ce (body_is_supplied args) (ua_headers args) of
        None \<Rightarrow> Inl (fail EXIT_CONFIG)
      | Some (parsed, suppress) \<Rightarrow>
          if \<not> validate_grant_options ce args t meth then Inl (fail EXIT_CONFIG)
          else Inr (t, sel, meth, forwarded_headers parsed, suppress \<or> ''user-agent'' \<in> set (connection_nominated parsed)))))))"

definition curl_body :: "curl_io \<Rightarrow> curl_args \<Rightarrow> bytes option cli_result" where
  "curl_body io args =
     (case open_body_sources (io_files io) args of
        Inl f \<Rightarrow> Inl f
      | Inr sources \<Rightarrow>
          if \<not> open_output (io_output_opens io) args then Inl (fail EXIT_CONFIG)
          else (case parse_max_body (io_max_body io) of
                  Inl f \<Rightarrow> Inl f
                | Inr limit \<Rightarrow> read_body_with args limit sources (io_stdin io)))"

definition run_curl ::
  "cli_env \<Rightarrow> 's world \<Rightarrow> curl_io \<Rightarrow> cli_config \<Rightarrow> curl_args \<Rightarrow> 's \<Rightarrow> ((unit cli_result \<times> bytes) \<times> 's) option" where
  "run_curl ce w io cfg args s =
     (case curl_preflight ce io cfg args (wo_read_file w s) of
        Inl f \<Rightarrow> Some ((Inl f, []), s)
      | Inr (t, sel, meth, headers, suppress) \<Rightarrow>
     (case (case sel of
              Sel_Grant g \<Rightarrow>
                (case check_grant_covers ce w cfg g (io_local_now io) t meth s of
                   (Inl f, s1) \<Rightarrow> (Inl f, s1) | (Inr _, s1) \<Rightarrow> (Inr None, s1))
            | Sel_Secret _ \<Rightarrow>
                (case build_request_context ce (build_structured_context ce (io_capture io) (io_extra io)) t meth of
                   None \<Rightarrow> (Inl (fail EXIT_CONFIG), s) | Some j \<Rightarrow> (Inr (Some j), s))) of
        (Inl f, s1) \<Rightarrow> Some ((Inl f, []), s1)
      | (Inr structured, s1) \<Rightarrow>
     (case curl_body io args of
        Inl f \<Rightarrow> Some ((Inl f, []), s1)
      | Inr body \<Rightarrow>
     (case (if suppress then io_agent_free_client io else Inr ()) of
        Inl f \<Rightarrow> Some ((Inl f, []), s1)
      | Inr _ \<Rightarrow>
     (case sel of
        Sel_Grant g \<Rightarrow> Some (cli_proxy_call ce w cfg args (io_terminal io) t meth headers body suppress g s1)
      | Sel_Secret n \<Rightarrow>
          (case acquire_grant ce w cfg (io_fresh io) args t meth n (case structured of Some j \<Rightarrow> j | None \<Rightarrow> JNull) headers body suppress s1 of
             None \<Rightarrow> None
           | Some (Inl f, s2) \<Rightarrow> Some ((Inl f, []), s2)
           | Some (Inr g, s2) \<Rightarrow>
               (case cli_proxy_call ce w cfg args (io_terminal io) t meth headers body suppress g s2 of
                  ((r, out), s3) \<Rightarrow>
                    Some ((r, out), if ua_max_uses args \<noteq> 1 \<or> isl r then snd (fetch_grant ce w cfg g s3) else s3))))))))"

end
