(* ===== verification/Cli_System.thy ===== *)
theory Cli_System
  imports Cli_Curl Api_System
begin

text \<open>
  The client and the service together: a request the client makes is accepted and its grant serves the call, a reused
  grant sends where the URL says, equal keys mean equal calls, and what is stored is what is printed.
\<close>

section \<open>A grant made for a call serves it\<close>

text \<open>What is relied on: the \<open>http\<close> crate takes only nonempty tokens as methods, and both programs serialize JSON
  alike, without failing.\<close>

definition cli_libraries_ok :: "cli_env \<Rightarrow> api_env \<Rightarrow> bool" where
  "cli_libraries_ok ce env \<longleftrightarrow>
     (\<forall>m. li_method_ok ce m \<longrightarrow> m \<noteq> [] \<and> list_all is_tchar m) \<and>
     (\<forall>j. li_json_vec ce j = env_json_vec env j \<and> env_json_vec env j \<noteq> None)"

lemma normalize_method_Some:
  assumes "normalize_method ce raw = Some m" "cli_libraries_ok ce env"
  shows "is_valid_http_method m" "to_ascii_uppercase m = m" "m \<noteq> ''TRACE''"
  using assms
  by (auto simp: normalize_method_def Let_def is_valid_http_method_def MAX_METHOD_BYTES_def MAX_HTTP_METHOD_LEN_def
      cli_libraries_ok_def split: if_splits)

definition good_method :: "string \<Rightarrow> bool" where
  "good_method m \<longleftrightarrow> is_valid_http_method m \<and> to_ascii_uppercase m = m \<and> m \<noteq> ''TRACE''"

lemma call_method_good:
  assumes "call_method ce args = Some m" "cli_libraries_ok ce env"
  shows "good_method m"
proof -
  have "good_method ''GET''" "good_method ''POST''" by code_simp+
  then show ?thesis
    using assms normalize_method_Some [of ce _ m env]
    by (auto simp: call_method_def good_method_def split: option.splits if_splits)
qed

lemma normalize_method_good: "normalize_method ce raw = Some m \<Longrightarrow> cli_libraries_ok ce env \<Longrightarrow> good_method m"
  using normalize_method_Some by (simp add: good_method_def)

lemma add_methods_keep: "add_methods ce methods ms = Some ms' \<Longrightarrow> set methods \<subseteq> set ms'"
  by (induction ce methods ms arbitrary: ms' rule: add_methods.induct) (fastforce split: option.splits if_splits)+

lemma add_methods_good:
  "add_methods ce methods ms = Some ms' \<Longrightarrow> cli_libraries_ok ce env \<Longrightarrow> list_all good_method methods \<Longrightarrow> list_all good_method ms'"
proof (induction ce methods ms arbitrary: ms' rule: add_methods.induct)
  case (2 ce methods raw ms)
  then obtain m where m: "normalize_method ce raw = Some m" by (auto split: option.splits)
  show ?case
    using "2.IH" [OF m] "2.prems" m normalize_method_good [OF m "2.prems"(2)] by (auto split: if_splits)
qed simp

lemma good_methods_upper: "list_all good_method ms \<Longrightarrow> map to_ascii_uppercase ms = ms"
  by (induction ms) (auto simp: good_method_def)

lemma good_methods_valid: "list_all good_method ms \<Longrightarrow> list_all is_valid_http_method ms"
  by (induction ms) (auto simp: good_method_def)

lemma cli_canonical_path_Some: "cli_canonical_path p = Some q \<longleftrightarrow> canonicalize p = Inr q"
  by (auto simp: cli_canonical_path_def split: sum.splits)

lemma canonicalize_all_map_filter:
  "list_all (\<lambda>p. cli_canonical_path p \<noteq> None) ps \<Longrightarrow> canonicalize_all ps = Some (List.map_filter cli_canonical_path ps)"
proof (induction ps)
  case (Cons p ps)
  then show ?case
    by (cases "canonicalize p") (auto simp: List.map_filter_simps cli_canonical_path_def [of p])
qed (simp add: List.map_filter_simps)

lemma map_filter_Nil: "list_all (\<lambda>p. f p \<noteq> None) ps \<Longrightarrow> List.map_filter f ps = [] \<longleftrightarrow> ps = []"
  by (cases ps) (auto simp: List.map_filter_simps)

lemma check_prefixes_True:
  assumes "check_prefixes t ps" "ps \<noteq> []" "cli_canonical_path (tg_path t) = Some path"
  shows "canonicalize_all ps = Some (List.map_filter cli_canonical_path ps)"
    "list_ex (\<lambda>p. prefix_matches p path) (List.map_filter cli_canonical_path ps)"
proof -
  have all: "list_all (\<lambda>p. cli_canonical_path p \<noteq> None) ps"
    using assms(1) by (auto simp: check_prefixes_def list_ex_iff list_all_iff split: if_splits)
  then show "canonicalize_all ps = Some (List.map_filter cli_canonical_path ps)"
    by (rule canonicalize_all_map_filter)
  show "list_ex (\<lambda>p. prefix_matches p path) (List.map_filter cli_canonical_path ps)"
    using assms map_filter_Nil [OF all] unfolding assms(3) check_prefixes_def
    by (auto simp: check_prefixes_def Let_def path_covered_def list_all_iff split: if_splits)
qed

lemma prefix_matches_self: "canonicalize raw = Inr path \<Longrightarrow> prefix_matches path path"
  by (rule segments_prefix_matches) (simp_all add: canonicalize_canonical)

text \<open>The call as it arrives: the path of the proxy route, then the raw path of the target.\<close>

definition proxied_as :: "proxy_request \<Rightarrow> string \<Rightarrow> target \<Rightarrow> bool" where
  "proxied_as rq meth t \<longleftrightarrow>
     pq_method rq = meth \<and> (\<exists>i. slash \<notin> set i \<and> pq_path rq = ''/v1/grants/'' @ i @ ''/proxy'' @ tg_path t)"

lemma proxy_suffix_proxied:
  assumes "proxied_as rq meth t" "canonicalize (tg_path t) = Inr path"
  shows "proxy_suffix (pq_path rq) = Some (tg_path t)"
proof -
  obtain i where i: "slash \<notin> set i" "pq_path rq = ''/v1/grants/'' @ i @ ''/proxy'' @ tg_path t"
    using assms(1) by (auto simp: proxied_as_def)
  obtain r where "tg_path t = slash # r"
    using assms(2) by (cases "tg_path t") (auto simp: canonicalize_def split: if_splits)
  moreover have "split_once slash (i @ slash # x) = Some (i, x)" for x
    using i(1) by (induction i) auto
  moreover have "strip_prefix p (p @ x) = Some x" for p x :: string
    by (induction p) auto
  ultimately show ?thesis
    by (simp add: i(2) proxy_suffix_def)
qed

lemma check_call_proxied:
  assumes "proxied_as rq meth t" "good_method meth" "canonicalize (tg_path t) = Inr path"
    and "c_methods c = [] \<or> list_ex (\<lambda>m. eq_ignore_ascii_case m meth) (c_methods c)"
    and "c_path_prefixes c = [] \<or> list_ex (\<lambda>p. prefix_matches p path) (c_path_prefixes c)"
    and "c_origins c = [x]"
  shows "check_call c rq = Inr (meth, path, x)"
proof -
  have "to_ascii_uppercase (pq_method rq) = meth" "meth \<noteq> ''TRACE''"
    using assms(1,2) by (simp_all add: proxied_as_def good_method_def)
  with assms(3-6) show ?thesis
    using proxy_suffix_proxied [OF assms(1,3)] by (auto simp: check_call_def Let_def)
qed

lemma constraints_for_Some:
  assumes "constraints_for ce t meth extra ps ttl uses = Some c"
  obtains methods where "add_methods ce [meth] extra = Some methods" "ps = [] \<or> check_prefixes t ps"
    "c = \<lparr>c_origins = [tg_origin t], c_methods = methods, c_path_prefixes = (if ps = [] then [tg_path t] else ps),
          c_ttl_seconds = ttl, c_max_uses = (if uses > 0 then Some uses else None)\<rparr>"
  using assms by (auto simp: constraints_for_def split: option.splits if_splits)

lemma build_request_context_fits:
  assumes "build_request_context ce (build_structured_context ce cap extra) t meth = Some j" "cli_libraries_ok ce env"
  obtains v where "env_json_vec env j = Some v" "length v \<le> MAX_STRUCTURED_BYTES"
proof -
  obtain m where j: "j = JObject m" "json_len ce m \<le> CLI_MAX_STRUCTURED_BYTES"
    using assms(1)
    by (auto simp: build_request_context_def build_structured_context_def Let_def split: option.splits if_splits)
  obtain v where "env_json_vec env j = Some v" "li_json_vec ce j = Some v"
    using assms(2) by (metis cli_libraries_ok_def option.exhaust)
  with j that show thesis
    by (auto simp: json_len_def CLI_MAX_STRUCTURED_BYTES_def MAX_STRUCTURED_BYTES_def)
qed

lemma preflight_secret:
  assumes "curl_preflight ce io cfg args rf = Inr (t, Sel_Secret n, meth, headers, su)"
  shows "ua_grant_id args = None" "ua_secret args = Some n" "call_method ce args = Some meth"
    "validate_grant_options ce args t meth" "parse_target ce (ua_url args) = Some t"
  using assms
  by (auto simp: curl_preflight_def credential_selector_def split: option.splits sum.splits if_splits)

lemma options_bounds:
  assumes "validate_grant_options ce args t meth" "ua_grant_id args = None" "ua_secret args = Some n"
  obtains path methods where "canonicalize (tg_path t) = Inr path"
    "ua_ttl args \<noteq> 0" "ua_ttl args \<le> MAX_TTL_SECONDS" "ua_max_uses args \<le> MAX_USES"
    "n \<noteq> []" "length n \<le> 256" "length (ua_reason args) \<le> MAX_REASON_BYTES"
    "add_methods ce [meth] (ua_allow_methods args) = Some methods" "length methods \<le> MAX_CONSTRAINT_ENTRIES"
    "length (ua_path_prefixes args) \<le> MAX_CONSTRAINT_ENTRIES"
  using assms
  by (auto simp: validate_grant_options_def CLI_MAX_TTL_SECONDS_def MAX_TTL_SECONDS_def MAX_SERVER_USES_def MAX_USES_def
      MAX_SECRET_NAME_BYTES_def CLI_MAX_REASON_BYTES_def MAX_REASON_BYTES_def CLI_MAX_CONSTRAINT_ENTRIES_def
      MAX_CONSTRAINT_ENTRIES_def cli_canonical_path_Some not_less split: if_splits option.splits)

lemma curl_request_Inr:
  assumes "curl_request ce args t meth n j headers body su key = Inr req"
  obtains c where "constraints_for ce t meth (ua_allow_methods args) (ua_path_prefixes args) (ua_ttl args) (ua_max_uses args) = Some c"
    "cr_constraints req = c" "cr_secret_name req = n" "cr_mechanism req = Mech_Brokered"
    "cr_idempotency_key req \<noteq> []" "length (cr_idempotency_key req) \<le> MAX_IDEM_KEY_BYTES"
    "cr_context req = \<lparr>cx_reason = ua_reason args, cx_structured = Some j\<rparr>"
  using assms
  by (auto simp: curl_request_def Let_def idempotency_key_ok_def MAX_REQUEST_IDEM_KEY_BYTES_def MAX_IDEM_KEY_BYTES_def
      split: if_splits option.splits)

lemma prefixes_admit:
  assumes "ps = [] \<or> check_prefixes t ps" "canonicalize (tg_path t) = Inr path"
  obtains pps where "canonicalize_all (if ps = [] then [tg_path t] else ps) = Some pps"
    "list_ex (\<lambda>p. prefix_matches p path) pps" "ps = [] \<Longrightarrow> pps = [path]"
proof (cases "ps = []")
  case True
  with assms(2) that [of "[path]"] show ?thesis by (simp add: prefix_matches_self)
next
  case False
  with assms check_prefixes_True [of t ps path] that show ?thesis by (auto simp: cli_canonical_path_Some)
qed

text \<open>C35: A request the client makes for a call is one the service accepts, and the constraints the service stores
  admit that very call: whoever approves it, the proxy sends it to the origin of the URL, with its method,
  on its canonical path.  Without options that widen it, the grant names nothing but this method and
  this path.\<close>

theorem curl_grant_serves_call:
  assumes libs: "cli_libraries_ok ce env"
    and pre: "curl_preflight ce io cfg args rf = Inr (t, Sel_Secret n, meth, headers, su)"
    and ctx: "build_request_context ce (build_structured_context ce (io_capture io) (io_extra io)) t meth = Some j"
    and req: "curl_request ce args t meth n j headers body su key = Inr req"
  shows "\<exists>c path. validate_request env req = Inr c \<and> canonicalize (tg_path t) = Inr path \<and>
     (\<forall>rq. proxied_as rq meth t \<longrightarrow> check_call c rq = Inr (meth, path, tg_origin t)) \<and>
     c_origins c = [tg_origin t] \<and>
     (ua_path_prefixes args = [] \<and> ua_allow_methods args = [] \<longrightarrow> c_methods c = [meth] \<and> c_path_prefixes c = [path])"
proof -
  note p = preflight_secret [OF pre]
  have good: "good_method meth" by (rule call_method_good [OF p(3) libs])
  obtain path methods where o: "canonicalize (tg_path t) = Inr path"
    "ua_ttl args \<noteq> 0" "ua_ttl args \<le> MAX_TTL_SECONDS" "ua_max_uses args \<le> MAX_USES"
    "n \<noteq> []" "length n \<le> 256" "length (ua_reason args) \<le> MAX_REASON_BYTES"
    "add_methods ce [meth] (ua_allow_methods args) = Some methods" "length methods \<le> MAX_CONSTRAINT_ENTRIES"
    "length (ua_path_prefixes args) \<le> MAX_CONSTRAINT_ENTRIES"
    using options_bounds [OF p(4) p(1) p(2)] by blast
  obtain c where r: "constraints_for ce t meth (ua_allow_methods args) (ua_path_prefixes args) (ua_ttl args) (ua_max_uses args) = Some c"
    "cr_constraints req = c" "cr_secret_name req = n" "cr_mechanism req = Mech_Brokered"
    "cr_idempotency_key req \<noteq> []" "length (cr_idempotency_key req) \<le> MAX_IDEM_KEY_BYTES"
    "cr_context req = \<lparr>cx_reason = ua_reason args, cx_structured = Some j\<rparr>"
    using curl_request_Inr [OF req] by blast
  have c: "c = \<lparr>c_origins = [tg_origin t], c_methods = methods,
      c_path_prefixes = (if ua_path_prefixes args = [] then [tg_path t] else ua_path_prefixes args),
      c_ttl_seconds = ua_ttl args, c_max_uses = (if ua_max_uses args > 0 then Some (ua_max_uses args) else None)\<rparr>"
    and ps: "ua_path_prefixes args = [] \<or> check_prefixes t (ua_path_prefixes args)"
    using constraints_for_Some [OF r(1)] o(8) by (metis option.inject)+
  obtain pps where pps: "canonicalize_all (if ua_path_prefixes args = [] then [tg_path t] else ua_path_prefixes args) = Some pps"
    "list_ex (\<lambda>p. prefix_matches p path) pps" "ua_path_prefixes args = [] \<Longrightarrow> pps = [path]"
    using prefixes_admit [OF ps o(1)] by metis
  have ms: "list_all good_method methods" "meth \<in> set methods"
    using add_methods_good [OF o(8) libs] add_methods_keep [OF o(8)] good by auto
  obtain v where v: "env_json_vec env j = Some v" "length v \<le> MAX_STRUCTURED_BYTES"
    using build_request_context_fits [OF ctx libs] .
  let ?c = "\<lparr>c_origins = [tg_origin t], c_methods = methods, c_path_prefixes = pps, c_ttl_seconds = ua_ttl args,
             c_max_uses = (if ua_max_uses args > 0 then Some (ua_max_uses args) else None)\<rparr>"
  have bounds: "validate_bounds env req = None"
    using o r v by (auto simp: validate_bounds_def c MAX_CONSTRAINT_ENTRIES_def not_less)
  have named: "list_ex (\<lambda>m. eq_ignore_ascii_case m meth) methods"
    using ms(2) by (auto simp: list_ex_iff intro!: bexI [of _ meth])
  have "methods \<noteq> []" using ms(2) by auto
  then have "validate_request env req = Inr ?c"
    using bounds r(4-6) o(4) ms(1) pps(1)
    by (auto simp: validate_request_def validate_idempotency_key_def validate_max_uses_def r(2) c Let_def
        good_methods_upper good_methods_valid not_less)
  moreover have "check_call ?c rq = Inr (meth, path, tg_origin t)" if "proxied_as rq meth t" for rq
    using named pps(2) by (intro check_call_proxied [OF that good o(1)]) simp_all
  moreover have "ua_allow_methods args = [] \<Longrightarrow> methods = [meth]" using o(8) by simp
  ultimately show ?thesis
    using o(1) pps(3) by auto
qed

section \<open>A reused grant\<close>

lemma grant_covers_Inr:
  assumes "grant_covers gi local_now t meth = Inr ()"
  obtains x where "c_origins (gi_constraints gi) = [x]" "same_target x (tg_origin t)" "gi_mechanism gi = Mech_Brokered"
    "\<not> gi_revoked gi" "gi_not_after gi > (case gi_server_time gi of Some n \<Rightarrow> n | None \<Rightarrow> local_now)"
    "c_methods (gi_constraints gi) = [] \<or> list_ex (\<lambda>m. eq_ignore_ascii_case m meth) (c_methods (gi_constraints gi))"
    "\<And>path. canonicalize (tg_path t) = Inr path \<Longrightarrow> c_path_prefixes (gi_constraints gi) = [] \<or>
       list_ex (\<lambda>p. prefix_matches p path) (c_path_prefixes (gi_constraints gi))"
  using assms
  by (auto simp: grant_covers_def Let_def cli_canonical_path_def path_covered_def not_le
      split: if_splits list.splits option.splits sum.splits)

lemma info_Inr:
  assumes "info env app header raw now d = Inr gi"
  obtains client g c where "authenticate_client env app header d = Inr client" "gr_client_name g = cl_name client"
    "get_grant (gi_grant_id gi) d = Some g" "gr_constraints g = Parsed c" "gi_server_time gi = Some now"
    "mech_from_str_opt (gr_mechanism g) = Some (gi_mechanism gi)" "gi_revoked gi = gr_revoked g" "gi_not_after gi = gr_not_after g"
    "c_origins (gi_constraints gi) = c_origins c" "c_methods (gi_constraints gi) = c_methods c"
    "c_path_prefixes (gi_constraints gi) = c_path_prefixes c"
proof -
  obtain client gid g m c where i: "authenticate_client env app header d = Inr client"
      "owned_grant (cl_name client) gid d = Inr g" "mech_from_str_opt (gr_mechanism g) = Some m" "gr_constraints g = Parsed c"
      "gi = \<lparr>gi_grant_id = gr_id g, gi_mechanism = m,
               gi_constraints = c\<lparr>c_max_uses := map_option column_u32 (gr_max_uses g),
                                  c_ttl_seconds := span_seconds (gr_not_after g - gr_created_at g)\<rparr>,
               gi_not_after = gr_not_after g, gi_max_uses = map_option column_u32 (gr_max_uses g),
               gi_use_count = column_u32 (gr_use_count g), gi_revoked = gr_revoked g,
               gi_server_time = Some now\<rparr>"
    using assms by (auto simp: info_def split: sum.splits option.splits jsonb.splits)
  show thesis
    using that [OF i(1) owned_grant_Inr(2) [OF i(2)] _ i(4)] owned_grant_Inr [OF i(2)] i(3,5) by simp
qed

text \<open>C38: When the client goes ahead with a grant it was given, the service (whose answer it checked) holds a live
  brokered grant of the authenticated client whose constraints admit the call and whose only origin is the
  target of the URL, so what goes out goes where the command line says.\<close>

theorem reused_grant_sends_to_url:
  assumes libs: "cli_libraries_ok ce env"
    and meth: "call_method ce args = Some meth"
    and opts: "validate_grant_options ce args t meth"
    and info: "info env app header raw now d = Inr gi"
    and covers: "grant_covers gi local_now t meth = Inr ()"
    and rq: "proxied_as rq meth t"
  shows "\<exists>client g c path x. authenticate_client env app header d = Inr client \<and> gr_client_name g = cl_name client \<and>
     get_grant (gi_grant_id gi) d = Some g \<and> mech_from_str_opt (gr_mechanism g) = Some Mech_Brokered \<and>
     \<not> gr_revoked g \<and> now < gr_not_after g \<and> gr_constraints g = Parsed c \<and>
     check_call c rq = Inr (meth, path, x) \<and> same_target x (tg_origin t)"
proof -
  obtain path where path: "canonicalize (tg_path t) = Inr path"
    using opts by (auto simp: validate_grant_options_def cli_canonical_path_def split: if_splits sum.splits)
  obtain client g c where g: "authenticate_client env app header d = Inr client" "gr_client_name g = cl_name client"
    "get_grant (gi_grant_id gi) d = Some g" "gr_constraints g = Parsed c" "gi_server_time gi = Some now"
    "mech_from_str_opt (gr_mechanism g) = Some (gi_mechanism gi)" "gi_revoked gi = gr_revoked g" "gi_not_after gi = gr_not_after g"
    "c_origins (gi_constraints gi) = c_origins c" "c_methods (gi_constraints gi) = c_methods c"
    "c_path_prefixes (gi_constraints gi) = c_path_prefixes c"
    using info_Inr [OF info] .
  obtain x where x: "c_origins c = [x]" "same_target x (tg_origin t)" "gi_mechanism gi = Mech_Brokered"
    "\<not> gr_revoked g" "now < gr_not_after g"
    "c_methods c = [] \<or> list_ex (\<lambda>m. eq_ignore_ascii_case m meth) (c_methods c)"
    "c_path_prefixes c = [] \<or> list_ex (\<lambda>p. prefix_matches p path) (c_path_prefixes c)"
    using grant_covers_Inr [OF covers] g(5,7-11) path by (metis option.case(2))
  have "check_call c rq = Inr (meth, path, x)"
    by (rule check_call_proxied [OF rq call_method_good [OF meth libs] path x(6,7,1)])
  with g x show ?thesis by metis
qed

section \<open>The key names the call\<close>

lemma be64_length [simp]: "length (be64 n) = 8"
  by (simp add: be64_def)

lemma unat_of_nat64: "m < 2 ^ 64 \<Longrightarrow> unat (of_nat m :: 64 word) = m"
  by (simp add: unsigned_of_nat take_bit_nat_eq_self)

lemma be64_inject: "be64 m = be64 n \<Longrightarrow> m < 2 ^ 64 \<Longrightarrow> n < 2 ^ 64 \<Longrightarrow> m = n"
  by (metis be64_def from_to_be_bytes unat_of_nat64)

lemma framed_inject:
  assumes "framed a @ r = framed b @ s" "length a < 2 ^ 64" "length b < 2 ^ 64"
  shows "a = b" "r = s"
proof -
  have "be64 (length a) = be64 (length b)" "a @ r = b @ s"
    using assms(1) by (simp_all add: framed_def append_eq_append_conv)
  then show "a = b" "r = s"
    using be64_inject [OF _ assms(2,3)] by auto
qed

lemma optional_inject:
  assumes "optional a @ r = optional b @ s" "\<forall>x. a = Some x \<longrightarrow> length x < 2 ^ 64" "\<forall>x. b = Some x \<longrightarrow> length x < 2 ^ 64"
  shows "a = b" "r = s"
proof -
  have "a = b \<and> r = s"
  proof (cases a; cases b)
    fix x y
    assume "a = Some x" "b = Some y"
    with assms framed_inject [of x r y s] show ?thesis by (simp add: optional_def)
  qed (use assms(1) in \<open>simp_all add: optional_def\<close>)
  then show "a = b" "r = s" by simp_all
qed

lemma fields_inject:
  assumes "header_fields hs @ r = header_fields hs' @ s"
    "length hs = length hs'" "\<forall>(n, v) \<in> set hs \<union> set hs'. length n < 2 ^ 64 \<and> length v < 2 ^ 64"
  shows "hs = hs' \<and> r = s"
  using assms(2,1,3)
proof (induction hs hs' rule: list_induct2)
  case (Cons h hs h' hs')
  obtain n v n' v' where h: "h = (n, v)" "h' = (n', v')" by fastforce
  have "framed n @ framed v @ header_fields hs @ r =
      framed n' @ framed v' @ header_fields hs' @ s"
    using Cons.prems(1) by (simp add: h header_fields_def)
  from framed_inject [OF this] Cons.prems(2) have "n = n'"
    and "framed v @ header_fields hs @ r = framed v' @ header_fields hs' @ s"
    by (auto simp: h)
  moreover from framed_inject [OF this(2)] Cons.prems(2) have "v = v'"
    and "header_fields hs @ r = header_fields hs' @ s"
    by (auto simp: h)
  ultimately show ?case
    using Cons.IH Cons.prems(2) by (simp add: h)
qed (simp add: header_fields_def)

definition fits_u64 :: "bytes option \<Rightarrow> bool" where
  "fits_u64 v \<longleftrightarrow> (\<forall>x. v = Some x \<longrightarrow> length x < 2 ^ 64)"

text \<open>All lengths fit the eight bytes in front of a field.\<close>

definition call_fits :: "string \<Rightarrow> target \<Rightarrow> (string \<times> string) list \<Rightarrow> bytes option \<Rightarrow> bool" where
  "call_fits meth t headers body \<longleftrightarrow>
     fits_u64 (Some meth) \<and> fits_u64 (Some (origin_to_display (tg_origin t))) \<and> fits_u64 (Some (tg_path t)) \<and>
     fits_u64 (tg_query t) \<and> length headers < 2 ^ 64 \<and>
     (\<forall>(n, v) \<in> set headers. length n < 2 ^ 64 \<and> length v < 2 ^ 64) \<and> fits_u64 body"

lemma call_preimage_inject:
  assumes "call_preimage m t hs b u = call_preimage m' t' hs' b' u'" "call_fits m t hs b" "call_fits m' t' hs' b'"
  shows "m = m' \<and> origin_to_display (tg_origin t) = origin_to_display (tg_origin t') \<and> tg_path t = tg_path t' \<and>
     tg_query t = tg_query t' \<and> hs = hs' \<and> b = b' \<and> u = u'"
proof -
  have l: "length m < 2 ^ 64" "length m' < 2 ^ 64" "length (tg_path t) < 2 ^ 64" "length (tg_path t') < 2 ^ 64"
    "length (origin_to_display (tg_origin t)) < 2 ^ 64" "length (origin_to_display (tg_origin t')) < 2 ^ 64"
    "length hs < 2 ^ 64" "length hs' < 2 ^ 64"
    "\<forall>x. tg_query t = Some x \<longrightarrow> length x < 2 ^ 64" "\<forall>x. tg_query t' = Some x \<longrightarrow> length x < 2 ^ 64"
    "\<forall>x. b = Some x \<longrightarrow> length x < 2 ^ 64" "\<forall>x. b' = Some x \<longrightarrow> length x < 2 ^ 64"
    "\<forall>(n, v) \<in> set hs \<union> set hs'. length n < 2 ^ 64 \<and> length v < 2 ^ 64"
    using assms(2,3) by (auto simp: call_fits_def fits_u64_def)
  note 1 = framed_inject [OF assms(1) [unfolded call_preimage_def] l(1,2)]
  note 2 = framed_inject [OF 1(2) l(5,6)]
  note 3 = framed_inject [OF 2(2) l(3,4)]
  note 4 = optional_inject [OF 3(2) l(9,10)]
  have n: "be64 (length hs) = be64 (length hs')"
    and 5: "header_fields hs @ optional b @ [flag_byte u] = header_fields hs' @ optional b' @ [flag_byte u']"
    using 4(2) by simp_all
  have 6: "hs = hs' \<and> optional b @ [flag_byte u] = optional b' @ [flag_byte u']"
    by (rule fields_inject [OF 5 be64_inject [OF n l(7,8)] l(13)])
  note 7 = optional_inject [OF conjunct2 [OF 6] l(11,12)]
  have "u = u'" using 7(2) by (simp add: flag_byte_def split: if_splits)
  with 1(1) 2(1) 3(1) 4(1) 6 7(1) show ?thesis by simp
qed

text \<open>C36: Two invocations of the client that send the service the same idempotency key make the same call: same
  method, target with its query, header fields in the same order, body, and treatment of the default agent
  (and under the same key of the caller), unless the truncated digests of two calls collide.  So an approval is
  only ever resumed for the call it was given for.\<close>

theorem bound_key_names_call:
  assumes key: "call_bound_idempotency_key ce k m t hs b u = call_bound_idempotency_key ce k' m' t' hs' b' u'"
    and hex: "\<forall>x. length (li_sha256_hex ce x) = 64"
    and free: "\<forall>x y. x = call_preimage m t hs b u \<longrightarrow> y = call_preimage m' t' hs' b' u' \<longrightarrow>
      take CALL_BINDING_HEX_CHARS (li_sha256_hex ce x) = take CALL_BINDING_HEX_CHARS (li_sha256_hex ce y) \<longrightarrow> x = y"
    and fits: "call_fits m t hs b" "call_fits m' t' hs' b'"
  shows "k = k' \<and> m = m' \<and> target_display t = target_display t' \<and> tg_path t = tg_path t' \<and> tg_query t = tg_query t' \<and>
     hs = hs' \<and> b = b' \<and> u = u'"
proof -
  have same: "k = k'" "take CALL_BINDING_HEX_CHARS (li_sha256_hex ce (call_preimage m t hs b u)) =
      take CALL_BINDING_HEX_CHARS (li_sha256_hex ce (call_preimage m' t' hs' b' u'))"
    using key hex by (simp_all add: call_bound_idempotency_key_def CALL_BINDING_HEX_CHARS_def append_eq_append_conv)
  then have "call_preimage m t hs b u = call_preimage m' t' hs' b' u'"
    using free by blast
  from call_preimage_inject [OF this fits] same(1) show ?thesis
    by (auto simp: target_display_def)
qed

section \<open>What is stored is what is printed\<close>

text \<open>What is relied on of base64: both programs use the same alphabet, decoding inverts encoding, three bytes take at
  most four characters, and something takes at least one.\<close>

definition base64_ok :: "cli_env \<Rightarrow> api_env \<Rightarrow> bool" where
  "base64_ok ce env \<longleftrightarrow>
     (\<forall>b. li_b64_encode ce b = env_b64_encode env b \<and> env_b64_decode env (env_b64_encode env b) = Some b \<and>
          li_b64_decode ce (env_b64_encode env b) = Some b \<and> length (env_b64_encode env b) \<le> 4 * ((length b + 2) div 3) \<and>
          (b \<noteq> [] \<longrightarrow> env_b64_encode env b \<noteq> []))"

text \<open>Exactly one line end is removed when there is one.\<close>

definition ends_with :: "string \<Rightarrow> string \<Rightarrow> bool" where
  "ends_with t s \<longleftrightarrow> (\<exists>a. s = a @ t)"

lemma ends_with_one: "ends_with [c] s \<longleftrightarrow> s \<noteq> [] \<and> last s = c"
  by (cases s rule: rev_cases) (auto simp: ends_with_def)

lemma ends_with_two: "ends_with [a, c] s \<longleftrightarrow> ends_with [c] s \<and> ends_with [a] (butlast s)"
  by (cases s rule: rev_cases) (auto simp: ends_with_def)

lemma strip_trailing_newline_split:
  "bs = strip_trailing_newline bs @
     (if ends_with [carriage_return, line_feed] bs then [carriage_return, line_feed]
      else if ends_with [line_feed] bs then [line_feed] else [])"
proof (cases bs rule: rev_cases)
  case Nil
  then show ?thesis by (simp add: strip_trailing_newline_def ends_with_def)
next
  case (snoc b c)
  then show ?thesis
    by (cases b rule: rev_cases)
      (auto simp: strip_trailing_newline_def Let_def ends_with_one ends_with_two butlast_append)
qed

text \<open>C39: a secret read by \<open>store\<close> is the input itself with \<open>--raw\<close>, and otherwise the input without its trailing
  \<open>\r\n\<close> or \<open>\n\<close>, exactly one if there is one; the service accepts its encoding and decodes exactly these bytes; and
  when the service releases them, \<open>request\<close> prints exactly them again, followed by one line feed when the output is
  a terminal or \<open>--newline\<close> is given.\<close>

theorem stored_secret_roundtrip:
  assumes lib: "base64_ok ce env"
    and input: "read_secret_input source raw = Inr val"
  shows "decode_value env (ss_encoding (store_body ce args tier val)) (ss_value (store_body ce args tier val)) = Inr val \<and>
     write_secret ce tty (read_response env val vid) nl = Inr (if tty \<or> nl then val @ [line_feed] else val) \<and>
     (\<exists>bs. source = Source_bytes bs \<and>
        bs = val @ (if raw then []
                    else if ends_with [carriage_return, line_feed] bs then [carriage_return, line_feed]
                    else if ends_with [line_feed] bs then [line_feed] else []))"
proof -
  obtain bs buf where bs: "source = Source_bytes bs" "read_bounded_secret bs = Some buf"
      "val = (if raw then buf else strip_trailing_newline buf)" "val \<noteq> []" "length val \<le> MAX_SECRET_BYTES"
    using input by (auto simp: read_secret_input_def Let_def not_less split: secret_source.splits option.splits if_splits)
  have "buf = bs"
    using bs(2) by (auto simp: read_bounded_secret_def Let_def READ_HEADROOM_def not_less split: if_splits)
  then have tail: "bs = val @ (if raw then []
        else if ends_with [carriage_return, line_feed] bs then [carriage_return, line_feed]
        else if ends_with [line_feed] bs then [line_feed] else [])"
    using strip_trailing_newline_split [of bs] bs(3) by (cases raw) simp_all
  have enc: "length (env_b64_encode env val) \<le> 4 * ((length val + 2) div 3)" "env_b64_encode env val \<noteq> []"
    "env_b64_decode env (env_b64_encode env val) = Some val" "li_b64_encode ce val = env_b64_encode env val"
    "li_b64_decode ce (env_b64_encode env val) = Some val"
    using lib bs(4) by (auto simp: base64_ok_def)
  have len: "length val \<le> 65536"
    using bs(5) by (simp add: MAX_SECRET_BYTES_def)
  then have "length (env_b64_encode env val) \<le> 87384"
    using enc(1) by linarith
  then have "decode_value env (ss_encoding (store_body ce args tier val)) (ss_value (store_body ce args tier val)) = Inr val"
    using enc len bs(4) by (auto simp: decode_value_def store_body_def MAX_ENCODED_VALUE_BYTES_def MAX_VALUE_BYTES_def)
  moreover have "write_secret ce tty (read_response env val vid) nl = Inr (if tty \<or> nl then val @ [line_feed] else val)"
    using enc by (auto simp: write_secret_def read_response_def)
  ultimately show ?thesis using tail bs(1) by blast
qed

section \<open>Examples\<close>

lemma ex_libraries_ok: "cli_libraries_ok ex_cli_env ex_env"
  by (simp add: cli_libraries_ok_def ex_cli_env_def ex_env_def)

lemma ex_base64_ok: "base64_ok ex_cli_env ex_env"
proof -
  have "n \<le> 4 * ((n + 2) div 3)" for n :: nat by presburger
  then show ?thesis by (simp add: base64_ok_def ex_cli_env_def ex_env_def)
qed

definition ex_curl_args :: curl_args where
  "ex_curl_args = \<lparr>ua_url = ''https://h/v1/%41?q'', ua_secret = Some ''tok'', ua_method = None, ua_headers = [], ua_data = [''a''],
     ua_data_raw = [], ua_data_binary = [], ua_output = None, ua_include = False, ua_fail = False, ua_reason = ''r'',
     ua_ttl = 300, ua_max_uses = 1, ua_timeout = 900, ua_max_time = Some 120, ua_idempotency_key = Some ''k'',
     ua_grant_id = None, ua_path_prefixes = [], ua_allow_methods = []\<rparr>"

definition ex_io :: curl_io where
  "ex_io = \<lparr>io_files = (\<lambda>_. None), io_stdin = None, io_max_body = None, io_capture = None, io_extra = None, io_fresh = 0,
     io_same_file = (\<lambda>_ _. False), io_output_opens = (\<lambda>_. True), io_agent_free_client = Inr (), io_local_now = 0,
     io_terminal = False\<rparr>"

definition ex_target :: target where
  "ex_target = \<lparr>tg_origin = \<lparr>o_host = ''h'', o_port = None\<rparr>, tg_path = ''/v1/%41'', tg_query = Some ''q''\<rparr>"

definition ex_context :: json where
  "ex_context = JObject [(''target'', JString ''POST https://h/v1/%41?q'')]"

lemma ex_parse_target: "parse_target ex_cli_env (ua_url ex_curl_args) = Some ex_target"
  by code_simp

lemma ex_path: "canonicalize ''/v1/%41'' = Inr ''/v1/A''"
  by code_simp

lemma ex_reuse_path: "canonicalize ''/v1/items/%41'' = Inr ''/v1/items/A''"
  by code_simp

lemma ex_options: "validate_grant_options ex_cli_env ex_curl_args ex_target ''POST''"
  by (simp add: validate_grant_options_def cli_canonical_path_def ex_target_def ex_path ex_curl_args_def MAX_APPROVAL_WAIT_SECONDS_def
      CLI_MAX_TTL_SECONDS_def MAX_SERVER_USES_def MAX_SECRET_NAME_BYTES_def CLI_MAX_REASON_BYTES_def MAX_CURL_USER_KEY_BYTES_def
      CALL_BINDING_HEX_CHARS_def CLI_MAX_CONSTRAINT_ENTRIES_def)

lemma ex_preflight:
  "curl_preflight ex_cli_env ex_io ex_cli_config ex_curl_args (\<lambda>_. None) = Inr (ex_target, Sel_Secret ''tok'', ''POST'', [], False)"
  using ex_parse_target ex_options
  by (simp add: curl_preflight_def credential_selector_def ex_curl_args_def refuse_output_over_token_file_def ex_cli_config_def
      bearer_def call_method_def body_is_supplied_def forwarded_headers_def connection_nominated_def)

lemma ex_request_context:
  "build_request_context ex_cli_env (build_structured_context ex_cli_env (io_capture ex_io) (io_extra ex_io)) ex_target ''POST'' = Some ex_context"
  by code_simp

lemma ex_curl_request:
  "\<exists>req. curl_request ex_cli_env ex_curl_args ex_target ''POST'' ''tok'' ex_context [] (Some ''a'') False ''k'' = Inr req"
  by (simp add: curl_request_def Let_def call_bound_idempotency_key_def idempotency_key_ok_def ex_cli_env_def ex_curl_args_def
      MAX_CURL_USER_KEY_BYTES_def CALL_BINDING_HEX_CHARS_def MAX_REQUEST_IDEM_KEY_BYTES_def constraints_for_def)

theorem curl_grant_serves_call_witness:
  "\<exists>req c. curl_request ex_cli_env ex_curl_args ex_target ''POST'' ''tok'' ex_context [] (Some ''a'') False ''k'' = Inr req \<and>
     validate_request ex_env req = Inr c \<and> c_methods c = [''POST''] \<and> c_path_prefixes c = [''/v1/A'']"
proof -
  obtain req where req: "curl_request ex_cli_env ex_curl_args ex_target ''POST'' ''tok'' ex_context [] (Some ''a'') False ''k'' = Inr req"
    using ex_curl_request by blast
  have "tg_path ex_target = ''/v1/%41''" "ua_path_prefixes ex_curl_args = []" "ua_allow_methods ex_curl_args = []"
    by (simp_all add: ex_target_def ex_curl_args_def)
  then show ?thesis
    using curl_grant_serves_call [OF ex_libraries_ok ex_preflight ex_request_context req] req by (auto simp: ex_path)
qed

definition ex_reuse_args :: curl_args where
  "ex_reuse_args = ex_curl_args\<lparr>ua_grant_id := Some ''20'', ua_secret := None, ua_data := []\<rparr>"

definition ex_reuse_target :: target where
  "ex_reuse_target = \<lparr>tg_origin = ex_origin, tg_path = ''/v1/items/%41'', tg_query = None\<rparr>"

abbreviation ex_info :: "api_failure + grant_info" where
  "ex_info \<equiv> info ex_env ex_app ex_header (Some ''20'') 5 ex_proxy_db"

lemma ex_info_covers: "\<not> isl ex_info \<and> grant_covers (projr ex_info) 0 ex_reuse_target ''GET'' = Inr ()"
  by code_simp

theorem reused_grant_sends_to_url_witness:
  "\<exists>gi c path x. ex_info = Inr gi \<and> get_grant (gi_grant_id gi) ex_proxy_db \<noteq> None \<and>
     check_call c (ex_proxy_request\<lparr>pq_method := ''GET'', pq_path := ''/v1/grants/20/proxy/v1/items/%41''\<rparr>) = Inr (''GET'', path, x) \<and>
     same_target x ex_origin"
proof -
  obtain gi where gi: "ex_info = Inr gi" "grant_covers gi 0 ex_reuse_target ''GET'' = Inr ()"
    using ex_info_covers by (cases ex_info) auto
  have opts: "validate_grant_options ex_cli_env ex_reuse_args ex_reuse_target ''GET''"
    by (simp add: validate_grant_options_def cli_canonical_path_def ex_reuse_target_def ex_reuse_path ex_reuse_args_def ex_curl_args_def
        MAX_APPROVAL_WAIT_SECONDS_def CLI_MAX_TTL_SECONDS_def)
  have meth: "call_method ex_cli_env ex_reuse_args = Some ''GET''"
    by (simp add: call_method_def ex_reuse_args_def ex_curl_args_def body_is_supplied_def)
  have "proxied_as (ex_proxy_request\<lparr>pq_method := ''GET'', pq_path := ''/v1/grants/20/proxy/v1/items/%41''\<rparr>) ''GET'' ex_reuse_target"
    by (auto simp: proxied_as_def ex_reuse_target_def intro!: exI [of _ "''20''"])
  from reused_grant_sends_to_url [OF ex_libraries_ok meth opts gi this] gi show ?thesis
    by (auto simp: ex_reuse_target_def)
qed

definition ex_digest :: "bytes \<Rightarrow> string" where
  "ex_digest s = take 64 (rev s @ replicate 64 (CHR ''0''))"

theorem bound_key_names_call_witness:
  "call_bound_idempotency_key (ex_cli_env\<lparr>li_sha256_hex := ex_digest\<rparr>) ''k'' ''POST'' ex_target [(''a'', ''b'')] (Some ''x'') False \<noteq>
   call_bound_idempotency_key (ex_cli_env\<lparr>li_sha256_hex := ex_digest\<rparr>) ''k'' ''POST'' ex_target [(''a'', ''b'')] (Some ''y'') False"
  (is "?k ''x'' \<noteq> ?k ''y''")
proof
  let ?p = "\<lambda>b. call_preimage ''POST'' ex_target [(''a'', ''b'')] (Some b) False"
  assume eq: "?k ''x'' = ?k ''y''"
  have fits: "call_fits ''POST'' ex_target [(''a'', ''b'')] (Some [c])" for c
    by (simp add: call_fits_def fits_u64_def ex_target_def origin_to_display_def)
  have hex: "\<forall>s. length (li_sha256_hex (ex_cli_env\<lparr>li_sha256_hex := ex_digest\<rparr>) s) = 64"
    by (auto simp: ex_digest_def min_def)
  have second: "ex_digest (?p [c]) ! 1 = c" for c
    by (simp add: ex_digest_def call_preimage_def optional_def framed_def)
  have "take CALL_BINDING_HEX_CHARS (ex_digest (?p ''x'')) ! 1 \<noteq> take CALL_BINDING_HEX_CHARS (ex_digest (?p ''y'')) ! 1"
    by (simp add: CALL_BINDING_HEX_CHARS_def second [unfolded One_nat_def])
  then have "take CALL_BINDING_HEX_CHARS (ex_digest (?p ''x'')) \<noteq> take CALL_BINDING_HEX_CHARS (ex_digest (?p ''y''))"
    by metis
  then show False
    using bound_key_names_call [OF eq hex _ fits fits] by simp
qed

theorem stored_secret_roundtrip_witness:
  "read_secret_input (Source_bytes (''pw'' @ [line_feed, line_feed])) False = Inr (''pw'' @ [line_feed]) \<and>
   write_secret ex_cli_env True (read_response ex_env (''pw'' @ [line_feed]) 30) False = Inr (''pw'' @ [line_feed, line_feed])"
proof -
  let ?in = "''pw'' @ [line_feed, line_feed]"
  have r: "read_secret_input (Source_bytes ?in) False = Inr (''pw'' @ [line_feed])"
    by (simp add: read_secret_input_def read_bounded_secret_def MAX_SECRET_BYTES_def READ_HEADROOM_def strip_trailing_newline_def)
  then show ?thesis
    using stored_secret_roundtrip [OF ex_base64_ok r, of undefined undefined True 30 False] by simp
qed

section \<open>An unchecked timeout\<close>

text \<open>The deadline is computed from the option \<open>--timeout\<close> as given; a value past the range of the clock ends
  the process with a panic, where \<open>curl\<close> refuses it as a usage error.\<close>

lemma request_timeout_panics:
  assumes "ra_mechanism args = ''cli-read''" "ra_idempotency_key args = Some k" "idempotency_key_ok k"
    and "0 \<le> wo_now w s" "2 ^ 63 \<le> uint (ra_timeout args)"
  shows "run_request ce w cfg fresh structured tty args s = Some (Inl (fail EXIT_PANIC), s)"
proof -
  have "mech_from_str_opt ''cli-read'' = Some Mech_CliRead" "is_releasing Mech_CliRead" by code_simp+
  moreover have "instant_add (wo_now w s) (ra_timeout args) = None"
    using assms(4,5) by (auto simp: instant_add_def)
  ultimately show ?thesis
    using assms(1-3) by (simp add: run_request_def)
qed

lemma curl_timeout_refused: "2 ^ 63 \<le> uint (ua_timeout args) \<Longrightarrow> ua_grant_id args = None \<Longrightarrow> \<not> validate_grant_options ce args t meth"
  by (auto simp: validate_grant_options_def MAX_APPROVAL_WAIT_SECONDS_def CLI_MAX_TTL_SECONDS_def word_less_def)

end
