(* ===== verification/Ui_Pages.thy ===== *)
theory Ui_Pages
  imports Ui_System Startup
begin

text \<open>
  The GET pages of the operator interface (\<open>server/src/ui/mod.rs\<close>) as the data they show: the request an operator
  decides with the decrypted context, the grant block and the form tokens; the lists; the policy form filled from
  a request; the edit pages of policies and secrets.  The lemmas show that a policy saved as the page of a request
  suggests it applies to that request and contains it, that an approval grants what the page showed, and that
  the settings form of a secret reads back what it was rendered from.
\<close>

section \<open>The request an operator decides\<close>

text \<open>\<open>parse_context\<close> is \<open>serde_json::from_slice\<close> on a request context.\<close>

definition decrypt_context ::
  "api_env \<Rightarrow> app_state \<Rightarrow> (bytes \<Rightarrow> request_context option) \<Rightarrow> access_request_row \<Rightarrow> request_context option" where
  "decrypt_context env app parse_context row =
     (case (ar_context_ciphertext row, ar_context_nonce row, ar_context_wrapped_dek row, ar_context_kek_id row) of
        (Some ct, Some nonce, Some dek, Some kek_id) \<Rightarrow>
          (let aad = AadRequestContext (ar_id row);
               opened = (if kek_id = EPHEMERAL_KEK_ID
                         then ephemeral_open (env_aead env) (env_uuid_str env) (app_ephemeral_kek app) ct nonce dek aad
                         else keyset_open (env_aead env) (env_uuid_str env) (app_keyset app) ct nonce dek kek_id aad)
           in case opened of Inl _ \<Rightarrow> None | Inr plain \<Rightarrow> parse_context plain)
      | _ \<Rightarrow> None)"

text \<open>The target a client claims, shown for brokered requests only.\<close>

definition claimed_target :: "json option \<Rightarrow> string option" where
  "claimed_target structured =
     (case structured of
        Some (JObject kvs) \<Rightarrow> (case map_of kvs ''target'' of Some (JString s) \<Rightarrow> Some s | _ \<Rightarrow> None)
      | _ \<Rightarrow> None)"

text \<open>The lines of the grant block: what the server will enforce.\<close>

record grant_block =
  gb_mechanism :: mechanism
  gb_tier :: tier
  gb_origins :: "string list option"
  gb_methods :: "string option"
  gb_path_prefixes :: "string list option"
  gb_lasts :: string
  gb_uses :: string

definition grant_block_of :: "mechanism \<Rightarrow> constraints \<Rightarrow> grant_block" where
  "grant_block_of m c =
     (let show_scope = (\<lambda>empty. \<not> empty \<or> m = Mech_Brokered)
      in \<lparr>gb_mechanism = m, gb_tier = mech_tier m,
          gb_origins = (if show_scope (c_origins c = []) then Some (map origin_to_display (c_origins c)) else None),
          gb_methods = (if show_scope (c_methods c = []) then Some (join_with '', '' (c_methods c)) else None),
          gb_path_prefixes = (if show_scope (c_path_prefixes c = []) then Some (c_path_prefixes c) else None),
          gb_lasts = duration_label (unat (c_ttl_seconds c)),
          gb_uses = (case c_max_uses c of
                       Some n \<Rightarrow> ''at most '' @ dec (unat n) @ (if n = 1 then '' use'' else '' uses'')
                     | None \<Rightarrow> if is_releasing m then ''1 use (releasing default)'' else ''unlimited uses within TTL'')\<rparr>)"

text \<open>The block of what the client claims: the reason, the target for brokered requests, all of the rest.\<close>

definition context_block :: "request_context option \<Rightarrow> mechanism \<Rightarrow> (string \<times> string option \<times> json option) option" where
  "context_block ctx m =
     map_option (\<lambda>x. (cx_reason x, if m = Mech_Brokered then claimed_target (cx_structured x) else None, cx_structured x)) ctx"

record decision_page =
  dp_client :: string
  dp_secret_name :: string
  dp_secret :: "secret_row option"
  dp_grant_block :: grant_block
  dp_constraints :: constraints
  dp_context :: "(string \<times> string option \<times> json option) option"
  dp_notice :: "string option"
  dp_substitutes :: "string list"
  dp_secret_present :: string
  dp_approve_token :: string
  dp_deny_token :: string
  dp_store_tier :: tier
  dp_policy_href :: string

record resolved_page =
  rp_client :: string
  rp_label :: string
  rp_resolved_by :: "string option"
  rp_deny_reason :: "string option"
  rp_released :: string
  rp_substituted :: bool
  rp_secret :: "secret_row option"
  rp_grant_block :: grant_block
  rp_context :: "(string \<times> string option \<times> json option) option"
  rp_policy_href :: string

datatype detail_page = Resolved resolved_page | Not_approvable uuid | Decision decision_page

section \<open>A policy pre-filled from a request\<close>

text \<open>The pairs of the query; \<open>encode\<close> and \<open>decode\<close> are the URL-encoded form syntax of the libraries.\<close>

definition new_policy_pairs :: "string \<Rightarrow> string \<Rightarrow> mechanism \<Rightarrow> constraints \<Rightarrow> (string \<times> string) list" where
  "new_policy_pairs client secret m c =
     [(''client'', client), (''secret'', secret), (''mechanism'', mech_as_str m)]
     @ (if c_origins c \<noteq> [] then [(''origins'', join_with [line_feed] (map origin_field (c_origins c)))] else [])
     @ (if c_methods c \<noteq> [] then [(''methods'', join_with '', '' (c_methods c))] else [])
     @ (if c_path_prefixes c \<noteq> [] then [(''paths'', join_with [line_feed] (map path_field (c_path_prefixes c)))] else [])
     @ [(''max_ttl'', dec (unat (c_ttl_seconds c)))]
     @ (case c_max_uses c of Some n \<Rightarrow> [(''max_uses'', dec (unat n))] | None \<Rightarrow> [])"

definition new_policy_href ::
  "((string \<times> string) list \<Rightarrow> string) \<Rightarrow> string \<Rightarrow> string \<Rightarrow> mechanism \<Rightarrow> constraints \<Rightarrow> string" where
  "new_policy_href encode client secret m c = ''/ui/policies?'' @ encode (new_policy_pairs client secret m c) @ ''#new-policy''"

record policy_prefill =
  pp_client :: "string option"
  pp_secret :: "string option"
  pp_mechanism :: "string option"
  pp_origins :: "string option"
  pp_methods :: "string option"
  pp_paths :: "string option"
  pp_max_ttl :: "string option"
  pp_max_uses :: "string option"

text \<open>The query extractor: every field of the structure by its name, absent when the query has none (the library refuses a
  query that names a field twice, so \<open>decode\<close> answers None).  A browser
  sends what stands between the question mark and the fragment.\<close>

definition prefill_of_pairs :: "(string \<times> string) list \<Rightarrow> policy_prefill" where
  "prefill_of_pairs ps =
     \<lparr>pp_client = map_of ps ''client'', pp_secret = map_of ps ''secret'', pp_mechanism = map_of ps ''mechanism'',
      pp_origins = map_of ps ''origins'', pp_methods = map_of ps ''methods'', pp_paths = map_of ps ''paths'',
      pp_max_ttl = map_of ps ''max_ttl'', pp_max_uses = map_of ps ''max_uses''\<rparr>"

definition query_of :: "string \<Rightarrow> string" where
  "query_of href = takeWhile (\<lambda>c. c \<noteq> CHR ''#'') (drop 1 (dropWhile (\<lambda>c. c \<noteq> CHR ''?'') href))"

definition prefill_is_empty :: "policy_prefill \<Rightarrow> bool" where
  "prefill_is_empty p \<longleftrightarrow>
     list_all (\<lambda>v. non_empty v = None)
       [pp_client p, pp_secret p, pp_mechanism p, pp_origins p, pp_methods p, pp_paths p, pp_max_ttl p, pp_max_uses p]"

definition from_prefill :: "policy_prefill \<Rightarrow> policy_form_values" where
  "from_prefill p =
     (let s = (\<lambda>v. or_empty (non_empty v))
      in \<lparr>pv_client = non_empty (pp_client p), pv_secret = non_empty (pp_secret p), pv_tag = None,
          pv_mechanism = Option.bind (non_empty (pp_mechanism p)) mech_from_str_opt, pv_outcome = None,
          pv_priority = ''0'', pv_origins = s (pp_origins p), pv_methods = s (pp_methods p), pv_paths = s (pp_paths p),
          pv_max_ttl = s (pp_max_ttl p), pv_max_uses = s (pp_max_uses p), pv_not_after = []\<rparr>)"

definition has_more_conditions :: "policy_form_values \<Rightarrow> bool" where
  "has_more_conditions v \<longleftrightarrow>
     pv_tag v \<noteq> None \<or> (pv_priority v \<noteq> [] \<and> pv_priority v \<noteq> ''0'')
     \<or> list_ex (\<lambda>x. x \<noteq> []) [pv_methods v, pv_paths v, pv_max_ttl v, pv_max_uses v, pv_not_after v]"

text \<open>The options of a picker with the one that is selected; a selected name that is not among the
  values is kept as an option of its own.\<close>

definition policy_picker :: "(string \<times> string) list \<Rightarrow> string option \<Rightarrow> (string \<times> bool) list" where
  "policy_picker options selected =
     (let absent = (case selected of Some v \<Rightarrow> if list_ex (\<lambda>(x, _). x = v) options then None else Some v | None \<Rightarrow> None)
      in ([], selected = None) # map (\<lambda>(x, _). (x, selected = Some x)) options
         @ (case absent of Some v \<Rightarrow> [(v, True)] | None \<Rightarrow> []))"

definition policy_conditions :: "(time \<Rightarrow> string) \<Rightarrow> policy_row \<Rightarrow> string list" where
  "policy_conditions format_minute p =
     (case pol_origins p of
        Parsed xs \<Rightarrow> if xs = [] then [] else [join_with '', '' (map origin_field xs)]
      | Malformed _ \<Rightarrow> [''(unreadable origins)''])
     @ (if pol_methods p \<noteq> [] then [join_with '', '' (pol_methods p)] else [])
     @ (if pol_path_prefixes p \<noteq> [] then [join_with '', '' (pol_path_prefixes p)] else [])
     @ (case pol_max_ttl_seconds p of
          Some ttl \<Rightarrow> [''ttl '' @ [CHR 0xE2, CHR 0x89, CHR 0xA4] @ '' '' @ duration_label (nat (max ttl 0))] | None \<Rightarrow> [])
     @ (case pol_max_uses p of
          Some u \<Rightarrow> [''uses '' @ [CHR 0xE2, CHR 0x89, CHR 0xA4] @ '' '' @ dec_int u] | None \<Rightarrow> [])
     @ (case pol_not_after p of Some t \<Rightarrow> [''until '' @ format_minute t] | None \<Rightarrow> [])
     @ (if pol_priority p \<noteq> 0 then [''priority '' @ dec_int (pol_priority p)] else [])"

section \<open>The pages\<close>

definition relative_time :: "time \<Rightarrow> time \<Rightarrow> string" where
  "relative_time at now =
     (let secs = nat (\<bar>at - now\<bar> div 1000000)
      in if at - now > - 1000000 then ''in '' @ duration_label secs else duration_label secs @ '' ago'')"

text \<open>\<open>ORDER BY name\<close> in the collation of the database is the parameter \<open>by_name\<close>.  A page issues its tokens on the
  process clock, \<open>uc_utc\<close>, and decides by the database clock, \<open>uc_db_now\<close>.\<close>

record page_env =
  pe_parse_context :: "bytes \<Rightarrow> request_context option"
  pe_encode :: "(string \<times> string) list \<Rightarrow> string"
  pe_decode :: "string \<Rightarrow> (string \<times> string) list option"
  pe_by_name :: "secret_row list \<Rightarrow> secret_row list"
  pe_format_minute :: "time \<Rightarrow> string"

record page_reads =
  pg_request :: db
  pg_grant :: db
  pg_secret :: db
  pg_secrets :: db

definition render_request_detail ::
  "page_env \<Rightarrow> ui_env \<Rightarrow> ui_state \<Rightarrow> page_reads \<Rightarrow> operator \<Rightarrow> access_request_row \<Rightarrow> time \<Rightarrow> time \<Rightarrow> string option
   \<Rightarrow> ui_error + detail_page" where
  "render_request_detail pe ue us rds op row now csrf_now notice =
     (if ar_state row \<noteq> ''pending'' \<or> ar_expires_at row \<le> now then
        (let label = (if ar_state row = ''pending'' then ''expired'' else ar_state row)
         in case parse_mechanism (ar_mechanism row) of
              Inl e \<Rightarrow> Inl e
            | Inr m \<Rightarrow>
                (case parse_constraints row of
                   Inl e \<Rightarrow> Inl e
                 | Inr c \<Rightarrow>
                     (let released = (case get_grant_for_request (ar_id row) (pg_grant rds) of
                                        Some g \<Rightarrow> gr_secret_name g | None \<Rightarrow> ar_secret_name row)
                      in Inr (Resolved
                           \<lparr>rp_client = ar_client_name row, rp_label = label, rp_resolved_by = ar_resolved_by row,
                            rp_deny_reason = ar_deny_reason row, rp_released = released,
                            rp_substituted = (released \<noteq> ar_secret_name row),
                            rp_secret = get_secret_by_name released (pg_secret rds),
                            rp_grant_block = grant_block_of m c,
                            rp_context = context_block (decrypt_context (ue_api ue) (us_app us) (pe_parse_context pe) row) m,
                            rp_policy_href = new_policy_href (pe_encode pe) (ar_client_name row) released m c\<rparr>))))
      else if policy_cap_elapsed (ar_policy_not_after row) now then Inr (Not_approvable (ar_id row))
      else
        (case parse_mechanism (ar_mechanism row) of
           Inl e \<Rightarrow> Inl e
         | Inr m \<Rightarrow>
             (case parse_constraints row of
                Inl e \<Rightarrow> Inl e
              | Inr c \<Rightarrow>
                  (let secret = get_secret_by_name (ar_secret_name row) (pg_secret rds);
                       substitutes = (case secret of
                                        Some _ \<Rightarrow> []
                                      | None \<Rightarrow> substitute_candidates m (pe_by_name pe (db_secrets (pg_secrets rds))));
                       secret_present = secret_state_marker secret;
                       token = (\<lambda>route form_state. issue_token (ue_csrf ue) (app_keyset (us_app us)) route
                                  (env_uuid_str (ue_api ue) (ar_id row)) (op_subject op) form_state csrf_now)
                   in Inr (Decision
                        \<lparr>dp_client = ar_client_name row, dp_secret_name = ar_secret_name row, dp_secret = secret,
                         dp_grant_block = grant_block_of m c, dp_constraints = c,
                         dp_context = context_block (decrypt_context (ue_api ue) (us_app us) (pe_parse_context pe) row) m,
                         dp_notice = notice, dp_substitutes = map substitute_option_value substitutes,
                         dp_secret_present = secret_present, dp_approve_token = token R_APPROVE secret_present,
                         dp_deny_token = token R_DENY [], dp_store_tier = mech_tier m,
                         dp_policy_href = new_policy_href (pe_encode pe) (ar_client_name row) (ar_secret_name row) m c\<rparr>)))))"

definition request_detail_page ::
  "page_env \<Rightarrow> ui_env \<Rightarrow> ui_state \<Rightarrow> post_call \<Rightarrow> page_reads \<Rightarrow> uuid \<Rightarrow> jwks_cache \<Rightarrow> (ui_error + detail_page) \<times> jwks_cache" where
  "request_detail_page pe ue us call rds rid cache =
     (case operator_of ue us call cache of
        (Inl e, c) \<Rightarrow> (Inl e, c)
      | (Inr op, c) \<Rightarrow>
          (case get_request rid (pg_request rds) of
             None \<Rightarrow> (Inl (Ui_Error 404 (Text ''no such request'')), c)
           | Some row \<Rightarrow> (render_request_detail pe ue us rds op row (uc_db_now call) (uc_utc call) None, c)))"

definition requests_page ::
  "ui_env \<Rightarrow> ui_state \<Rightarrow> post_call \<Rightarrow> db \<Rightarrow> jwks_cache \<Rightarrow> (ui_error + access_request_row list) \<times> jwks_cache" where
  "requests_page ue us call d cache =
     (case operator_of ue us call cache of
        (Inl e, c) \<Rightarrow> (Inl e, c)
      | (Inr op, c) \<Rightarrow> (Inr (filter (\<lambda>r. uc_db_now call < ar_expires_at r) (list_pending d)), c))"

text \<open>Every active grant with the token of its revoke button.\<close>

definition grants_page ::
  "ui_env \<Rightarrow> ui_state \<Rightarrow> post_call \<Rightarrow> time \<Rightarrow> db \<Rightarrow> jwks_cache \<Rightarrow> (ui_error + (grant_row \<times> string \<times> string) list) \<times> jwks_cache" where
  "grants_page ue us call sql_now d cache =
     (case operator_of ue us call cache of
        (Inl e, c) \<Rightarrow> (Inl e, c)
      | (Inr op, c) \<Rightarrow>
          (Inr (map (\<lambda>g. (g, relative_time (gr_not_after g) (uc_db_now call),
                  issue_token (ue_csrf ue) (app_keyset (us_app us)) R_REVOKE
                    (env_uuid_str (ue_api ue) (gr_id g)) (op_subject op) [] (uc_utc call)))
             (list_active_grants sql_now (lim_replay_window_seconds (app_limits (us_app us))) d)), c))"

record policies_view =
  vw_rows :: "(policy_row \<times> string list \<times> string option) list"
  vw_open :: bool
  vw_prefilled :: bool
  vw_values :: policy_form_values
  vw_unvetted :: "string list"
  vw_token :: string

definition policies_page ::
  "page_env \<Rightarrow> ui_env \<Rightarrow> ui_state \<Rightarrow> post_call \<Rightarrow> db \<Rightarrow> db \<Rightarrow> string \<Rightarrow> jwks_cache \<Rightarrow> (ui_error + policies_view) option \<times> jwks_cache" where
  "policies_page pe ue us call dp ds query cache =
     (case pe_decode pe query of
        None \<Rightarrow> (None, cache)
      | Some ps \<Rightarrow>
     (case operator_of ue us call cache of
        (Inl e, c) \<Rightarrow> (Some (Inl e), c)
      | (Inr op, c) \<Rightarrow>
          (let prefill = prefill_of_pairs ps;
               token = (\<lambda>route action_id. issue_token (ue_csrf ue) (app_keyset (us_app us)) route action_id (op_subject op) [] (uc_utc call));
               prefilled = \<not> prefill_is_empty prefill
           in (Some (Inr \<lparr>vw_rows = map (\<lambda>p. (p, policy_conditions (pe_format_minute pe) p,
                               if pol_managed_by_config p then None
                               else Some (token R_POLICY_DELETE (env_uuid_str (ue_api ue) (pol_id p))))) (list_policies dp),
                   vw_open = (list_policies dp = [] \<or> prefilled), vw_prefilled = prefilled, vw_values = from_prefill prefill,
                   vw_unvetted = list_unvetted_secret_names (env_collate (ue_api ue)) ds,
                   vw_token = token R_POLICY_CREATE []\<rparr>), c))))"

definition editable_policy :: "uuid \<Rightarrow> db \<Rightarrow> ui_error + policy_row" where
  "editable_policy i d =
     (case find (\<lambda>p. pol_id p = i) (list_policies d) of
        None \<Rightarrow> Inl (Ui_Error 404 (Text ''no such policy''))
      | Some p \<Rightarrow> if pol_managed_by_config p then Inl (conflict MANAGED_POLICY) else Inr p)"

definition edit_policy_page ::
  "ui_env \<Rightarrow> ui_state \<Rightarrow> post_call \<Rightarrow> db \<Rightarrow> uuid \<Rightarrow> jwks_cache \<Rightarrow> (ui_error + (policy_form_values \<times> string)) \<times> jwks_cache" where
  "edit_policy_page ue us call d i cache =
     (case operator_of ue us call cache of
        (Inl e, c) \<Rightarrow> (Inl e, c)
      | (Inr op, c) \<Rightarrow>
          (map_sum id (\<lambda>p. (from_row (ue_date ue) p,
               issue_token (ue_csrf ue) (app_keyset (us_app us)) R_POLICY_UPDATE
                 (env_uuid_str (ue_api ue) i) (op_subject op) [] (uc_utc call))) (editable_policy i d), c))"

section \<open>Texts that are their own trimming\<close>

definition solid :: "string \<Rightarrow> bool" where
  "solid x \<longleftrightarrow> (\<exists>cps. from_utf8 x = Some cps \<and> cps \<noteq> [] \<and> (\<forall>n \<in> set cps. \<not> cp_is_whitespace n))"

lemma utf8_string_join: "utf8_string (join_with sep xs) = join_with (utf8_string sep) (map utf8_string xs)"
  by (induction xs rule: induct_list012) (simp_all add: utf8_string_def)

lemma join_ends:
  assumes "xs \<noteq> []" "\<forall>x \<in> set xs. x \<noteq> []"
  shows "join_with sep xs \<noteq> [] \<and> hd (join_with sep xs) = hd (hd xs) \<and> last (join_with sep xs) = last (last xs)"
  using assms by (induction xs rule: induct_list012) auto

lemma join_set: "set (join_with sep xs) \<subseteq> set sep \<union> (\<Union>x \<in> set xs. set x)"
  by (induction xs rule: induct_list012) auto

lemma trim_join:
  assumes "\<forall>x \<in> set xs. solid x" "\<forall>n \<in> set sep. scalar n" "xs \<noteq> []"
  shows "trim (join_with (utf8_string sep) xs) = join_with (utf8_string sep) xs \<and> join_with (utf8_string sep) xs \<noteq> []"
proof -
  define cpss where "cpss = map (\<lambda>x. the (from_utf8 x)) xs"
  have each: "from_utf8 x = Some (the (from_utf8 x))" "the (from_utf8 x) \<noteq> []"
      "\<forall>n \<in> set (the (from_utf8 x)). \<not> cp_is_whitespace n" if "x \<in> set xs" for x
    using assms(1) that by (auto simp: solid_def)
  have xs: "map utf8_string cpss = xs"
    unfolding cpss_def map_map by (rule map_idI) (simp add: from_utf8_Some(1) [OF each(1)])
  have c: "cpss \<noteq> []" "\<forall>x \<in> set cpss. x \<noteq> [] \<and> (\<forall>n \<in> set x. scalar n \<and> \<not> cp_is_whitespace n)"
    using assms(3) each(2,3) from_utf8_Some(2) [OF each(1)] by (auto simp: cpss_def)
  note e = join_ends [of cpss sep] c
  have sc: "\<forall>n \<in> set (join_with sep cpss). scalar n"
    using join_set [of sep cpss] c(2) assms(2) by blast
  have "trim_cps (join_with sep cpss) = join_with sep cpss"
  proof (rule trim_cps_id)
    have "hd cpss \<in> set cpss" "last cpss \<in> set cpss"
      using c(1) by simp_all
    then have "\<not> cp_is_whitespace (hd (hd cpss))" "\<not> cp_is_whitespace (last (last cpss))"
      using c(2) by simp_all
    then show "\<not> cp_is_whitespace (hd (join_with sep cpss)) \<and> \<not> cp_is_whitespace (last (join_with sep cpss))"
      using e by simp
  qed
  then have "trim (utf8_string (join_with sep cpss)) = utf8_string (join_with sep cpss)"
    using trim_conv [OF from_utf8_utf8_string [OF sc]] by simp
  moreover have "utf8_string (join_with sep cpss) \<noteq> []"
    using from_utf8_utf8_string [OF sc] e by (auto simp: from_utf8_def)
  ultimately show ?thesis
    by (simp add: utf8_string_join xs)
qed

lemma ascii_solid:
  assumes "\<forall>c \<in> set s. 32 < byte c \<and> byte c < 127" "s \<noteq> []"
  shows "solid s"
  unfolding solid_def
  by (rule exI [of _ "map byte s"]) (use assms from_utf8_ascii [of s] in \<open>fastforce simp: cp_is_whitespace_def\<close>)

lemma method_solid: "is_valid_http_method m \<Longrightarrow> solid m"
  by (rule ascii_solid) (auto simp: is_valid_http_method_def list_all_iff dest: tchar_ascii)

lemma origin_solid:
  assumes "normal_origin url_host x"
  shows "solid (origin_field x)"
proof (rule ascii_solid)
  have h: "list_all host_char (o_host x)" "o_host x \<noteq> []"
    using assms by (simp_all add: normal_origin_def)
  show "\<forall>c \<in> set (origin_field x). 32 < byte c \<and> byte c < 127"
    using host_chars [OF h(1)] dec_chars by (fastforce simp: origin_field_def byte_def split: option.splits)
  show "origin_field x \<noteq> []"
    using h(2) by (simp add: origin_field_def split: option.splits)
qed

lemma path_solid:
  assumes "canonical_path q"
  shows "solid (path_field q)"
proof -
  obtain cps where cps: "from_utf8 q = Some cps"
    using assms by (auto simp: canonical_path_def split: option.splits)
  have "path_field q \<noteq> []"
    using path_field_read_back [OF assms] by (simp add: plain_line_def)
  then have "concat (map path_char_cps cps) \<noteq> []"
    unfolding path_field_cps(1) [OF cps] by (rule contrapos_nn) (simp add: utf8_string_def)
  moreover have "\<forall>n \<in> set (concat (map path_char_cps cps)). \<not> cp_is_whitespace n"
    using path_char_cps_scalar(2) from_utf8_Some(2) [OF cps] by auto
  ultimately show ?thesis
    using path_field_cps(2) [OF cps] unfolding solid_def by blast
qed

section \<open>The rule a request suggests\<close>

definition request_rule :: "string \<Rightarrow> string \<Rightarrow> mechanism \<Rightarrow> constraints \<Rightarrow> string \<Rightarrow> string \<Rightarrow> new_policy" where
  "request_rule client secret m c outcome created_by =
     \<lparr>np_client_name = Some client, np_secret_name = Some secret, np_secret_tag = None, np_mechanism = mech_as_str m,
      np_outcome = outcome, np_priority = 0, np_origins = Parsed (c_origins c), np_methods = c_methods c,
      np_path_prefixes = c_path_prefixes c, np_max_ttl_seconds = Some (uint (c_ttl_seconds c)),
      np_max_uses = map_option uint (c_max_uses c), np_not_after = None, np_created_by = created_by\<rparr>"

lemma uint_dec: "dec (unat x) = dec_int (uint x)"
  by (simp add: dec_int_def)

lemma separators: "[line_feed] = utf8_string [10]" "'', '' = utf8_string [44, 32]"
  by code_simp+

lemma prefill_text:
  assumes "\<forall>x \<in> set xs. solid x" "sep = utf8_string cps" "\<forall>n \<in> set cps. scalar n"
  shows "or_empty (non_empty (if xs \<noteq> [] then Some (join_with sep xs) else None)) = join_with sep xs"
proof (cases "xs = []")
  case False
  with trim_join [OF assms(1,3)] show ?thesis
    by (simp add: assms(2) or_empty_def non_empty_id)
qed (simp add: or_empty_def non_empty_def)

lemma prefill_pairs:
  "prefill_of_pairs (new_policy_pairs client secret m c) =
     \<lparr>pp_client = Some client, pp_secret = Some secret, pp_mechanism = Some (mech_as_str m),
      pp_origins = (if c_origins c \<noteq> [] then Some (join_with [line_feed] (map origin_field (c_origins c))) else None),
      pp_methods = (if c_methods c \<noteq> [] then Some (join_with '', '' (c_methods c)) else None),
      pp_paths = (if c_path_prefixes c \<noteq> [] then Some (join_with [line_feed] (map path_field (c_path_prefixes c))) else None),
      pp_max_ttl = Some (dec_int (uint (c_ttl_seconds c))), pp_max_uses = map_option (\<lambda>n. dec_int (uint n)) (c_max_uses c)\<rparr>"
  by (cases "c_max_uses c") (simp_all add: prefill_of_pairs_def new_policy_pairs_def uint_dec map_add_def)

lemma from_prefill_row:
  assumes "trim client = client" "client \<noteq> []" "trim secret = secret" "secret \<noteq> []"
    and "constraints_normal m c" "\<forall>x \<in> set (c_origins c). normal_origin url_host x"
  shows "from_prefill (prefill_of_pairs (new_policy_pairs client secret m c)) =
    (from_row de (new_policy_row now i (request_rule client secret m c outcome by_whom) by_whom managed))\<lparr>pv_outcome := None\<rparr>"
proof -
  have s: "\<forall>x \<in> set (map origin_field (c_origins c)). solid x" "\<forall>x \<in> set (c_methods c). solid x"
      "\<forall>x \<in> set (map path_field (c_path_prefixes c)). solid x"
    using assms(5,6) by (auto simp: constraints_normal_def list_all_iff origin_solid method_solid path_solid)
  have t: "or_empty (non_empty (if c_origins c \<noteq> [] then Some (join_with [line_feed] (map origin_field (c_origins c))) else None))
        = join_with [line_feed] (map origin_field (c_origins c))"
      "or_empty (non_empty (if c_methods c \<noteq> [] then Some (join_with '', '' (c_methods c)) else None)) = join_with '', '' (c_methods c)"
      "or_empty (non_empty (if c_path_prefixes c \<noteq> [] then Some (join_with [line_feed] (map path_field (c_path_prefixes c))) else None))
        = join_with [line_feed] (map path_field (c_path_prefixes c))"
    using prefill_text [OF s(1) separators(1)] prefill_text [OF s(2) separators(2)] prefill_text [OF s(3) separators(1)] by simp_all
  have m: "non_empty (Some (mech_as_str m)) = Some (mech_as_str m)" "mech_from_str_opt (mech_as_str m) = Some m"
    by (simp_all add: non_empty_def) (cases m; simp)+
  have zero: "''0'' = dec_int 0"
    by code_simp
  show ?thesis
    using assms(1-4) t
    by (cases "c_max_uses c")
      (simp_all add: from_prefill_def prefill_pairs from_row_def new_policy_row_def request_rule_def non_empty_id m,
       simp_all add: or_empty_def non_empty_def zero)
qed

lemma request_form_rule:
  assumes "trim client = client" "client \<noteq> []" "trim secret = secret" "secret \<noteq> []"
    and "constraints_normal m c" "\<forall>x \<in> set (c_origins c). normal_origin url_host x" "outcome \<in> set POLICY_OUTCOMES"
  shows "form_rule url_host (request_rule client secret m c outcome by_whom)"
proof -
  have "\<not> (m = Mech_Brokered \<and> c_origins c = [])"
    using assms(5) by (auto simp: constraints_normal_def)
  moreover have "\<forall>q \<in> set (c_methods c). is_valid_http_method q \<and> to_ascii_uppercase q = q"
    using assms(5) by (auto simp: constraints_normal_def list_all_iff map_eq_conv dest: map_eq_imp_length_eq)
      (metis map_eq_conv list.map_id0 id_apply)+
  moreover have "0 < uint (c_ttl_seconds c) \<and> uint (c_ttl_seconds c) \<le> 2 ^ 63 - 1"
    using assms(5) by (simp add: constraints_normal_def)
  moreover have "\<forall>v \<in> set_option (map_option uint (c_max_uses c)). 0 < v \<and> v \<le> 2 ^ 31 - 1"
    using assms(5) by (auto simp: constraints_normal_def uses_ok_def I32_MAX_def split: option.splits if_splits)
  ultimately show ?thesis
    using assms by (auto simp: form_rule_def request_rule_def trimmed_name_def constraints_normal_def list_all_iff)
qed

text \<open>The URL-encoded form syntax: what is encoded decodes to itself, and has no fragment.\<close>

definition form_syntax_ok :: "page_env \<Rightarrow> bool" where
  "form_syntax_ok pe \<longleftrightarrow> (\<forall>ps. pe_decode pe (pe_encode pe ps) = Some ps \<and> CHR ''#'' \<notin> set (pe_encode pe ps))"

lemma query_of_href:
  assumes "CHR ''#'' \<notin> set (encode (new_policy_pairs client secret m c))"
  shows "query_of (new_policy_href encode client secret m c) = encode (new_policy_pairs client secret m c)"
proof -
  have "takeWhile (\<lambda>x. x \<noteq> CHR ''#'') (q @ ''#new-policy'') = q" if "CHR ''#'' \<notin> set q" for q :: string
    using that by (induction q) auto
  with assms show ?thesis by (simp add: query_of_def new_policy_href_def)
qed

text \<open>The rule read back from the stored row applies to the request, and contains it.\<close>

lemma request_rule_row:
  assumes "constraints_normal m c" "\<forall>q \<in> set (c_path_prefixes c). CHR ''%'' \<notin> set q" "outcome \<in> set POLICY_OUTCOMES"
  obtains rule where "parse_policy_row (new_policy_row now i (request_rule client secret m c outcome by_whom) by_whom managed) = Some rule"
    "outcome_as_str (pr_outcome rule) = outcome" "pr_mechanism rule = m"
    "pr_client_name rule = Some client" "pr_secret_name rule = Some secret" "pr_not_after rule = None"
    "pr_origins rule = c_origins c" "pr_methods rule = c_methods c" "pr_path_prefixes rule = c_path_prefixes c"
    "pr_max_ttl_seconds rule = Some (c_ttl_seconds c)" "pr_max_uses rule = c_max_uses c"
proof -
  obtain oc where oc: "outcome_from_str_opt outcome = Some oc" "outcome_as_str oc = outcome"
    using assms(3) by (auto simp: POLICY_OUTCOMES_def outcome_from_str_opt_def)
  have "canonicalize_all (c_path_prefixes c) = Some (c_path_prefixes c)"
    using assms(1,2) by (intro canonicalize_all_plain) (auto simp: constraints_normal_def list_all_iff intro: canonicalize_plain)
  moreover have "list_all is_valid_http_method (c_methods c)"
    using assms(1) by (simp add: constraints_normal_def)
  moreover have "max (uint x) 0 = uint x" for x :: "'a :: len word"
    by simp
  ultimately have "parse_policy_row (new_policy_row now i (request_rule client secret m c outcome by_whom) by_whom managed) =
      Some \<lparr>pr_id = i, pr_client_name = Some client, pr_secret_name = Some secret, pr_secret_tag = None, pr_mechanism = m,
        pr_outcome = oc, pr_priority = 0, pr_origins = c_origins c, pr_methods = c_methods c,
        pr_path_prefixes = c_path_prefixes c, pr_max_ttl_seconds = Some (c_ttl_seconds c), pr_max_uses = c_max_uses c,
        pr_not_after = None\<rparr>"
    using oc by (simp add: parse_policy_row_def request_rule_def new_policy_row_def option.map_comp comp_def option.map_ident)
  from that [OF this] oc show thesis by simp
qed

lemma same_scope_subset:
  assumes "constraints_normal m c" "pr_origins r = c_origins c" "pr_methods r = c_methods c"
    "pr_path_prefixes r = c_path_prefixes c" "pr_max_ttl_seconds r = Some (c_ttl_seconds c)" "pr_max_uses r = c_max_uses c"
  shows "request_is_subset r c"
proof -
  have "prefix_matches q q" if "q \<in> set (c_path_prefixes c)" for q
    using assms(1) that by (intro segments_prefix_matches) (simp_all add: constraints_normal_def list_all_iff)
  then have "list_all (\<lambda>rp. list_ex (\<lambda>pp. prefix_matches pp rp) (c_path_prefixes c)) (c_path_prefixes c)"
    by (auto simp: list_all_iff list_ex_iff)
  moreover have "list_all (\<lambda>ro. list_ex (\<lambda>po. same_target po ro) (c_origins c)) (c_origins c)"
    by (auto simp: list_all_iff list_ex_iff same_target_def)
  moreover have "list_all (\<lambda>rm. list_ex (\<lambda>pm. eq_ignore_ascii_case pm rm) (c_methods c)) (c_methods c)"
    by (auto simp: list_all_iff list_ex_iff eq_ignore_ascii_case_def)
  ultimately show ?thesis
    using assms by (simp add: request_is_subset_def split: option.splits)
qed

text \<open>\<open>new_policy_href\<close> links to the rule that matches the request.  An operator who follows the link on the page of a
  validated request, picks an outcome and submits the form unchanged, creates a rule whose row the engine reads back
  with exactly the client, secret, mechanism, origins, methods, path prefixes and limits of the request: it applies to
  the request, and the request is a subset of it.  (Names with white space around them are trimmed by the form, and a
  path prefix with a literal percent sign is decoded again when the row is read.)\<close>

theorem prefilled_policy_matches_request:
  assumes "form_syntax_ok pe" "validate_request env req = Inr c"
    and "\<forall>x \<in> set (c_origins c). \<exists>raw. origin_parse (ue_url_host ue) raw = Inr x"
    and "trim client = client" "client \<noteq> []" "trim (cr_secret_name req) = cr_secret_name req"
    and "outcome \<in> set POLICY_OUTCOMES" "\<forall>q \<in> set (c_path_prefixes c). CHR ''%'' \<notin> set q"
    and "policies_page pe ue us call dp ds (query_of (new_policy_href (pe_encode pe) client (cr_secret_name req) (cr_mechanism req) c))
      cache = (Some (Inr view), cache')"
  shows "\<exists>np rule. parse_policy_form (ue_url_host ue) de ((submitted (vw_token view) (vw_values view))\<lparr>pf_outcome := outcome\<rparr>) by_whom
      = Inr np
    \<and> parse_policy_row (new_policy_row now i np by_whom False) = Some rule \<and> outcome_as_str (pr_outcome rule) = outcome
    \<and> (\<forall>pc tags t. pc_name pc = client \<longrightarrow> is_applicable rule pc (requested_of req c) tags t)
    \<and> request_is_subset rule c
    \<and> pr_client_name rule = Some client \<and> pr_secret_name rule = Some (cr_secret_name req)
    \<and> pr_origins rule = c_origins c \<and> pr_methods rule = c_methods c \<and> pr_path_prefixes rule = c_path_prefixes c
    \<and> pr_max_ttl_seconds rule = Some (c_ttl_seconds c) \<and> pr_max_uses rule = c_max_uses c"
proof -
  let ?m = "cr_mechanism req" and ?s = "cr_secret_name req"
  let ?np = "request_rule client ?s ?m c outcome by_whom"
  have n: "constraints_normal ?m c"
    by (rule validate_request_normal [OF assms(2)])
  have s: "?s \<noteq> []"
    using assms(2) by (rule validate_request_Inr) (auto simp: validate_bounds_def Let_def)
  have xs: "\<forall>x \<in> set (c_origins c). normal_origin (ue_url_host ue) x"
    using assms(3) origin_parse_normal by blast
  have "vw_values view = from_prefill (prefill_of_pairs (new_policy_pairs client ?s ?m c))"
    using assms(1,9) by (auto simp: form_syntax_ok_def query_of_href policies_page_def Let_def split: prod.splits sum.splits)
  also have "\<dots> = (from_row de (new_policy_row now i ?np by_whom False))\<lparr>pv_outcome := None\<rparr>"
    by (rule from_prefill_row [OF assms(4-6) s n xs])
  finally have "(submitted (vw_token view) (vw_values view))\<lparr>pf_outcome := outcome\<rparr> =
      submitted (vw_token view) (from_row de (new_policy_row now i ?np by_whom False))"
    using assms(7) by (simp add: submitted_def from_row_def new_policy_row_def request_rule_def)
  moreover have "parse_policy_form (ue_url_host ue) de (submitted (vw_token view) (from_row de (new_policy_row now i ?np by_whom False)))
      by_whom = Inr ?np"
    using form_rule_read_back [OF request_form_rule [OF assms(4-6) s n xs assms(7)], of by_whom de] by (simp add: request_rule_def)
  ultimately have form: "parse_policy_form (ue_url_host ue) de ((submitted (vw_token view) (vw_values view))\<lparr>pf_outcome := outcome\<rparr>)
      by_whom = Inr ?np" by simp
  from n assms(8,7) show ?thesis
  proof (rule request_rule_row)
    fix rule
    assume r: "parse_policy_row (new_policy_row now i ?np by_whom False) = Some rule"
      "outcome_as_str (pr_outcome rule) = outcome" "pr_mechanism rule = ?m" "pr_client_name rule = Some client"
      "pr_secret_name rule = Some ?s" "pr_not_after rule = None" "pr_origins rule = c_origins c"
      "pr_methods rule = c_methods c" "pr_path_prefixes rule = c_path_prefixes c"
      "pr_max_ttl_seconds rule = Some (c_ttl_seconds c)" "pr_max_uses rule = c_max_uses c"
    then have "\<forall>pc tags t. pc_name pc = client \<longrightarrow> is_applicable rule pc (requested_of req c) tags t"
      by (simp add: is_applicable_def)
    with form r same_scope_subset [OF n r(7-11)] show ?thesis
      by (intro exI [of _ ?np] exI [of _ rule]) simp
  qed
qed

section \<open>What a request asks for never changes\<close>

definition req_terms :: "access_request_row \<Rightarrow> uuid \<times> string \<times> string \<times> string \<times> constraints jsonb" where
  "req_terms r = (ar_id r, ar_client_name r, ar_secret_name r, ar_mechanism r, ar_constraints r)"

definition request_terms :: "db \<Rightarrow> (uuid \<times> string \<times> string \<times> string \<times> constraints jsonb) set" where
  "request_terms d = req_terms ` set (db_requests d)"

lemma terms_frame [simp]:
  "request_terms (insert_audit now e d) = request_terms d" "request_terms (insert_audits now es d) = request_terms d"
  "request_terms (d\<lparr>db_grants := gs\<rparr>) = request_terms d" "request_terms (d\<lparr>db_reads := rs\<rparr>) = request_terms d"
  by (simp_all add: request_terms_def)

lemma terms_upd:
  "(\<And>r. req_terms (f r) = req_terms r) \<Longrightarrow> request_terms (d\<lparr>db_requests := upd_where P f (db_requests d)\<rparr>) = request_terms d"
  by (simp add: request_terms_def image_upd_where)

lemma terms_quiet: "quiet d d' \<Longrightarrow> request_terms d' = request_terms d"
  by (simp add: quiet_def request_terms_def)

lemma terms_updates [simp]:
  "req_terms (set_approved now by_whom r) = req_terms r" "req_terms (set_denied now reason by_whom r) = req_terms r"
  "req_terms (bump_push_attempts r) = req_terms r"
  by (simp_all add: req_terms_def set_approved_def set_denied_def bump_push_attempts_def)

lemma store_step_terms:
  assumes "store_step w now d d'" and "ledger_inv d" "keyed d"
  shows "request_terms d \<subseteq> request_terms d'"
  using assms(1)
proof (cases rule: store_step.cases)
  case (S_approve fv rid by_whom gid g store o3)
  have ids: "distinct (map ar_id (db_requests d))"
    using assms(2) by (simp add: ledger_inv_def requests_inv_def)
  from ids S_approve(1) show ?thesis
    by (cases rule: approve_request_cases) (simp_all add: request_terms_def image_upd_where)
next
  case (S_create i fg req cap res seal o1)
  then show ?thesis
    by (cases rule: insert_access_request_with_id_cases) (auto simp: request_terms_def dest!: fresh_new_request)
next
  case (S_insert i req seal r)
  then show ?thesis
    by (cases rule: insert_access_request_cases) (auto simp: request_terms_def dest!: fresh_new_request)
next
  case (S_resolve fg rid by_whom g o2)
  have ids: "distinct (map ar_id (db_requests d))"
    using assms(2) by (simp add: ledger_inv_def requests_inv_def)
  from ids S_resolve show ?thesis
    by (cases rule: resolve_approve_cases) (simp_all add: request_terms_def image_upd_where)
next
  case (S_deny rid by_whom reason b)
  have ids: "distinct (map ar_id (db_requests d))"
    using assms(2) by (simp add: ledger_inv_def requests_inv_def)
  from ids S_deny show ?thesis
    by (cases rule: resolve_deny_cases) (simp_all add: request_terms_def image_upd_where)
next
  case (S_use gid key version kind target u)
  have ids: "distinct (map gr_id (db_grants d))"
    using assms(2) by (simp add: ledger_inv_def grants_inv_def)
  from ids S_use(1) show ?thesis
    by (cases rule: begin_grant_use_cases) (simp_all add: request_terms_def)
next
  case (S_claim rid b)
  then show ?thesis
    unfolding claim_for_push_def by (rule claim_where_cases) (simp_all add: terms_upd)
next
  case (S_claim_fyi rid b)
  then show ?thesis
    unfolding claim_for_fyi_push_def by (rule claim_where_cases) (simp_all add: terms_upd)
next
  case (S_delete sid v actor del)
  from assms(3) S_delete show ?thesis
    by (cases rule: delete_secret_cases) (simp_all add: request_terms_def delete_secret_cascade_def)
qed (auto simp: request_terms_def image_upd_where req_terms_def expire_stale_def purge_request_context_def mark_push_delivered_def
      set_expired_def clear_context_def increment_push_attempts_def bump_push_attempts_def revoke_grant_def purge_passthrough_def sweep_purge_passthroughs_def
      unpin_stale_grant_reads_def Let_def split: if_splits option.splits
      dest: quiet_ops [THEN quiet_def [THEN iffD1]])

lemma run_terms:
  assumes "run w s s'" "ledger_inv (snd s)" "keyed (snd s)"
  shows "request_terms (snd s) \<subseteq> request_terms (snd s')"
  using assms
proof (induction rule: run.induct)
  case (run_step s t d t' d')
  with run_inv [OF run_step.hyps(1)] store_step_terms [OF run_step.hyps(3)] show ?case by fastforce
qed simp

section \<open>What is approved is what was shown\<close>

lemma approve_rest_marker:
  assumes "approve_rest ue us call rds rid form op d = (Inr (See_Other x), d')" "get_request rid (rd_request rds) = Some row"
  shows "or_empty (non_empty (af_secret_present form)) = secret_state_marker (get_secret_by_name (ar_secret_name row) (rd_secret rds))"
  using assms(1) by (cases rule: approve_rest_cases) (use assms(2) in auto)

lemma same_marker:
  "secret_state_marker a = secret_state_marker b \<longleftrightarrow> map_option sec_current_version a = map_option sec_current_version b"
  by (auto simp: secret_state_marker_def split: option.splits)

lemma render_decision:
  assumes "render_request_detail pe ue us rds op row now csrf_now notice = Inr (Decision page)"
  shows "ar_state row = ''pending''" "ar_mechanism row = mech_as_str (gb_mechanism (dp_grant_block page))"
    "ar_constraints row = Parsed (dp_constraints page)" "dp_client page = ar_client_name row" "dp_secret_name page = ar_secret_name row"
    "dp_secret page = get_secret_by_name (ar_secret_name row) (pg_secret rds)"
    "dp_approve_token page = issue_token (ue_csrf ue) (app_keyset (us_app us)) R_APPROVE
       (env_uuid_str (ue_api ue) (ar_id row)) (op_subject op) (secret_state_marker (dp_secret page)) csrf_now"
proof -
  obtain m c where "ar_state row = ''pending''" "ar_expires_at row > now" "\<not> policy_cap_elapsed (ar_policy_not_after row) now"
      and mc: "mech_from_str_opt (ar_mechanism row) = Some m" "ar_constraints row = Parsed c"
    using assms
    by (cases "mech_from_str_opt (ar_mechanism row)"; cases "ar_constraints row")
      (simp_all add: render_request_detail_def Let_def parse_mechanism_def parse_constraints_def split: if_splits)
  moreover from this assms have "gb_mechanism (dp_grant_block page) = m" "dp_constraints page = c"
      "dp_client page = ar_client_name row" "dp_secret_name page = ar_secret_name row"
      "dp_secret page = get_secret_by_name (ar_secret_name row) (pg_secret rds)"
      "dp_approve_token page = issue_token (ue_csrf ue) (app_keyset (us_app us)) R_APPROVE
       (env_uuid_str (ue_api ue) (ar_id row)) (op_subject op) (secret_state_marker (dp_secret page)) csrf_now"
    by (auto simp: render_request_detail_def Let_def parse_mechanism_def parse_constraints_def grant_block_of_def)
  moreover have "ar_mechanism row = mech_as_str m"
    using mc(1) by (simp add: mech_from_str_opt_Some)
  ultimately show "ar_state row = ''pending''" "ar_mechanism row = mech_as_str (gb_mechanism (dp_grant_block page))"
    "ar_constraints row = Parsed (dp_constraints page)" "dp_client page = ar_client_name row" "dp_secret_name page = ar_secret_name row"
    "dp_secret page = get_secret_by_name (ar_secret_name row) (pg_secret rds)"
    "dp_approve_token page = issue_token (ue_csrf ue) (app_keyset (us_app us)) R_APPROVE
       (env_uuid_str (ue_api ue) (ar_id row)) (op_subject op) (secret_state_marker (dp_secret page)) csrf_now"
    by simp_all
qed

lemma same_request_terms:
  assumes "reach w (t0, d0)" "run w (t0, d0) (t1, d1)" "get_request i d0 = Some r0" "get_request i d1 = Some r1"
  shows "req_terms r1 = req_terms r0"
proof -
  have inv: "ledger_inv d0" "keyed d0"
    using reach_inv [OF assms(1)] by simp_all
  have r: "r0 \<in> set (db_requests d0)" "ar_id r0 = i" "r1 \<in> set (db_requests d1)" "ar_id r1 = i"
    using assms(3,4) by (auto simp: get_request_def dest: find_Some_mem)
  then have "req_terms r0 \<in> request_terms d1"
    using run_terms [OF assms(2)] inv by (auto simp: request_terms_def)
  then obtain r where "r \<in> set (db_requests d1)" "req_terms r = req_terms r0"
    by (auto simp: request_terms_def)
  moreover have "distinct (map ar_id (db_requests d1))"
    using reach_inv [OF reach_run [OF assms(1,2)]] by (simp add: ledger_inv_def requests_inv_def)
  ultimately show ?thesis
    using distinct_map_same [of ar_id "db_requests d1" r r1] r by (auto simp: req_terms_def)
qed

text \<open>what an operator approves is what the page showed.  When an approval goes through with the token of a
  decision page, then it is for the request of that page, by the operator the page was rendered for, within fifteen
  minutes; the grant it adds has the client, the mechanism and the constraints the page displayed; and at the time of
  the approval the requested name is stored at the very version the page showed, or is not stored if the page
  said so.  (Unless the two MAC inputs collide.)\<close>

theorem approved_as_shown:
  fixes us :: ui_state
  defines "ks \<equiv> app_keyset (us_app us)"
  assumes shown: "request_detail_page pe ue us call0 prs rid0 cache0 = (Inr (Decision page), c0)"
    and op0: "operator_of ue us call0 cache0 = (Inr op0, c0)"
    and approved: "approve ue us call rds rid form cache d = (Inr (See_Other x), c, d')"
    and op: "operator_of ue us call cache = (Inr op, c)"
    and token: "af_csrf_token form = dp_approve_token page"
    and states: "reach w (t0, pg_request prs)" "run w (t0, pg_request prs) (t1, rd_request rds)" "reach w (t, d)"
    and lib: "token_env_ok (ue_csrf ue)" "inj (env_uuid_str (ue_api ue))"
      "- (2 ^ 63) \<le> timestamp (uc_utc call0) + CSRF_TTL_SECONDS" "timestamp (uc_utc call0) + CSRF_TTL_SECONDS < 2 ^ 63"
    and free: "no_collision (ue_csrf ue) ks
       (mac_input R_APPROVE (env_uuid_str (ue_api ue) rid) (op_subject op) (or_empty (non_empty (af_secret_present form)))
         (timestamp (uc_utc call0) + CSRF_TTL_SECONDS))
       (mac_input R_APPROVE (env_uuid_str (ue_api ue) rid0) (op_subject op0) (secret_state_marker (dp_secret page))
         (timestamp (uc_utc call0) + CSRF_TTL_SECONDS))"
    and plain: "CHR 0x00 \<notin> set (env_uuid_str (ue_api ue) rid @ op_subject op)"
      "CHR 0x00 \<notin> set (env_uuid_str (ue_api ue) rid0 @ op_subject op0)"
  shows "rid = rid0 \<and> op_subject op = op_subject op0
    \<and> timestamp (uc_utc call0) \<le> timestamp (uc_utc call) \<and> timestamp (uc_utc call) < timestamp (uc_utc call0) + 15 * 60
    \<and> (\<exists>g. db_grants d' = db_grants d @ [g] \<and> gr_request_id g = rid \<and> gr_client_name g = dp_client page
        \<and> gr_mechanism g = mech_as_str (gb_mechanism (dp_grant_block page)) \<and> gr_constraints g = Parsed (dp_constraints page))
    \<and> map_option sec_current_version (get_secret_by_name (dp_secret_name page) (rd_secret rds))
        = map_option sec_current_version (dp_secret page)"
proof -
  obtain row0 where row0: "get_request rid0 (pg_request prs) = Some row0"
      "render_request_detail pe ue us prs op0 row0 (uc_db_now call0) (uc_utc call0) None = Inr (Decision page)"
    using shown op0 by (auto simp: request_detail_page_def split: option.splits)
  note page = render_decision [OF row0(2)]
  have id0: "ar_id row0 = rid0"
    using row0(1) by (auto simp: get_request_def dest: find_Some_mem)
  have passed: "verify_token (ue_csrf ue) ks R_APPROVE (env_uuid_str (ue_api ue) rid) (op_subject op)
        (or_empty (non_empty (af_secret_present form))) (af_csrf_token form) (uc_utc call)"
      "approve_rest ue us call rds rid form op d = (Inr (See_Other x), d')"
    using approved op unfolding approve_def ks_def by (cases rule: guarded_cases; auto)+
  have "CHR 0x00 \<notin> set R_APPROVE"
    by code_simp
  with passed(1) free plain have same: "env_uuid_str (ue_api ue) rid = env_uuid_str (ue_api ue) rid0" "op_subject op = op_subject op0"
      "or_empty (non_empty (af_secret_present form)) = secret_state_marker (dp_secret page)"
      "timestamp (uc_utc call0) \<le> timestamp (uc_utc call)" "timestamp (uc_utc call) < timestamp (uc_utc call0) + 15 * 60"
    unfolding token page(7) ks_def [symmetric] verify_issued [OF lib(1,3,4)]
    by (auto simp: no_collision_def mac_input_inject CSRF_TTL_SECONDS_def id0)
  have rid: "rid = rid0"
    using same(1) lib(2) by (simp add: inj_eq)
  have ids: "distinct (map ar_id (db_requests d))"
    using reach_inv [OF states(3)] by (simp add: ledger_inv_def requests_inv_def)
  from ids passed(2) show ?thesis
  proof (rule approve_rest_grants)
    fix row m con ttl uses rl
    assume row: "get_request rid (rd_request rds) = Some row"
      "db_grants d' = db_grants d @ [committed_grant call rid row ttl uses rl]"
    have "req_terms row = req_terms row0"
      using same_request_terms [OF states(1,2) row0(1)] row(1) rid by simp
    then have terms: "ar_client_name row = dp_client page" "ar_secret_name row = dp_secret_name page"
        "ar_mechanism row = mech_as_str (gb_mechanism (dp_grant_block page))" "ar_constraints row = Parsed (dp_constraints page)"
      using page(2-5) by (simp_all add: req_terms_def)
    have "map_option sec_current_version (get_secret_by_name (dp_secret_name page) (rd_secret rds))
        = map_option sec_current_version (dp_secret page)"
      using approve_rest_marker [OF passed(2) row(1)] same(3) by (simp add: same_marker [symmetric] terms(2))
    moreover have "gr_request_id (committed_grant call rid row ttl uses rl) = rid
        \<and> gr_client_name (committed_grant call rid row ttl uses rl) = dp_client page
        \<and> gr_mechanism (committed_grant call rid row ttl uses rl) = mech_as_str (gb_mechanism (dp_grant_block page))
        \<and> gr_constraints (committed_grant call rid row ttl uses rl) = Parsed (dp_constraints page)"
      by (simp add: new_grant_row_def approved_grant_def terms)
    ultimately show ?thesis
      using rid same row(2) by blast
  qed
qed

section \<open>Examples\<close>

text \<open>A form syntax: two letters per byte, doubled marks between the parts.\<close>

definition ex_byte :: "char \<Rightarrow> string" where
  "ex_byte c = [char_of (65 + byte c div 16), char_of (65 + byte c mod 16)]"

definition ex_encode :: "(string \<times> string) list \<Rightarrow> string" where
  "ex_encode ps = concat (map (\<lambda>(k, v). concat (map ex_byte k) @ ''=='' @ concat (map ex_byte v) @ ''&&'') ps)"

fun ex_decode :: "string \<Rightarrow> string \<Rightarrow> string \<Rightarrow> (string \<times> string) list" where
  "ex_decode k acc (a # b # r) =
     (if a = CHR ''='' then ex_decode (rev acc) [] r
      else if a = CHR ''&'' then (k, rev acc) # ex_decode [] [] r
      else ex_decode k (char_of ((byte a - 65) * 16 + (byte b - 65)) # acc) r)"
| "ex_decode k acc _ = []"

definition ex_page_env :: page_env where
  "ex_page_env = \<lparr>pe_parse_context = (\<lambda>_. None), pe_encode = ex_encode, pe_decode = (\<lambda>s. Some (ex_decode [] [] s)),
     pe_by_name = id, pe_format_minute = (\<lambda>_. [])\<rparr>"

lemma byte_char: "n < 256 \<Longrightarrow> byte (char_of n) = n"
  by (simp add: byte_def)

lemma ex_byte_letters:
  "byte (char_of (65 + byte c div 16)) = 65 + byte c div 16" "byte (char_of (65 + byte c mod 16)) = 65 + byte c mod 16"
proof -
  have "byte c < 256" by (simp add: byte_def)
  then have "byte c div 16 < 16" by (intro less_mult_imp_div_less) simp
  then have "65 + byte c div 16 < 256" "65 + byte c mod 16 < 256" by simp_all
  then show "byte (char_of (65 + byte c div 16)) = 65 + byte c div 16" "byte (char_of (65 + byte c mod 16)) = 65 + byte c mod 16"
    by (simp_all only: byte_char)
qed

lemma ex_letter: "65 \<le> byte x \<Longrightarrow> x \<noteq> CHR ''='' \<and> x \<noteq> CHR ''&'' \<and> x \<noteq> CHR ''#''"
  by (auto simp: byte_def)

lemma ex_decode_bytes: "ex_decode k acc (concat (map ex_byte s) @ r) = ex_decode k (rev s @ acc) r"
proof (induction s arbitrary: acc)
  case (Cons c s)
  have no: "char_of (65 + byte c div 16) \<noteq> CHR ''=''" "char_of (65 + byte c div 16) \<noteq> CHR ''&''"
    using ex_letter [of "char_of (65 + byte c div 16)"] unfolding ex_byte_letters by simp_all
  have "char_of (byte c div 16 * 16 + byte c mod 16) = c"
    by (simp add: byte_def)
  then show ?case
    using Cons no by (simp add: ex_byte_def ex_byte_letters)
qed simp

lemma ex_decode_encode: "ex_decode [] [] (ex_encode ps) = ps"
proof (induction ps)
  case (Cons p ps)
  obtain k v where "p = (k, v)" by fastforce
  with Cons show ?case
    using ex_decode_bytes [of "[]" "[]" k] ex_decode_bytes [of k "[]" v] by (simp add: ex_encode_def)
qed (simp add: ex_encode_def)

lemma ex_form_syntax: "form_syntax_ok ex_page_env"
proof -
  have "CHR ''#'' \<notin> set (ex_byte c)" for c
    using ex_letter [of "char_of (65 + byte c div 16)"] ex_letter [of "char_of (65 + byte c mod 16)"]
    unfolding ex_byte_letters by (auto simp: ex_byte_def)
  then have "CHR ''#'' \<notin> set (ex_encode ps)" for ps
    by (auto simp: ex_encode_def)
  then show ?thesis
    by (simp add: form_syntax_ok_def ex_page_env_def ex_decode_encode)
qed

theorem prefilled_policy_matches_request_witness:
  "\<exists>np rule. parse_policy_row (new_policy_row 7 9 np ''alice'' False) = Some rule \<and> pr_outcome rule = Out_AutoApprove
     \<and> request_is_subset rule (ex_constraints\<lparr>c_methods := [''GET'']\<rparr>) \<and> pr_methods rule = [''GET'']"
proof -
  let ?c = "ex_constraints\<lparr>c_methods := [''GET'']\<rparr>"
  have v: "validate_request ex_env ex_create = Inr ?c"
    by code_simp
  have o: "\<forall>x \<in> set (c_origins ?c). \<exists>raw. origin_parse (ue_url_host ex_ui_env) raw = Inr x"
  proof -
    have "list_all (\<lambda>x. origin_parse (ue_url_host ex_ui_env) (origin_field x) = Inr x) (c_origins ?c)"
      by code_simp
    then show ?thesis by (auto simp: list_all_iff)
  qed
  have n: "trim ''fa'' = ''fa''" "''fa'' \<noteq> []" "trim (cr_secret_name ex_create) = cr_secret_name ex_create"
    "''auto-approve'' \<in> set POLICY_OUTCOMES" "\<forall>q \<in> set (c_path_prefixes ?c). CHR ''%'' \<notin> set q"
    by code_simp+
  let ?q = "query_of (new_policy_href (pe_encode ex_page_env) ''fa'' (cr_secret_name ex_create) (cr_mechanism ex_create) ?c)"
  have "pe_decode ex_page_env ?q \<noteq> None"
    by (simp add: ex_page_env_def)
  then obtain view where p: "policies_page ex_page_env ex_ui_env ex_ui_state ex_post ex_s3 ex_s3 ?q Map.empty = (Some (Inr view), Map.empty)"
    by (auto simp: policies_page_def ex_operator_of Let_def)
  have oc: "outcome_as_str x = ''auto-approve'' \<Longrightarrow> x = Out_AutoApprove" for x
    by (cases x) simp_all
  from prefilled_policy_matches_request [OF ex_form_syntax v o n p, of ex_date "''alice''" 7 9] show ?thesis
    by (auto dest!: oc)
qed

definition ex_view_call :: post_call where
  "ex_view_call = ex_post\<lparr>uc_utc := 0\<rparr>"

definition ex_page_reads :: page_reads where
  "ex_page_reads = \<lparr>pg_request = ex_waiting, pg_grant = ex_waiting, pg_secret = ex_waiting, pg_secrets = ex_waiting\<rparr>"

lemma ex_view_operator: "operator_of ex_ui_env ex_ui_state ex_view_call Map.empty = (Inr ex_operator, Map.empty)"
  using ex_operator_of by (simp add: operator_of_def ex_view_call_def)

lemma ex_shown:
  "\<exists>page. request_detail_page ex_page_env ex_ui_env ex_ui_state ex_view_call ex_page_reads 10 Map.empty = (Inr (Decision page), Map.empty)
     \<and> dp_client page = ''fa'' \<and> secret_state_marker (dp_secret page) = ''1:1'' \<and> dp_approve_token page = ex_token R_APPROVE 10 ''1:1''"
proof -
  have "(case get_request 10 (pg_request ex_page_reads) of
      Some row \<Rightarrow> (case render_request_detail ex_page_env ex_ui_env ex_ui_state ex_page_reads ex_operator row
          (uc_db_now ex_view_call) (uc_utc ex_view_call) None of
          Inr (Decision page) \<Rightarrow> dp_client page = ''fa'' \<and> secret_state_marker (dp_secret page) = ''1:1'' \<and> dp_approve_token page = ex_token R_APPROVE 10 ''1:1'' | _ \<Rightarrow> False)
    | None \<Rightarrow> False)"
    by code_simp
  then show ?thesis
    by (auto simp: request_detail_page_def ex_view_operator split: option.splits sum.splits detail_page.splits)
qed

theorem approved_as_shown_witness:
  "\<exists>page g. request_detail_page ex_page_env ex_ui_env ex_ui_state ex_view_call ex_page_reads 10 Map.empty = (Inr (Decision page), Map.empty)
     \<and> db_grants ex_approved = db_grants ex_waiting @ [g] \<and> gr_constraints g = Parsed (dp_constraints page) \<and> gr_client_name g = ''fa''"
proof -
  obtain page where page: "request_detail_page ex_page_env ex_ui_env ex_ui_state ex_view_call ex_page_reads 10 Map.empty
      = (Inr (Decision page), Map.empty)" "dp_client page = ''fa''" "secret_state_marker (dp_secret page) = ''1:1''"
      "dp_approve_token page = ex_token R_APPROVE 10 ''1:1''"
    using ex_shown by blast
  have parts: "env_uuid_str (ue_api ex_ui_env) = ex_uuid_str" "ue_csrf ex_ui_env = ex_csrf_env" "uc_utc ex_view_call = 0"
    "af_csrf_token ex_approval = ex_token R_APPROVE 10 ''1:1''" "pg_request ex_page_reads = ex_waiting" "rd_request ex_reads = ex_waiting"
    by (simp_all add: ex_ui_env_def ex_session_env_def ex_env_def ex_view_call_def ex_approval_def ex_page_reads_def ex_reads_def)
  have state: "or_empty (non_empty (af_secret_present ex_approval)) = ''1:1''"
    by code_simp
  have env: "token_env_ok (ue_csrf ex_ui_env)" "inj (env_uuid_str (ue_api ex_ui_env))"
      "- (2 ^ 63) \<le> timestamp (uc_utc ex_view_call) + CSRF_TTL_SECONDS" "timestamp (uc_utc ex_view_call) + CSRF_TTL_SECONDS < 2 ^ 63"
    by (simp_all add: parts ex_uuid_str_facts timestamp_def CSRF_TTL_SECONDS_def token_env_ok_def ex_csrf_env_def)
  have plain: "CHR 0x00 \<notin> set (env_uuid_str (ue_api ex_ui_env) 10 @ op_subject ex_operator)"
    unfolding parts by code_simp
  have states: "af_csrf_token ex_approval = dp_approve_token page" "reach 60 (3, pg_request ex_page_reads)"
      "run 60 (3, pg_request ex_page_reads) (3, rd_request ex_reads)"
    using page(4) ex_waiting_reach run_refl by (simp_all add: parts)
  have free: "no_collision (ue_csrf ex_ui_env) (app_keyset (us_app ex_ui_state))
       (mac_input R_APPROVE (env_uuid_str (ue_api ex_ui_env) 10) (op_subject ex_operator) (or_empty (non_empty (af_secret_present ex_approval)))
         (timestamp (uc_utc ex_view_call) + CSRF_TTL_SECONDS))
       (mac_input R_APPROVE (env_uuid_str (ue_api ex_ui_env) 10) (op_subject ex_operator) (secret_state_marker (dp_secret page))
         (timestamp (uc_utc ex_view_call) + CSRF_TTL_SECONDS))"
    by (simp add: state page(3) no_collision_def)
  from approved_as_shown [OF page(1) ex_view_operator ex_approve_ok ex_operator_of states ex_waiting_reach env free plain plain]
  obtain g where "db_grants ex_approved = db_grants ex_waiting @ [g]" "gr_client_name g = dp_client page"
      "gr_constraints g = Parsed (dp_constraints page)" by blast
  with page(1,2) show ?thesis by auto
qed

section \<open>Pickers, lists, and a name that is not kept\<close>

text \<open>A pre-filled name stays selected, whether or not it is a known value: exactly it is submitted.\<close>

lemma policy_picker_selected: "(x, True) \<in> set (policy_picker options (Some v)) \<longleftrightarrow> x = v"
  by (force simp: policy_picker_def list_ex_iff image_iff)

lemma requests_page_rows:
  assumes "requests_page ue us call d cache = (Inr rows, c)"
  shows "set rows = {r \<in> set (db_requests d). ar_state r = ''pending'' \<and> uc_db_now call < ar_expires_at r}"
  using assms by (auto simp: requests_page_def list_pending_def split: prod.splits sum.splits)

text \<open>A request may name a secret with white space around the name; the link that is to pre-fill the rule for it
  loses the white space, and names another secret.\<close>

lemma prefilled_name_trimmed:
  "pv_secret (from_prefill (prefill_of_pairs (new_policy_pairs client '' tok'' m c))) = Some ''tok''"
proof -
  have "non_empty (Some '' tok'') = Some ''tok''"
    by code_simp
  then show ?thesis by (simp add: from_prefill_def prefill_pairs)
qed

section \<open>The settings of a secret as a form\<close>

record secret_values =
  sv_description :: string
  sv_max_tier :: "tier option"
  sv_kind :: string
  sv_header :: string
  sv_scope :: string
  sv_tags :: string
  sv_enabled :: bool
  sv_settings_token :: string
  sv_rotate_token :: string

definition edit_secret_page ::
  "ui_env \<Rightarrow> ui_state \<Rightarrow> post_call \<Rightarrow> db \<Rightarrow> db \<Rightarrow> uuid \<Rightarrow> jwks_cache \<Rightarrow> (ui_error + secret_values) \<times> jwks_cache" where
  "edit_secret_page ue us call ds dt i cache =
     (case operator_of ue us call cache of
        (Inl e, c) \<Rightarrow> (Inl e, c)
      | (Inr op, c) \<Rightarrow>
          (case editable_secret i ds of
             Inl e \<Rightarrow> (Inl e, c)
           | Inr secret \<Rightarrow>
               (case injection_form_fields secret of
                  (kind, header_field, scope_field) \<Rightarrow>
                    (let token = (\<lambda>route. issue_token (ue_csrf ue) (app_keyset (us_app us)) route
                                    (env_uuid_str (ue_api ue) i) (op_subject op) [] (uc_utc call))
                     in (Inr \<lparr>sv_description = sec_description secret, sv_max_tier = tier_from_int (sec_max_tier secret),
                              sv_kind = kind, sv_header = header_field, sv_scope = scope_field,
                              sv_tags = join_with '', '' (get_tags_for_secret (env_collate (ue_api ue)) i dt),
                              sv_enabled = sec_enabled secret, sv_settings_token = token R_SECRET_UPDATE,
                              sv_rotate_token = token R_SECRET_ROTATE\<rparr>, c)))))"

text \<open>What a browser submits for the page unchanged: a select sends its selected or first option, an unchecked box
  nothing.\<close>

definition saved :: "secret_values \<Rightarrow> secret_settings_form" where
  "saved v =
     \<lparr>sf_csrf_token = sv_settings_token v, sf_description = Some (sv_description v),
      sf_max_tier = tier_as_str (case sv_max_tier v of Some t \<Rightarrow> t | None \<Rightarrow> Tier_Brokered),
      sf_injection_kind = sv_kind v, sf_injection_header = Some (sv_header v), sf_injection_scope = Some (sv_scope v),
      sf_tags = Some (sv_tags v), sf_enabled = (if sv_enabled v then Some ''on'' else None)\<rparr>"

section \<open>Tags read back\<close>

definition tag_text :: "string \<Rightarrow> bool" where
  "tag_text t \<longleftrightarrow> (\<exists>cps. from_utf8 t = Some cps \<and> cps \<noteq> [] \<and> (\<forall>n \<in> set cps. \<not> field_separator n))
     \<and> length t \<le> 128 \<and> \<not> has_control t"

lemma check_tags_filter: "check_tags (filter (\<lambda>t. t \<noteq> []) ts) = check_tags ts"
  by (induction ts) auto

lemma check_tags_ok: "\<forall>t \<in> set ts. t \<noteq> [] \<and> length t \<le> 128 \<and> \<not> has_control t \<Longrightarrow> check_tags ts = Inr ts"
  by (induction ts) auto

lemma check_tags_Inr: "check_tags ts = Inr us \<Longrightarrow> u \<in> set us \<Longrightarrow> u \<in> set ts \<and> u \<noteq> [] \<and> length u \<le> 128 \<and> \<not> has_control u"
proof (induction ts arbitrary: us)
  case (Cons t ts)
  then show ?case
    by (auto simp: map_sum_eq_Inr split: if_splits)
qed simp

lemma split_where_parts: "w \<in> set (split_where P xs) \<Longrightarrow> x \<in> set w \<Longrightarrow> \<not> P x \<and> x \<in> set xs"
proof (induction xs arbitrary: w)
  case (Cons y xs)
  then show ?case
    by (cases "split_where P xs") (auto split: if_splits, blast+)
qed simp

lemma tags_field_text:
  assumes "parse_tags_field raw = Inr ts" "from_utf8 raw \<noteq> None" "t \<in> set ts"
  shows "tag_text t"
proof -
  obtain us cps where us: "check_tags (split_chars field_separator raw) = Inr us" "ts = remdups_adj (sort_strings us)"
      and cps: "from_utf8 raw = Some cps"
    using assms(1,2) by (auto simp: parse_tags_field_def map_sum_eq_Inr)
  have "t \<in> set us"
    using assms(3) by (simp add: us(2) sort_strings_props)
  from check_tags_Inr [OF us(1) this] obtain w where w: "w \<in> set (split_where field_separator cps)" "t = utf8_string w"
      "t \<noteq> []" "length t \<le> 128" "\<not> has_control t"
    by (auto simp: split_chars_def cps)
  have "\<forall>n \<in> set w. scalar n \<and> \<not> field_separator n"
    using split_where_parts [OF w(1)] from_utf8_Some(2) [OF cps] by blast
  then have "from_utf8 t = Some w" "\<forall>n \<in> set w. \<not> field_separator n"
    by (auto simp: w(2))
  moreover have "w \<noteq> []"
    using w(2,3) by (auto simp: utf8_string_def)
  ultimately show ?thesis
    using w(4,5) by (auto simp: tag_text_def)
qed

lemma tags_join:
  assumes "\<forall>t \<in> set ts. tag_text t"
  shows "parse_tags_field (join_with '', '' ts) = Inr (remdups_adj (sort_strings ts))"
proof -
  define cpss where "cpss = map (\<lambda>x. the (from_utf8 x)) ts"
  have each: "from_utf8 x = Some (the (from_utf8 x))" "the (from_utf8 x) \<noteq> []"
      "\<forall>n \<in> set (the (from_utf8 x)). \<not> field_separator n" if "x \<in> set ts" for x
    using assms that by (auto simp: tag_text_def)
  have ts: "map utf8_string cpss = ts"
    unfolding cpss_def map_map by (rule map_idI) (simp add: from_utf8_Some(1) [OF each(1)])
  have c: "\<forall>x \<in> set cpss. x \<noteq> [] \<and> (\<forall>n \<in> set x. \<not> field_separator n)" "\<forall>x \<in> set cpss. \<forall>n \<in> set x. scalar n"
    using each(2,3) from_utf8_Some(2) [OF each(1)] by (auto simp: cpss_def)
  have "\<forall>n \<in> set (join_with [44, 32] cpss). scalar n"
    using join_set [of "[44, 32]" cpss] c(2) by fastforce
  then have u: "from_utf8 (join_with '', '' ts) = Some (join_with [44, 32] cpss)"
    using from_utf8_utf8_string [of "join_with [44, 32] cpss"] by (simp add: utf8_string_join ts separators(2))
  have "filter (\<lambda>w. w \<noteq> []) (split_where field_separator (join_with [44, 32] cpss)) = cpss"
    by (rule split_where_join [OF c(1)]) (auto simp: field_separator_def cp_is_whitespace_def byte_def)
  moreover have "filter (\<lambda>m. m \<noteq> []) (map utf8_string ws) = map utf8_string (filter (\<lambda>w. w \<noteq> []) ws)" for ws
    by (induction ws) (auto simp: utf8_string_eq_Nil)
  ultimately have "filter (\<lambda>t. t \<noteq> []) (split_chars field_separator (join_with '', '' ts)) = ts"
    by (simp add: split_chars_def u ts)
  then have "check_tags (split_chars field_separator (join_with '', '' ts)) = check_tags ts"
    by (metis check_tags_filter)
  also have "\<dots> = Inr ts"
  proof (rule check_tags_ok)
    have "t \<noteq> []" if "tag_text t" for t
      using that by (auto simp: tag_text_def from_utf8_def)
    then show "\<forall>t \<in> set ts. t \<noteq> [] \<and> length t \<le> 128 \<and> \<not> has_control t"
      using assms by (auto simp: tag_text_def)
  qed
  finally show ?thesis by (simp add: parse_tags_field_def)
qed

lemma validate_injection_cases:
  assumes "validate_injection kind header scope = Inr (k, hdr, u)"
  obtains (bearer) "k = ''bearer''" "hdr = None" "u = None"
    | (header) n where "k = ''header''" "u = None" "header = Some n" "hdr = Some n"
        "validate_injection ''header'' (Some n) None = Inr (k, hdr, u)"
    | (basic) n where "k = ''basic''" "hdr = None" "header = Some n" "u = Some n"
        "validate_injection ''basic'' (Some n) None = Inr (k, hdr, u)"
    | (sigv4) n v where "k = ''aws-sigv4''" "header = Some n" "scope = Some v" "u = Some n" "hdr = Some v"
        "validate_injection ''aws-sigv4'' (Some n) (Some v) = Inr (k, hdr, u)"
proof (cases "kind = ''aws-sigv4''")
  case True
  with assms obtain n v where "header = Some n" "scope = Some v" "k = ''aws-sigv4''" "hdr = Some v" "u = Some n"
    by (simp add: validate_injection_def split: option.splits sum.splits)
  with True assms sigv4 show thesis by simp
next
  case aws: False
  with assms have sc: "scope = None"
    by (auto simp: validate_injection_def split: if_splits)
  show thesis
  proof (cases header)
    case None
    with aws sc assms bearer show thesis
      by (simp add: validate_injection_def split: if_splits)
  next
    case (Some n)
    with aws sc assms consider "kind = ''bearer''" | "kind = ''header''" | "kind = ''basic'' \<or> kind = ''basic-password''"
      by (auto simp: validate_injection_def split: if_splits)
    then show thesis
    proof cases
      case 1
      with sc assms bearer show thesis by (simp add: validate_injection_def)
    next
      case 2
      with sc Some assms have "k = ''header''" "hdr = Some n" "u = None"
        by (simp_all add: validate_injection_def split: if_splits)
      with 2 sc Some assms header show thesis by simp
    next
      case 3
      with sc Some assms have "validate_injection ''basic'' (Some n) None = Inr (k, hdr, u)"
        by (auto simp: validate_injection_def split: if_splits)
      moreover from this have "k = ''basic''" "hdr = None" "u = Some n"
        by (simp_all add: validate_injection_def split: if_splits)
      ultimately show thesis using Some basic by simp
    qed
  qed
qed

lemma injection_read_back:
  assumes "validate_injection kind (non_empty h) (non_empty sc) = Inr (k, hdr, u)"
    and "sec_injection_kind s = k" "sec_injection_header s = hdr" "sec_injection_username s = u"
    and "injection_form_fields s = (k', h', sc')"
  shows "trim k' = k'" "validate_injection k' (non_empty (Some h')) (non_empty (Some sc')) = Inr (k, hdr, u)"
proof -
  have ne: "non_empty (Some v) = Some v" if "non_empty x = Some v" for x v
    using non_empty_Some [OF that] by (simp add: non_empty_id)
  have ks: "trim ''bearer'' = ''bearer''" "trim ''header'' = ''header''" "trim ''basic'' = ''basic''" "trim ''aws-sigv4'' = ''aws-sigv4''"
    by code_simp+
  from assms(1) have "trim k' = k' \<and> validate_injection k' (non_empty (Some h')) (non_empty (Some sc')) = Inr (k, hdr, u)"
  proof (cases rule: validate_injection_cases)
    case bearer
    with assms(2-5) have "k' = ''bearer''" "sc' = []"
      by (auto simp: injection_form_fields_def Let_def or_empty_def)
    with bearer show ?thesis
      by (simp add: ks validate_injection_def non_empty_def)
  next
    case (header n)
    with assms(2-5) have "k' = ''header''" "h' = n" "sc' = []"
      by (auto simp: injection_form_fields_def Let_def or_empty_def)
    with header(5) ne [OF header(3)] show ?thesis by (simp add: ks non_empty_def)
  next
    case (basic n)
    with assms(2-5) have "k' = ''basic''" "h' = n" "sc' = []"
      by (auto simp: injection_form_fields_def Let_def or_empty_def)
    with basic(5) ne [OF basic(3)] show ?thesis by (simp add: ks non_empty_def)
  next
    case (sigv4 n v)
    with assms(2-5) have "k' = ''aws-sigv4''" "h' = n" "sc' = v"
      by (auto simp: injection_form_fields_def Let_def or_empty_def)
    with sigv4(6) ne [OF sigv4(2)] ne [OF sigv4(3)] show ?thesis by (simp add: ks)
  qed
  then show "trim k' = k'" "validate_injection k' (non_empty (Some h')) (non_empty (Some sc')) = Inr (k, hdr, u)"
    by simp_all
qed

lemma tier_field: "tier_from_str (trim (tier_as_str t)) = Some t"
proof -
  have "trim (tier_as_str t) = tier_as_str t"
    by (rule trim_ascii) (cases t; auto simp: byte_def)
  then show ?thesis
    by (cases t) (simp_all add: tier_from_str_def)
qed

lemma settings_updated:
  assumes "update_secret_settings_audited collate now i x actor d = Inr (Secret_Updated, d')"
  obtains prev where "secret_by_id i d' = Some (set_settings now x prev)" "\<not> sec_managed_by_config prev"
    "set (map snd (filter (\<lambda>t. fst t = i) (db_tags d'))) = set (sx_tags x)"
proof -
  let ?d1 = "d\<lparr>db_secrets := upd_where (\<lambda>s. sec_id s = i) (set_settings now x) (db_secrets d)\<rparr>"
  obtain prev d2 e where p: "find (\<lambda>s. sec_id s = i) (db_secrets d) = Some prev" "\<not> sec_managed_by_config prev"
      "insert_tags i (sx_tags x) (clear_tags i ?d1) = Inr d2" "d' = insert_audit now e d2"
    using assms by (auto simp: update_secret_settings_audited_def Let_def split: option.splits if_splits sum.splits)
  note t = replace_tags_tags [OF p(3) [folded replace_tags_def]]
  have "find P (upd_where P f rs) = map_option f (find P rs)" if "\<And>r. P (f r) = P r" for P and f :: "secret_row \<Rightarrow> secret_row" and rs
    using that by (induction rs) (auto simp: upd_where_def)
  from this [of "\<lambda>s. sec_id s = i" "set_settings now x" "db_secrets d"] p(1)
  have "find (\<lambda>s. sec_id s = i) (db_secrets ?d1) = Some (set_settings now x prev)"
    by (simp add: set_settings_def)
  then have "secret_by_id i d' = Some (set_settings now x prev)"
    unfolding secret_by_id_def p(4) using t(4) by (metis db.select_convs(1) db.surjective db.update_convs(3) insert_audit_frame(1))
  with p(2) t(1) show thesis
    by (intro that) (simp_all add: p(4))
qed

text \<open>the settings form of a secret is the inverse of its parser.  After an operator's settings are saved, the edit
  page renders them such that submitting it unchanged is read as exactly the same settings: description, tier,
  injection template, tags and whether it is enabled.\<close>

theorem secret_form_roundtrip:
  assumes "secret_settings_of form = Inr x" "from_utf8 (or_empty (sf_tags form)) \<noteq> None"
    and "update_secret_settings_audited collate now i x actor d = Inr (Secret_Updated, d')"
    and "\<forall>ts. set (env_collate (ue_api ue) ts) = set ts"
    and "edit_secret_page ue us call d' d' i cache = (Inr v, c)"
  shows "secret_settings_of (saved v) = Inr x"
proof -
  obtain t ts k hdr u where f: "tier_from_str (trim (sf_max_tier form)) = Some t"
      "validate_injection (trim (sf_injection_kind form)) (non_empty (sf_injection_header form)) (non_empty (sf_injection_scope form))
         = Inr (k, hdr, u)"
      "parse_tags_field (or_empty (sf_tags form)) = Inr ts"
      and x: "x = \<lparr>sx_description = trim (or_empty (sf_description form)), sx_max_tier = tier_as_int t, sx_injection_kind = k,
        sx_injection_header = hdr, sx_injection_username = u, sx_enabled = (sf_enabled form \<noteq> None), sx_tags = ts\<rparr>"
    using assms(1) by (auto simp: secret_settings_of_def map_sum_eq_Inr split: option.splits sum.splits prod.splits)
  have "sx_tags x = ts" by (simp add: x)
  with assms(3) obtain prev where s: "secret_by_id i d' = Some (set_settings now x prev)"
      "set (map snd (filter (\<lambda>t. fst t = i) (db_tags d'))) = set ts"
    by (metis settings_updated)
  let ?s = "set_settings now x prev" and ?ts = "get_tags_for_secret (env_collate (ue_api ue)) i d'"
  obtain k' h' sc' where inj: "injection_form_fields ?s = (k', h', sc')"
    by (cases "injection_form_fields ?s")
  have v: "sv_description v = sx_description x" "sv_max_tier v = tier_from_int (sx_max_tier x)" "sv_kind v = k'" "sv_header v = h'"
      "sv_scope v = sc'" "sv_tags v = join_with '', '' ?ts" "sv_enabled v = sx_enabled x"
    using assms(5)
    by (auto simp: edit_secret_page_def editable_secret_def s(1) inj Let_def split: prod.splits sum.splits if_splits)
      (simp_all add: set_settings_def)
  have "sec_injection_kind ?s = k" "sec_injection_header ?s = hdr" "sec_injection_username ?s = u"
    by (simp_all add: set_settings_def x)
  note i' = injection_read_back [OF f(2) this inj]
  have set: "set ?ts = set ts"
    using assms(4) s(2) by (simp add: get_tags_for_secret_def)
  have "parse_tags_field (join_with '', '' ?ts) = Inr (remdups_adj (sort_strings ?ts))"
    using tags_join [of ?ts] tags_field_text [OF f(3) assms(2)] set by blast
  also have "remdups_adj (sort_strings ?ts) = ts"
  proof -
    obtain us where us: "ts = remdups_adj (sort_strings us)"
      using f(3) by (auto simp: parse_tags_field_def map_sum_eq_Inr)
    show ?thesis
      using sorted_bytes_remdups [OF sort_strings_props(2), of ?ts] sorted_bytes_remdups [OF sort_strings_props(2), of us] set
      by (intro sorted_bytes_unique) (auto simp: us sort_strings_props)
  qed
  finally have tags: "parse_tags_field (join_with '', '' ?ts) = Inr ts" .
  show ?thesis
    using i' tags tier_field [of t] by (simp add: secret_settings_of_def saved_def v) (simp add: x or_empty_def)
qed

end
