(* ===== verification/Spec2Isabelle.thy ===== *)
theory Spec2Isabelle
  imports Service Startup_System Cli_System Ui_Pages
begin

text \<open>
  \<^bold>\<open>keychute\<close> is a broker for secrets.  Machine clients ask for access to a named secret; policy or
  an operator grants it; a grant either releases the secret to the client or lets the client send
  HTTP requests through a proxy that injects the secret, without ever showing it.  Every grant is bounded
  in time, number of uses, origin, method and path; every use is written to an audit log before anything leaves
  the process.  This development models the server (\<open>src/server\<close>), its shared types (\<open>src/types\<close>) and the
  command line client (\<open>src/cli\<close>) as functions and transition relations and proves what makes them correct.

  \<^bold>\<open>Parts and theories\<close>

  \<^item> \<open>Prelude\<close>: byte strings and the functions of the Rust standard library on them (ASCII case, splitting,
    trimming, UTF-8), the collections of rules the proofs share.
  \<^item> \<open>Types\<close> (\<open>types/src/lib.rs\<close>): tiers, mechanisms, origins with their parser, constraints, the bodies
    of the API.
  \<^item> \<open>Paths\<close> (\<open>types/src/paths.rs\<close>): \<open>canonicalize\<close> and \<open>prefix_matches\<close>, with the meaning of a canonical
    path as a list of segments.
  \<^item> \<open>Policy\<close> (\<open>server/src/policy/mod.rs\<close>): \<open>evaluate\<close> with hard caps, deny by overlap, allow by
    inclusion, and precedence.
  \<^item> \<open>Store\<close>, \<open>Store_Requests\<close>, \<open>Store_Grants\<close>, \<open>Store_Secrets\<close>, \<open>Store_Policies\<close> (\<open>server/src/db\<close>,
    \<open>server/src/audit.rs\<close>, \<open>server/src/ui/policy_store.rs\<close>): the rows, the tables with the
    constraints of the migrations, and one function per transaction.
  \<^item> \<open>Provision\<close> (\<open>server/src/db/clients.rs\<close>, \<open>provision.rs\<close>): the reconciliation of clients, secrets and
    policies, one row at a time.  \<open>Config\<close> (\<open>server/src/config.rs\<close>): normalization and validation of the configuration.
    \<open>Startup\<close> (\<open>provision.rs\<close>, \<open>server/src/state.rs\<close>): the whole start, in the order of \<open>AppState::init\<close>;
    \<open>Startup_System\<close>: what a start leaves, and what a restart changes.
  \<^item> \<open>Notify\<close> (\<open>server/src/notify/mod.rs\<close>): the push outbox and the sweeper.
  \<^item> \<open>Crypto\<close> (\<open>server/src/crypto/mod.rs\<close>): envelope encryption bound to the row, the key set, the MACs.
  \<^item> \<open>Canonical\<close>, \<open>Api\<close>, \<open>Api_Requests\<close>, \<open>Api_Grants\<close>, \<open>Api_Secrets\<close> (\<open>server/src/api\<close>,
    \<open>server/src/authn/client.rs\<close>, \<open>server/src/state.rs\<close>): the client endpoints, whole handlers with every
    early return, and the concurrency slots.
  \<^item> \<open>Sigv4\<close> (\<open>server/src/sigv4.rs\<close>, \<open>injection.rs\<close>) and \<open>Proxy\<close> (\<open>server/src/proxy.rs\<close>): the brokered leg.
  \<^item> \<open>System\<close>: the step relation of all store transactions and its executions.  \<open>Ledger\<close>: the abstract
    life cycle of requests and grants, that every transaction refines it, and the invariant.
    \<open>Api_System\<close>: the endpoints, the proxy and the sweeper as executions.
  \<^item> \<open>Human_Auth\<close> (\<open>server/src/authn/human.rs\<close>): operators by static token or OIDC, with the cache of signing
    keys.  \<open>Csrf\<close> (\<open>server/src/ui/csrf.rs\<close>): form tokens and browser metadata.
  \<^item> \<open>Utf8\<close>, \<open>Ui_Forms\<close>, \<open>Ui\<close> (\<open>server/src/ui/mod.rs\<close>): characters of byte strings; the fields of the forms,
    how they are rendered from rows and parsed; every POST handler with its guard.  \<open>Ui_System\<close>: what the
    guard means for all of them, and what an approval can create.  \<open>Ui_Pages\<close>: the GET pages as the data they show.
  \<^item> \<open>Service\<close>: all of it together, as histories of events (starts, API calls, proxied calls, operator actions, sweeps).
  \<^item> \<open>Cli_Pipeline\<close> (\<open>cli/src/pipeline.rs\<close>): the capture of the calling pipeline from the process table.
    \<open>Cli\<close> (\<open>cli/src/main.rs\<close>): the commands \<open>request\<close>, \<open>store\<close> and \<open>status\<close> with their configuration, retries and
    waits.  \<open>Cli_Curl\<close> (\<open>cli/src/curl.rs\<close>): a call through the proxy.  \<open>Cli_System\<close>: client and service together.

  \<^bold>\<open>How state and operations are modelled\<close>

  The database is one record of tables, each a list of rows in insertion order.  A transaction is a function
  from the database (and the database clock, the ids the database draws, its arguments) to an error or an
  outcome with the next database; the row locks and advisory locks of the code make transactions on the same
  rows serial, and the model takes them one at a time.  A handler that reads before it writes takes two
  databases: \<open>d0\<close>, what its reads saw, and \<open>d\<close>, what its transaction sees; nothing is assumed of what happened in
  between unless a theorem says so.  Times are microseconds.  Columns of type \<open>i32\<close> are integers whose
  increments check the range; machine integers of the API are words.  Errors are values: \<open>store_error\<close> for
  statements that raise, \<open>api_failure\<close> for what a handler answers, with the status mapping of \<open>error.rs\<close>.

  Code outside the repository is a parameter: the AEAD cipher and hashes (record \<open>aead\<close> and
  \<open>api_env\<close>), base64 and JSON, the URL and HTTP crates (\<open>url_host\<close>, \<open>proxy_env\<close>), the Kubernetes
  TokenReview call, the JWT library and the fetch of its keys, dates, the notifier, the database collation.  Where a theorem needs their documented behaviour it
  is a named hypothesis (\<open>aead_correct\<close>, \<open>aead_authentic\<close>, \<open>url_path_encodes\<close>, \<open>date_library\<close>,
  \<open>base64_ok\<close>, \<open>byte_collation\<close>), and its witness instantiates it.
  The client runs in a \<open>world\<close>: a state of any type with a clock, calls that answer and move it on, and sleeping; its
  libraries are the record \<open>cli_env\<close>, the files and streams it opens are arguments.
  There is no fuel: all recursions are structural, except the wait of the client, a \<open>partial_function\<close> that is proved
  to return in every world whose clock keeps time; the long poll of the service takes the list of the databases its
  ticks see.

  \<^bold>\<open>What the lemmas show\<close>

  \<^item> Paths and policy: an accepted path is canonical and decoded once; prefix matching is the prefix relation on
    segments; a decision without an operator is permitted by every cap and every row; deny rows dominate; the
    order of the rows decides nothing but which deny row a denial names.
  \<^item> Store: in every execution a grant is used at most as often as allowed, each use has its
    write-ahead audit row, an approval yields exactly one grant, resolved requests are final, revoked grants stay
    dead, a live grant keeps the secret it was issued for, replays return the pinned version and a key is never
    used afresh again.
  \<^item> Endpoints: what is accepted is normal; unreadable policy fails closed; an unattended grant is exactly
    what was validated; releases and proxied calls are authorized and accounted first and trace back to an
    approval; retries are idempotent; deposits are new and unvetted.
  \<^item> Proxy: the judged path is the sent path; headers are clean in both directions; failures cost nothing.
  \<^item> Crypto: sealed payloads open where they were sealed and nowhere else.
  \<^item> Startup: a validated configuration reconciles, and afterwards exactly the configured clients are enabled and
    exactly the configured secrets and policies are managed, with every setting of the file; a restart changes nothing, provided the database
    sorts by bytes.
  \<^item> Operators: only the allowlist operates; fetches of the keys of the identity provider are spaced, the cache holds the
    last good document and trusts it for a bounded time; a form token is good for one action of one operator in one form state; every POST
    that changes anything passed both checks and is audited under the operator's name; an approval stays within the
    request and grants what its page showed; a policy and the settings of a secret saved as rendered are unchanged;
    the policy suggested for a request applies to it and contains it.
  \<^item> Service: every history is an execution of store transactions; nothing leaves the service under a grant that
    neither a standing policy nor an operator decided.
  \<^item> Client: the grant it asks for is accepted and serves exactly the call of the command line; a grant it is given
    is used only if the call goes to the origin of the URL; equal idempotency keys mean equal calls; the wait for
    an approval ends soon after its deadline; a secret stored is the input but for one line end, and the secret
    printed; the captured context
    shows nothing but the own pipeline.

  The interfaces are locales: \<open>row_update\<close> (updates that keep a key), \<open>evolving_table\<close> (tables whose rows
  only evolve along a preorder, closed over executions once and interpreted for requests, grants and reads),
  \<open>ui_handler\<close> (a body behind the guard of the operator interface, interpreted for the router of all POST handlers).

  \<^bold>\<open>Not modelled\<close>

  Of the operator interface the lists of secrets and audit events, the pickers' queries and the HTML around the data
  are rendering.  A handler runs to its end: a request dropped by its client in the middle and an upstream body that
  breaks off in the middle are not steps, and the client takes an answer that breaks off for no output.  The release theorems count reads and proxied
  calls; the page that reveals a value to an operator is a handler of \<open>Ui\<close>, guarded and audited like the others.  Of the command
  line client the parsing of arguments, the messages on standard error, the set-up of TLS and the truncation of the
  output file are left out.  Sockets, TLS and the process (\<open>main.rs\<close>, \<open>lib.rs\<close>), the HTTP
  transport of the notifier, the end-to-end test harness (\<open>src/e2e\<close>) and the message texts of pushes are input and
  output.
\<close>

section \<open>An example execution\<close>

definition ex_store :: store_secret_params where
  "ex_store = \<lparr>sp_secret_id = 1, sp_name = ''tok'', sp_description = [], sp_max_tier = 1,
     sp_injection_kind = ''bearer'', sp_injection_header = None, sp_injection_username = None,
     sp_seal = Some \<lparr>sl_ciphertext = ''c'', sl_nonce = ''n'', sl_wrapped_dek = ''w'', sl_kek_id = ''k1''\<rparr>\<rparr>"

definition ex_request :: new_access_request where
  "ex_request = \<lparr>nr_client_name = ''fa'', nr_secret_name = ''tok'', nr_mechanism = ''autofill'',
     nr_constraints = Malformed JNull, nr_expires_at = 5000000, nr_policy_not_after = None,
     nr_idem_client = ''fa'', nr_idem_key = ''r1'', nr_idem_mac = ''m''\<rparr>"

definition ex_params :: grant_params where
  "ex_params = \<lparr>gp_client_name = ''fa'', gp_secret_name = ''tok'', gp_secret_id = Some 1,
     gp_mechanism = ''autofill'', gp_constraints = Malformed JNull, gp_not_after = 9000000,
     gp_max_uses = Some 2, gp_passthrough = None\<rparr>"

definition ex_d1 :: db where
  "ex_d1 = snd (projr (create_secret_with_version 1 2 ex_store ''op'' empty_db))"

definition ex_d2 :: db where
  "ex_d2 = snd (projr (insert_access_request_with_id 2 10 20 ex_request None
     (Res_Approved ''policy:auto'' ex_params False) None ex_d1))"

definition ex_d3 :: db where
  "ex_d3 = snd (projr (begin_grant_use 3 20 (Some ''k1'') (Some 2) RELEASE_ATTEMPT 60 None ex_d2))"

definition ex_d4 :: db where
  "ex_d4 = snd (revoke_grant 4 20 ''op'' ex_d3)"

definition ex_secret1 :: secret_row where
  "ex_secret1 =
     \<lparr>sec_id = 1, sec_name = ''tok'', sec_description = [], sec_max_tier = 1, sec_injection_kind = ''bearer'',
     sec_injection_header = None, sec_injection_username = None, sec_current_version = 1, sec_enabled = True,
     sec_operator_vetted = True, sec_managed_by_config = False, sec_created_at = 1, sec_updated_at = 1\<rparr>"

definition ex_version1 :: secret_version_row where
  "ex_version1 =
     \<lparr>ver_id = 2, ver_secret_id = 1, ver_version = 1, ver_ciphertext = ''c'', ver_nonce = ''n'',
     ver_wrapped_dek = ''w'', ver_kek_id = ''k1'', ver_created_at = 1, ver_created_by_request = None\<rparr>"

definition ex_request1 :: access_request_row where
  "ex_request1 =
     \<lparr>ar_id = 10, ar_client_name = ''fa'', ar_secret_name = ''tok'', ar_mechanism = ''autofill'',
     ar_constraints = Malformed JNull, ar_context_ciphertext = None, ar_context_nonce = None, ar_context_wrapped_dek
     = None, ar_context_kek_id = None, ar_state = ''approved'', ar_policy_not_after = None, ar_deny_reason = None,
     ar_resolved_by = Some ''policy:auto'', ar_created_at = 2, ar_resolved_at = Some 2, ar_expires_at = 5000000,
     ar_push_delivered_at = None, ar_push_attempts = 0, ar_notify_only = False, ar_idem_client = ''fa'', ar_idem_key
     = ''r1'', ar_idem_mac = ''m''\<rparr>"

definition ex_grant1 :: grant_row where
  "ex_grant1 =
     \<lparr>gr_id = 20, gr_request_id = 10, gr_client_name = ''fa'', gr_secret_name = ''tok'', gr_mechanism =
     ''autofill'', gr_constraints = Malformed JNull, gr_not_after = 9000000, gr_max_uses = Some 2, gr_use_count = 0,
     gr_revoked = False, gr_passthrough_ciphertext = None, gr_passthrough_nonce = None, gr_passthrough_wrapped_dek =
     None, gr_passthrough_ephemeral = False, gr_created_at = 2\<rparr>"

definition ex_read1 :: grant_read_row where
  "ex_read1 =
     \<lparr>rd_grant_id = 20, rd_idem_key = ''k1'', rd_secret_version_id = Some 2, rd_passthrough = False,
     rd_first_read_at = 3\<rparr>"

definition ex_event1 :: audit_event where
  "ex_event1 =
     audit_default\<lparr>ae_kind := ''secret-created'', ae_secret_name := Some ''tok'', ae_actor := Some
     ''op''\<rparr>"

definition ex_event2 :: audit_event where
  "ex_event2 =
     audit_default\<lparr>ae_kind := ''request-created'', ae_request_id := Some 10, ae_client_name := Some ''fa'',
     ae_secret_name := Some ''tok'', ae_detail := Some (JObject [(''mechanism'', JString ''autofill'')])\<rparr>"

definition ex_event3 :: audit_event where
  "ex_event3 =
     audit_default\<lparr>ae_kind := ''request-approved'', ae_request_id := Some 10, ae_grant_id := Some 20,
     ae_client_name := Some ''fa'', ae_secret_name := Some ''tok'', ae_actor := Some ''policy:auto''\<rparr>"

definition ex_event4 :: audit_event where
  "ex_event4 =
     audit_default\<lparr>ae_kind := ''release-attempt'', ae_request_id := Some 10, ae_grant_id := Some 20,
     ae_client_name := Some ''fa'', ae_secret_name := Some ''tok'', ae_secret_version_id := Some 2\<rparr>"

definition ex_event5 :: audit_event where
  "ex_event5 =
     audit_default\<lparr>ae_kind := ''grant-revoked'', ae_request_id := Some 10, ae_grant_id := Some 20,
     ae_client_name := Some ''fa'', ae_secret_name := Some ''tok'', ae_actor := Some ''op''\<rparr>"

text \<open>Their values.\<close>

lemma ex_d1_eval [code]:
  "ex_d1 = empty_db\<lparr>db_secrets := [ex_secret1], db_versions := [ex_version1], db_audit := [(1, ex_event1)]\<rparr>"
  by code_simp

lemma ex_d2_eval [code]:
  "ex_d2 = ex_d1\<lparr>db_requests := [ex_request1], db_grants := [ex_grant1],
     db_audit := [(1, ex_event1), (2, ex_event2), (2, ex_event3)]\<rparr>"
  by code_simp

lemma ex_d3_eval [code]:
  "ex_d3 = ex_d2\<lparr>db_grants := [ex_grant1\<lparr>gr_use_count := 1\<rparr>], db_reads := [ex_read1],
     db_audit := [(1, ex_event1), (2, ex_event2), (2, ex_event3), (3, ex_event4)]\<rparr>"
  by code_simp

lemma ex_d4_eval [code]:
  "ex_d4 = ex_d3\<lparr>db_grants := [ex_grant1\<lparr>gr_use_count := 1, gr_revoked := True\<rparr>],
     db_audit := [(1, ex_event1), (2, ex_event2), (2, ex_event3), (3, ex_event4), (4, ex_event5)]\<rparr>"
  by code_simp

lemma projr_Inr: "\<not> isl x \<Longrightarrow> x = Inr (fst (projr x), snd (projr x))"
  by (cases x) auto

lemma ex_use_step: "store_step 60 3 ex_d2 ex_d3"
  unfolding ex_d3_def by (rule S_use, rule projr_Inr) (code_simp, simp add: use_kind_def)

lemma ex_run: "run 60 (1, ex_d1) (3, ex_d3)" "reach 60 (1, ex_d1)" "run 60 (2, ex_d2) (3, ex_d3)" "reach 60 (2, ex_d2)" "reach 60 (3, ex_d3)"
  "run 60 (3, ex_d3) (4, ex_d4)"
proof -
  have 1: "store_step 60 1 empty_db ex_d1"
    unfolding ex_d1_def by (rule S_create_version, rule projr_Inr) code_simp
  have 2: "store_step 60 2 ex_d1 ex_d2"
    unfolding ex_d2_def by (rule S_create, rule projr_Inr) code_simp
  note 3 = ex_use_step
  have 4: "store_step 60 4 ex_d3 ex_d4"
    unfolding ex_d4_def by (rule S_revoke) (rule prod.collapse [symmetric])
  have r1: "run 60 (0, empty_db) (1, ex_d1)"
    by (rule run_step [OF run_refl _ 1]) simp
  have r2: "run 60 (0, empty_db) (2, ex_d2)"
    by (rule run_step [OF r1 _ 2]) simp
  show r23: "run 60 (2, ex_d2) (3, ex_d3)"
    by (rule run_step [OF run_refl _ 3]) simp
  show "run 60 (1, ex_d1) (3, ex_d3)"
    by (rule run_step [OF run_step [OF run_refl _ 2] _ 3]) simp_all
  show "run 60 (3, ex_d3) (4, ex_d4)"
    by (rule run_step [OF run_refl _ 4]) simp
  show "reach 60 (1, ex_d1)" "reach 60 (2, ex_d2)"
    using r1 r2 by (auto simp: reach_def)
  have "run 60 (0, empty_db) (3, ex_d3)"
    by (rule run_step [OF r2 _ 3]) simp
  then show "reach 60 (3, ex_d3)"
    by (auto simp: reach_def)
qed

lemma ex_idle: "store_step w t ex_d3 ex_d3"
  by (rule S_claim [where rid = 77 and b = False]) code_simp

lemma ex_reach4: "reach 60 (4, ex_d4)"
proof -
  obtain t0 where r: "run 60 (t0, empty_db) (3, ex_d3)"
    using ex_run(5) by (auto simp: reach_def)
  have s: "store_step 60 4 ex_d3 ex_d4"
    unfolding ex_d4_def by (rule S_revoke) (rule prod.collapse [symmetric])
  have "run 60 (t0, empty_db) (4, ex_d4)"
    by (rule run_step [OF r _ s]) simp
  then show ?thesis by (auto simp: reach_def)
qed

lemma ex_reach_later: "reach 60 (3, ex_d2)"
proof -
  obtain t0 where r: "run 60 (t0, empty_db) (2, ex_d2)"
    using ex_run(4) by (auto simp: reach_def)
  have s: "store_step 60 3 ex_d2 ex_d2"
    by (rule S_claim [where rid = 77 and b = False]) code_simp
  have "run 60 (t0, empty_db) (3, ex_d2)"
    by (rule run_step [OF r _ s]) simp
  then show ?thesis by (auto simp: reach_def)
qed

section \<open>Properties\<close>

text \<open>C1: use accounting.  In every reachable database, every grant has been used at most as
  often as its cap allows, whatever the interleaving of calls, and its counter is the number of
  write-ahead audit rows that record a fresh use of it.\<close>

theorem grant_uses_bounded_and_audited:
  assumes "reach w (t, d)" and "g \<in> set (db_grants d)"
  shows "0 \<le> gr_use_count g \<and> (\<forall>m. gr_max_uses g = Some m \<longrightarrow> gr_use_count g \<le> max 0 m)
    \<and> gr_use_count g = int (uses_logged (gr_id g) d)"
  using reach_inv [OF assms(1)] assms(2)
  by (auto simp: ledger_inv_def uses_inv_def within_cap_def)

theorem grant_uses_bounded_and_audited_witness:
  "\<exists>g \<in> set (db_grants ex_d3). gr_id g = 20 \<and> gr_use_count g = 1 \<and> uses_logged 20 ex_d3 = 1"
proof -
  let ?g = "hd (db_grants ex_d3)"
  have g: "?g \<in> set (db_grants ex_d3)" "gr_id ?g = 20" "gr_use_count ?g = 1"
    by code_simp+
  from grant_uses_bounded_and_audited [OF ex_run(5) g(1)] g show ?thesis
    by (intro bexI [of _ ?g]) simp_all
qed

text \<open>C8: one grant per approved request.  In every reachable database a request has a grant
  exactly when its state is approved, and then exactly one.\<close>

theorem one_grant_per_approval:
  assumes "reach w (t, d)"
  shows "((\<exists>!g. g \<in> set (db_grants d) \<and> gr_request_id g = i) \<longleftrightarrow>
           (\<exists>r \<in> set (db_requests d). ar_id r = i \<and> ar_state r = ''approved''))
    \<and> ((\<exists>g. g \<in> set (db_grants d) \<and> gr_request_id g = i) \<longleftrightarrow>
           (\<exists>!g. g \<in> set (db_grants d) \<and> gr_request_id g = i))"
proof -
  have inv: "grants_inv d"
    using reach_inv [OF assms] by (simp add: ledger_inv_def)
  then have uniq: "(\<exists>!g. g \<in> set (db_grants d) \<and> gr_request_id g = i) \<longleftrightarrow> i \<in> gr_request_id ` set (db_grants d)"
    by (simp add: grants_inv_def unique_by_key)
  have "i \<in> gr_request_id ` set (db_grants d) \<longleftrightarrow> (\<exists>r \<in> set (db_requests d). ar_id r = i \<and> ar_state r = ''approved'')"
    using inv by (auto simp: grants_inv_def approved_ids_def)
  then show ?thesis
    unfolding uniq by auto
qed

theorem one_grant_per_approval_witness:
  "\<exists>!g. g \<in> set (db_grants ex_d3) \<and> gr_request_id g = 10"
proof -
  have "\<exists>r \<in> set (db_requests ex_d3). ar_id r = 10 \<and> ar_state r = ''approved''"
    by code_simp
  with one_grant_per_approval [OF ex_run(5), of 10] show ?thesis by blast
qed

text \<open>C9: a decision is final.  Once a request is approved, denied or expired, every later
  database still has it, under the same idempotency key, in the same state, with the same reason
  and the same decider.\<close>

theorem resolved_requests_final:
  assumes "reach w (t, d)" and "run w (t, d) (t', d')"
    and "r \<in> set (db_requests d)" and "ar_state r \<noteq> ''pending''"
  shows "\<exists>r'. get_request (ar_id r) d' = Some r' \<and> ar_state r' = ar_state r
    \<and> ar_deny_reason r' = ar_deny_reason r \<and> ar_resolved_by r' = ar_resolved_by r
    \<and> ar_idem_client r' = ar_idem_client r \<and> ar_idem_key r' = ar_idem_key r"
proof -
  have inv: "ledger_inv d" "keyed d"
    using reach_inv [OF assms(1)] by auto
  obtain r' where r': "r' \<in> set (db_requests d')" "req_le w t' r r'"
    using requests_evolve.run_evolves [OF assms(2), of r] inv assms(3) by auto
  have "ledger_inv d'"
    using run_inv [OF assms(2)] inv by simp
  then have "get_request (ar_id r) d' = Some r'"
    unfolding get_request_def using find_key_unique [of ar_id "db_requests d'" r'] r'
    by (simp add: ledger_inv_def requests_inv_def req_le_def)
  with r'(2) assms(4) show ?thesis
    by (auto simp: req_le_def req_key_def)
qed

theorem resolved_requests_final_witness:
  "\<exists>r'. get_request 10 ex_d3 = Some r' \<and> ar_state r' = ''approved''"
proof -
  let ?r = "hd (db_requests ex_d2)"
  have r: "?r \<in> set (db_requests ex_d2)" "ar_state ?r \<noteq> ''pending''" "ar_state ?r = ''approved''" "ar_id ?r = 10"
    by code_simp+
  from resolved_requests_final [OF ex_run(4,3) r(1,2)] r(3,4) show ?thesis by auto
qed

text \<open>C7: idempotent replay.  After a fresh use under an idempotency key, every later use of the
  grant with that key is not a fresh use and leaves the use counter alone.  On a live grant, while the
  replay window is open, it replays exactly the payload version pinned by the first use, even when the
  secret was rotated or the sweeper ran in between; from the end of the window on it answers \<open>Exhausted\<close>,
  even when the grant has uses left.  (\<open>docs/IMPLEMENTATION.md\<close>, Replay window enforced in SQL, also admits
  the normal first-use path then, and counts the last instant of the window in; the code does neither.)\<close>

theorem replay_returns_pinned_version:
  assumes "reach w (t, d)"
    and first: "begin_grant_use t gid (Some key) version kind w target d = Inr (FirstUse g1, d1)"
    and step: "use_kind kind"
    and later: "run w (t, d1) (t', d')"
    and use: "begin_grant_use t' gid (Some key) version' kind' w target' d' = Inr (u, d'')"
  shows "(\<nexists>g. u = FirstUse g) \<and> db_grants d'' = db_grants d'
    \<and> (\<forall>g. get_grant gid d' = Some g \<longrightarrow> live_grant t' g \<longrightarrow>
         u = (if t' < t + interval_secs w then Replay g version (gr_passthrough_ciphertext g1 \<noteq> None) else Exhausted))"
proof -
  have inv: "ledger_inv d" "keyed d"
    using reach_inv [OF assms(1)] by auto
  have ids: "distinct (map gr_id (db_grants d))"
    using inv by (simp add: ledger_inv_def grants_inv_def)
  have st: "store_step w t d d1"
    using first step by (rule S_use)
  have inv1: "ledger_inv d1" "keyed d1"
    using ledger_inv_step [OF st inv] store_step_keyed [OF st] inv by (auto simp: ledger_inv_def)
  let ?r = "\<lparr>rd_grant_id = gid, rd_idem_key = key, rd_secret_version_id = version,
      rd_passthrough = (gr_passthrough_ciphertext g1 \<noteq> None), rd_first_read_at = t\<rparr>"
  have "?r \<in> set (db_reads d1)"
    using ids first by (cases rule: begin_grant_use_cases) auto
  then obtain r where r: "r \<in> set (db_reads d')" "read_le w t' ?r r"
    using reads_evolve.run_evolves [OF later, of ?r] inv1 by auto
  have inv': "ledger_inv d'"
    using run_inv [OF later] inv1 by simp
  have key: "find_read gid key d' = Some r"
    using find_key_unique [of read_key "db_reads d'" r] inv' r
    by (auto simp: ledger_inv_def reads_inv_def find_read_key read_le_def read_key_def)
  have "distinct (map gr_id (db_grants d'))"
    using inv' by (simp add: ledger_inv_def grants_inv_def)
  from this use show ?thesis
  proof (cases rule: begin_grant_use_cases)
    case Nothing
    have "u = (if t' < t + interval_secs w then Replay g version (gr_passthrough_ciphertext g1 \<noteq> None) else Exhausted)"
      if "get_grant gid d' = Some g" "live_grant t' g" for g
      using use that key r(2) by (auto simp: begin_grant_use_def in_window_def read_le_def)
    with Nothing show ?thesis by auto
  next
    case (Again g k q)
    with key r(2) show ?thesis by (auto simp: read_le_def in_window_def)
  next
    case (First g)
    with key show ?thesis by simp
  qed
qed

theorem replay_returns_pinned_version_witness:
  "begin_grant_use 4 20 (Some ''k1'') (Some 99) RELEASE_ATTEMPT 60 None ex_d3 =
     Inr (Replay (hd (db_grants ex_d3)) (Some 2) False,
          snd (projr (begin_grant_use 4 20 (Some ''k1'') (Some 99) RELEASE_ATTEMPT 60 None ex_d3)))"
proof -
  let ?u = "begin_grant_use 4 20 (Some ''k1'') (Some 99) RELEASE_ATTEMPT 60 None ex_d3"
  have f: "begin_grant_use 3 20 (Some ''k1'') (Some 2) RELEASE_ATTEMPT 60 None ex_d2 =
      Inr (FirstUse (hd (db_grants ex_d3)), ex_d3)"
    by code_simp
  have u: "?u = Inr (fst (projr ?u), snd (projr ?u))"
    by (rule projr_Inr) code_simp
  have g: "get_grant 20 ex_d3 = Some (hd (db_grants ex_d3))" "live_grant 4 (hd (db_grants ex_d3))"
    "gr_passthrough_ciphertext (hd (db_grants ex_d3)) = None"
    by code_simp+
  have r: "run 60 (3, ex_d3) (4, ex_d3)"
    by (rule run_step [OF run_refl, of _ 4 60 ex_d3]) (simp_all add: ex_idle)
  have r2: "reach 60 (3, ex_d2)"
    by (rule ex_reach_later)
  from replay_returns_pinned_version [OF r2 f _ r u] g u show ?thesis
    by (auto simp: use_kind_def interval_secs_def)
qed

text \<open>C6: a grant never releases another secret under the same name.  If a grant without a
  payload of its own was backed by the stored row with id \<open>sid\<close> and is still live after any further
  execution, then the row its name now refers to is that same row: a deletion, or a deletion
  followed by a new deposit under the name, has revoked the grant.\<close>

theorem live_grant_keeps_its_secret:
  assumes "reach w (t, d)" and "run w (t, d) (t', d')"
    and "g \<in> set (db_grants d)" and "\<not> gr_passthrough_ephemeral g"
    and "get_secret_by_name (gr_secret_name g) d = Some s"
    and "g' \<in> set (db_grants d')" and "gr_id g' = gr_id g" and "live_grant t' g'"
  shows "\<exists>s'. get_secret_by_name (gr_secret_name g') d' = Some s' \<and> sec_id s' = sec_id s"
proof -
  have inv: "ledger_inv d" "keyed d"
    using reach_inv [OF assms(1)] by auto
  have id: "(sec_id s, gr_secret_name g) \<in> idents d"
    using find_Some_mem [OF assms(5) [unfolded get_secret_by_name_def]] by (force simp: idents_def)
  from run_incarnation [OF assms(2) inv assms(3,4) id assms(6,7,8)] obtain s' where
      s': "s' \<in> set (db_secrets d')" "sec_id s' = sec_id s" "sec_name s' = gr_secret_name g"
    by (auto simp: idents_def)
  have inv': "ledger_inv d'" "keyed d'"
    using run_inv [OF assms(2)] inv by auto
  obtain q where "q \<in> set (db_grants d')" "grant_le w t' g q"
    using grants_evolve.run_evolves [OF assms(2), of g] inv assms(3) by auto
  then have "gr_secret_name g' = gr_secret_name g"
    using same_grant [OF inv'(1) _ assms(6), of q] assms(7) by (auto simp: grant_le_def)
  with s' find_key_unique [of sec_name "db_secrets d'" s'] inv'(2) show ?thesis
    by (auto simp: get_secret_by_name_def keyed_def)
qed

theorem live_grant_keeps_its_secret_witness:
  "\<exists>s'. get_secret_by_name ''tok'' ex_d3 = Some s' \<and> sec_id s' = 1"
proof -
  let ?g = "hd (db_grants ex_d2)" and ?g' = "hd (db_grants ex_d3)" and ?s = "hd (db_secrets ex_d2)"
  have g: "?g \<in> set (db_grants ex_d2)" "\<not> gr_passthrough_ephemeral ?g"
    "get_secret_by_name (gr_secret_name ?g) ex_d2 = Some ?s" "?g' \<in> set (db_grants ex_d3)"
    "gr_id ?g' = gr_id ?g" "live_grant 3 ?g'" "sec_id ?s = 1" "gr_secret_name ?g' = ''tok''"
    by code_simp+
  from live_grant_keeps_its_secret [OF ex_run(4,3) g(1-6)] g(7,8) show ?thesis by simp
qed

text \<open>no live grant without its secret.  In every reachable database, a grant that is live and
  carries no payload of its own names a stored secret that exists.\<close>

theorem live_grants_are_backed:
  assumes "reach w (t, d)" and "g \<in> set (db_grants d)" and "live_grant t g"
    and "\<not> gr_passthrough_ephemeral g"
  shows "\<exists>s. get_secret_by_name (gr_secret_name g) d = Some s"
proof -
  obtain sid where "(sid, gr_secret_name g) \<in> idents d"
    using reach_backed [OF assms(1)] assms(2-4) by (auto simp: backed_inv_def)
  then have "\<exists>s \<in> set (db_secrets d). sec_name s = gr_secret_name g"
    by (force simp: idents_def)
  then show ?thesis
    unfolding get_secret_by_name_def by (metis (mono_tags, lifting) find_None_iff not_None_eq)
qed

theorem live_grants_are_backed_witness:
  "\<exists>s. get_secret_by_name ''tok'' ex_d3 = Some s"
proof -
  let ?g = "hd (db_grants ex_d3)"
  have g: "?g \<in> set (db_grants ex_d3)" "live_grant 3 ?g" "\<not> gr_passthrough_ephemeral ?g"
    "gr_secret_name ?g = ''tok''"
    by code_simp+
  from live_grants_are_backed [OF ex_run(5) g(1-3)] g(4) show ?thesis by simp
qed

text \<open>C10: revocation is permanent and complete.  Once a grant is revoked, every later use of it,
  fresh or replayed, at any time, is refused and changes nothing.\<close>

theorem revoked_grant_never_releases:
  assumes "reach w (t, d)" and "run w (t, d) (t', d')"
    and "g \<in> set (db_grants d)" and "gr_revoked g"
  shows "begin_grant_use now (gr_id g) key version kind w' target d' = Inr (ExpiredOrRevoked, d')"
proof -
  have inv: "ledger_inv d" "keyed d"
    using reach_inv [OF assms(1)] by auto
  obtain g' where g': "g' \<in> set (db_grants d')" "grant_le w t' g g'"
    using grants_evolve.run_evolves [OF assms(2), of g] inv assms(3) by auto
  have "ledger_inv d'"
    using run_inv [OF assms(2)] inv by simp
  then have "get_grant (gr_id g) d' = Some g'"
    unfolding get_grant_def using find_key_unique [of gr_id "db_grants d'" g'] g'
    by (simp add: ledger_inv_def grants_inv_def grant_le_def)
  with g'(2) assms(4) show ?thesis
    by (simp add: begin_grant_use_def live_grant_def grant_le_def)
qed

theorem revoked_grant_never_releases_witness:
  "begin_grant_use 5 20 (Some ''k1'') None RELEASE_ATTEMPT 60 None ex_d4 = Inr (ExpiredOrRevoked, ex_d4)"
proof -
  let ?g = "hd (db_grants ex_d4)"
  have g: "?g \<in> set (db_grants ex_d4)" "gr_revoked ?g" "gr_id ?g = 20"
    by code_simp+
  have r: "reach 60 (4, ex_d4)"
    by (rule ex_reach4)
  from revoked_grant_never_releases [OF r run_refl g(1,2)] g(3) show ?thesis by simp
qed

text \<open>the audit log is append-only: whatever the store does, the log of a database is a
  prefix of the log of every later one.\<close>

theorem audit_append_only:
  assumes "reach w (t, d)" and "run w (t, d) (t', d')"
  shows "\<exists>evs. db_audit d' = db_audit d @ evs"
  using run_audit_prefix [OF assms(2)] reach_inv [OF assms(1)] by blast

theorem audit_append_only_witness:
  "\<exists>evs. db_audit ex_d3 = db_audit ex_d2 @ evs"
  by (rule audit_append_only [OF ex_run(4,3)])

text \<open>C11: refinement.  Every transaction of the store, in every reachable database, is a step of
  the abstract life cycle of requests and grants.\<close>

theorem store_refines_ledger:
  assumes "reach w (t, d)" and "store_step w now d d'"
  shows "ledger_step w now d d'"
  using reach_inv [OF assms(1)] assms(2) by (intro store_step_ledger) (auto simp: ledger_inv_def)

theorem store_refines_ledger_witness: "ledger_step 60 3 ex_d2 ex_d3"
  by (rule store_refines_ledger [OF ex_run(4) ex_use_step])

end
